(* ===== verification/Prelude.thy ===== *)
theory Prelude
  imports Main "HOL-Library.Word"
begin

unbundle bit_operations_syntax

text \<open>
  Shared vocabulary of the development: machine integers and byte strings as the Rust sources use
  them, the little-endian encoding of \<open>u16\<close>, fixed-size wire structures with the prefix view the
  packet types are parsed through, error values, and the lemma collections the component proofs
  draw on.
\<close>

section \<open>Machine integers and byte strings\<close>

type_synonym u8 = "8 word"
type_synonym u16 = "16 word"
type_synonym bytes = "u8 list"

named_theorems wire_simps
  \<open>encodings and decodings of fixed-size wire structures\<close>
named_theorems model_defs
  \<open>definitions that a case analysis of an operation unfolds\<close>

text \<open>\<^verbatim>\<open>u16::to_le_bytes\<close> and \<^verbatim>\<open>u16::from_le_bytes\<close>.\<close>

definition to_le_bytes :: "u16 \<Rightarrow> bytes" where
  "to_le_bytes w = [ucast w, ucast (drop_bit 8 w)]"

definition from_le_bytes :: "u8 \<Rightarrow> u8 \<Rightarrow> u16" where
  "from_le_bytes lo hi = ucast lo OR push_bit 8 (ucast hi)"

lemma length_to_le_bytes [simp]: "length (to_le_bytes w) = 2"
  by (simp add: to_le_bytes_def)

lemma from_to_le_bytes [simp]:
  "from_le_bytes (ucast w) (ucast (drop_bit 8 w)) = w"
  unfolding from_le_bytes_def
  by (rule bit_word_eqI) (auto simp: bit_simps)

lemma ucast_from_le_bytes [simp]:
  "ucast (from_le_bytes lo hi) = lo"
  "ucast (drop_bit 8 (from_le_bytes lo hi)) = hi"
  unfolding from_le_bytes_def
  by (rule bit_word_eqI; auto simp: bit_simps dest: bit_imp_le_length)+

lemma to_from_le_bytes [simp]: "to_le_bytes (from_le_bytes lo hi) = [lo, hi]"
  by (simp add: to_le_bytes_def)

lemma to_le_bytes_inject [simp]: "to_le_bytes v = to_le_bytes w \<longleftrightarrow> v = w"
  by (metis from_to_le_bytes list.inject to_le_bytes_def)


text \<open>
  \<^verbatim>\<open>usize as u16\<close> and \<^verbatim>\<open>usize as u8\<close> are \<open>of_nat\<close>: they keep the low bits. What a length field
  reads back as is therefore the length modulo the field's range.
\<close>

lemma unat_of_nat_u16: "unat (of_nat n :: u16) = n mod 65536"
  by (simp add: unat_of_nat)

lemma unat_of_nat_u8: "unat (of_nat n :: u8) = n mod 256"
  by (simp add: unat_of_nat)

lemma unat_u16_less [simp]: "unat (w :: u16) < 65536"
  using unsigned_less [of w] by simp

lemma unat_u8_less [simp]: "unat (b :: u8) < 256"
  using unsigned_less [of b] by simp

lemma unat_u8_le [simp]: "unat (b :: u8) \<le> 255"
  using unat_u8_less [of b] by linarith

lemma unat_u16_le [simp]: "unat (w :: u16) \<le> 65535"
  using unat_u16_less [of w] by linarith

lemma unat_u16_plus_1: "w < 0xFFFF \<Longrightarrow> unat (w + 1 :: u16) = Suc (unat w)"
  by (simp add: word_less_nat_alt unat_word_ariths)

lemma u16_le_max [simp]: "(w :: u16) \<le> 0xFFFF"
  using unat_u16_le [of w] by (simp add: word_le_nat_alt)

lemma u16_succ_le: "h \<noteq> 0xFFFF \<Longrightarrow> (h :: u16) + 1 \<le> k \<longleftrightarrow> h < k"
proof -
  assume "h \<noteq> 0xFFFF"
  then have "h < 0xFFFF" using u16_le_max [of h] by (simp add: order_less_le del: u16_le_max)
  from unat_u16_plus_1 [OF this] show ?thesis
    by (simp add: word_le_nat_alt [of "h + 1"] word_less_nat_alt Suc_le_eq)
qed

text \<open>Setting and clearing one bit of an octet.\<close>

lemma control_bits:
  fixes t :: u8
  assumes "\<not> bit t k" "k < 8"
  shows "(t OR 2 ^ k) AND NOT (2 ^ k) = t" "t AND NOT (2 ^ k) = t"
    "drop_bit k (t OR 2 ^ k) AND 1 = 1" "drop_bit k t AND 1 = 0"
  using assms by (auto simp: bit_simps intro!: bit_word_eqI)

lemma ex_map_upd [simp]: "(\<exists>x. f(k \<mapsto> y) = f(k \<mapsto> x) \<and> P x) \<longleftrightarrow> P y"
  by (metis map_upd_eqD1)

section \<open>Error values\<close>

text \<open>
  \<^verbatim>\<open>SimbleError\<close> (\<open>src/src/types/error.rs\<close>). The payload of every textual variant is a message for
  humans that no caller inspects; a message is kept as a string.
\<close>

datatype SimbleError =
    PacketParseError string
  | InvalidParameter string
  | AttError u8
  | SmpError string
  | DeviceError string
  | DeviceNotFound string
  | Gatt string
  | Transport string
  | IoError string

type_synonym 'a result = "SimbleError + 'a"

section \<open>Fixed-size wire structures\<close>

text \<open>
  The packet headers are \<^verbatim>\<open>#[repr(C)]\<close> structures whose fields are single bytes, byte arrays and
  little-endian \<^verbatim>\<open>U16\<close>s, all of alignment 1, so the language lays their fields out one after the
  other without padding. A structure is modelled by its size, by \<open>enc\<close> (the bytes \<^verbatim>\<open>as_bytes\<close>
  views) and by \<open>dec\<close> (the structure viewed at exactly that many bytes). \<^verbatim>\<open>Ref::from_prefix\<close> views
  the first \<open>sz\<close> bytes of a slice and hands back the rest; it fails exactly on a slice that is
  too short.
\<close>

definition from_prefix :: "nat \<Rightarrow> (bytes \<Rightarrow> 'a) \<Rightarrow> bytes \<Rightarrow> ('a \<times> bytes) option" where
  "from_prefix sz dec bs =
     (if length bs < sz then None else Some (dec (take sz bs), drop sz bs))"

locale wire_layout =
  fixes sz :: nat
    and valid :: "'a \<Rightarrow> bool"
    and enc :: "'a \<Rightarrow> bytes"
    and dec :: "bytes \<Rightarrow> 'a"
  assumes length_enc: "valid x \<Longrightarrow> length (enc x) = sz"
    and dec_enc: "valid x \<Longrightarrow> dec (enc x) = x"
    and valid_dec: "length bs = sz \<Longrightarrow> valid (dec bs)"
    and enc_dec: "length bs = sz \<Longrightarrow> enc (dec bs) = bs"
begin

lemma prefix_enc: "valid x \<Longrightarrow> from_prefix sz dec (enc x @ rest) = Some (x, rest)"
  by (simp add: from_prefix_def length_enc dec_enc)

lemma prefix_enc_exact: "valid x \<Longrightarrow> from_prefix sz dec (enc x) = Some (x, [])"
  using prefix_enc [of x "[]"] by simp

lemma prefix_SomeD:
  assumes "from_prefix sz dec bs = Some (x, rest)"
  shows "valid x \<and> bs = enc x @ rest"
proof -
  from assms have "sz \<le> length bs" and "x = dec (take sz bs)" and "rest = drop sz bs"
    by (auto simp: from_prefix_def split: if_splits)
  then show ?thesis by (simp add: enc_dec valid_dec)
qed

lemma prefix_Some_iff:
  "from_prefix sz dec bs = Some (x, rest) \<longleftrightarrow> valid x \<and> bs = enc x @ rest"
  using prefix_SomeD prefix_enc by blast

lemma prefix_None_iff: "from_prefix sz dec bs = None \<longleftrightarrow> length bs < sz"
  by (simp add: from_prefix_def)

lemma enc_inject: "valid x \<Longrightarrow> valid y \<Longrightarrow> enc x = enc y \<longleftrightarrow> x = y"
  by (metis dec_enc)

end

text \<open>
  A list of known length is spelled out element by element: with it, a \<open>dec\<close> that reads bytes by
  index evaluates.
\<close>

lemma length_eq_numeral_conv:
  "length xs = numeral k \<longleftrightarrow> (\<exists>y ys. xs = y # ys \<and> length ys = pred_numeral k)"
  by (simp add: numeral_eq_Suc length_Suc_conv)

lemma length_1_conv: "length xs = Suc 0 \<longleftrightarrow> (\<exists>y. xs = [y])"
  by (simp add: length_Suc_conv)

lemmas list_of_length = length_eq_numeral_conv length_Suc_conv

lemma concat_pairs_nth:
  assumes "i < length xs" "\<And>x. length (f x) = k"
  shows "take k (drop (i * k) (concat (map f xs))) = f (xs ! i)"
  using assms(1)
proof (induction xs arbitrary: i)
  case Nil
  then show ?case by simp
next
  case (Cons x xs)
  then show ?case by (cases i) (auto simp: assms(2))
qed

end
