(* ===== verification/L2cap_Frame.thy ===== *)
theory L2cap_Frame
  imports Prelude
begin

text \<open>
  HCI ACL and L2CAP frame headers (\<open>src/src/packets/l2cap_frame.rs\<close>): their wire layouts, their
  length-checked parsers and the L2CAP serializer.
\<close>

section \<open>Fixed channel identifiers\<close>

abbreviation (input) cid_NULL :: u16 where "cid_NULL \<equiv> 0x0000"
abbreviation (input) cid_BR_SIGNALING :: u16 where "cid_BR_SIGNALING \<equiv> 0x0001"
abbreviation (input) cid_CONNECTIONLESS :: u16 where "cid_CONNECTIONLESS \<equiv> 0x0002"
abbreviation (input) cid_ATT :: u16 where "cid_ATT \<equiv> 0x0004"
abbreviation (input) cid_LE_SIGNALING :: u16 where "cid_LE_SIGNALING \<equiv> 0x0005"
abbreviation (input) cid_SMP :: u16 where "cid_SMP \<equiv> 0x0006"
abbreviation (input) cid_DYNAMIC_START :: u16 where "cid_DYNAMIC_START \<equiv> 0x0040"

section \<open>HCI ACL data packets\<close>

datatype AclPacketBoundary =
    FirstNonFlushable
  | Continuing
  | FirstAutoFlushable
  | CompletePdu

fun AclPacketBoundary_as_u8 :: "AclPacketBoundary \<Rightarrow> u8" where
  "AclPacketBoundary_as_u8 FirstNonFlushable = 0"
| "AclPacketBoundary_as_u8 Continuing = 1"
| "AclPacketBoundary_as_u8 FirstAutoFlushable = 2"
| "AclPacketBoundary_as_u8 CompletePdu = 3"

record HciAclHeader =
  handle_and_flags :: u16
  data_length :: u16

definition HciAclHeader_as_bytes :: "HciAclHeader \<Rightarrow> bytes" where
  "HciAclHeader_as_bytes h = to_le_bytes (handle_and_flags h) @ to_le_bytes (data_length h)"

definition HciAclHeader_of_bytes :: "bytes \<Rightarrow> HciAclHeader" where
  "HciAclHeader_of_bytes bs =
     \<lparr>handle_and_flags = from_le_bytes (bs ! 0) (bs ! 1),
      data_length = from_le_bytes (bs ! 2) (bs ! 3)\<rparr>"

definition HciAclHeader_new :: "u16 \<Rightarrow> AclPacketBoundary \<Rightarrow> u16 \<Rightarrow> HciAclHeader" where
  "HciAclHeader_new handle pb data_len =
     \<lparr>handle_and_flags =
        (handle AND 0x0FFF) OR push_bit 12 (ucast (AclPacketBoundary_as_u8 pb) AND 0x03),
      data_length = data_len\<rparr>"

definition HciAclHeader_handle :: "HciAclHeader \<Rightarrow> u16" where
  "HciAclHeader_handle h = handle_and_flags h AND 0x0FFF"

definition HciAclHeader_packet_boundary :: "HciAclHeader \<Rightarrow> AclPacketBoundary" where
  "HciAclHeader_packet_boundary h =
     (let pb = drop_bit 12 (handle_and_flags h) AND 0x03 in
      if pb = 0 then FirstNonFlushable
      else if pb = 1 then Continuing
      else if pb = 2 then FirstAutoFlushable
      else CompletePdu)"

definition HciAclHeader_is_first_fragment :: "HciAclHeader \<Rightarrow> bool" where
  "HciAclHeader_is_first_fragment h =
     (HciAclHeader_packet_boundary h = FirstNonFlushable
      \<or> HciAclHeader_packet_boundary h = FirstAutoFlushable)"

definition HciAclHeader_parse :: "bytes \<Rightarrow> (HciAclHeader \<times> bytes) option" where
  "HciAclHeader_parse bs =
     (case from_prefix 4 HciAclHeader_of_bytes bs of
        None \<Rightarrow> None
      | Some (h, payload) \<Rightarrow>
          (let expected_len = unat (data_length h) in
           if length payload < expected_len then None
           else Some (h, take expected_len payload)))"

interpretation acl_layout: wire_layout 4 "\<lambda>_. True" HciAclHeader_as_bytes HciAclHeader_of_bytes
  by unfold_locales
    (auto simp: HciAclHeader_as_bytes_def HciAclHeader_of_bytes_def to_le_bytes_def list_of_length)

section \<open>L2CAP basic frames\<close>

record L2capHeader =
  l2cap_length :: u16
  l2cap_cid :: u16

definition L2capHeader_as_bytes :: "L2capHeader \<Rightarrow> bytes" where
  "L2capHeader_as_bytes h = to_le_bytes (l2cap_length h) @ to_le_bytes (l2cap_cid h)"

definition L2capHeader_of_bytes :: "bytes \<Rightarrow> L2capHeader" where
  "L2capHeader_of_bytes bs =
     \<lparr>l2cap_length = from_le_bytes (bs ! 0) (bs ! 1),
      l2cap_cid = from_le_bytes (bs ! 2) (bs ! 3)\<rparr>"

definition L2capHeader_parse :: "bytes \<Rightarrow> (L2capHeader \<times> bytes) option" where
  "L2capHeader_parse bs =
     (case from_prefix 4 L2capHeader_of_bytes bs of
        None \<Rightarrow> None
      | Some (h, payload) \<Rightarrow>
          (let expected_len = unat (l2cap_length h) in
           if length payload < expected_len then None
           else Some (h, take expected_len payload)))"

definition L2capHeader_new :: "u16 \<Rightarrow> u16 \<Rightarrow> L2capHeader" where
  "L2capHeader_new len cid = \<lparr>l2cap_length = len, l2cap_cid = cid\<rparr>"

definition L2capHeader_serialize :: "u16 \<Rightarrow> bytes \<Rightarrow> bytes" where
  "L2capHeader_serialize cid payload =
     L2capHeader_as_bytes (L2capHeader_new (of_nat (length payload)) cid) @ payload"

interpretation l2cap_layout: wire_layout 4 "\<lambda>_. True" L2capHeader_as_bytes L2capHeader_of_bytes
  by unfold_locales
    (auto simp: L2capHeader_as_bytes_def L2capHeader_of_bytes_def to_le_bytes_def list_of_length)

section \<open>Round trips and bounds\<close>

lemma l2cap_parse_prefix:
  "length p = unat (l2cap_length h)
   \<Longrightarrow> L2capHeader_parse (L2capHeader_as_bytes h @ p @ rest) = Some (h, p)"
  by (simp add: L2capHeader_parse_def l2cap_layout.prefix_enc)

text \<open>An L2CAP frame of a payload that fits the 16-bit length field parses back to its channel
  identifier and exactly its payload, whatever bytes follow it in the buffer.\<close>
theorem L2cap_frame_round_trip:
  assumes "length payload < 65536"
  shows "L2capHeader_parse (L2capHeader_serialize cid payload @ rest)
    = Some (\<lparr>l2cap_length = of_nat (length payload), l2cap_cid = cid\<rparr>, payload)"
  using assms l2cap_parse_prefix [of payload "L2capHeader_new (of_nat (length payload)) cid" rest]
  by (simp add: L2capHeader_serialize_def L2capHeader_new_def unat_of_nat_u16)

theorem L2cap_frame_round_trip_witness:
  "L2capHeader_parse (L2capHeader_serialize cid_ATT [0x08, 0x00, 0x01] @ [0xDE, 0xAD])
    = Some (\<lparr>l2cap_length = 3, l2cap_cid = 4\<rparr>, [0x08, 0x00, 0x01])"
  using L2cap_frame_round_trip [of "[0x08, 0x00, 0x01]" cid_ATT "[0xDE, 0xAD]"] by simp

text \<open>
  What the parser accepts is exactly a header followed by at least the announced number of bytes,
  and it never hands out a byte beyond them.
\<close>

lemma L2capHeader_parse_Some_iff:
  "L2capHeader_parse bs = Some (h, p) \<longleftrightarrow>
     (\<exists>rest. bs = L2capHeader_as_bytes h @ p @ rest \<and> length p = unat (l2cap_length h))"
proof
  assume "L2capHeader_parse bs = Some (h, p)"
  then obtain payload where pre: "from_prefix 4 L2capHeader_of_bytes bs = Some (h, payload)"
    and le: "unat (l2cap_length h) \<le> length payload"
    and p: "p = take (unat (l2cap_length h)) payload"
    by (auto simp: L2capHeader_parse_def Let_def not_less split: option.splits if_splits)
  from pre have "bs = L2capHeader_as_bytes h @ payload"
    using l2cap_layout.prefix_SomeD by blast
  then have "bs = L2capHeader_as_bytes h @ p @ drop (unat (l2cap_length h)) payload"
    by (simp add: p)
  moreover from le p have "length p = unat (l2cap_length h)" by simp
  ultimately show "\<exists>rest. bs = L2capHeader_as_bytes h @ p @ rest \<and> length p = unat (l2cap_length h)"
    by blast
qed (auto simp: l2cap_parse_prefix)

text \<open>
  The length field keeps the low 16 bits of the payload length: a payload of 65536 bytes or more
  is cut by the receiver, without an error on either side.
\<close>

lemma L2cap_oversized_frame_cut:
  "L2capHeader_parse (L2capHeader_serialize cid payload) =
     Some (\<lparr>l2cap_length = of_nat (length payload), l2cap_cid = cid\<rparr>,
           take (length payload mod 65536) payload)"
  by (simp add: L2capHeader_parse_def L2capHeader_serialize_def L2capHeader_new_def
      l2cap_layout.prefix_enc unat_of_nat_u16 Let_def not_less)

text \<open>The flags word of an ACL header carries the 12-bit handle and the packet-boundary flag
  without interference: reading them back gives the flag and the handle's low 12 bits, for every
  handle, and only the two first-fragment flags read as a first fragment.\<close>
theorem HciAclHeader_fields_round_trip:
  "HciAclHeader_handle (HciAclHeader_new handle pb n) = handle AND 0x0FFF
   \<and> HciAclHeader_packet_boundary (HciAclHeader_new handle pb n) = pb
   \<and> HciAclHeader_is_first_fragment (HciAclHeader_new handle pb n)
       = (pb = FirstNonFlushable \<or> pb = FirstAutoFlushable)"
proof -
  have masks: "(0x0FFF :: u16) = mask 12" "(0x03 :: u16) = mask 2"
    by (simp_all add: mask_eq_exp_minus_1)
  have h: "((handle AND 0x0FFF) OR push_bit 12 (x AND 0x03)) AND 0x0FFF = handle AND 0x0FFF"
    for x :: u16
    unfolding masks by (rule bit_word_eqI) (auto simp: bit_simps)
  have f: "drop_bit 12 ((handle AND 0x0FFF) OR push_bit 12 (x AND 0x03)) AND 0x03 = x AND 0x03"
    for x :: u16
    unfolding masks by (rule bit_word_eqI) (auto simp: bit_simps)
  have pb: "HciAclHeader_packet_boundary (HciAclHeader_new handle pb n) = pb"
    by (cases pb) (simp_all add: HciAclHeader_packet_boundary_def HciAclHeader_new_def f
        del: ucast_0 ucast_1)
  moreover have "HciAclHeader_handle (HciAclHeader_new handle pb n) = handle AND 0x0FFF"
    unfolding HciAclHeader_handle_def HciAclHeader_new_def HciAclHeader.simps by (rule h)
  ultimately show ?thesis
    by (simp add: HciAclHeader_is_first_fragment_def)
qed

end
