(* ===== verification/Acl_Reassembler.thy ===== *)
theory Acl_Reassembler
  imports L2cap_Frame
begin

text \<open>
  Reassembly of L2CAP frames from ACL fragments (\<open>src/src/l2cap/reassembler.rs\<close>). The state maps a
  connection handle to the expected total length and the bytes gathered so far; an operation
  returns its outcome and the new state.
\<close>

section \<open>State and operations\<close>

record AclReassembler =
  buffers :: "u16 \<rightharpoonup> nat \<times> bytes"

definition AclReassembler_new :: AclReassembler where
  "AclReassembler_new = \<lparr>buffers = Map.empty\<rparr>"

definition push_fragment ::
  "AclReassembler \<Rightarrow> u16 \<Rightarrow> bool \<Rightarrow> bytes \<Rightarrow> bytes option result \<times> AclReassembler" where
  "push_fragment r handle is_first fragment =
     (if is_first then
        (if length fragment < 4 then
           (Inl (PacketParseError ''First ACL fragment too short to contain L2CAP header''), r)
         else
           (case buffers r handle of
              Some _ \<Rightarrow>
                (Inl (PacketParseError ''New L2CAP frame began while bytes were still pending''),
                 r\<lparr>buffers := (buffers r)(handle := None)\<rparr>)
            | None \<Rightarrow>
                (let len = unat (from_le_bytes (fragment ! 0) (fragment ! 1));
                     expected_total_len = 4 + len in
                 if expected_total_len \<le> length fragment then
                   (Inr (Some (take expected_total_len fragment)),
                    r\<lparr>buffers := (buffers r)(handle := None)\<rparr>)
                 else
                   (Inr None,
                    r\<lparr>buffers := (buffers r)(handle \<mapsto> (expected_total_len, fragment))\<rparr>))))
      else
        (case buffers r handle of
           None \<Rightarrow>
             (Inl (PacketParseError ''Received continuation fragment without first fragment''), r)
         | Some (expected_total_len, buf) \<Rightarrow>
             (let buf' = buf @ fragment in
              if expected_total_len \<le> length buf' then
                (Inr (Some (take expected_total_len buf')),
                 r\<lparr>buffers := (buffers r)(handle := None)\<rparr>)
              else
                (Inr None, r\<lparr>buffers := (buffers r)(handle \<mapsto> (expected_total_len, buf'))\<rparr>))))"

definition on_disconnected_handle :: "AclReassembler \<Rightarrow> u16 \<Rightarrow> AclReassembler" where
  "on_disconnected_handle r handle = r\<lparr>buffers := (buffers r)(handle := None)\<rparr>"

section \<open>Invariant\<close>

text \<open>
  A pending buffer holds at least an L2CAP header, expects what the header's length field says and
  is still incomplete.
\<close>

definition pending_ok :: "nat \<times> bytes \<Rightarrow> bool" where
  "pending_ok p =
     (case p of (expected, buf) \<Rightarrow>
        4 \<le> length buf \<and> length buf < expected
        \<and> expected = 4 + unat (from_le_bytes (buf ! 0) (buf ! 1)))"

definition reassembler_inv :: "AclReassembler \<Rightarrow> bool" where
  "reassembler_inv r = (\<forall>h p. buffers r h = Some p \<longrightarrow> pending_ok p)"

lemma reassembler_inv_new: "reassembler_inv AclReassembler_new"
  by (simp add: reassembler_inv_def AclReassembler_new_def)

lemma reassembler_inv_upd:
  "reassembler_inv r \<Longrightarrow> (\<And>p. v = Some p \<Longrightarrow> pending_ok p)
   \<Longrightarrow> reassembler_inv (r\<lparr>buffers := (buffers r)(h := v)\<rparr>)"
  by (auto simp: reassembler_inv_def)

lemma reassembler_inv_on_disconnected:
  "reassembler_inv r \<Longrightarrow> reassembler_inv (on_disconnected_handle r h)"
  unfolding on_disconnected_handle_def by (rule reassembler_inv_upd) auto

lemma pending_ok_append:
  "pending_ok (n, buf) \<Longrightarrow> length (buf @ x) < n \<Longrightarrow> pending_ok (n, buf @ x)"
  by (auto simp: pending_ok_def nth_append)

lemma push_fragment_inv:
  assumes "reassembler_inv r"
  shows "reassembler_inv (snd (push_fragment r handle is_first fragment))"
proof (cases "buffers r handle")
  case None
  have new: "pending_ok (4 + unat (from_le_bytes (fragment ! 0) (fragment ! 1)), fragment)"
    if "\<not> length fragment < 4"
      "\<not> 4 + unat (from_le_bytes (fragment ! 0) (fragment ! 1)) \<le> length fragment"
    using that by (simp add: pending_ok_def)
  with None assms show ?thesis
    by (auto simp: push_fragment_def Let_def intro!: reassembler_inv_upd)
next
  case (Some p)
  with assms have "pending_ok p" unfolding reassembler_inv_def by blast
  with Some assms show ?thesis
    by (cases p) (auto simp: push_fragment_def Let_def intro!: reassembler_inv_upd pending_ok_append)
qed

text \<open>Every fragment, on every path including the error paths, leaves the reassembler with
  well-formed incomplete buffers only: a frame is handed out as soon as its last announced byte is
  there and never stays in the table.\<close>
theorem push_fragment_invariant:
  assumes "reassembler_inv r"
  shows "reassembler_inv (snd (push_fragment r handle is_first fragment))"
  using assms by (rule push_fragment_inv)

theorem push_fragment_invariant_witness:
  "reassembler_inv (snd (push_fragment AclReassembler_new 1 True [3, 0, 4, 0, 8]))"
  by (rule push_fragment_invariant) (rule reassembler_inv_new)


section \<open>Interleaved connections\<close>

text \<open>Feeding a sequence of fragments, each for some connection; outcomes are tagged by handle.\<close>

fun feed :: "AclReassembler \<Rightarrow> (u16 \<times> bool \<times> bytes) list
    \<Rightarrow> (u16 \<times> bytes option result) list \<times> AclReassembler" where
  "feed r [] = ([], r)"
| "feed r ((h, is_first, fragment) # xs) =
     (let (out, r') = push_fragment r h is_first fragment;
          (outs, r'') = feed r' xs
      in ((h, out) # outs, r''))"

definition on_handle :: "u16 \<Rightarrow> (u16 \<times> 'a) list \<Rightarrow> (u16 \<times> 'a) list" where
  "on_handle h xs = filter (\<lambda>x. fst x = h) xs"

lemma on_handle_simps [simp]:
  "on_handle h [] = []"
  "on_handle h ((h', x) # xs) = (if h' = h then (h', x) # on_handle h xs else on_handle h xs)"
  by (simp_all add: on_handle_def)

lemma push_fragment_frame:
  "h' \<noteq> h \<Longrightarrow> buffers (snd (push_fragment r h' is_first x)) h = buffers r h"
  by (auto simp: push_fragment_def Let_def split: option.splits)

lemma push_fragment_local:
  assumes "buffers r h = buffers r' h"
  shows "fst (push_fragment r h is_first x) = fst (push_fragment r' h is_first x)"
    and "buffers (snd (push_fragment r h is_first x)) h = buffers (snd (push_fragment r' h is_first x)) h"
  using assms by (auto simp: push_fragment_def Let_def split: option.splits)

lemma feed_projection:
  "buffers r h = buffers r' h \<Longrightarrow>
     on_handle h (fst (feed r xs)) = fst (feed r' (on_handle h xs))
     \<and> buffers (snd (feed r xs)) h = buffers (snd (feed r' (on_handle h xs))) h"
proof (induction xs arbitrary: r r')
  case Nil
  then show ?case by simp
next
  case (Cons y ys)
  obtain g is_first x where y: "y = (g, is_first, x)" by (cases y)
  show ?case
  proof (cases "g = h")
    case True
    with push_fragment_local [OF Cons.prems, of is_first x] Cons.IH y show ?thesis
      by (auto simp: case_prod_beta)
  next
    case False
    then have "buffers (snd (push_fragment r g is_first x)) h = buffers r' h"
      using Cons.prems by (simp add: push_fragment_frame)
    from Cons.IH [OF this] False y show ?thesis by (simp add: case_prod_beta)
  qed
qed

lemma feed_continuations:
  assumes "fs \<noteq> []" "buffers r h = Some (n, buf)"
    and "length (buf @ concat (butlast fs)) < n" "length (buf @ concat fs) = n"
  shows "map snd (fst (feed r (map (\<lambda>x. (h, False, x)) fs)))
           = replicate (length fs - 1) (Inr None) @ [Inr (Some (buf @ concat fs))]
         \<and> buffers (snd (feed r (map (\<lambda>x. (h, False, x)) fs))) h = None"
  using assms
proof (induction fs arbitrary: r buf)
  case Nil
  then show ?case by simp
next
  case (Cons x fs)
  show ?case
  proof (cases "fs = []")
    case True
    with Cons.prems show ?thesis by (simp add: push_fragment_def)
  next
    case False
    with Cons.prems have short: "length (buf @ x) < n" by simp
    define r' where "r' = r\<lparr>buffers := (buffers r)(h \<mapsto> (n, buf @ x))\<rparr>"
    from short Cons.prems(2) have step: "push_fragment r h False x = (Inr None, r')"
      by (simp add: push_fragment_def r'_def)
    have "buffers r' h = Some (n, buf @ x)" by (simp add: r'_def)
    from Cons.IH [OF False this] Cons.prems(3,4) False step show ?thesis
      by (cases fs) (auto simp: case_prod_beta)
  qed
qed

lemma feed_fragments:
  assumes "buffers r h = None" "4 \<le> length f"
    and frame: "concat (f # fs) = frame"
    and len: "length frame = 4 + unat (from_le_bytes (frame ! 0) (frame ! 1))"
    and last: "length (concat (butlast (f # fs))) < length frame"
  shows "map snd (fst (feed r ((h, True, f) # map (\<lambda>x. (h, False, x)) fs)))
           = replicate (length fs) (Inr None) @ [Inr (Some frame)]
         \<and> buffers (snd (feed r ((h, True, f) # map (\<lambda>x. (h, False, x)) fs))) h = None"
proof (cases fs)
  case Nil
  with assms show ?thesis by (auto simp: push_fragment_def)
next
  case (Cons y ys)
  then have ne: "fs \<noteq> []" by simp
  from assms(2) frame have hdr: "frame ! 0 = f ! 0" "frame ! 1 = f ! 1"
    by (auto simp: nth_append)
  define r' where "r' = r\<lparr>buffers := (buffers r)(h \<mapsto> (length frame, f))\<rparr>"
  have "length f < length frame" using last ne by simp
  then have step: "push_fragment r h True f = (Inr None, r')"
    using assms(1,2) len hdr by (simp add: push_fragment_def r'_def)
  have buf: "buffers r' h = Some (length frame, f)" by (simp add: r'_def)
  have "length (f @ concat (butlast fs)) < length frame" "length (f @ concat fs) = length frame"
    using last ne frame by auto
  from feed_continuations [OF ne buf this] step frame show ?thesis
    using Cons by (auto simp: case_prod_beta)
qed

lemma serialized_frame_length:
  assumes "length payload < 65536" and frame_def: "frame = L2capHeader_serialize cid payload"
  shows "length frame = 4 + unat (from_le_bytes (frame ! 0) (frame ! 1))"
  using assms
  by (simp add: frame_def L2capHeader_serialize_def L2capHeader_as_bytes_def L2capHeader_new_def
      to_le_bytes_def unat_of_nat_u16)

text \<open>C19: However a serialized L2CAP frame is cut into ACL fragments, and whatever fragments of other
  connections arrive in between, the reassembler answers the frame's connection with "not yet" for
  every fragment but the last and with exactly the frame for the last, and keeps nothing of it. The
  cut is any one that has the four header bytes in the first fragment and whose last fragment is
  needed.\<close>
theorem reassembly_correct:
  assumes "buffers r h = None" "length payload < 65536"
    and "concat (f # fs) = L2capHeader_serialize cid payload"
    and "4 \<le> length f" "length (concat (butlast (f # fs))) < 4 + length payload"
    and "on_handle h xs = (h, True, f) # map (\<lambda>x. (h, False, x)) fs"
  shows "map snd (on_handle h (fst (feed r xs)))
           = replicate (length fs) (Inr None) @ [Inr (Some (L2capHeader_serialize cid payload))]
         \<and> buffers (snd (feed r xs)) h = None"
proof -
  have "length (L2capHeader_serialize cid payload) = 4 + length payload"
    by (simp add: L2capHeader_serialize_def L2capHeader_as_bytes_def)
  with assms(5) have last: "length (concat (butlast (f # fs))) < length (L2capHeader_serialize cid payload)"
    by simp
  from feed_fragments [OF assms(1,4,3) serialized_frame_length [OF assms(2) refl] last]
    feed_projection [of r h r xs] assms(6)
  show ?thesis by simp
qed

theorem reassembly_correct_witness:
  "map snd (on_handle 1 (fst (feed AclReassembler_new
       [(1, True, [3, 0, 4, 0]), (2, True, [9, 0, 4, 0, 1]), (1, False, [8]), (1, False, [0, 1])])))
     = [Inr None, Inr None, Inr (Some (L2capHeader_serialize cid_ATT [8, 0, 1]))]"
  using reassembly_correct [of AclReassembler_new 1 "[8, 0, 1]" "[3, 0, 4, 0]" "[[8], [0, 1]]" cid_ATT
      "[(1, True, [3, 0, 4, 0]), (2, True, [9, 0, 4, 0, 1]), (1, False, [8]), (1, False, [0, 1])]"]
  by (simp add: AclReassembler_new_def L2capHeader_serialize_def L2capHeader_as_bytes_def
      L2capHeader_new_def to_le_bytes_def)

text \<open>A first fragment that arrives while another frame of the same connection is pending is
  answered with an error, and both frames are lost: the pending one is dropped and the new one is
  not started, so that each of its continuation fragments is an error too.\<close>
theorem overlapping_frame_loses_both:
  assumes "buffers r h = Some p" "4 \<le> length fragment"
  shows "(\<exists>e. fst (push_fragment r h True fragment) = Inl e)
    \<and> buffers (snd (push_fragment r h True fragment)) h = None
    \<and> (\<exists>e. fst (push_fragment (snd (push_fragment r h True fragment)) h False cont) = Inl e)"
  using assms by (simp add: push_fragment_def)

theorem overlapping_frame_loses_both_witness:
  "(\<exists>e. fst (push_fragment \<lparr>buffers = [1 \<mapsto> (7, [3, 0, 4, 0])]\<rparr> 1 True [1, 0, 4, 0, 9]) = Inl e)
    \<and> buffers (snd (push_fragment \<lparr>buffers = [1 \<mapsto> (7, [3, 0, 4, 0])]\<rparr> 1 True [1, 0, 4, 0, 9])) 1 = None"
  using overlapping_frame_loses_both [of "\<lparr>buffers = [1 \<mapsto> (7, [3, 0, 4, 0])]\<rparr>" 1 "(7, [3, 0, 4, 0])"
      "[1, 0, 4, 0, 9]"]
  by simp

end
