(* ===== verification/Cid_Allocator.thy ===== *)
theory Cid_Allocator
  imports Prelude
begin

text \<open>
  The ring allocator of dynamic channel identifiers with the channel table it guards
  (\<open>src/src/l2cap/cid_allocator.rs\<close>), the contract its two clients rely on as the locale
  \<open>cid_table\<close>, and the proof that the allocator meets it.
\<close>

section \<open>State and operations\<close>

record 'a CidAllocator =
  min_cid :: u16
  max_cid :: u16
  next_cid :: u16
  channels :: "u16 \<rightharpoonup> 'a"

definition CidAllocator_new :: "u16 \<Rightarrow> u16 \<Rightarrow> 'a CidAllocator" where
  "CidAllocator_new mn mx = \<lparr>min_cid = mn, max_cid = mx, next_cid = mn, channels = Map.empty\<rparr>"

text \<open>The body of the \<^verbatim>\<open>for\<close> loop of \<^verbatim>\<open>allocate\<close>, \<open>n\<close> iterations of it.\<close>

definition advance_cid :: "'a CidAllocator \<Rightarrow> 'a CidAllocator" where
  "advance_cid a =
     a\<lparr>next_cid := (if max_cid a \<le> next_cid a then min_cid a else next_cid a + 1)\<rparr>"

fun allocate_loop :: "nat \<Rightarrow> 'a CidAllocator \<Rightarrow> u16 option \<times> 'a CidAllocator" where
  "allocate_loop 0 a = (None, a)"
| "allocate_loop (Suc n) a =
     (let cid = next_cid a; a' = advance_cid a in
      if channels a' cid = None then (Some cid, a') else allocate_loop n a')"

definition CidAllocator_allocate :: "'a CidAllocator \<Rightarrow> u16 option \<times> 'a CidAllocator" where
  "CidAllocator_allocate a = allocate_loop (Suc (unat (max_cid a - min_cid a))) a"

definition CidAllocator_insert :: "'a CidAllocator \<Rightarrow> u16 \<Rightarrow> 'a \<Rightarrow> 'a CidAllocator" where
  "CidAllocator_insert a cid channel = a\<lparr>channels := (channels a)(cid \<mapsto> channel)\<rparr>"

definition CidAllocator_get :: "'a CidAllocator \<Rightarrow> u16 \<Rightarrow> 'a option" where
  "CidAllocator_get a cid = channels a cid"

definition CidAllocator_remove :: "'a CidAllocator \<Rightarrow> u16 \<Rightarrow> 'a option \<times> 'a CidAllocator" where
  "CidAllocator_remove a cid = (channels a cid, a\<lparr>channels := (channels a)(cid := None)\<rparr>)"

text \<open>Writing through the reference \<^verbatim>\<open>get_mut\<close> returns: nothing happens on an absent channel.\<close>

definition CidAllocator_modify :: "'a CidAllocator \<Rightarrow> u16 \<Rightarrow> ('a \<Rightarrow> 'a) \<Rightarrow> 'a CidAllocator" where
  "CidAllocator_modify a cid f =
     (case channels a cid of
        None \<Rightarrow> a
      | Some c \<Rightarrow> a\<lparr>channels := (channels a)(cid \<mapsto> f c)\<rparr>)"

definition cid_inv :: "u16 \<Rightarrow> u16 \<Rightarrow> 'a CidAllocator \<Rightarrow> bool" where
  "cid_inv lo hi a =
     (min_cid a = lo \<and> max_cid a = hi \<and> lo \<le> next_cid a \<and> next_cid a \<le> hi
      \<and> (\<forall>cid. channels a cid \<noteq> None \<longrightarrow> lo \<le> cid \<and> cid \<le> hi))"

section \<open>The contract\<close>

text \<open>
  What a channel manager relies on: an allocated identifier is in range and free, exhaustion is
  reported only when every identifier of the range is taken, allocation leaves the table alone,
  and the table behaves like a map.
\<close>

locale cid_table =
  fixes lo hi :: u16
    and inv :: "'t \<Rightarrow> bool"
    and alloc :: "'t \<Rightarrow> u16 option \<times> 't"
    and ins :: "'t \<Rightarrow> u16 \<Rightarrow> 'a \<Rightarrow> 't"
    and lookup :: "'t \<Rightarrow> u16 \<Rightarrow> 'a option"
    and del :: "'t \<Rightarrow> u16 \<Rightarrow> 'a option \<times> 't"
  assumes alloc_inv: "inv t \<Longrightarrow> inv (snd (alloc t))"
    and alloc_lookup: "inv t \<Longrightarrow> lookup (snd (alloc t)) = lookup t"
    and alloc_Some: "inv t \<Longrightarrow> fst (alloc t) = Some cid \<Longrightarrow> lo \<le> cid \<and> cid \<le> hi \<and> lookup t cid = None"
    and alloc_None: "inv t \<Longrightarrow> fst (alloc t) = None \<Longrightarrow> lo \<le> cid \<Longrightarrow> cid \<le> hi \<Longrightarrow> lookup t cid \<noteq> None"
    and ins_inv: "inv t \<Longrightarrow> lo \<le> cid \<Longrightarrow> cid \<le> hi \<Longrightarrow> inv (ins t cid c)"
    and ins_lookup: "lookup (ins t cid c) = (lookup t)(cid \<mapsto> c)"
    and del_fst: "fst (del t cid) = lookup t cid"
    and del_lookup: "lookup (snd (del t cid)) = (lookup t)(cid := None)"
    and del_inv: "inv t \<Longrightarrow> inv (snd (del t cid))"
begin

text \<open>Opening a channel is an allocation followed by the insertion at the allocated identifier.\<close>

lemma open_channel:
  assumes "inv t" and "alloc t = (Some cid, t')"
  shows "inv (ins t' cid c)"
    and "lookup (ins t' cid c) = (lookup t)(cid \<mapsto> c)"
    and "lookup t cid = None" and "lo \<le> cid" and "cid \<le> hi"
  using assms alloc_inv [of t] alloc_lookup [of t] alloc_Some [of t cid]
  by (auto simp: ins_lookup ins_inv)

lemma open_keeps_others:
  assumes "inv t" "alloc t = (Some cid, t')" "lookup t other = Some d"
  shows "lookup (ins t' cid c) other = Some d"
  using open_channel [OF assms(1,2)] assms(3) by (auto simp: fun_upd_def)

lemma alloc_succeeds_if_free:
  assumes "inv t" "lookup t free = None" "lo \<le> free" "free \<le> hi"
  shows "\<exists>cid t'. alloc t = (Some cid, t')"
  using alloc_None [OF assms(1) _ assms(3,4)] assms(2) by (cases "alloc t"; cases "fst (alloc t)") auto

lemma closed_is_reusable:
  assumes "inv t" "lo \<le> cid" "cid \<le> hi"
  shows "\<exists>cid' t'. alloc (snd (del t cid)) = (Some cid', t')"
  using assms by (intro alloc_succeeds_if_free [of _ cid]) (auto simp: del_inv del_lookup)

end

section \<open>The allocator meets the contract\<close>

lemma advance_cid_simps [simp]:
  "channels (advance_cid a) = channels a"
  "min_cid (advance_cid a) = min_cid a"
  "max_cid (advance_cid a) = max_cid a"
  by (simp_all add: advance_cid_def)

lemma advance_next:
  fixes n lo hi :: u16
  assumes "lo \<le> n" "n \<le> hi"
  shows "unat (if hi \<le> n then lo else n + 1)
    = unat lo + Suc (unat n - unat lo) mod Suc (unat hi - unat lo)"
proof (cases "hi \<le> n")
  case True
  with assms have "n = hi" by simp
  then show ?thesis by simp
next
  case False
  then have "n < hi" by simp
  moreover have "n < 0xFFFF"
    using \<open>n < hi\<close> order_less_le_trans [OF _ unat_u16_le [of hi]] by (simp add: word_less_nat_alt)
  ultimately show ?thesis
    using assms(1) by (simp add: unat_u16_plus_1 word_less_nat_alt word_le_nat_alt)
qed

lemma next_cid_advance:
  "cid_inv lo hi a \<Longrightarrow> unat (next_cid (advance_cid a))
     = unat lo + Suc (unat (next_cid a) - unat lo) mod Suc (unat hi - unat lo)"
  using advance_next [of lo "next_cid a" hi]
  by (auto simp: advance_cid_def cid_inv_def split: if_splits)

lemma advance_cid_inv:
  assumes "cid_inv lo hi a"
  shows "cid_inv lo hi (advance_cid a)"
proof -
  have "lo \<le> hi" using assms by (auto simp: cid_inv_def)
  then have "unat lo \<le> unat hi" by (simp add: word_le_nat_alt)
  moreover have "Suc (unat (next_cid a) - unat lo) mod Suc (unat hi - unat lo) \<le> unat hi - unat lo"
    by (simp add: less_Suc_eq_le [symmetric])
  ultimately have "unat lo \<le> unat (next_cid (advance_cid a))"
      "unat (next_cid (advance_cid a)) \<le> unat hi"
    using next_cid_advance [OF assms] by linarith+
  with assms show ?thesis by (auto simp: cid_inv_def word_le_nat_alt)
qed

definition ring_cid :: "u16 \<Rightarrow> u16 \<Rightarrow> u16 \<Rightarrow> nat \<Rightarrow> u16" where
  "ring_cid lo hi start k =
     of_nat (unat lo + (unat start - unat lo + k) mod Suc (unat hi - unat lo))"

lemma ring_cid_advance:
  assumes "cid_inv lo hi a"
  shows "ring_cid lo hi (next_cid (advance_cid a)) k = ring_cid lo hi (next_cid a) (Suc k)"
  by (simp add: ring_cid_def next_cid_advance [OF assms] mod_simps)

lemma ring_cid_0: "lo \<le> n \<Longrightarrow> n \<le> hi \<Longrightarrow> ring_cid lo hi n 0 = n"
  by (simp add: ring_cid_def word_le_nat_alt)

lemma ring_cid_covers:
  assumes "lo \<le> n" "n \<le> hi" "lo \<le> cid" "cid \<le> hi"
  shows "\<exists>k < Suc (unat hi - unat lo). ring_cid lo hi n k = cid"
proof -
  define N where "N = Suc (unat hi - unat lo)"
  define p where "p = unat n - unat lo"
  define q where "q = unat cid - unat lo"
  have pq: "p < N" "q < N" "unat lo + q = unat cid"
    using assms by (auto simp: p_def q_def N_def word_le_nat_alt)
  define k where "k = (if p \<le> q then q - p else q + N - p)"
  have "k < N" "(p + k) mod N = q"
    using pq by (auto simp: k_def)
  moreover have "ring_cid lo hi n k = of_nat (unat lo + (p + k) mod N)"
    by (simp add: ring_cid_def p_def N_def)
  ultimately have "ring_cid lo hi n k = of_nat (unat cid)"
    using pq(3) by (simp only:)
  with \<open>k < N\<close> show ?thesis
    by (auto simp: N_def intro!: exI [of _ k])
qed

lemma allocate_loop_facts:
  assumes "cid_inv lo hi a"
  shows "cid_inv lo hi (snd (allocate_loop n a)) \<and> channels (snd (allocate_loop n a)) = channels a
    \<and> (case fst (allocate_loop n a) of
         None \<Rightarrow> (\<forall>k < n. channels a (ring_cid lo hi (next_cid a) k) \<noteq> None)
       | Some cid \<Rightarrow> lo \<le> cid \<and> cid \<le> hi \<and> channels a cid = None)"
  using assms
proof (induction n arbitrary: a)
  case 0
  then show ?case by simp
next
  case (Suc n)
  have inv': "cid_inv lo hi (advance_cid a)" using Suc.prems by (rule advance_cid_inv)
  have n: "lo \<le> next_cid a" "next_cid a \<le> hi" using Suc.prems by (auto simp: cid_inv_def)
  show ?case
  proof (cases "channels a (next_cid a) = None")
    case True
    with inv' n show ?thesis by simp
  next
    case False
    have "(\<forall>k < Suc n. channels a (ring_cid lo hi (next_cid a) k) \<noteq> None)
      \<longleftrightarrow> (\<forall>k < n. channels a (ring_cid lo hi (next_cid (advance_cid a)) k) \<noteq> None)"
      using False ring_cid_0 [OF n] by (simp add: ring_cid_advance [OF Suc.prems] All_less_Suc2)
    with False Suc.IH [OF inv'] show ?thesis
      by (simp del: not_None_eq split: option.splits)
  qed
qed

lemma range_count:
  "lo \<le> (hi :: u16) \<Longrightarrow> unat (hi - lo) = unat hi - unat lo"
  by (simp add: unat_sub)

lemma cid_allocator_contract:
  "cid_table lo hi (cid_inv lo hi) CidAllocator_allocate CidAllocator_insert CidAllocator_get
     CidAllocator_remove"
proof
  fix t :: "'a CidAllocator" and cid :: u16
  assume t: "cid_inv lo hi t"
  then have "lo \<le> hi" by (auto simp: cid_inv_def)
  then have alloc: "CidAllocator_allocate t = allocate_loop (Suc (unat hi - unat lo)) t"
    using t by (simp only: CidAllocator_allocate_def cid_inv_def range_count)
  note facts = allocate_loop_facts [OF t, of "Suc (unat hi - unat lo)"]
  from facts show "cid_inv lo hi (snd (CidAllocator_allocate t))"
      "CidAllocator_get (snd (CidAllocator_allocate t)) = CidAllocator_get t"
    by (auto simp: alloc CidAllocator_get_def fun_eq_iff simp del: allocate_loop.simps)
  show "lo \<le> cid \<and> cid \<le> hi \<and> CidAllocator_get t cid = None"
    if "fst (CidAllocator_allocate t) = Some cid"
    using facts that by (simp add: alloc CidAllocator_get_def del: allocate_loop.simps)
  show "CidAllocator_get t cid \<noteq> None"
    if "fst (CidAllocator_allocate t) = None" "lo \<le> cid" "cid \<le> hi"
    using facts that ring_cid_covers [of lo "next_cid t" hi cid] t
    by (auto simp: alloc CidAllocator_get_def cid_inv_def simp del: allocate_loop.simps)
qed (auto simp: CidAllocator_insert_def CidAllocator_get_def CidAllocator_remove_def cid_inv_def
    fun_eq_iff split: if_splits)

lemma allocate_next_free:
  "channels a (next_cid a) = None \<Longrightarrow> CidAllocator_allocate a = (Some (next_cid a), advance_cid a)"
  by (simp add: CidAllocator_allocate_def Let_def)

end
