(* ===== verification/Coc.thy ===== *)
theory Coc
  imports Cid_Allocator
begin

text \<open>
  LE credit-based connection-oriented channels (\<open>src/src/l2cap/coc.rs\<close>): one channel's credit
  counters and the manager that allocates channels.
\<close>

section \<open>Channels and credits\<close>

record CoCChannel =
  coc_cid :: u16
  coc_peer_cid :: u16
  coc_spsm :: u16
  coc_mtu :: u16
  coc_mps :: u16
  local_credits :: u16
  peer_credits :: u16

definition CoCChannel_new ::
  "u16 \<Rightarrow> u16 \<Rightarrow> u16 \<Rightarrow> u16 \<Rightarrow> u16 \<Rightarrow> u16 \<Rightarrow> u16 \<Rightarrow> CoCChannel" where
  "CoCChannel_new cid peer_cid spsm mtu mps initial_local_credits initial_peer_credits =
     \<lparr>coc_cid = cid, coc_peer_cid = peer_cid, coc_spsm = spsm, coc_mtu = mtu, coc_mps = mps,
      local_credits = initial_local_credits, peer_credits = initial_peer_credits\<rparr>"

definition CoCChannel_can_send :: "CoCChannel \<Rightarrow> bool" where
  "CoCChannel_can_send c = (0 < peer_credits c)"

definition consume_tx_credit :: "CoCChannel \<Rightarrow> unit result \<times> CoCChannel" where
  "consume_tx_credit c =
     (if peer_credits c = 0 then (Inl (DeviceError ''L2CAP CoC: Insufficient peer credits''), c)
      else (Inr (), c\<lparr>peer_credits := peer_credits c - 1\<rparr>))"

text \<open>\<^verbatim>\<open>u16::saturating_add\<close>.\<close>

definition saturating_add :: "u16 \<Rightarrow> u16 \<Rightarrow> u16" where
  "saturating_add a b = (if unat a + unat b \<le> 65535 then a + b else 0xFFFF)"

definition add_tx_credits :: "CoCChannel \<Rightarrow> u16 \<Rightarrow> CoCChannel" where
  "add_tx_credits c credits = c\<lparr>peer_credits := saturating_add (peer_credits c) credits\<rparr>"

definition add_rx_credits :: "CoCChannel \<Rightarrow> u16 \<Rightarrow> CoCChannel" where
  "add_rx_credits c credits = c\<lparr>local_credits := saturating_add (local_credits c) credits\<rparr>"

lemma unat_saturating_add: "unat (saturating_add a b) = min 65535 (unat a + unat b)"
  by (auto simp: saturating_add_def unat_word_ariths)

section \<open>The channel manager\<close>

abbreviation (input) COC_MIN_DYNAMIC_CID :: u16 where "COC_MIN_DYNAMIC_CID \<equiv> 0x0040"
abbreviation (input) COC_MAX_DYNAMIC_CID :: u16 where "COC_MAX_DYNAMIC_CID \<equiv> 0x007F"

record CoCManager =
  coc_channels :: "CoCChannel CidAllocator"

definition CoCManager_new :: CoCManager where
  "CoCManager_new = \<lparr>coc_channels = CidAllocator_new COC_MIN_DYNAMIC_CID COC_MAX_DYNAMIC_CID\<rparr>"

definition spps_or_spsm :: "u16 \<Rightarrow> u16" where
  "spps_or_spsm s = s"

definition CoCManager_allocate_cid :: "CoCManager \<Rightarrow> u16 result \<times> CoCManager" where
  "CoCManager_allocate_cid m =
     (case CidAllocator_allocate (coc_channels m) of
        (None, a) \<Rightarrow> (Inl (DeviceError ''L2CAP CoC: All dynamic CIDs exhausted''), m\<lparr>coc_channels := a\<rparr>)
      | (Some cid, a) \<Rightarrow> (Inr cid, m\<lparr>coc_channels := a\<rparr>))"

definition CoCManager_create_channel ::
  "CoCManager \<Rightarrow> u16 \<Rightarrow> u16 \<Rightarrow> u16 \<Rightarrow> u16 \<Rightarrow> u16 \<Rightarrow> u16 result \<times> CoCManager" where
  "CoCManager_create_channel m peer_cid spsm mtu mps initial_credits =
     (case CoCManager_allocate_cid m of
        (Inl e, m') \<Rightarrow> (Inl e, m')
      | (Inr cid, m') \<Rightarrow>
          (Inr cid,
           m'\<lparr>coc_channels := CidAllocator_insert (coc_channels m') cid
                (CoCChannel_new cid peer_cid (spps_or_spsm spsm) mtu mps initial_credits initial_credits)\<rparr>))"

definition CoCManager_get_channel :: "CoCManager \<Rightarrow> u16 \<Rightarrow> CoCChannel option" where
  "CoCManager_get_channel m cid = CidAllocator_get (coc_channels m) cid"

definition CoCManager_remove_channel :: "CoCManager \<Rightarrow> u16 \<Rightarrow> CoCChannel option \<times> CoCManager" where
  "CoCManager_remove_channel m cid =
     (case CidAllocator_remove (coc_channels m) cid of (c, a) \<Rightarrow> (c, m\<lparr>coc_channels := a\<rparr>))"

interpretation coc_table: cid_table COC_MIN_DYNAMIC_CID COC_MAX_DYNAMIC_CID
  "cid_inv COC_MIN_DYNAMIC_CID COC_MAX_DYNAMIC_CID"
  "CidAllocator_allocate :: CoCChannel CidAllocator \<Rightarrow> _" CidAllocator_insert CidAllocator_get
  CidAllocator_remove
  by (rule cid_allocator_contract)

abbreviation coc_inv :: "CoCManager \<Rightarrow> bool" where
  "coc_inv m \<equiv> cid_inv COC_MIN_DYNAMIC_CID COC_MAX_DYNAMIC_CID (coc_channels m)"

lemma coc_inv_new: "coc_inv CoCManager_new"
  by (simp add: CoCManager_new_def CidAllocator_new_def cid_inv_def)

text \<open>A created channel gets an identifier of the dynamic range that no open channel has, is
  found under it with both credit counters at the initial value, and leaves every other channel as
  it was; creation fails exactly when all 64 identifiers are in use.\<close>
theorem CoCManager_create_channel_correct:
  assumes "coc_inv m"
  shows "(case CoCManager_create_channel m peer spsm mtu mps credits of
      (Inr cid, m') \<Rightarrow>
        coc_inv m' \<and> COC_MIN_DYNAMIC_CID \<le> cid \<and> cid \<le> COC_MAX_DYNAMIC_CID
        \<and> CoCManager_get_channel m cid = None
        \<and> CoCManager_get_channel m' = (CoCManager_get_channel m)
            (cid \<mapsto> CoCChannel_new cid peer spsm mtu mps credits credits)
    | (Inl e, m') \<Rightarrow>
        coc_inv m' \<and> CoCManager_get_channel m' = CoCManager_get_channel m
        \<and> {cid. CoCManager_get_channel m cid \<noteq> None} = {COC_MIN_DYNAMIC_CID .. COC_MAX_DYNAMIC_CID})"
proof (cases "CidAllocator_allocate (coc_channels m)")
  case (Pair res a)
  show ?thesis
  proof (cases res)
    case None
    have "{cid. CidAllocator_get (coc_channels m) cid \<noteq> None} = {COC_MIN_DYNAMIC_CID .. COC_MAX_DYNAMIC_CID}"
      using coc_table.alloc_None [OF assms] assms Pair None
      by (auto simp: cid_inv_def CidAllocator_get_def)
    moreover have "CidAllocator_get a = CidAllocator_get (coc_channels m)" "coc_inv (m\<lparr>coc_channels := a\<rparr>)"
      using coc_table.alloc_lookup [OF assms] coc_table.alloc_inv [OF assms] Pair by auto
    ultimately show ?thesis
      using Pair None
      by (simp add: CoCManager_create_channel_def CoCManager_allocate_cid_def
          CoCManager_get_channel_def fun_eq_iff)
  next
    case (Some cid)
    with coc_table.open_channel [OF assms, of cid a] Pair show ?thesis
      by (simp add: CoCManager_create_channel_def CoCManager_allocate_cid_def
          CoCManager_get_channel_def spps_or_spsm_def fun_eq_iff)
  qed
qed

theorem CoCManager_create_channel_correct_witness:
  "case CoCManager_create_channel CoCManager_new 0x45 0x25 512 251 10 of
      (Inr cid, m') \<Rightarrow>
        coc_inv m' \<and> COC_MIN_DYNAMIC_CID \<le> cid \<and> cid \<le> COC_MAX_DYNAMIC_CID
        \<and> CoCManager_get_channel CoCManager_new cid = None
        \<and> CoCManager_get_channel m' = (CoCManager_get_channel CoCManager_new)
            (cid \<mapsto> CoCChannel_new cid 0x45 0x25 512 251 10 10)
    | (Inl e, m') \<Rightarrow>
        coc_inv m' \<and> CoCManager_get_channel m' = CoCManager_get_channel CoCManager_new
        \<and> {cid. CoCManager_get_channel CoCManager_new cid \<noteq> None}
           = {COC_MIN_DYNAMIC_CID .. COC_MAX_DYNAMIC_CID}"
  by (rule CoCManager_create_channel_correct) (rule coc_inv_new)

section \<open>Flow control\<close>

text \<open>A run of send attempts and credit grants; the number of sends that went through is counted.\<close>

datatype credit_event = Send | Grant u16

fun credit_run :: "CoCChannel \<Rightarrow> credit_event list \<Rightarrow> nat \<times> CoCChannel" where
  "credit_run c [] = (0, c)"
| "credit_run c (Send # es) =
     (case consume_tx_credit c of
        (Inl _, c') \<Rightarrow> credit_run c' es
      | (Inr _, c') \<Rightarrow> (case credit_run c' es of (n, c'') \<Rightarrow> (Suc n, c'')))"
| "credit_run c (Grant k # es) = credit_run (add_tx_credits c k) es"

fun granted :: "credit_event list \<Rightarrow> nat" where
  "granted [] = 0"
| "granted (Send # es) = granted es"
| "granted (Grant k # es) = unat k + granted es"

lemma unat_minus_1: "peer_credits c \<noteq> 0 \<Longrightarrow> unat (peer_credits c - 1) = unat (peer_credits c) - 1"
  by (rule unat_minus_one)

text \<open>Credits are never created: over any run of sends and grants, the sends that went through
  plus the credits left are at most the initial credits plus what the peer granted, so the sender
  never puts more packets on the air than it was allowed.\<close>
theorem credits_conserved:
  "fst (credit_run c es) + unat (peer_credits (snd (credit_run c es)))
     \<le> unat (peer_credits c) + granted es"
proof (induction es arbitrary: c)
  case Nil
  then show ?case by simp
next
  case (Cons e es)
  show ?case
  proof (cases e)
    case Send
    show ?thesis
    proof (cases "peer_credits c = 0")
      case True
      with Send Cons.IH [of c] show ?thesis by (simp add: consume_tx_credit_def)
    next
      case False
      then have "0 < unat (peer_credits c)" by (simp add: unat_gt_0)
      with False Send Cons.IH [of "c\<lparr>peer_credits := peer_credits c - 1\<rparr>"] unat_minus_1 [OF False]
      show ?thesis by (simp add: consume_tx_credit_def case_prod_beta)
    qed
  next
    case (Grant k)
    with Cons.IH [of "add_tx_credits c k"] show ?thesis
      by (simp add: add_tx_credits_def unat_saturating_add)
  qed
qed

end
