(* ===== verification/L2cap_Signaling.thy ===== *)
theory L2cap_Signaling
  imports Prelude
begin

text \<open>
  L2CAP signaling packets (\<open>src/src/packets/l2cap_signaling.rs\<close>): result codes, the fixed headers
  with their wire layouts, and the encoding and scanning of the MTU configuration option.
\<close>

section \<open>Codes\<close>

abbreviation (input) COMMAND_REJECT :: u8 where "COMMAND_REJECT \<equiv> 0x01"
abbreviation (input) CONNECTION_REQUEST :: u8 where "CONNECTION_REQUEST \<equiv> 0x02"
abbreviation (input) CONNECTION_RESPONSE :: u8 where "CONNECTION_RESPONSE \<equiv> 0x03"
abbreviation (input) CONFIGURATION_REQUEST :: u8 where "CONFIGURATION_REQUEST \<equiv> 0x04"
abbreviation (input) CONFIGURATION_RESPONSE :: u8 where "CONFIGURATION_RESPONSE \<equiv> 0x05"
abbreviation (input) DISCONNECTION_REQUEST :: u8 where "DISCONNECTION_REQUEST \<equiv> 0x06"
abbreviation (input) DISCONNECTION_RESPONSE :: u8 where "DISCONNECTION_RESPONSE \<equiv> 0x07"

abbreviation (input) SUCCESSFUL :: u16 where "SUCCESSFUL \<equiv> 0x0000"
abbreviation (input) PENDING :: u16 where "PENDING \<equiv> 0x0001"
abbreviation (input) REFUSED_PSM_NOT_SUPPORTED :: u16 where "REFUSED_PSM_NOT_SUPPORTED \<equiv> 0x0002"
abbreviation (input) REFUSED_SECURITY_BLOCK :: u16 where "REFUSED_SECURITY_BLOCK \<equiv> 0x0003"
abbreviation (input) REFUSED_NO_RESOURCES_AVAILABLE :: u16 where "REFUSED_NO_RESOURCES_AVAILABLE \<equiv> 0x0004"

abbreviation (input) CONFIG_SUCCESS :: u16 where "CONFIG_SUCCESS \<equiv> 0x0000"
abbreviation (input) CONFIG_UNACCEPTABLE_PARAMETERS :: u16 where "CONFIG_UNACCEPTABLE_PARAMETERS \<equiv> 0x0001"
abbreviation (input) CONFIG_REJECTED :: u16 where "CONFIG_REJECTED \<equiv> 0x0002"
abbreviation (input) CONFIG_UNKNOWN_OPTIONS :: u16 where "CONFIG_UNKNOWN_OPTIONS \<equiv> 0x0003"

abbreviation (input) configuration_option_MTU :: u8 where "configuration_option_MTU \<equiv> 0x01"

section \<open>Fixed headers\<close>

record ConnectionRequestHeader =
  cnq_psm :: u16
  cnq_source_cid :: u16

record ConnectionResponseHeader =
  cnr_destination_cid :: u16
  cnr_source_cid :: u16
  cnr_result :: u16
  cnr_status :: u16

record ConfigurationRequestHeader =
  cfq_destination_cid :: u16
  cfq_flags :: u16

record ConfigurationResponseHeader =
  cfr_source_cid :: u16
  cfr_flags :: u16
  cfr_result :: u16

definition ConnectionRequestHeader_as_bytes :: "ConnectionRequestHeader \<Rightarrow> bytes" where
  "ConnectionRequestHeader_as_bytes h = to_le_bytes (cnq_psm h) @ to_le_bytes (cnq_source_cid h)"

definition ConnectionRequestHeader_of_bytes :: "bytes \<Rightarrow> ConnectionRequestHeader" where
  "ConnectionRequestHeader_of_bytes bs =
     \<lparr>cnq_psm = from_le_bytes (bs ! 0) (bs ! 1), cnq_source_cid = from_le_bytes (bs ! 2) (bs ! 3)\<rparr>"

definition ConnectionResponseHeader_as_bytes :: "ConnectionResponseHeader \<Rightarrow> bytes" where
  "ConnectionResponseHeader_as_bytes h =
     to_le_bytes (cnr_destination_cid h) @ to_le_bytes (cnr_source_cid h)
     @ to_le_bytes (cnr_result h) @ to_le_bytes (cnr_status h)"

definition ConnectionResponseHeader_of_bytes :: "bytes \<Rightarrow> ConnectionResponseHeader" where
  "ConnectionResponseHeader_of_bytes bs =
     \<lparr>cnr_destination_cid = from_le_bytes (bs ! 0) (bs ! 1),
      cnr_source_cid = from_le_bytes (bs ! 2) (bs ! 3),
      cnr_result = from_le_bytes (bs ! 4) (bs ! 5),
      cnr_status = from_le_bytes (bs ! 6) (bs ! 7)\<rparr>"

definition ConfigurationRequestHeader_as_bytes :: "ConfigurationRequestHeader \<Rightarrow> bytes" where
  "ConfigurationRequestHeader_as_bytes h =
     to_le_bytes (cfq_destination_cid h) @ to_le_bytes (cfq_flags h)"

definition ConfigurationRequestHeader_of_bytes :: "bytes \<Rightarrow> ConfigurationRequestHeader" where
  "ConfigurationRequestHeader_of_bytes bs =
     \<lparr>cfq_destination_cid = from_le_bytes (bs ! 0) (bs ! 1),
      cfq_flags = from_le_bytes (bs ! 2) (bs ! 3)\<rparr>"

definition ConfigurationResponseHeader_as_bytes :: "ConfigurationResponseHeader \<Rightarrow> bytes" where
  "ConfigurationResponseHeader_as_bytes h =
     to_le_bytes (cfr_source_cid h) @ to_le_bytes (cfr_flags h) @ to_le_bytes (cfr_result h)"

definition ConfigurationResponseHeader_of_bytes :: "bytes \<Rightarrow> ConfigurationResponseHeader" where
  "ConfigurationResponseHeader_of_bytes bs =
     \<lparr>cfr_source_cid = from_le_bytes (bs ! 0) (bs ! 1),
      cfr_flags = from_le_bytes (bs ! 2) (bs ! 3),
      cfr_result = from_le_bytes (bs ! 4) (bs ! 5)\<rparr>"

lemmas signaling_layout_defs =
  ConnectionRequestHeader_as_bytes_def ConnectionRequestHeader_of_bytes_def
  ConnectionResponseHeader_as_bytes_def ConnectionResponseHeader_of_bytes_def
  ConfigurationRequestHeader_as_bytes_def ConfigurationRequestHeader_of_bytes_def
  ConfigurationResponseHeader_as_bytes_def ConfigurationResponseHeader_of_bytes_def

interpretation cnq_layout: wire_layout 4 "\<lambda>_. True"
  ConnectionRequestHeader_as_bytes ConnectionRequestHeader_of_bytes
  by unfold_locales (auto simp: signaling_layout_defs to_le_bytes_def list_of_length)

interpretation cnr_layout: wire_layout 8 "\<lambda>_. True"
  ConnectionResponseHeader_as_bytes ConnectionResponseHeader_of_bytes
  by unfold_locales (auto simp: signaling_layout_defs to_le_bytes_def list_of_length)

interpretation cfq_layout: wire_layout 4 "\<lambda>_. True"
  ConfigurationRequestHeader_as_bytes ConfigurationRequestHeader_of_bytes
  by unfold_locales (auto simp: signaling_layout_defs to_le_bytes_def list_of_length)

interpretation cfr_layout: wire_layout 6 "\<lambda>_. True"
  ConfigurationResponseHeader_as_bytes ConfigurationResponseHeader_of_bytes
  by unfold_locales (auto simp: signaling_layout_defs to_le_bytes_def list_of_length)

text \<open>The command header, the LE credit-based headers and the disconnection pair.\<close>

record L2capSignalingHeader =
  sig_code :: u8
  sig_identifier :: u8
  sig_length :: u16

record LeCreditBasedConnectionRequestHeader =
  lcq_spsm :: u16
  lcq_mtu :: u16
  lcq_mps :: u16
  lcq_initial_credits :: u16

record LeCreditBasedConnectionResponseHeader =
  lcr_mtu :: u16
  lcr_mps :: u16
  lcr_initial_credits :: u16
  lcr_result :: u16

record LeFlowControlCredit =
  lfc_cid :: u16
  lfc_credits :: u16

record DisconnectionRequest =
  dcq_destination_cid :: u16
  dcq_source_cid :: u16

record DisconnectionResponse =
  dcr_destination_cid :: u16
  dcr_source_cid :: u16

definition L2capSignalingHeader_as_bytes :: "L2capSignalingHeader \<Rightarrow> bytes" where
  "L2capSignalingHeader_as_bytes h =
     [sig_code h] @ [sig_identifier h] @ to_le_bytes (sig_length h)"

definition L2capSignalingHeader_of_bytes :: "bytes \<Rightarrow> L2capSignalingHeader" where
  "L2capSignalingHeader_of_bytes bs =
     \<lparr>sig_code = bs ! 0, sig_identifier = bs ! 1, sig_length = from_le_bytes (bs ! 2) (bs ! 3)\<rparr>"

definition LeCreditBasedConnectionRequestHeader_as_bytes :: "LeCreditBasedConnectionRequestHeader \<Rightarrow> bytes" where
  "LeCreditBasedConnectionRequestHeader_as_bytes h =
     to_le_bytes (lcq_spsm h) @ to_le_bytes (lcq_mtu h) @ to_le_bytes (lcq_mps h) @
     to_le_bytes (lcq_initial_credits h)"

definition LeCreditBasedConnectionRequestHeader_of_bytes :: "bytes \<Rightarrow> LeCreditBasedConnectionRequestHeader" where
  "LeCreditBasedConnectionRequestHeader_of_bytes bs =
     \<lparr>lcq_spsm = from_le_bytes (bs ! 0) (bs ! 1), lcq_mtu = from_le_bytes (bs ! 2) (bs ! 3),
      lcq_mps = from_le_bytes (bs ! 4) (bs ! 5),
      lcq_initial_credits = from_le_bytes (bs ! 6) (bs ! 7)\<rparr>"

definition LeCreditBasedConnectionResponseHeader_as_bytes :: "LeCreditBasedConnectionResponseHeader \<Rightarrow> bytes" where
  "LeCreditBasedConnectionResponseHeader_as_bytes h =
     to_le_bytes (lcr_mtu h) @ to_le_bytes (lcr_mps h) @
     to_le_bytes (lcr_initial_credits h) @ to_le_bytes (lcr_result h)"

definition LeCreditBasedConnectionResponseHeader_of_bytes :: "bytes \<Rightarrow> LeCreditBasedConnectionResponseHeader" where
  "LeCreditBasedConnectionResponseHeader_of_bytes bs =
     \<lparr>lcr_mtu = from_le_bytes (bs ! 0) (bs ! 1), lcr_mps = from_le_bytes (bs ! 2) (bs ! 3),
      lcr_initial_credits = from_le_bytes (bs ! 4) (bs ! 5),
      lcr_result = from_le_bytes (bs ! 6) (bs ! 7)\<rparr>"

definition LeFlowControlCredit_as_bytes :: "LeFlowControlCredit \<Rightarrow> bytes" where
  "LeFlowControlCredit_as_bytes h =
     to_le_bytes (lfc_cid h) @ to_le_bytes (lfc_credits h)"

definition LeFlowControlCredit_of_bytes :: "bytes \<Rightarrow> LeFlowControlCredit" where
  "LeFlowControlCredit_of_bytes bs =
     \<lparr>lfc_cid = from_le_bytes (bs ! 0) (bs ! 1), lfc_credits = from_le_bytes (bs ! 2) (bs ! 3)\<rparr>"

definition DisconnectionRequest_as_bytes :: "DisconnectionRequest \<Rightarrow> bytes" where
  "DisconnectionRequest_as_bytes h =
     to_le_bytes (dcq_destination_cid h) @ to_le_bytes (dcq_source_cid h)"

definition DisconnectionRequest_of_bytes :: "bytes \<Rightarrow> DisconnectionRequest" where
  "DisconnectionRequest_of_bytes bs =
     \<lparr>dcq_destination_cid = from_le_bytes (bs ! 0) (bs ! 1),
      dcq_source_cid = from_le_bytes (bs ! 2) (bs ! 3)\<rparr>"

definition DisconnectionResponse_as_bytes :: "DisconnectionResponse \<Rightarrow> bytes" where
  "DisconnectionResponse_as_bytes h =
     to_le_bytes (dcr_destination_cid h) @ to_le_bytes (dcr_source_cid h)"

definition DisconnectionResponse_of_bytes :: "bytes \<Rightarrow> DisconnectionResponse" where
  "DisconnectionResponse_of_bytes bs =
     \<lparr>dcr_destination_cid = from_le_bytes (bs ! 0) (bs ! 1),
      dcr_source_cid = from_le_bytes (bs ! 2) (bs ! 3)\<rparr>"

lemmas le_signaling_layout_defs =
  L2capSignalingHeader_as_bytes_def L2capSignalingHeader_of_bytes_def
  LeCreditBasedConnectionRequestHeader_as_bytes_def
  LeCreditBasedConnectionRequestHeader_of_bytes_def
  LeCreditBasedConnectionResponseHeader_as_bytes_def
  LeCreditBasedConnectionResponseHeader_of_bytes_def LeFlowControlCredit_as_bytes_def
  LeFlowControlCredit_of_bytes_def DisconnectionRequest_as_bytes_def
  DisconnectionRequest_of_bytes_def DisconnectionResponse_as_bytes_def
  DisconnectionResponse_of_bytes_def

interpretation sig_layout: wire_layout 4 "\<lambda>_. True"
  L2capSignalingHeader_as_bytes L2capSignalingHeader_of_bytes
  by unfold_locales (auto simp: le_signaling_layout_defs to_le_bytes_def list_of_length)

interpretation lcq_layout: wire_layout 8 "\<lambda>_. True"
  LeCreditBasedConnectionRequestHeader_as_bytes LeCreditBasedConnectionRequestHeader_of_bytes
  by unfold_locales (auto simp: le_signaling_layout_defs to_le_bytes_def list_of_length)

interpretation lcr_layout: wire_layout 8 "\<lambda>_. True"
  LeCreditBasedConnectionResponseHeader_as_bytes LeCreditBasedConnectionResponseHeader_of_bytes
  by unfold_locales (auto simp: le_signaling_layout_defs to_le_bytes_def list_of_length)

interpretation lfc_layout: wire_layout 4 "\<lambda>_. True"
  LeFlowControlCredit_as_bytes LeFlowControlCredit_of_bytes
  by unfold_locales (auto simp: le_signaling_layout_defs to_le_bytes_def list_of_length)

interpretation dcq_layout: wire_layout 4 "\<lambda>_. True"
  DisconnectionRequest_as_bytes DisconnectionRequest_of_bytes
  by unfold_locales (auto simp: le_signaling_layout_defs to_le_bytes_def list_of_length)

interpretation dcr_layout: wire_layout 4 "\<lambda>_. True"
  DisconnectionResponse_as_bytes DisconnectionResponse_of_bytes
  by unfold_locales (auto simp: le_signaling_layout_defs to_le_bytes_def list_of_length)

section \<open>The MTU option\<close>

definition encode_mtu_option :: "u16 \<Rightarrow> bytes" where
  "encode_mtu_option mtu = [configuration_option_MTU, 2] @ to_le_bytes mtu"

text \<open>
  The scan of \<^verbatim>\<open>parse_mtu_option\<close> from index \<open>i\<close>; each step moves past a two-byte option header, so
  the distance to the end shrinks. (\<^verbatim>\<open>checked_add\<close> cannot fail: both summands are at most a slice
  length and 255.)
\<close>

function parse_mtu_from :: "bytes \<Rightarrow> nat \<Rightarrow> u16 option" where
  "parse_mtu_from options i =
     (if i + 2 \<le> length options then
        (let option_type = options ! i;
             len = unat (options ! (i + 1));
             value_start = i + 2;
             value_end = value_start + len
         in if length options < value_end then None
            else if option_type = configuration_option_MTU \<and> len = 2 then
              Some (from_le_bytes (options ! value_start) (options ! (value_start + 1)))
            else parse_mtu_from options value_end)
      else None)"
  by pat_completeness auto
termination
  by (relation "measure (\<lambda>(options, i). length options - i)") auto

definition parse_mtu_option :: "bytes \<Rightarrow> u16 option" where
  "parse_mtu_option options = parse_mtu_from options 0"

declare parse_mtu_from.simps [simp del]

text \<open>The scan from \<open>i\<close> sees the options after \<open>i\<close> only.\<close>

lemma parse_mtu_from_shift:
  "parse_mtu_from (pre @ options) (length pre + i) = parse_mtu_from options i"
proof (induction options i rule: parse_mtu_from.induct)
  case (1 options i)
  show ?case
  proof (cases "i + 2 \<le> length options")
    case True
    then have nth: "(pre @ options) ! (length pre + i) = options ! i"
        "(pre @ options) ! (length pre + i + 1) = options ! (i + 1)"
      by (auto simp: nth_append)
    show ?thesis
      apply (subst (1 2) parse_mtu_from.simps)
      using True "1.IH" nth
      by (auto simp: Let_def nth_append add.assoc add.commute add.left_commute numeral_3_eq_3)
  next
    case False
    then show ?thesis by (subst (1 2) parse_mtu_from.simps) simp
  qed
qed

text \<open>An option list is a sequence of type, length and value; \<open>tlv\<close> encodes one option.\<close>

definition tlv :: "u8 \<times> bytes \<Rightarrow> bytes" where
  "tlv opt = (case opt of (t, v) \<Rightarrow> [t, of_nat (length v)] @ v)"

fun first_mtu :: "(u8 \<times> bytes) list \<Rightarrow> u16 option" where
  "first_mtu [] = None"
| "first_mtu ((t, v) # opts) =
     (if t = configuration_option_MTU \<and> length v = 2 then Some (from_le_bytes (v ! 0) (v ! 1))
      else first_mtu opts)"

lemma parse_mtu_option_step:
  assumes "length v < 256"
  shows "parse_mtu_option (tlv (t, v) @ rest) =
     (if t = configuration_option_MTU \<and> length v = 2 then Some (from_le_bytes (v ! 0) (v ! 1))
      else parse_mtu_option rest)"
proof -
  have len: "unat (of_nat (length v) :: u8) = length v"
    using assms by (simp add: unat_of_nat_u8)
  have "parse_mtu_from (tlv (t, v) @ rest) (2 + length v) = parse_mtu_from rest 0"
    using parse_mtu_from_shift [of "tlv (t, v)" rest 0] by (simp add: tlv_def)
  then show ?thesis
    unfolding parse_mtu_option_def
    by (subst parse_mtu_from.simps) (auto simp: tlv_def len Let_def nth_append)
qed

lemma parse_encode_mtu_option [simp]: "parse_mtu_option (encode_mtu_option mtu) = Some mtu"
  using parse_mtu_option_step [of "to_le_bytes mtu" 1 "[]"]
  by (simp add: encode_mtu_option_def tlv_def) (simp add: to_le_bytes_def)

text \<open>On every well-formed option list the scanner finds the first two-byte MTU option and skips
  all others; in particular it reads back the option \<^verbatim>\<open>encode_mtu_option\<close> writes.\<close>
theorem parse_mtu_option_finds_first:
  assumes "list_all (\<lambda>opt. length (snd opt) < 256) opts"
  shows "parse_mtu_option (concat (map tlv opts)) = first_mtu opts
    \<and> parse_mtu_option (encode_mtu_option mtu) = Some mtu"
proof
  show "parse_mtu_option (concat (map tlv opts)) = first_mtu opts"
    using assms
  proof (induction opts)
    case Nil
    then show ?case by (simp add: parse_mtu_option_def parse_mtu_from.simps [of "[]"])
  next
    case (Cons opt opts)
    then show ?case by (cases opt) (simp add: parse_mtu_option_step)
  qed
qed simp

theorem parse_mtu_option_finds_first_witness:
  "parse_mtu_option (concat (map tlv [(2, [0xFF, 0xFF]), (1, [0x00, 0x04])])) = Some 0x0400
    \<and> parse_mtu_option (encode_mtu_option 0x0384) = Some 0x0384"
  using parse_mtu_option_finds_first
    [where opts = "[(2, [0xFF, 0xFF]), (1, [0x00, 0x04])]" and mtu = "0x0384"]
  by (simp add: from_le_bytes_def)

end
