(* ===== verification/Classic_Channel.thy ===== *)
theory Classic_Channel
  imports Cid_Allocator L2cap_Signaling
begin

text \<open>
  Classic (BR/EDR) Basic Mode channels (\<open>src/src/l2cap/classic.rs\<close>): the channel life cycle, the
  manager with its server registry, and one definition per signaling handler. A handler takes the
  manager and returns its result with the manager it leaves; writes through \<^verbatim>\<open>get_mut\<close> are updates
  of the table. Messages keep their constant part only (the identifiers interpolated into them are
  dropped).
\<close>

section \<open>Channels\<close>

abbreviation (input) DEFAULT_MTU :: u16 where "DEFAULT_MTU \<equiv> 2048"
abbreviation (input) MIN_BR_EDR_MTU :: u16 where "MIN_BR_EDR_MTU \<equiv> 48"

datatype ChannelState = WaitConnectRsp | WaitConfig | Open | WaitDisconnect

record ClassicChannelSpec =
  spec_psm :: u16
  spec_mtu :: u16

definition ClassicChannelSpec_new :: "u16 \<Rightarrow> ClassicChannelSpec" where
  "ClassicChannelSpec_new psm = \<lparr>spec_psm = psm, spec_mtu = DEFAULT_MTU\<rparr>"

definition ClassicChannelSpec_with_mtu :: "u16 \<Rightarrow> u16 \<Rightarrow> ClassicChannelSpec" where
  "ClassicChannelSpec_with_mtu psm mtu = \<lparr>spec_psm = psm, spec_mtu = mtu\<rparr>"

record ClassicChannel =
  ch_cid :: u16
  ch_peer_cid :: u16
  ch_psm :: u16
  ch_mtu :: u16
  ch_peer_mtu :: u16
  ch_state :: ChannelState
  local_config_done :: bool
  remote_config_done :: bool

definition ClassicChannel_is_open :: "ClassicChannel \<Rightarrow> bool" where
  "ClassicChannel_is_open c = (ch_state c = Open)"

definition ClassicChannel_can_send :: "ClassicChannel \<Rightarrow> nat \<Rightarrow> bool" where
  "ClassicChannel_can_send c len = (len \<le> unat (ch_peer_mtu c))"

definition maybe_open :: "ClassicChannel \<Rightarrow> ClassicChannel" where
  "maybe_open c = (if local_config_done c \<and> remote_config_done c then c\<lparr>ch_state := Open\<rparr> else c)"

section \<open>The manager\<close>

abbreviation (input) CLASSIC_MIN_DYNAMIC_CID :: u16 where "CLASSIC_MIN_DYNAMIC_CID \<equiv> 0x0040"
abbreviation (input) CLASSIC_MAX_DYNAMIC_CID :: u16 where "CLASSIC_MAX_DYNAMIC_CID \<equiv> 0xFFFF"

record ClassicChannelManager =
  cl_channels :: "ClassicChannel CidAllocator"
  servers :: "u16 set"

definition ClassicChannelManager_new :: ClassicChannelManager where
  "ClassicChannelManager_new =
     \<lparr>cl_channels = CidAllocator_new CLASSIC_MIN_DYNAMIC_CID CLASSIC_MAX_DYNAMIC_CID, servers = {}\<rparr>"

definition unknown_cid :: "u16 \<Rightarrow> SimbleError" where
  "unknown_cid cid = DeviceError ''L2CAP Classic: unknown CID''"

definition register_server :: "ClassicChannelManager \<Rightarrow> u16 \<Rightarrow> unit result \<times> ClassicChannelManager" where
  "register_server m psm =
     (if psm \<in> servers m then (Inl (DeviceError ''L2CAP Classic: PSM already registered''), m)
      else (Inr (), m\<lparr>servers := insert psm (servers m)\<rparr>))"

definition unregister_server :: "ClassicChannelManager \<Rightarrow> u16 \<Rightarrow> ClassicChannelManager" where
  "unregister_server m psm = m\<lparr>servers := servers m - {psm}\<rparr>"

definition is_server_registered :: "ClassicChannelManager \<Rightarrow> u16 \<Rightarrow> bool" where
  "is_server_registered m psm = (psm \<in> servers m)"

definition Classic_allocate_cid :: "ClassicChannelManager \<Rightarrow> u16 result \<times> ClassicChannelManager" where
  "Classic_allocate_cid m =
     (case CidAllocator_allocate (cl_channels m) of
        (None, a) \<Rightarrow>
          (Inl (DeviceError ''L2CAP Classic: All dynamic CIDs exhausted''), m\<lparr>cl_channels := a\<rparr>)
      | (Some cid, a) \<Rightarrow> (Inr cid, m\<lparr>cl_channels := a\<rparr>))"

definition Classic_get_channel :: "ClassicChannelManager \<Rightarrow> u16 \<Rightarrow> ClassicChannel option" where
  "Classic_get_channel m cid = CidAllocator_get (cl_channels m) cid"

definition Classic_remove_channel ::
  "ClassicChannelManager \<Rightarrow> u16 \<Rightarrow> ClassicChannel option \<times> ClassicChannelManager" where
  "Classic_remove_channel m cid =
     (case CidAllocator_remove (cl_channels m) cid of (c, a) \<Rightarrow> (c, m\<lparr>cl_channels := a\<rparr>))"

definition Classic_connect ::
  "ClassicChannelManager \<Rightarrow> ClassicChannelSpec
   \<Rightarrow> (u16 \<times> ConnectionRequestHeader) result \<times> ClassicChannelManager" where
  "Classic_connect m spec =
     (case Classic_allocate_cid m of
        (Inl e, m') \<Rightarrow> (Inl e, m')
      | (Inr cid, m') \<Rightarrow>
          (Inr (cid, \<lparr>cnq_psm = spec_psm spec, cnq_source_cid = cid\<rparr>),
           m'\<lparr>cl_channels := CidAllocator_insert (cl_channels m') cid
                \<lparr>ch_cid = cid, ch_peer_cid = 0, ch_psm = spec_psm spec, ch_mtu = spec_mtu spec,
                 ch_peer_mtu = MIN_BR_EDR_MTU, ch_state = WaitConnectRsp,
                 local_config_done = False, remote_config_done = False\<rparr>\<rparr>))"

definition on_connection_request ::
  "ClassicChannelManager \<Rightarrow> ConnectionRequestHeader \<Rightarrow> u16
   \<Rightarrow> ConnectionResponseHeader result \<times> ClassicChannelManager" where
  "on_connection_request m request mtu =
     (let psm = cnq_psm request in
      if psm \<notin> servers m then
        (Inr \<lparr>cnr_destination_cid = 0, cnr_source_cid = cnq_source_cid request,
              cnr_result = REFUSED_PSM_NOT_SUPPORTED, cnr_status = 0\<rparr>, m)
      else case Classic_allocate_cid m of
        (Inl e, m') \<Rightarrow> (Inl e, m')
      | (Inr cid, m') \<Rightarrow>
          (Inr \<lparr>cnr_destination_cid = cid, cnr_source_cid = cnq_source_cid request,
                cnr_result = SUCCESSFUL, cnr_status = 0\<rparr>,
           m'\<lparr>cl_channels := CidAllocator_insert (cl_channels m') cid
                \<lparr>ch_cid = cid, ch_peer_cid = cnq_source_cid request, ch_psm = psm, ch_mtu = mtu,
                 ch_peer_mtu = MIN_BR_EDR_MTU, ch_state = WaitConfig,
                 local_config_done = False, remote_config_done = False\<rparr>\<rparr>))"

text \<open>A handler that looks its channel up with \<^verbatim>\<open>get_mut\<close> and fails on an unknown identifier.\<close>

definition with_channel ::
  "ClassicChannelManager \<Rightarrow> u16 \<Rightarrow> (ClassicChannel \<Rightarrow> 'r result \<times> ClassicChannel)
   \<Rightarrow> 'r result \<times> ClassicChannelManager" where
  "with_channel m cid f =
     (case Classic_get_channel m cid of
        None \<Rightarrow> (Inl (unknown_cid cid), m)
      | Some c \<Rightarrow>
          (fst (f c), m\<lparr>cl_channels := CidAllocator_modify (cl_channels m) cid (\<lambda>c. snd (f c))\<rparr>))"

definition on_connection_response ::
  "ClassicChannelManager \<Rightarrow> u16 \<Rightarrow> ConnectionResponseHeader
   \<Rightarrow> unit result \<times> ClassicChannelManager" where
  "on_connection_response m local_cid response =
     (let result = cnr_result response in
      if result = PENDING then (Inr (), m)
      else if result \<noteq> SUCCESSFUL then
        (Inl (DeviceError ''L2CAP Classic: connection refused''),
         snd (Classic_remove_channel m local_cid))
      else with_channel m local_cid (\<lambda>c.
        (Inr (), c\<lparr>ch_peer_cid := cnr_destination_cid response, ch_state := WaitConfig\<rparr>)))"

definition make_configuration_request ::
  "ClassicChannelManager \<Rightarrow> u16 \<Rightarrow> (ConfigurationRequestHeader \<times> bytes) result" where
  "make_configuration_request m cid =
     (case Classic_get_channel m cid of
        None \<Rightarrow> Inl (unknown_cid cid)
      | Some c \<Rightarrow>
          Inr (\<lparr>cfq_destination_cid = ch_peer_cid c, cfq_flags = 0\<rparr>, encode_mtu_option (ch_mtu c)))"

definition on_configuration_request ::
  "ClassicChannelManager \<Rightarrow> u16 \<Rightarrow> bytes
   \<Rightarrow> ConfigurationResponseHeader result \<times> ClassicChannelManager" where
  "on_configuration_request m cid options =
     with_channel m cid (\<lambda>c.
       let c1 = (case parse_mtu_option options of Some mtu \<Rightarrow> c\<lparr>ch_peer_mtu := mtu\<rparr> | None \<Rightarrow> c);
           c2 = maybe_open (c1\<lparr>remote_config_done := True\<rparr>)
       in (Inr \<lparr>cfr_source_cid = ch_peer_cid c2, cfr_flags = 0, cfr_result = CONFIG_SUCCESS\<rparr>, c2))"

definition on_configuration_response ::
  "ClassicChannelManager \<Rightarrow> u16 \<Rightarrow> ConfigurationResponseHeader
   \<Rightarrow> unit result \<times> ClassicChannelManager" where
  "on_configuration_response m cid response =
     with_channel m cid (\<lambda>c.
       if cfr_result response \<noteq> CONFIG_SUCCESS then
         (Inl (DeviceError ''L2CAP Classic: configuration rejected''), c)
       else (Inr (), maybe_open (c\<lparr>local_config_done := True\<rparr>)))"

definition Classic_disconnect ::
  "ClassicChannelManager \<Rightarrow> u16 \<Rightarrow> (u16 \<times> u16) result \<times> ClassicChannelManager" where
  "Classic_disconnect m cid =
     with_channel m cid (\<lambda>c. (Inr (ch_peer_cid c, ch_cid c), c\<lparr>ch_state := WaitDisconnect\<rparr>))"

interpretation classic_table: cid_table CLASSIC_MIN_DYNAMIC_CID CLASSIC_MAX_DYNAMIC_CID
  "cid_inv CLASSIC_MIN_DYNAMIC_CID CLASSIC_MAX_DYNAMIC_CID"
  "CidAllocator_allocate :: ClassicChannel CidAllocator \<Rightarrow> _" CidAllocator_insert CidAllocator_get
  CidAllocator_remove
  by (rule cid_allocator_contract)

section \<open>Invariant\<close>

text \<open>
  A channel is stored under its own identifier, and an open channel has been configured in both
  directions.
\<close>

definition channel_ok :: "u16 \<Rightarrow> ClassicChannel \<Rightarrow> bool" where
  "channel_ok cid c =
     (ch_cid c = cid \<and> (ch_state c = Open \<longrightarrow> local_config_done c \<and> remote_config_done c))"

definition classic_inv :: "ClassicChannelManager \<Rightarrow> bool" where
  "classic_inv m =
     (cid_inv CLASSIC_MIN_DYNAMIC_CID CLASSIC_MAX_DYNAMIC_CID (cl_channels m)
      \<and> (\<forall>cid c. Classic_get_channel m cid = Some c \<longrightarrow> channel_ok cid c))"

datatype classic_event =
    RegisterServer u16
  | UnregisterServer u16
  | Connect ClassicChannelSpec
  | ConnectionRequest ConnectionRequestHeader u16
  | ConnectionResponse u16 ConnectionResponseHeader
  | ConfigurationRequest u16 bytes
  | ConfigurationResponse u16 ConfigurationResponseHeader
  | Disconnect u16
  | RemoveChannel u16

fun classic_step :: "ClassicChannelManager \<Rightarrow> classic_event \<Rightarrow> ClassicChannelManager" where
  "classic_step m (RegisterServer psm) = snd (register_server m psm)"
| "classic_step m (UnregisterServer psm) = unregister_server m psm"
| "classic_step m (Connect spec) = snd (Classic_connect m spec)"
| "classic_step m (ConnectionRequest req mtu) = snd (on_connection_request m req mtu)"
| "classic_step m (ConnectionResponse cid rsp) = snd (on_connection_response m cid rsp)"
| "classic_step m (ConfigurationRequest cid opts) = snd (on_configuration_request m cid opts)"
| "classic_step m (ConfigurationResponse cid rsp) = snd (on_configuration_response m cid rsp)"
| "classic_step m (Disconnect cid) = snd (Classic_disconnect m cid)"
| "classic_step m (RemoveChannel cid) = snd (Classic_remove_channel m cid)"

definition classic_reach :: "classic_event list \<Rightarrow> ClassicChannelManager" where
  "classic_reach es = foldl classic_step ClassicChannelManager_new es"

lemma maybe_open_simps [simp]:
  "ch_cid (maybe_open c) = ch_cid c" "ch_peer_cid (maybe_open c) = ch_peer_cid c"
  "ch_psm (maybe_open c) = ch_psm c" "ch_mtu (maybe_open c) = ch_mtu c"
  "ch_peer_mtu (maybe_open c) = ch_peer_mtu c"
  "local_config_done (maybe_open c) = local_config_done c"
  "remote_config_done (maybe_open c) = remote_config_done c"
  by (simp_all add: maybe_open_def)

lemma with_channel_get:
  "Classic_get_channel (snd (with_channel m cid f)) =
     (Classic_get_channel m)(cid := map_option (\<lambda>c. snd (f c)) (Classic_get_channel m cid))"
  by (auto simp: with_channel_def Classic_get_channel_def CidAllocator_get_def CidAllocator_modify_def
      fun_eq_iff split: option.splits)

lemma with_channel_fst:
  "Classic_get_channel m cid = Some c \<Longrightarrow> fst (with_channel m cid f) = fst (f c)"
  by (simp add: with_channel_def)

lemma with_channel_table:
  assumes "cid_inv lo hi (cl_channels m)"
  shows "cid_inv lo hi (cl_channels (snd (with_channel m cid f)))"
  using assms by (auto simp: with_channel_def CidAllocator_modify_def cid_inv_def split: option.splits)

lemma with_channel_inv:
  assumes "classic_inv m" and "\<And>c. channel_ok cid c \<Longrightarrow> channel_ok cid (snd (f c))"
  shows "classic_inv (snd (with_channel m cid f))"
  using assms with_channel_table
  by (auto simp: classic_inv_def with_channel_get map_option_case split: option.splits)

text \<open>Allocating an identifier and storing a fresh channel under it.\<close>

lemma Classic_open_channel:
  assumes "classic_inv m" and "Classic_allocate_cid m = (Inr cid, m')" and "channel_ok cid c"
  defines "m'' \<equiv> m'\<lparr>cl_channels := CidAllocator_insert (cl_channels m') cid c\<rparr>"
  shows "classic_inv m''" and "Classic_get_channel m'' = (Classic_get_channel m)(cid \<mapsto> c)"
    and "Classic_get_channel m cid = None"
proof -
  obtain a where a: "CidAllocator_allocate (cl_channels m) = (Some cid, a)"
      "m' = m\<lparr>cl_channels := a\<rparr>"
    using assms(2) by (auto simp: Classic_allocate_cid_def split: prod.splits option.splits)
  have "cid_inv CLASSIC_MIN_DYNAMIC_CID CLASSIC_MAX_DYNAMIC_CID (cl_channels m)"
    using assms(1) by (simp add: classic_inv_def)
  note opened = classic_table.open_channel [OF this a(1)]
  then show get: "Classic_get_channel m'' = (Classic_get_channel m)(cid \<mapsto> c)"
    and "Classic_get_channel m cid = None"
    by (auto simp: m''_def a(2) Classic_get_channel_def fun_eq_iff)
  show "classic_inv m''"
    using opened(1) get assms(1,3) by (auto simp: m''_def a(2) classic_inv_def split: if_splits)
qed

lemma Classic_allocate_fail:
  assumes "classic_inv m" and "Classic_allocate_cid m = (Inl e, m')"
  shows "classic_inv m'"
proof -
  have table: "cid_inv CLASSIC_MIN_DYNAMIC_CID CLASSIC_MAX_DYNAMIC_CID (cl_channels m)"
    using assms(1) by (simp add: classic_inv_def)
  show ?thesis
    using assms classic_table.alloc_inv [OF table] classic_table.alloc_lookup [OF table]
    by (auto simp: Classic_allocate_cid_def classic_inv_def Classic_get_channel_def
        split: prod.splits option.splits)
qed

lemma Classic_connect_inv: "classic_inv m \<Longrightarrow> classic_inv (snd (Classic_connect m spec))"
  by (auto simp: Classic_connect_def channel_ok_def split: prod.splits sum.splits
      intro: Classic_allocate_fail intro!: Classic_open_channel(1))

lemma on_connection_request_inv: "classic_inv m \<Longrightarrow> classic_inv (snd (on_connection_request m req mtu))"
  by (auto simp: on_connection_request_def channel_ok_def Let_def split: prod.splits sum.splits
      intro: Classic_allocate_fail intro!: Classic_open_channel(1))

lemma Classic_remove_channel_inv: "classic_inv m \<Longrightarrow> classic_inv (snd (Classic_remove_channel m cid))"
  using classic_table.del_inv [of "cl_channels m" cid] classic_table.del_lookup [of "cl_channels m" cid]
  by (auto simp: classic_inv_def Classic_remove_channel_def Classic_get_channel_def
      split: prod.splits if_splits)

lemma servers_inv:
  "classic_inv m \<Longrightarrow> classic_inv (snd (register_server m psm))"
  "classic_inv m \<Longrightarrow> classic_inv (unregister_server m psm)"
  by (auto simp: register_server_def unregister_server_def classic_inv_def Classic_get_channel_def)

lemma classic_step_inv: "classic_inv m \<Longrightarrow> classic_inv (classic_step m e)"
proof (cases e)
  case (ConfigurationRequest cid opts)
  then show "classic_inv m \<Longrightarrow> ?thesis"
    by (auto simp: on_configuration_request_def Let_def channel_ok_def maybe_open_def
        intro!: with_channel_inv split: option.splits if_splits)
next
  case (ConfigurationResponse cid rsp)
  then show "classic_inv m \<Longrightarrow> ?thesis"
    by (auto simp: on_configuration_response_def channel_ok_def maybe_open_def
        intro!: with_channel_inv)
next
  case (ConnectionResponse cid rsp)
  then show "classic_inv m \<Longrightarrow> ?thesis"
    by (auto simp: on_connection_response_def Let_def channel_ok_def
        intro!: with_channel_inv Classic_remove_channel_inv)
next
  case (Disconnect cid)
  then show "classic_inv m \<Longrightarrow> ?thesis"
    by (auto simp: Classic_disconnect_def channel_ok_def intro!: with_channel_inv)
qed (auto simp: servers_inv intro: Classic_connect_inv on_connection_request_inv
    Classic_remove_channel_inv)

lemma classic_inv_new: "classic_inv ClassicChannelManager_new"
  by (auto simp: classic_inv_def ClassicChannelManager_new_def CidAllocator_new_def cid_inv_def
      Classic_get_channel_def CidAllocator_get_def)

lemma classic_reach_inv: "classic_inv (classic_reach es)"
  unfolding classic_reach_def
  by (induction es rule: rev_induct) (simp_all add: classic_inv_new classic_step_inv)

text \<open>Whatever sequence of registrations, requests, responses, disconnections and removals a
  manager processes, every channel in its table is stored under its own identifier, which lies in
  the dynamic range, and a channel is open only once both configuration directions are done.\<close>
theorem classic_channels_invariant:
  assumes "Classic_get_channel (classic_reach es) cid = Some c"
  shows "ch_cid c = cid \<and> CLASSIC_MIN_DYNAMIC_CID \<le> cid
    \<and> (ClassicChannel_is_open c \<longrightarrow> local_config_done c \<and> remote_config_done c)"
  using assms classic_reach_inv [of es]
  by (auto simp: classic_inv_def channel_ok_def cid_inv_def ClassicChannel_is_open_def
      Classic_get_channel_def CidAllocator_get_def)

theorem classic_channels_invariant_witness:
  "\<exists>c. Classic_get_channel (classic_reach [Connect (ClassicChannelSpec_new 1)]) 0x40 = Some c
    \<and> ch_cid c = 0x40 \<and> CLASSIC_MIN_DYNAMIC_CID \<le> (0x40 :: u16)
    \<and> (ClassicChannel_is_open c \<longrightarrow> local_config_done c \<and> remote_config_done c)"
proof -
  obtain c where c: "Classic_get_channel (classic_reach [Connect (ClassicChannelSpec_new 1)]) 0x40 = Some c"
    by (simp add: classic_reach_def Classic_connect_def Classic_allocate_cid_def allocate_next_free
        ClassicChannelManager_new_def CidAllocator_new_def Classic_get_channel_def CidAllocator_get_def
        CidAllocator_insert_def Let_def advance_cid_def)
  with classic_channels_invariant [OF c] show ?thesis by blast
qed

section \<open>Opening a channel\<close>

text \<open>
  The exchange a client and a server go through, each message produced by one manager's handler and
  consumed by the other's: connection request and response, then a configuration request and
  response in each direction. The result is the pair of local identifiers with both managers.
\<close>

definition open_exchange ::
  "ClassicChannelManager \<Rightarrow> ClassicChannelManager \<Rightarrow> ClassicChannelSpec \<Rightarrow> u16
   \<Rightarrow> (u16 \<times> u16 \<times> ClassicChannelManager \<times> ClassicChannelManager) result" where
  "open_exchange a b spec mtu =
     (case Classic_connect a spec of
        (Inl e, _) \<Rightarrow> Inl e
      | (Inr (ca, req), a1) \<Rightarrow>
     (case on_connection_request b req mtu of
        (Inl e, _) \<Rightarrow> Inl e
      | (Inr rsp, b1) \<Rightarrow>
     (case on_connection_response a1 ca rsp of
        (Inl e, _) \<Rightarrow> Inl e
      | (Inr _, a2) \<Rightarrow>
     (case make_configuration_request a2 ca of
        Inl e \<Rightarrow> Inl e
      | Inr (qa, oa) \<Rightarrow>
     (case on_configuration_request b1 (cfq_destination_cid qa) oa of
        (Inl e, _) \<Rightarrow> Inl e
      | (Inr ra, b2) \<Rightarrow>
     (case on_configuration_response a2 (cfr_source_cid ra) ra of
        (Inl e, _) \<Rightarrow> Inl e
      | (Inr _, a3) \<Rightarrow>
     (case make_configuration_request b2 (cfq_destination_cid qa) of
        Inl e \<Rightarrow> Inl e
      | Inr (qb, ob) \<Rightarrow>
     (case on_configuration_request a3 (cfq_destination_cid qb) ob of
        (Inl e, _) \<Rightarrow> Inl e
      | (Inr rb, a4) \<Rightarrow>
     (case on_configuration_response b2 (cfr_source_cid rb) rb of
        (Inl e, _) \<Rightarrow> Inl e
      | (Inr _, b3) \<Rightarrow> Inr (ca, cfq_destination_cid qa, a4, b3))))))))))"

definition put_channel :: "ClassicChannelManager \<Rightarrow> u16 \<Rightarrow> ClassicChannel \<Rightarrow> ClassicChannelManager" where
  "put_channel m cid c = m\<lparr>cl_channels := CidAllocator_insert (cl_channels m) cid c\<rparr>"

lemma get_put_channel [simp]:
  "Classic_get_channel (put_channel m cid c) = (Classic_get_channel m)(cid \<mapsto> c)"
  by (simp add: put_channel_def Classic_get_channel_def CidAllocator_get_def CidAllocator_insert_def
      fun_eq_iff)

lemma with_channel_Some:
  "Classic_get_channel m cid = Some c \<Longrightarrow>
     with_channel m cid f = (fst (f c), put_channel m cid (snd (f c)))"
  by (simp add: with_channel_def put_channel_def CidAllocator_modify_def CidAllocator_insert_def
      Classic_get_channel_def CidAllocator_get_def)

lemma Classic_allocate_cid_free:
  assumes "classic_inv m" "Classic_get_channel m free = None" "CLASSIC_MIN_DYNAMIC_CID \<le> free"
  shows "\<exists>cid m'. Classic_allocate_cid m = (Inr cid, m') \<and> servers m' = servers m
    \<and> Classic_get_channel m' = Classic_get_channel m \<and> Classic_get_channel m cid = None"
proof -
  have table: "cid_inv CLASSIC_MIN_DYNAMIC_CID CLASSIC_MAX_DYNAMIC_CID (cl_channels m)"
    using assms(1) by (simp add: classic_inv_def)
  obtain cid a where alloc: "CidAllocator_allocate (cl_channels m) = (Some cid, a)"
    using classic_table.alloc_succeeds_if_free [OF table, of free] assms(2,3)
    by (auto simp: Classic_get_channel_def)
  then have "Classic_allocate_cid m = (Inr cid, m\<lparr>cl_channels := a\<rparr>)"
    by (simp add: Classic_allocate_cid_def)
  moreover have "CidAllocator_get a = CidAllocator_get (cl_channels m)"
      "CidAllocator_get (cl_channels m) cid = None"
    using classic_table.alloc_lookup [OF table] classic_table.alloc_Some [OF table] alloc by auto
  ultimately show ?thesis
    by (auto simp: Classic_get_channel_def)
qed

text \<open>C10: When the server has registered the service and each side has a free identifier, the whole
  exchange goes through: both ends are open, each knows the other's identifier and has adopted the
  other's MTU as its send budget, and no other channel of either side has changed.\<close>
theorem open_exchange_opens_both_ends:
  assumes "classic_inv a" "classic_inv b" "spec_psm spec \<in> servers b"
    and "Classic_get_channel a fa = None" "CLASSIC_MIN_DYNAMIC_CID \<le> fa"
    and "Classic_get_channel b fb = None" "CLASSIC_MIN_DYNAMIC_CID \<le> fb"
  shows "\<exists>ca cb a' b' xa xb. open_exchange a b spec mtu = Inr (ca, cb, a', b')
    \<and> Classic_get_channel a ca = None \<and> Classic_get_channel b cb = None
    \<and> Classic_get_channel a' = (Classic_get_channel a)(ca \<mapsto> xa)
    \<and> Classic_get_channel b' = (Classic_get_channel b)(cb \<mapsto> xb)
    \<and> ClassicChannel_is_open xa \<and> ClassicChannel_is_open xb
    \<and> ch_peer_cid xa = cb \<and> ch_peer_cid xb = ca
    \<and> ch_mtu xa = spec_mtu spec \<and> ch_peer_mtu xb = spec_mtu spec
    \<and> ch_mtu xb = mtu \<and> ch_peer_mtu xa = mtu"
proof -
  obtain ca a1 where a1: "Classic_allocate_cid a = (Inr ca, a1)"
      "Classic_get_channel a1 = Classic_get_channel a" "Classic_get_channel a ca = None"
    using Classic_allocate_cid_free [OF assms(1,4,5)] by blast
  obtain cb b1 where b1: "Classic_allocate_cid b = (Inr cb, b1)" "servers b1 = servers b"
      "Classic_get_channel b1 = Classic_get_channel b" "Classic_get_channel b cb = None"
    using Classic_allocate_cid_free [OF assms(2,6,7)] by blast
  show ?thesis
    using a1 b1 assms(3)
    by (simp add: open_exchange_def Classic_connect_def on_connection_request_def Let_def
        on_connection_response_def make_configuration_request_def on_configuration_request_def
        on_configuration_response_def put_channel_def [symmetric] with_channel_Some maybe_open_def
        ClassicChannel_is_open_def)
qed

theorem open_exchange_opens_both_ends_witness:
  "let b = snd (register_server ClassicChannelManager_new 0x19); spec = ClassicChannelSpec_new 0x19 in
    \<exists>ca cb a' b' xa xb. open_exchange ClassicChannelManager_new b spec 672 = Inr (ca, cb, a', b')
    \<and> Classic_get_channel ClassicChannelManager_new ca = None \<and> Classic_get_channel b cb = None
    \<and> Classic_get_channel a' = (Classic_get_channel ClassicChannelManager_new)(ca \<mapsto> xa)
    \<and> Classic_get_channel b' = (Classic_get_channel b)(cb \<mapsto> xb)
    \<and> ClassicChannel_is_open xa \<and> ClassicChannel_is_open xb
    \<and> ch_peer_cid xa = cb \<and> ch_peer_cid xb = ca
    \<and> ch_mtu xa = spec_mtu spec \<and> ch_peer_mtu xb = spec_mtu spec
    \<and> ch_mtu xb = 672 \<and> ch_peer_mtu xa = 672"
  unfolding Let_def
  by (rule open_exchange_opens_both_ends [where fa = "0x40" and fb = "0x40"])
    (use classic_inv_new classic_step_inv [OF classic_inv_new, of "RegisterServer 0x19"] in
      \<open>auto simp: register_server_def ClassicChannelManager_new_def ClassicChannelSpec_new_def
        Classic_get_channel_def CidAllocator_get_def CidAllocator_new_def\<close>)

text \<open>A connection to a service nobody registered is refused with the PSM-not-supported result,
  creates no channel on the server, and the refusal removes the half-open channel at the client.\<close>
theorem unregistered_psm_is_refused:
  assumes "cnq_psm req \<notin> servers b" "cnq_source_cid req = ca"
  shows "\<exists>rsp. on_connection_request b req mtu = (Inr rsp, b)
    \<and> cnr_result rsp = REFUSED_PSM_NOT_SUPPORTED \<and> cnr_source_cid rsp = ca
    \<and> isl (fst (on_connection_response a ca rsp))
    \<and> Classic_get_channel (snd (on_connection_response a ca rsp)) = (Classic_get_channel a)(ca := None)"
  using assms
  by (simp add: on_connection_request_def Let_def on_connection_response_def Classic_remove_channel_def
      CidAllocator_remove_def Classic_get_channel_def CidAllocator_get_def fun_eq_iff)

theorem unregistered_psm_is_refused_witness:
  "\<exists>rsp. on_connection_request ClassicChannelManager_new \<lparr>cnq_psm = 3, cnq_source_cid = 0x40\<rparr> 672
      = (Inr rsp, ClassicChannelManager_new)
    \<and> cnr_result rsp = REFUSED_PSM_NOT_SUPPORTED \<and> cnr_source_cid rsp = 0x40
    \<and> isl (fst (on_connection_response ClassicChannelManager_new 0x40 rsp))
    \<and> Classic_get_channel (snd (on_connection_response ClassicChannelManager_new 0x40 rsp))
        = (Classic_get_channel ClassicChannelManager_new)(0x40 := None)"
  by (rule unregistered_psm_is_refused) (simp_all add: ClassicChannelManager_new_def)

text \<open>A configuration request that arrives after the local side started to disconnect puts an
  already configured channel back into the open state: the handler does not look at the state.\<close>
theorem late_configuration_reopens:
  assumes "Classic_get_channel m cid = Some c" "local_config_done c"
  defines "m1 \<equiv> snd (Classic_disconnect m cid)"
  shows "map_option ch_state (Classic_get_channel m1 cid) = Some WaitDisconnect
    \<and> map_option ch_state (Classic_get_channel (snd (on_configuration_request m1 cid opts)) cid)
       = Some Open"
  using assms
  by (simp add: m1_def Classic_disconnect_def on_configuration_request_def with_channel_get
      maybe_open_def Let_def split: option.splits)

theorem late_configuration_reopens_witness:
  "let c = \<lparr>ch_cid = 0x40, ch_peer_cid = 0x41, ch_psm = 1, ch_mtu = 672, ch_peer_mtu = 672,
            ch_state = Open, local_config_done = True, remote_config_done = True\<rparr>;
       m1 = snd (Classic_disconnect (put_channel ClassicChannelManager_new 0x40 c) 0x40) in
    map_option ch_state (Classic_get_channel m1 0x40) = Some WaitDisconnect
    \<and> map_option ch_state (Classic_get_channel (snd (on_configuration_request m1 0x40 [])) 0x40)
       = Some Open"
  unfolding Let_def by (rule late_configuration_reopens, simp, simp)

end
