(* ===== verification/Btree_Map.thy ===== *)
theory Btree_Map
  imports Prelude
begin

text \<open>
  The part of \<^verbatim>\<open>std::collections::BTreeMap<u16, V>\<close> the sources use: a map whose iteration order is
  the order of its keys. It is kept as the list of its entries; the contract a client relies on is
  the locale \<open>ordered_map\<close>, with the lemmas about iteration and ranges proved from the contract.
\<close>

section \<open>Contract\<close>

locale ordered_map =
  fixes inv :: "'m \<Rightarrow> bool"
    and get :: "'m \<Rightarrow> u16 \<Rightarrow> 'v option"
    and entries :: "'m \<Rightarrow> (u16 \<times> 'v) list"
    and ins :: "u16 \<Rightarrow> 'v \<Rightarrow> 'm \<Rightarrow> 'm"
    and modify :: "u16 \<Rightarrow> ('v \<Rightarrow> 'v) \<Rightarrow> 'm \<Rightarrow> 'm"
    and del :: "u16 \<Rightarrow> 'm \<Rightarrow> 'm"
  assumes entries_sorted: "inv m \<Longrightarrow> sorted_wrt (<) (map fst (entries m))"
    and entries_get: "inv m \<Longrightarrow> (k, v) \<in> set (entries m) \<longleftrightarrow> get m k = Some v"
    and ins_inv: "inv m \<Longrightarrow> inv (ins k v m)"
    and ins_get: "inv m \<Longrightarrow> get (ins k v m) = (get m)(k \<mapsto> v)"
    and modify_inv: "inv m \<Longrightarrow> inv (modify k f m)"
    and modify_get: "inv m \<Longrightarrow> get (modify k f m) = (get m)(k := map_option f (get m k))"
    and del_inv: "inv m \<Longrightarrow> inv (del k m)"
    and del_get: "inv m \<Longrightarrow> get (del k m) = (get m)(k := None)"
begin

text \<open>A range visits exactly the entries with a key in it, in ascending order.\<close>

lemma range_sorted: "inv m \<Longrightarrow> sorted_wrt (<) (map fst (filter P (entries m)))"
  using entries_sorted [of m] by (simp add: sorted_wrt_map sorted_wrt_filter)

lemma range_mem: "inv m \<Longrightarrow> (k, v) \<in> set (filter P (entries m)) \<longleftrightarrow> get m k = Some v \<and> P (k, v)"
  by (auto simp: entries_get)

lemma entries_distinct: "inv m \<Longrightarrow> distinct (map fst (entries m))"
  using entries_sorted [of m] strict_sorted_iff by blast

lemma get_None_iff:
  assumes "inv m"
  shows "get m k = None \<longleftrightarrow> k \<notin> fst ` set (entries m)"
proof -
  have "k \<in> fst ` set (entries m) \<longleftrightarrow> (\<exists>v. get m k = Some v)"
    using entries_get [OF assms, of k] by force
  then show ?thesis by (cases "get m k") auto
qed

end

section \<open>Sorted association lists\<close>

type_synonym 'v btree_map = "(u16 \<times> 'v) list"

definition bt_inv :: "'v btree_map \<Rightarrow> bool" where
  "bt_inv m = sorted_wrt (<) (map fst m)"

definition bt_get :: "'v btree_map \<Rightarrow> u16 \<Rightarrow> 'v option" where
  "bt_get m k = map_of m k"

fun bt_insert :: "u16 \<Rightarrow> 'v \<Rightarrow> 'v btree_map \<Rightarrow> 'v btree_map" where
  "bt_insert k v [] = [(k, v)]"
| "bt_insert k v ((k', v') # m) =
     (if k < k' then (k, v) # (k', v') # m
      else if k = k' then (k, v) # m
      else (k', v') # bt_insert k v m)"

text \<open>Writing through \<^verbatim>\<open>get_mut\<close>.\<close>

definition bt_modify :: "u16 \<Rightarrow> ('v \<Rightarrow> 'v) \<Rightarrow> 'v btree_map \<Rightarrow> 'v btree_map" where
  "bt_modify k f m = map (\<lambda>(k', v). (k', if k' = k then f v else v)) m"

definition bt_remove :: "u16 \<Rightarrow> 'v btree_map \<Rightarrow> 'v btree_map" where
  "bt_remove k m = filter (\<lambda>(k', _). k' \<noteq> k) m"

text \<open>\<^verbatim>\<open>range(lo..=hi)\<close> and \<^verbatim>\<open>range(lo..)\<close>.\<close>

definition bt_range :: "u16 \<Rightarrow> u16 \<Rightarrow> 'v btree_map \<Rightarrow> (u16 \<times> 'v) list" where
  "bt_range lo hi m = filter (\<lambda>(k, _). lo \<le> k \<and> k \<le> hi) m"

definition bt_range_from :: "u16 \<Rightarrow> 'v btree_map \<Rightarrow> (u16 \<times> 'v) list" where
  "bt_range_from lo m = filter (\<lambda>(k, _). lo \<le> k) m"

lemma bt_insert_set_keys: "fst ` set (bt_insert k v m) = insert k (fst ` set m)"
proof (induction m)
  case (Cons e m)
  then show ?case by (cases e) (simp add: insert_commute)
qed simp

lemma bt_insert_inv: "bt_inv m \<Longrightarrow> bt_inv (bt_insert k v m)"
proof (induction m)
  case Nil
  then show ?case by (simp add: bt_inv_def)
next
  case (Cons e m)
  then have inv: "bt_inv (bt_insert k v m)" "\<forall>x \<in> fst ` set m. fst e < x"
    by (simp_all add: bt_inv_def)
  with Cons.prems show ?case
    using bt_insert_set_keys [of k v m]
    by (cases e) (auto simp: bt_inv_def)
qed

lemma bt_insert_get: "bt_inv m \<Longrightarrow> bt_get (bt_insert k v m) = (bt_get m)(k \<mapsto> v)"
  by (induction m) (auto simp: bt_get_def bt_inv_def fun_eq_iff)

lemma bt_modify_get: "bt_get (bt_modify k f m) = (bt_get m)(k := map_option f (bt_get m k))"
  by (induction m) (auto simp: bt_get_def bt_modify_def fun_eq_iff)

lemma bt_modify_keys [simp]: "map fst (bt_modify k f m) = map fst m"
  by (induction m) (auto simp: bt_modify_def)

lemma bt_remove_get: "bt_get (bt_remove k m) = (bt_get m)(k := None)"
  by (induction m) (auto simp: bt_get_def bt_remove_def fun_eq_iff)

lemma bt_modify_inv: "bt_inv m \<Longrightarrow> bt_inv (bt_modify k f m)"
  by (simp add: bt_inv_def)

interpretation bt: ordered_map bt_inv bt_get "\<lambda>m. m" bt_insert bt_modify bt_remove
proof
  fix m :: "'v btree_map" and k v
  assume inv: "bt_inv m"
  then have "distinct (map fst m)" by (simp add: bt_inv_def strict_sorted_iff)
  then show "(k, v) \<in> set m \<longleftrightarrow> bt_get m k = Some v"
    by (simp add: bt_get_def)
  show "sorted_wrt (<) (map fst m)"
    using inv by (simp add: bt_inv_def)
  show "bt_inv (bt_remove k m)"
    using inv by (simp add: bt_inv_def bt_remove_def sorted_wrt_map sorted_wrt_filter)
qed (auto intro: bt_insert_inv bt_modify_inv simp: bt_insert_get bt_modify_get bt_remove_get simp del: map_map)

text \<open>Inserting above every key appends.\<close>

lemma bt_insert_append: "\<forall>k' \<in> fst ` set m. k' < k \<Longrightarrow> bt_insert k v m = m @ [(k, v)]"
  by (induction m) auto

end
