(* ===== verification/Smp_Packets.thy ===== *)
theory Smp_Packets
  imports Prelude
begin

text \<open>
  Security Manager packets (\<open>src/src/packets/smp.rs\<close>): opcodes, capability, error and flag values,
  the fixed structures with their wire layouts, and their parsers.
\<close>

section \<open>Constants\<close>

abbreviation (input) smp_PAIRING_REQUEST :: u8 where "smp_PAIRING_REQUEST \<equiv> 0x01"
abbreviation (input) smp_PAIRING_RESPONSE :: u8 where "smp_PAIRING_RESPONSE \<equiv> 0x02"
abbreviation (input) smp_PAIRING_CONFIRM :: u8 where "smp_PAIRING_CONFIRM \<equiv> 0x03"
abbreviation (input) smp_PAIRING_RANDOM :: u8 where "smp_PAIRING_RANDOM \<equiv> 0x04"
abbreviation (input) smp_PAIRING_FAILED :: u8 where "smp_PAIRING_FAILED \<equiv> 0x05"
abbreviation (input) smp_ENCRYPTION_INFO :: u8 where "smp_ENCRYPTION_INFO \<equiv> 0x06"
abbreviation (input) smp_MASTER_IDENTIFICATION :: u8 where "smp_MASTER_IDENTIFICATION \<equiv> 0x07"
abbreviation (input) smp_IDENTITY_INFO :: u8 where "smp_IDENTITY_INFO \<equiv> 0x08"
abbreviation (input) smp_IDENTITY_ADDR_INFO :: u8 where "smp_IDENTITY_ADDR_INFO \<equiv> 0x09"
abbreviation (input) smp_SIGNING_INFO :: u8 where "smp_SIGNING_INFO \<equiv> 0x0A"
abbreviation (input) smp_SECURITY_REQUEST :: u8 where "smp_SECURITY_REQUEST \<equiv> 0x0B"
abbreviation (input) smp_PAIRING_PUBLIC_KEY :: u8 where "smp_PAIRING_PUBLIC_KEY \<equiv> 0x0C"
abbreviation (input) smp_PAIRING_DHKEY_CHECK :: u8 where "smp_PAIRING_DHKEY_CHECK \<equiv> 0x0D"

abbreviation (input) io_DISPLAY_ONLY :: u8 where "io_DISPLAY_ONLY \<equiv> 0x00"
abbreviation (input) io_DISPLAY_YES_NO :: u8 where "io_DISPLAY_YES_NO \<equiv> 0x01"
abbreviation (input) io_KEYBOARD_ONLY :: u8 where "io_KEYBOARD_ONLY \<equiv> 0x02"
abbreviation (input) io_NO_INPUT_NO_OUTPUT :: u8 where "io_NO_INPUT_NO_OUTPUT \<equiv> 0x03"
abbreviation (input) io_KEYBOARD_DISPLAY :: u8 where "io_KEYBOARD_DISPLAY \<equiv> 0x04"

abbreviation (input) smp_error_PASSKEY_ENTRY_FAILED :: u8 where "smp_error_PASSKEY_ENTRY_FAILED \<equiv> 0x01"
abbreviation (input) smp_error_OOB_NOT_AVAILABLE :: u8 where "smp_error_OOB_NOT_AVAILABLE \<equiv> 0x02"
abbreviation (input) smp_error_AUTHENTICATION_REQUIREMENTS :: u8 where "smp_error_AUTHENTICATION_REQUIREMENTS \<equiv> 0x03"
abbreviation (input) smp_error_CONFIRM_VALUE_FAILED :: u8 where "smp_error_CONFIRM_VALUE_FAILED \<equiv> 0x04"
abbreviation (input) smp_error_PAIRING_NOT_SUPPORTED :: u8 where "smp_error_PAIRING_NOT_SUPPORTED \<equiv> 0x05"
abbreviation (input) smp_error_ENCRYPTION_KEY_SIZE :: u8 where "smp_error_ENCRYPTION_KEY_SIZE \<equiv> 0x06"
abbreviation (input) smp_error_COMMAND_NOT_SUPPORTED :: u8 where "smp_error_COMMAND_NOT_SUPPORTED \<equiv> 0x07"
abbreviation (input) smp_error_UNSPECIFIED_REASON :: u8 where "smp_error_UNSPECIFIED_REASON \<equiv> 0x08"
abbreviation (input) smp_error_REPEATED_ATTEMPTS :: u8 where "smp_error_REPEATED_ATTEMPTS \<equiv> 0x09"
abbreviation (input) smp_error_INVALID_PARAMETERS :: u8 where "smp_error_INVALID_PARAMETERS \<equiv> 0x0A"
abbreviation (input) smp_error_DHKEY_CHECK_FAILED :: u8 where "smp_error_DHKEY_CHECK_FAILED \<equiv> 0x0B"
abbreviation (input) smp_error_NUMERIC_COMPARISON_FAILED :: u8 where "smp_error_NUMERIC_COMPARISON_FAILED \<equiv> 0x0C"
abbreviation (input) smp_error_BR_EDR_PAIRING_IN_PROGRESS :: u8 where "smp_error_BR_EDR_PAIRING_IN_PROGRESS \<equiv> 0x0D"
abbreviation (input) smp_error_CROSS_TRANSPORT_KEY_DERIVATION_NOT_ALLOWED :: u8 where "smp_error_CROSS_TRANSPORT_KEY_DERIVATION_NOT_ALLOWED \<equiv> 0x0E"

abbreviation (input) auth_req_BONDING :: u8 where "auth_req_BONDING \<equiv> 0x1"
abbreviation (input) auth_req_MITM :: u8 where "auth_req_MITM \<equiv> 0x4"
abbreviation (input) auth_req_SC :: u8 where "auth_req_SC \<equiv> 0x8"
abbreviation (input) auth_req_KEYPRESS :: u8 where "auth_req_KEYPRESS \<equiv> 0x10"
abbreviation (input) auth_req_CT2 :: u8 where "auth_req_CT2 \<equiv> 0x20"

abbreviation (input) key_dist_ENC_KEY :: u8 where "key_dist_ENC_KEY \<equiv> 0x1"
abbreviation (input) key_dist_ID_KEY :: u8 where "key_dist_ID_KEY \<equiv> 0x2"
abbreviation (input) key_dist_SIGN_KEY :: u8 where "key_dist_SIGN_KEY \<equiv> 0x4"
abbreviation (input) key_dist_LINK_KEY :: u8 where "key_dist_LINK_KEY \<equiv> 0x8"

section \<open>Structures\<close>

record SmpPairingPacket =
  spp_opcode :: u8
  spp_io_capability :: u8
  spp_oob_data_flag :: u8
  spp_auth_req :: u8
  spp_max_encryption_key_size :: u8
  spp_initiator_key_distribution :: u8
  spp_responder_key_distribution :: u8

record SmpPairingFailed =
  spf_opcode :: u8
  spf_reason :: u8

record MasterIdentification =
  mid_opcode :: u8
  mid_ediv :: u16
  mid_rand :: bytes

record IdentityAddressInformation =
  iai_opcode :: u8
  iai_addr_type :: u8
  iai_address :: bytes

definition SmpPairingPacket_as_bytes :: "SmpPairingPacket \<Rightarrow> bytes" where
  "SmpPairingPacket_as_bytes h =
     [spp_opcode h] @ [spp_io_capability h] @ [spp_oob_data_flag h] @ [spp_auth_req h] @
     [spp_max_encryption_key_size h] @ [spp_initiator_key_distribution h] @
     [spp_responder_key_distribution h]"

definition SmpPairingPacket_of_bytes :: "bytes \<Rightarrow> SmpPairingPacket" where
  "SmpPairingPacket_of_bytes bs =
     \<lparr>spp_opcode = bs ! 0, spp_io_capability = bs ! 1, spp_oob_data_flag = bs ! 2,
      spp_auth_req = bs ! 3, spp_max_encryption_key_size = bs ! 4,
      spp_initiator_key_distribution = bs ! 5, spp_responder_key_distribution = bs ! 6\<rparr>"

definition SmpPairingFailed_as_bytes :: "SmpPairingFailed \<Rightarrow> bytes" where
  "SmpPairingFailed_as_bytes h =
     [spf_opcode h] @ [spf_reason h]"

definition SmpPairingFailed_of_bytes :: "bytes \<Rightarrow> SmpPairingFailed" where
  "SmpPairingFailed_of_bytes bs =
     \<lparr>spf_opcode = bs ! 0, spf_reason = bs ! 1\<rparr>"

definition MasterIdentification_as_bytes :: "MasterIdentification \<Rightarrow> bytes" where
  "MasterIdentification_as_bytes h =
     [mid_opcode h] @ to_le_bytes (mid_ediv h) @ mid_rand h"

definition MasterIdentification_of_bytes :: "bytes \<Rightarrow> MasterIdentification" where
  "MasterIdentification_of_bytes bs =
     \<lparr>mid_opcode = bs ! 0, mid_ediv = from_le_bytes (bs ! 1) (bs ! 2),
      mid_rand = take 8 (drop 3 bs)\<rparr>"

definition IdentityAddressInformation_as_bytes :: "IdentityAddressInformation \<Rightarrow> bytes" where
  "IdentityAddressInformation_as_bytes h =
     [iai_opcode h] @ [iai_addr_type h] @ iai_address h"

definition IdentityAddressInformation_of_bytes :: "bytes \<Rightarrow> IdentityAddressInformation" where
  "IdentityAddressInformation_of_bytes bs =
     \<lparr>iai_opcode = bs ! 0, iai_addr_type = bs ! 1, iai_address = take 6 (drop 2 bs)\<rparr>"

lemmas smp_layout_defs =
  SmpPairingPacket_as_bytes_def SmpPairingPacket_of_bytes_def SmpPairingFailed_as_bytes_def
  SmpPairingFailed_of_bytes_def MasterIdentification_as_bytes_def
  MasterIdentification_of_bytes_def IdentityAddressInformation_as_bytes_def
  IdentityAddressInformation_of_bytes_def

interpretation spp_layout: wire_layout 7 "\<lambda>_. True"
  SmpPairingPacket_as_bytes SmpPairingPacket_of_bytes
  by unfold_locales (auto simp: smp_layout_defs to_le_bytes_def list_of_length)

interpretation spf_layout: wire_layout 2 "\<lambda>_. True"
  SmpPairingFailed_as_bytes SmpPairingFailed_of_bytes
  by unfold_locales (auto simp: smp_layout_defs to_le_bytes_def list_of_length)

interpretation mid_layout: wire_layout 11 "\<lambda>h. length (mid_rand h) = 8"
  MasterIdentification_as_bytes MasterIdentification_of_bytes
  by unfold_locales (auto simp: smp_layout_defs to_le_bytes_def list_of_length)

interpretation iai_layout: wire_layout 8 "\<lambda>h. length (iai_address h) = 6"
  IdentityAddressInformation_as_bytes IdentityAddressInformation_of_bytes
  by unfold_locales (auto simp: smp_layout_defs to_le_bytes_def list_of_length)

section \<open>Constructors and parsers\<close>

definition SmpPairingPacket_parse :: "bytes \<Rightarrow> (SmpPairingPacket \<times> bytes) option" where
  "SmpPairingPacket_parse bs = from_prefix 7 SmpPairingPacket_of_bytes bs"

definition SmpPairingPacket_new_response :: "u8 \<Rightarrow> u8 \<Rightarrow> u8 \<Rightarrow> u8 \<Rightarrow> SmpPairingPacket" where
  "SmpPairingPacket_new_response io_cap auth_req init_key_dist resp_key_dist =
     \<lparr>spp_opcode = smp_PAIRING_RESPONSE, spp_io_capability = io_cap, spp_oob_data_flag = 0x00,
      spp_auth_req = auth_req, spp_max_encryption_key_size = 16,
      spp_initiator_key_distribution = init_key_dist,
      spp_responder_key_distribution = resp_key_dist\<rparr>"

definition SmpPairingFailed_new :: "u8 \<Rightarrow> SmpPairingFailed" where
  "SmpPairingFailed_new reason = \<lparr>spf_opcode = smp_PAIRING_FAILED, spf_reason = reason\<rparr>"

definition SmpPairingFailed_parse :: "bytes \<Rightarrow> (SmpPairingFailed \<times> bytes) option" where
  "SmpPairingFailed_parse bs =
     (case from_prefix 2 SmpPairingFailed_of_bytes bs of
        None \<Rightarrow> None
      | Some (r, rest) \<Rightarrow> if spf_opcode r \<noteq> smp_PAIRING_FAILED then None else Some (r, rest))"

definition MasterIdentification_new :: "u16 \<Rightarrow> bytes \<Rightarrow> MasterIdentification" where
  "MasterIdentification_new ediv rnd =
     \<lparr>mid_opcode = smp_MASTER_IDENTIFICATION, mid_ediv = ediv, mid_rand = rnd\<rparr>"

definition MasterIdentification_parse :: "bytes \<Rightarrow> (MasterIdentification \<times> bytes) option" where
  "MasterIdentification_parse bs =
     (case from_prefix 11 MasterIdentification_of_bytes bs of
        None \<Rightarrow> None
      | Some (r, rest) \<Rightarrow> if mid_opcode r \<noteq> smp_MASTER_IDENTIFICATION then None else Some (r, rest))"

definition IdentityAddressInformation_new :: "u8 \<Rightarrow> bytes \<Rightarrow> IdentityAddressInformation" where
  "IdentityAddressInformation_new addr_type addr =
     \<lparr>iai_opcode = smp_IDENTITY_ADDR_INFO, iai_addr_type = addr_type, iai_address = addr\<rparr>"

definition IdentityAddressInformation_parse :: "bytes \<Rightarrow> (IdentityAddressInformation \<times> bytes) option" where
  "IdentityAddressInformation_parse bs =
     (case from_prefix 8 IdentityAddressInformation_of_bytes bs of
        None \<Rightarrow> None
      | Some (r, rest) \<Rightarrow> if iai_opcode r \<noteq> smp_IDENTITY_ADDR_INFO then None else Some (r, rest))"

end
