(* ===== verification/Byte_Table.thy ===== *)
theory Byte_Table
  imports Prelude
begin

text \<open>
  Facts about single bytes: equality bit by bit, and tables of 256 bytes that are permutations, such
  as a substitution box or a checksum table.
\<close>

lemma u8_eqI:
  fixes a b :: u8
  assumes "bit a 0 = bit b 0" "bit a 1 = bit b 1" "bit a 2 = bit b 2" "bit a 3 = bit b 3"
    "bit a 4 = bit b 4" "bit a 5 = bit b 5" "bit a 6 = bit b 6" "bit a 7 = bit b 7"
  shows "a = b"
proof (rule bit_word_eqI)
  fix n assume "n < LENGTH(8)"
  then have "n = 0 \<or> n = 1 \<or> n = 2 \<or> n = 3 \<or> n = 4 \<or> n = 5 \<or> n = 6 \<or> n = 7" by auto
  with assms show "bit a n = bit b n" by blast
qed

lemma u8_low_bit: "w AND 1 \<noteq> 0 \<longleftrightarrow> bit (w :: u8) 0"
  by (simp add: and_one_eq bit_0 odd_iff_mod_2_eq_one)

text \<open>The union of the one-bit masks of a table's entries is full when the table hits every byte.\<close>

definition byte_mask :: "bytes \<Rightarrow> nat" where
  "byte_mask bs = foldr (\<lambda>b m. 2 ^ unat b OR m) bs 0"

lemma bit_byte_mask: "bit (byte_mask bs) n \<longleftrightarrow> n \<in> unat ` set bs"
  unfolding byte_mask_def
  by (induction bs) (auto simp: bit_or_iff bit_exp_iff)

lemma byte_table_distinct:
  assumes "byte_mask t = mask 256" "length t = 256"
  shows "distinct t"
proof -
  have "{0..<256} \<subseteq> unat ` set t"
    using bit_byte_mask [of t] unfolding assms(1) by (auto simp: bit_mask_iff)
  then have "card {0..<256 :: nat} \<le> card (unat ` set t)"
    by (rule card_mono [rotated]) simp
  also have "\<dots> \<le> card (set t)" by (rule card_image_le) simp
  finally have "card (set t) = length t"
    using card_length [of t] by (simp add: assms(2))
  then show ?thesis by (rule card_distinct)
qed

lemma byte_table_inject:
  assumes "distinct t" "length t = 256"
  shows "t ! unat (a :: u8) = t ! unat b \<longleftrightarrow> a = b"
  using nth_eq_iff_index_eq [OF assms(1), of "unat a" "unat b"]
  by (simp add: assms(2) word_unat_eq_iff)

end
