(* ===== verification/Aes.thy ===== *)
theory Aes
  imports Byte_Table
begin

text \<open>
  AES-128 and AES-CMAC (\<open>src/src/crypto/aes.rs\<close>). Arrays are lists; a loop over an index range is
  a fold over that range, with the array updated in place as the code updates it. The theorems:
  the block cipher is injective for every key, the 128-bit shift doubles the big-endian value, and
  CMAC is the chaining of RFC 4493 over its blocks.
\<close>

section \<open>The block cipher\<close>

definition SBOX :: bytes where
  "SBOX = [
    0x63, 0x7c, 0x77, 0x7b, 0xf2, 0x6b, 0x6f, 0xc5, 0x30, 0x01, 0x67, 0x2b, 0xfe, 0xd7, 0xab, 0x76,
    0xca, 0x82, 0xc9, 0x7d, 0xfa, 0x59, 0x47, 0xf0, 0xad, 0xd4, 0xa2, 0xaf, 0x9c, 0xa4, 0x72, 0xc0,
    0xb7, 0xfd, 0x93, 0x26, 0x36, 0x3f, 0xf7, 0xcc, 0x34, 0xa5, 0xe5, 0xf1, 0x71, 0xd8, 0x31, 0x15,
    0x04, 0xc7, 0x23, 0xc3, 0x18, 0x96, 0x05, 0x9a, 0x07, 0x12, 0x80, 0xe2, 0xeb, 0x27, 0xb2, 0x75,
    0x09, 0x83, 0x2c, 0x1a, 0x1b, 0x6e, 0x5a, 0xa0, 0x52, 0x3b, 0xd6, 0xb3, 0x29, 0xe3, 0x2f, 0x84,
    0x53, 0xd1, 0x00, 0xed, 0x20, 0xfc, 0xb1, 0x5b, 0x6a, 0xcb, 0xbe, 0x39, 0x4a, 0x4c, 0x58, 0xcf,
    0xd0, 0xef, 0xaa, 0xfb, 0x43, 0x4d, 0x33, 0x85, 0x45, 0xf9, 0x02, 0x7f, 0x50, 0x3c, 0x9f, 0xa8,
    0x51, 0xa3, 0x40, 0x8f, 0x92, 0x9d, 0x38, 0xf5, 0xbc, 0xb6, 0xda, 0x21, 0x10, 0xff, 0xf3, 0xd2,
    0xcd, 0x0c, 0x13, 0xec, 0x5f, 0x97, 0x44, 0x17, 0xc4, 0xa7, 0x7e, 0x3d, 0x64, 0x5d, 0x19, 0x73,
    0x60, 0x81, 0x4f, 0xdc, 0x22, 0x2a, 0x90, 0x88, 0x46, 0xee, 0xb8, 0x14, 0xde, 0x5e, 0x0b, 0xdb,
    0xe0, 0x32, 0x3a, 0x0a, 0x49, 0x06, 0x24, 0x5c, 0xc2, 0xd3, 0xac, 0x62, 0x91, 0x95, 0xe4, 0x79,
    0xe7, 0xc8, 0x37, 0x6d, 0x8d, 0xd5, 0x4e, 0xa9, 0x6c, 0x56, 0xf4, 0xea, 0x65, 0x7a, 0xae, 0x08,
    0xba, 0x78, 0x25, 0x2e, 0x1c, 0xa6, 0xb4, 0xc6, 0xe8, 0xdd, 0x74, 0x1f, 0x4b, 0xbd, 0x8b, 0x8a,
    0x70, 0x3e, 0xb5, 0x66, 0x48, 0x03, 0xf6, 0x0e, 0x61, 0x35, 0x57, 0xb9, 0x86, 0xc1, 0x1d, 0x9e,
    0xe1, 0xf8, 0x98, 0x11, 0x69, 0xd9, 0x8e, 0x94, 0x9b, 0x1e, 0x87, 0xe9, 0xce, 0x55, 0x28, 0xdf,
    0x8c, 0xa1, 0x89, 0x0d, 0xbf, 0xe6, 0x42, 0x68, 0x41, 0x99, 0x2d, 0x0f, 0xb0, 0x54, 0xbb, 0x16]"

definition RCON :: bytes where
  "RCON = [0x00, 0x01, 0x02, 0x04, 0x08, 0x10, 0x20, 0x40, 0x80, 0x1b, 0x36]"

definition xtime :: "u8 \<Rightarrow> u8" where
  "xtime b = push_bit 1 b XOR (if b AND 0x80 \<noteq> 0 then 0x1b else 0)"

fun mix_col :: "u8 \<times> u8 \<times> u8 \<times> u8 \<Rightarrow> u8 \<times> u8 \<times> u8 \<times> u8" where
  "mix_col (s0, s1, s2, s3) =
     (xtime s0 XOR xtime s1 XOR s1 XOR s2 XOR s3,
      s0 XOR xtime s1 XOR xtime s2 XOR s2 XOR s3,
      s0 XOR s1 XOR xtime s2 XOR xtime s3 XOR s3,
      xtime s0 XOR s0 XOR s1 XOR s2 XOR xtime s3)"

abbreviation sbox :: "u8 \<Rightarrow> u8" where
  "sbox b \<equiv> SBOX ! unat b"

definition expand_key_step :: "bytes \<Rightarrow> nat \<Rightarrow> bytes" where
  "expand_key_step w i =
     (let t0 = w ! ((i - 1) * 4); t1 = w ! ((i - 1) * 4 + 1);
          t2 = w ! ((i - 1) * 4 + 2); t3 = w ! ((i - 1) * 4 + 3);
          (u0, u1, u2, u3) =
            (if i mod 4 = 0 then (sbox t1 XOR RCON ! (i div 4), sbox t2, sbox t3, sbox t0)
             else (t0, t1, t2, t3))
      in w[i * 4 := w ! ((i - 4) * 4) XOR u0,
           i * 4 + 1 := w ! ((i - 4) * 4 + 1) XOR u1,
           i * 4 + 2 := w ! ((i - 4) * 4 + 2) XOR u2,
           i * 4 + 3 := w ! ((i - 4) * 4 + 3) XOR u3])"

definition expand_key :: "bytes \<Rightarrow> bytes" where
  "expand_key key = foldl expand_key_step (key @ replicate 160 0) [4..<44]"

definition xor_bytes :: "bytes \<Rightarrow> bytes \<Rightarrow> bytes" where
  "xor_bytes xs ys = map2 (XOR) xs ys"

definition sub_bytes :: "bytes \<Rightarrow> bytes" where
  "sub_bytes state = map (\<lambda>b. sbox b) state"

definition shift_rows :: "bytes \<Rightarrow> bytes" where
  "shift_rows s =
     [s ! 0, s ! 5, s ! 10, s ! 15, s ! 4, s ! 9, s ! 14, s ! 3,
      s ! 8, s ! 13, s ! 2, s ! 7, s ! 12, s ! 1, s ! 6, s ! 11]"

definition mix_column_at :: "bytes \<Rightarrow> nat \<Rightarrow> bytes" where
  "mix_column_at state c =
     (case mix_col (state ! (c * 4), state ! (c * 4 + 1), state ! (c * 4 + 2), state ! (c * 4 + 3)) of
        (m0, m1, m2, m3) \<Rightarrow> state[c * 4 := m0, c * 4 + 1 := m1, c * 4 + 2 := m2, c * 4 + 3 := m3])"

definition mix_columns :: "bytes \<Rightarrow> bytes" where
  "mix_columns state = foldl mix_column_at state [0..<4]"

definition round_key :: "bytes \<Rightarrow> nat \<Rightarrow> bytes" where
  "round_key rk r = take 16 (drop (r * 16) rk)"

definition aes_round :: "bytes \<Rightarrow> bytes \<Rightarrow> nat \<Rightarrow> bytes" where
  "aes_round rk state r = xor_bytes (mix_columns (shift_rows (sub_bytes state))) (round_key rk r)"

definition aes_128_encrypt_block :: "bytes \<Rightarrow> bytes \<Rightarrow> bytes" where
  "aes_128_encrypt_block key block =
     (let rk = expand_key key;
          state = foldl (aes_round rk) (xor_bytes block (round_key rk 0)) [1..<10]
      in xor_bytes (shift_rows (sub_bytes state)) (round_key rk 10))"

section \<open>CMAC\<close>

text \<open>The loop of \<^verbatim>\<open>left_shift_128\<close> runs from the last byte to the first.\<close>

fun shift_loop :: "u8 \<Rightarrow> bytes \<Rightarrow> bytes" where
  "shift_loop overflow [] = []"
| "shift_loop overflow (b # bs) =
     (push_bit 1 b OR overflow) # shift_loop (drop_bit 7 b AND 1) bs"

definition left_shift_128 :: "bytes \<Rightarrow> bytes" where
  "left_shift_128 input = rev (shift_loop 0 (rev input))"

definition generate_subkeys :: "bytes \<Rightarrow> bytes \<times> bytes" where
  "generate_subkeys key =
     (let l = aes_128_encrypt_block key (replicate 16 0);
          k1 = left_shift_128 l;
          k1 = (if l ! 0 AND 0x80 \<noteq> 0 then k1[15 := k1 ! 15 XOR 0x87] else k1);
          k2 = left_shift_128 k1;
          k2 = (if k1 ! 0 AND 0x80 \<noteq> 0 then k2[15 := k2 ! 15 XOR 0x87] else k2)
      in (k1, k2))"

definition cmac_last_block :: "bytes \<Rightarrow> bytes \<Rightarrow> bytes \<Rightarrow> bytes" where
  "cmac_last_block k1 k2 data =
     (let n = (if data = [] then 1 else (length data + 15) div 16);
          flag = (data \<noteq> [] \<and> length data mod 16 = 0)
      in if flag then xor_bytes (take 16 (drop ((n - 1) * 16) data)) k1
         else let last_chunk = (if data = [] then [] else drop ((n - 1) * 16) data)
              in xor_bytes (last_chunk @ 0x80 # replicate (15 - length last_chunk) 0) k2)"

definition aes_cmac :: "bytes \<Rightarrow> bytes \<Rightarrow> bytes" where
  "aes_cmac key data =
     (case generate_subkeys key of
        (k1, k2) \<Rightarrow>
          let n = (if data = [] then 1 else (length data + 15) div 16);
              m_last = cmac_last_block k1 k2 data;
              x = foldl (\<lambda>x i. aes_128_encrypt_block key (xor_bytes x (take 16 (drop (i * 16) data))))
                    (replicate 16 0) [0..<n - 1]
          in aes_128_encrypt_block key (xor_bytes x m_last))"

section \<open>Lengths\<close>

lemma length_xor_bytes [simp]: "length (xor_bytes xs ys) = min (length xs) (length ys)"
  by (simp add: xor_bytes_def)

lemma length_sub_bytes [simp]: "length (sub_bytes s) = length s"
  by (simp add: sub_bytes_def)

lemma length_shift_rows [simp]: "length (shift_rows s) = 16"
  by (simp add: shift_rows_def)

lemma length_mix_column_at [simp]: "length (mix_column_at s c) = length s"
  by (simp add: mix_column_at_def split: prod.splits)

lemma length_mix_columns [simp]: "length (mix_columns s) = length s"
proof -
  have "length (foldl mix_column_at s cs) = length s" for cs
    by (induction cs arbitrary: s) simp_all
  then show ?thesis by (simp add: mix_columns_def del: upt_rec_numeral)
qed

lemma length_expand_key [simp]: "length (expand_key key) = length key + 160"
proof -
  have "length (foldl expand_key_step w is) = length w" for w "is"
    by (induction "is" arbitrary: w) (simp_all add: expand_key_step_def Let_def split: prod.splits)
  then show ?thesis by (simp add: expand_key_def del: upt_rec_numeral)
qed

lemma length_round_key: "length key = 16 \<Longrightarrow> r \<le> 10 \<Longrightarrow> length (round_key (expand_key key) r) = 16"
  by (simp add: round_key_def)

lemma length_aes [simp]: "length key = 16 \<Longrightarrow> length (aes_128_encrypt_block key block) = 16"
  by (simp add: aes_128_encrypt_block_def Let_def length_round_key del: upt_rec_numeral)

section \<open>The cipher is injective\<close>

lemma byte_mask_SBOX: "byte_mask SBOX = mask 256"
  unfolding byte_mask_def SBOX_def mask_eq_exp_minus_1 by simp

lemma length_SBOX: "length SBOX = 256"
  by (simp add: SBOX_def)

lemma distinct_SBOX: "distinct SBOX"
  by (rule byte_table_distinct [OF byte_mask_SBOX length_SBOX])

lemma sbox_eq_iff [simp]: "sbox a = sbox b \<longleftrightarrow> a = b"
  by (rule byte_table_inject [OF distinct_SBOX length_SBOX])

lemma high_bit: "(b :: u8) AND 0x80 \<noteq> 0 \<longleftrightarrow> bit b 7"
proof -
  have "bit (0x80 :: u8) n \<longleftrightarrow> n = 7" if "n < 8" for n
    using that by (auto simp: less_Suc_eq numeral_eq_Suc)
  then have "b AND 0x80 = of_bool (bit b 7) * 0x80"
    by (intro bit_word_eqI) (auto simp: bit_and_iff)
  then show ?thesis by simp
qed

lemma xtime_XOR: "xtime (a XOR b) = xtime a XOR xtime b"
  by (auto simp: xtime_def high_bit push_bit_xor bit_xor_iff xor.assoc xor.left_commute xor.commute)

text \<open>Applied twice, a column mix is \<open>5 * s\<^sub>i XOR 4 * s\<^sub>i\<^sub>+\<^sub>2\<close>; applied four times, it is the identity.\<close>

lemma mix_col_twice:
  "mix_col (mix_col (s0, s1, s2, s3)) =
     (xtime (xtime (s0 XOR s2)) XOR s0, xtime (xtime (s1 XOR s3)) XOR s1,
      xtime (xtime (s0 XOR s2)) XOR s2, xtime (xtime (s1 XOR s3)) XOR s3)"
  by (simp add: xtime_XOR ac_simps)

lemma mix_col_four: "mix_col (mix_col (mix_col (mix_col c))) = c"
  by (cases c) (simp only: mix_col_twice, simp add: xtime_XOR ac_simps)

lemma mix_col_inject [simp]: "mix_col c = mix_col d \<longleftrightarrow> c = d"
  by (metis mix_col_four)

lemma xor_bytes_cancel: "length xs = length k \<Longrightarrow> xor_bytes (xor_bytes xs k) k = xs"
  by (induction xs k rule: list_induct2) (simp_all add: xor_bytes_def xor.assoc)

lemma xor_bytes_inject:
  "length xs = length k \<Longrightarrow> length ys = length k \<Longrightarrow> xor_bytes xs k = xor_bytes ys k \<longleftrightarrow> xs = ys"
  by (metis xor_bytes_cancel)

lemma sub_bytes_inject: "sub_bytes s = sub_bytes t \<longleftrightarrow> s = t"
proof -
  have "inj (\<lambda>b. sbox b)" by (simp add: inj_def)
  from inj_map_eq_map [OF this] show ?thesis by (simp add: sub_bytes_def)
qed

lemma shift_rows_inject:
  "length s = 16 \<Longrightarrow> length t = 16 \<Longrightarrow> shift_rows s = shift_rows t \<longleftrightarrow> s = t"
  by (auto simp: shift_rows_def list_of_length)

text \<open>The state as its four columns.\<close>

definition columns :: "bytes \<Rightarrow> (u8 \<times> u8 \<times> u8 \<times> u8) list" where
  "columns s =
     [(s ! 0, s ! 1, s ! 2, s ! 3), (s ! 4, s ! 5, s ! 6, s ! 7),
      (s ! 8, s ! 9, s ! 10, s ! 11), (s ! 12, s ! 13, s ! 14, s ! 15)]"

definition of_columns :: "(u8 \<times> u8 \<times> u8 \<times> u8) list \<Rightarrow> bytes" where
  "of_columns cs = concat (map (\<lambda>(a, b, c, d). [a, b, c, d]) cs)"

lemma of_columns_columns: "length s = 16 \<Longrightarrow> of_columns (columns s) = s"
  by (auto simp: of_columns_def columns_def list_of_length)

lemma of_columns_inject: "length cs = length ds \<Longrightarrow> of_columns cs = of_columns ds \<longleftrightarrow> cs = ds"
  by (induction cs ds rule: list_induct2) (auto simp: of_columns_def)

lemma mix_columns_by_column:
  assumes "length s = 16"
  shows "mix_columns s = of_columns (map mix_col (columns s))"
proof -
  have range4: "[0..<4] = [0, 1, 2, 3 :: nat]" by code_simp
  obtain a0 a1 a2 a3 b0 b1 b2 b3 c0 c1 c2 c3 d0 d1 d2 d3
    where s: "s = [a0, a1, a2, a3, b0, b1, b2, b3, c0, c1, c2, c3, d0, d1, d2, d3]"
    using assms by (auto simp: list_of_length)
  show ?thesis
    unfolding mix_columns_def range4 s
    by (simp add: mix_column_at_def columns_def of_columns_def del: mix_col.simps split: prod.splits)
qed

lemma mix_columns_inject:
  assumes "length s = 16" "length t = 16"
  shows "mix_columns s = mix_columns t \<longleftrightarrow> s = t"
proof
  assume "mix_columns s = mix_columns t"
  then have "map mix_col (columns s) = map mix_col (columns t)"
    using assms by (simp add: mix_columns_by_column of_columns_inject columns_def del: mix_col.simps)
  then have "columns s = columns t"
    using inj_map_eq_map [of mix_col] by (simp add: inj_def)
  then show "s = t" using assms of_columns_columns by metis
qed simp

lemma aes_round_inject:
  assumes "length key = 16" "r \<le> 10" "length s = 16" "length t = 16"
  shows "aes_round (expand_key key) s r = aes_round (expand_key key) t r \<longleftrightarrow> s = t"
  using assms
  by (simp add: aes_round_def xor_bytes_inject length_round_key mix_columns_inject shift_rows_inject
      sub_bytes_inject)

lemma length_aes_round:
  "length key = 16 \<Longrightarrow> r \<le> 10 \<Longrightarrow> length (aes_round (expand_key key) s r) = 16"
  by (simp add: aes_round_def length_round_key)

lemma aes_rounds_inject:
  assumes "length key = 16" "\<forall>r \<in> set rs. r \<le> 10" "length s = 16" "length t = 16"
  shows "foldl (aes_round (expand_key key)) s rs = foldl (aes_round (expand_key key)) t rs \<longleftrightarrow> s = t"
  using assms(2-) by (induction rs arbitrary: s t) (auto simp: assms(1) aes_round_inject length_aes_round)

lemma length_aes_rounds:
  assumes "length key = 16" "\<forall>r \<in> set rs. r \<le> 10" "length s = 16"
  shows "length (foldl (aes_round (expand_key key)) s rs) = 16"
  using assms(2-) by (induction rs arbitrary: s) (auto simp: assms(1) length_aes_round)

lemma aes_block_inject:
  assumes "length key = 16" "length s = 16" "length t = 16"
  shows "aes_128_encrypt_block key s = aes_128_encrypt_block key t \<longleftrightarrow> s = t"
proof -
  have rounds: "\<forall>r \<in> set [Suc 0..<10]. r \<le> (10 :: nat)" by auto
  show ?thesis
    using assms
    by (simp add: aes_128_encrypt_block_def Let_def xor_bytes_inject length_round_key shift_rows_inject
        sub_bytes_inject length_aes_rounds [OF assms(1) rounds] aes_rounds_inject [OF assms(1) rounds]
        del: upt_rec_numeral)
qed

text \<open>C32: For every key the block cipher is a permutation of the 16-byte blocks: distinct blocks have
  distinct ciphertexts, so the S-box, the row shift, the column mix and the key additions lose no
  information, and every block is the ciphertext of some block.\<close>
theorem aes_128_permutation:
  assumes "length key = 16"
  shows "bij_betw (aes_128_encrypt_block key) {b. length b = 16} {b. length b = 16}"
proof -
  let ?B = "{b :: bytes. length b = 16}"
  have fin: "finite ?B" using finite_lists_length_eq [of "UNIV :: u8 set" 16] by simp
  have inj: "inj_on (aes_128_encrypt_block key) ?B"
    using assms by (auto simp: inj_on_def aes_block_inject)
  have "aes_128_encrypt_block key ` ?B \<subseteq> ?B" using assms by auto
  then have "aes_128_encrypt_block key ` ?B = ?B"
    using endo_inj_surj [OF fin _ inj] by blast
  with inj show ?thesis by (simp add: bij_betw_def)
qed

theorem aes_128_permutation_witness:
  "bij_betw (aes_128_encrypt_block (replicate 16 7)) {b. length b = 16} {b. length b = 16}"
  by (rule aes_128_permutation) simp

section \<open>The subkey shift\<close>

fun le_value :: "bytes \<Rightarrow> nat" where
  "le_value [] = 0"
| "le_value (b # bs) = unat b + 256 * le_value bs"

definition be_value :: "bytes \<Rightarrow> nat" where
  "be_value bs = le_value (rev bs)"

lemma le_value_less: "le_value bs < 256 ^ length bs"
proof (induction bs)
  case (Cons b bs)
  then have "256 * Suc (le_value bs) \<le> 256 * 256 ^ length bs" by (intro mult_le_mono2) simp
  then have "256 * le_value bs + 256 \<le> 256 * 256 ^ length bs" by simp
  moreover have "unat b < 256" by simp
  ultimately show ?case unfolding le_value.simps list.size power_Suc add_Suc_right add_0_right by linarith
qed simp

lemma shift_byte:
  fixes b c :: u8
  assumes "unat c \<le> 1"
  shows "unat (push_bit 1 b OR c) + 256 * unat (drop_bit 7 b AND 1) = 2 * unat b + unat c"
    and "unat (drop_bit 7 b AND 1) \<le> 1"
proof -
  have c: "c = 0 \<or> c = 1"
    using assms by (auto simp: word_unat_eq_iff le_Suc_eq)
  have "push_bit 1 b OR c = push_bit 1 b + c"
  proof (rule disjunctive_add [symmetric])
    fix n
    show "\<not> bit (push_bit 1 b) n \<or> \<not> bit c n"
      using c by (cases n) (auto simp: bit_push_bit_iff bit_1_iff simp del: push_bit_of_Suc_0 push_bit_Suc push_bit_numeral One_nat_def)
  qed
  moreover have double: "unat (push_bit 1 b) = (2 * unat b) mod 256"
    by (simp add: push_bit_eq_mult unat_word_ariths mult.commute)
  moreover have "unat (push_bit 1 b + c) = (unat (push_bit 1 b) + unat c) mod 256"
    unfolding unat_word_ariths by simp
  moreover have "(2 * unat b) mod 256 \<le> 254"
    using mult_mod_right [of 2 "unat b" 128] mod_less_divisor [of 128 "unat b"] by simp
  ultimately have low: "unat (push_bit 1 b OR c) = (2 * unat b) mod 256 + unat c"
    using assms by (simp only: double) simp
  have "unat (drop_bit 7 b AND 1) = unat b div 128"
  proof -
    have "unat b div 128 < 2" using unat_u8_less [of b] by (intro less_mult_imp_div_less) simp
    then show ?thesis by (simp add: and_one_eq unat_mod drop_bit_eq_div unat_div)
  qed
  moreover have "2 * unat b = 256 * (unat b div 128) + (2 * unat b) mod 256"
    using div_mult_mod_eq [of "2 * unat b" 256] div_mult2_eq [of "2 * unat b" 2 128] by simp
  ultimately show "unat (push_bit 1 b OR c) + 256 * unat (drop_bit 7 b AND 1) = 2 * unat b + unat c"
      "unat (drop_bit 7 b AND 1) \<le> 1"
    using low unat_u8_less [of b] by linarith+
qed

lemma le_value_shift_loop:
  "unat c \<le> 1 \<Longrightarrow> le_value (shift_loop c bs) = (2 * le_value bs + unat c) mod 256 ^ length bs"
proof (induction bs arbitrary: c)
  case (Cons b bs)
  define d where "d = drop_bit 7 b AND 1"
  define l where "l = push_bit 1 b OR c"
  have byte: "unat l + 256 * unat d = 2 * unat b + unat c" "unat d \<le> 1"
    using shift_byte [OF Cons.prems, of b] by (simp_all add: d_def l_def)
  have "2 * le_value (b # bs) + unat c = unat l + 256 * (2 * le_value bs + unat d)"
    using byte(1) by simp
  moreover have "(unat l + 256 * x) mod (256 * m) = unat l + 256 * (x mod m)" for x m
    using mod_mult2_eq [of "unat l + 256 * x" 256 m] by simp
  moreover have "shift_loop c (b # bs) = l # shift_loop d bs"
    by (simp only: shift_loop.simps d_def l_def)
  ultimately show ?case
    using Cons.IH [OF byte(2)] by (simp only: le_value.simps list.size power_Suc add_Suc_right add_0_right)
qed simp

text \<open>The CMAC subkey step shifts the big-endian block value left by one bit, dropping the bit
  that leaves the block.\<close>
theorem left_shift_128_doubles:
  "be_value (left_shift_128 bs) = 2 * be_value bs mod 256 ^ length bs"
  using le_value_shift_loop [of 0 "rev bs"] by (simp add: be_value_def left_shift_128_def)

section \<open>CMAC chains over its blocks\<close>

lemma length_shift_loop [simp]: "length (shift_loop c bs) = length bs"
  by (induction bs arbitrary: c) simp_all

lemma length_subkeys:
  assumes "length key = 16" "generate_subkeys key = (k1, k2)"
  shows "length k1 = 16" "length k2 = 16"
  using assms by (auto simp: generate_subkeys_def Let_def left_shift_128_def)

lemma length_aes_cmac [simp]: "length key = 16 \<Longrightarrow> length (aes_cmac key data) = 16"
  by (simp add: aes_cmac_def Let_def split: prod.splits)

lemma take_drop_blocks:
  assumes "list_all (\<lambda>b. length b = 16) bs" "i < length bs"
  shows "take 16 (drop (i * 16) (concat bs @ tail)) = bs ! i"
  using assms
proof (induction bs arbitrary: i)
  case (Cons b bs)
  then show ?case by (cases i) auto
qed simp

text \<open>On a message of full blocks followed by a tail of at most one block (empty only for the
  empty message), CMAC is the RFC 4493 chain: the last block is the tail masked with the first
  subkey when it is full, otherwise padded with 10...0 and masked with the second.\<close>
theorem aes_cmac_chains:
  assumes "list_all (\<lambda>b. length b = 16) bs" "length tail \<le> 16" "tail \<noteq> [] \<or> bs = []"
    and "generate_subkeys key = (k1, k2)"
  defines "final \<equiv> (if length tail = 16 then xor_bytes tail k1
      else xor_bytes (tail @ 0x80 # replicate (15 - length tail) 0) k2)"
  shows "aes_cmac key (concat bs @ tail)
    = foldl (\<lambda>x b. aes_128_encrypt_block key (xor_bytes x b)) (replicate 16 0) (bs @ [final])"
proof -
  let ?data = "concat bs @ tail"
  have len: "length (concat bs) = length bs * 16"
    using assms(1) by (induction bs) auto
  have n: "(if ?data = [] then 1 else (length ?data + 15) div 16) = Suc (length bs)"
  proof (cases "?data = []")
    case True
    then show ?thesis using assms(1) len by (cases bs) auto
  next
    case False
    then have "0 < length tail" using assms(3) len by auto
    then have "(length tail + 15) div 16 = 1" using assms(2) by (intro div_nat_eqI) (simp_all add: Suc_le_eq)
    moreover have "(length ?data + 15) div 16 = length bs + (length tail + 15) div 16"
      using div_mult_self3 [of 16 "length bs" "length tail + 15"] by (simp add: len add.assoc mult.commute)
    ultimately show ?thesis using False by (simp only: if_False)
  qed
  have "cmac_last_block k1 k2 ?data = final"
    unfolding cmac_last_block_def Let_def n using assms(2,3) len by (auto simp: final_def)
  moreover have "foldl (\<lambda>x i. aes_128_encrypt_block key (xor_bytes x (take 16 (drop (i * 16) ?data))))
      x0 [0..<m] = foldl (\<lambda>x b. aes_128_encrypt_block key (xor_bytes x b)) x0 (take m bs)"
    if "m \<le> length bs" for m x0
    using that
    by (induction m) (simp_all add: take_drop_blocks [OF assms(1)] take_Suc_conv_app_nth
        del: take_append drop_append)
  ultimately show ?thesis
    using assms(4) n by (simp add: aes_cmac_def Let_def)
qed

theorem aes_cmac_chains_witness:
  "let key = replicate 16 1; (k1, k2) = generate_subkeys key; b = replicate 16 5; tail = [1, 2, 3] in
    aes_cmac key (concat [b] @ tail)
    = foldl (\<lambda>x b. aes_128_encrypt_block key (xor_bytes x b)) (replicate 16 0)
        ([b] @ [if length tail = 16 then xor_bytes tail k1
                else xor_bytes (tail @ 0x80 # replicate (15 - length tail) 0) k2])"
  using aes_cmac_chains [where bs = "[replicate 16 5]" and tail = "[1, 2, 3]" and key = "replicate 16 1"
    and ?k1.0 = "fst (generate_subkeys (replicate 16 1))" and ?k2.0 = "snd (generate_subkeys (replicate 16 1))"]
  by (simp add: Let_def case_prod_beta)

end
