(* ===== verification/Smp_Crypto.thy ===== *)
theory Smp_Crypto
  imports Aes
begin

text \<open>
  The Security Manager's cryptographic toolbox (\<open>src/src/crypto/smp_crypto.rs\<close>) and the
  pseudo-random byte source (\<open>src/src/types/rng.rs\<close>). Values are in wire order (least significant
  byte first); the AES primitives work on the reversed bytes. Elliptic-curve arithmetic is the
  \<^verbatim>\<open>p256\<close> crate: it is a parameter, the record \<open>p256\<close>, and the wrapper around it
  (\<open>src/src/crypto/ecdh.rs\<close>) is modelled over that parameter.
\<close>

section \<open>Toolbox functions\<close>

definition xor16 :: "bytes \<Rightarrow> bytes \<Rightarrow> bytes" where
  "xor16 a b = map (\<lambda>i. a ! i XOR b ! i) [0..<16]"

definition rev_bytes :: "nat \<Rightarrow> bytes \<Rightarrow> bytes" where
  "rev_bytes n s = map (\<lambda>i. s ! (n - 1 - i)) [0..<n]"

definition smp_e :: "bytes \<Rightarrow> bytes \<Rightarrow> bytes" where
  "smp_e k x = rev_bytes 16 (aes_128_encrypt_block (rev_bytes 16 k) (rev_bytes 16 x))"

definition smp_ah :: "bytes \<Rightarrow> bytes \<Rightarrow> bytes" where
  "smp_ah k r = take 3 (smp_e k (r @ replicate 13 0))"

definition smp_c1 ::
  "bytes \<Rightarrow> bytes \<Rightarrow> bytes \<Rightarrow> bytes \<Rightarrow> u8 \<Rightarrow> u8 \<Rightarrow> bytes \<Rightarrow> bytes \<Rightarrow> bytes" where
  "smp_c1 k r preq pres iat rat ia ra =
     (let p1 = [iat, rat] @ preq @ pres;
          p2 = ra @ ia @ replicate 4 0;
          res1 = smp_e k (xor16 r p1)
      in smp_e k (xor16 res1 p2))"

definition smp_s1 :: "bytes \<Rightarrow> bytes \<Rightarrow> bytes \<Rightarrow> bytes" where
  "smp_s1 k r1 r2 = smp_e k (take 8 r2 @ take 8 r1)"

definition smp_f4 :: "bytes \<Rightarrow> bytes \<Rightarrow> bytes \<Rightarrow> u8 \<Rightarrow> bytes" where
  "smp_f4 u v x z =
     rev_bytes 16 (aes_cmac (rev_bytes 16 x) (rev_bytes 32 u @ rev_bytes 32 v @ [z]))"

definition smp_g2 :: "bytes \<Rightarrow> bytes \<Rightarrow> bytes \<Rightarrow> bytes \<Rightarrow> nat" where
  "smp_g2 u v x y =
     (let tag = aes_cmac (rev_bytes 16 x) (rev_bytes 32 u @ rev_bytes 32 v @ rev_bytes 16 y)
      in be_value (take 4 (drop 12 tag)) mod 1000000)"

definition f5_salt :: bytes where
  "f5_salt = [0x6C, 0x88, 0x83, 0x91, 0xAA, 0xF5, 0xA5, 0x38, 0x60, 0x37, 0x0B, 0xDB, 0x5A, 0x60, 0x83, 0xBE]"

definition smp_f5 :: "bytes \<Rightarrow> bytes \<Rightarrow> bytes \<Rightarrow> bytes \<Rightarrow> bytes \<Rightarrow> bytes \<times> bytes" where
  "smp_f5 w n1 n2 a1 a2 =
     (let t = aes_cmac f5_salt (rev_bytes 32 w);
          msg = [0x62, 0x74, 0x6C, 0x65] @ rev_bytes 16 n1 @ rev_bytes 16 n2 @ rev_bytes 7 a1
            @ rev_bytes 7 a2 @ [1, 0]
      in (rev_bytes 16 (aes_cmac t (0 # msg)), rev_bytes 16 (aes_cmac t (1 # msg))))"

definition smp_f6 ::
  "bytes \<Rightarrow> bytes \<Rightarrow> bytes \<Rightarrow> bytes \<Rightarrow> bytes \<Rightarrow> bytes \<Rightarrow> bytes \<Rightarrow> bytes" where
  "smp_f6 mac_key n1 n2 r io_cap a1 a2 =
     rev_bytes 16 (aes_cmac (rev_bytes 16 mac_key)
       (rev_bytes 16 n1 @ rev_bytes 16 n2 @ rev_bytes 16 r @ rev_bytes 3 io_cap @ rev_bytes 7 a1
        @ rev_bytes 7 a2))"

definition smp_h6 :: "bytes \<Rightarrow> bytes \<Rightarrow> bytes" where
  "smp_h6 w key_id = rev_bytes 16 (aes_cmac (rev_bytes 16 w) key_id)"

definition smp_h7 :: "bytes \<Rightarrow> bytes \<Rightarrow> bytes" where
  "smp_h7 salt w = rev_bytes 16 (aes_cmac salt (rev_bytes 16 w))"

lemma length_rev_bytes [simp]: "length (rev_bytes n s) = n"
  by (simp add: rev_bytes_def)

lemma rev_bytes_eq: "length s = n \<Longrightarrow> rev_bytes n s = rev s"
  by (auto simp: rev_bytes_def list_eq_iff_nth_eq rev_nth)

lemma rev_bytes_inject:
  "length s = n \<Longrightarrow> length t = n \<Longrightarrow> rev_bytes n s = rev_bytes n t \<longleftrightarrow> s = t"
  by (simp add: rev_bytes_eq)

lemma length_smp_toolbox [simp]:
  "length (smp_e k x) = 16"
  "length (smp_c1 k r preq pres iat rat ia ra) = 16"
  "length (smp_s1 k r1 r2) = 16"
  "length (smp_f4 u v x z) = 16"
  "length (fst (smp_f5 w n1 n2 a1 a2)) = 16"
  "length (snd (smp_f5 w n1 n2 a1 a2)) = 16"
  "length (smp_f6 m n1 n2 r io a1 a2) = 16"
  by (simp_all add: smp_e_def smp_c1_def smp_s1_def smp_f4_def smp_f5_def smp_f6_def Let_def)

lemma xor16_inject:
  assumes "length a = 16" "length b = 16" "length p = 16"
  shows "xor16 a p = xor16 b p \<longleftrightarrow> a = b"
proof -
  have "xor16 x p = xor_bytes x p" if "length x = 16" for x
    using that assms(3) by (auto simp: xor16_def xor_bytes_def list_eq_iff_nth_eq)
  then show ?thesis using assms xor_bytes_inject [of a p b] by simp
qed

text \<open>The legacy confirm value commits to the random number: for the same key, request, response
  and addresses, two 16-byte random values with the same confirm value are equal, so a peer cannot
  reveal another random number than the one it committed to. The numeric comparison value has at
  most six digits.\<close>
theorem smp_c1_binding:
  assumes "length k = 16" "length r = 16" "length r' = 16" "length preq = 7" "length pres = 7"
    and "length ia = 6" "length ra = 6"
  shows "(smp_c1 k r preq pres iat rat ia ra = smp_c1 k r' preq pres iat rat ia ra \<longleftrightarrow> r = r')
    \<and> smp_g2 u v x y < 1000000"
proof
  have e: "smp_e k s = smp_e k t \<longleftrightarrow> s = t" if "length s = 16" "length t = 16" for s t
    using that assms(1) by (simp add: smp_e_def rev_bytes_inject aes_block_inject)
  have "length (xor16 s t) = 16" for s t by (simp add: xor16_def)
  then show "smp_c1 k r preq pres iat rat ia ra = smp_c1 k r' preq pres iat rat ia ra \<longleftrightarrow> r = r'"
    using assms by (simp add: smp_c1_def Let_def e xor16_inject)
qed (simp add: smp_g2_def Let_def)

theorem smp_c1_binding_witness:
  "(smp_c1 (replicate 16 0) (replicate 16 1) [1, 3, 0, 9, 16, 7, 7] [2, 3, 0, 9, 16, 7, 7] 0 1
        [1, 2, 3, 4, 5, 6] [6, 5, 4, 3, 2, 1]
      = smp_c1 (replicate 16 0) (replicate 16 2) [1, 3, 0, 9, 16, 7, 7] [2, 3, 0, 9, 16, 7, 7] 0 1
        [1, 2, 3, 4, 5, 6] [6, 5, 4, 3, 2, 1] \<longleftrightarrow> replicate 16 (1 :: u8) = replicate 16 2)
    \<and> smp_g2 [] [] [] [] < 1000000"
  by (rule smp_c1_binding) simp_all

section \<open>Pseudo-random bytes\<close>

text \<open>
  \<^verbatim>\<open>fill_pseudo_random\<close> runs a xorshift64 generator from the clock reading XOR the salt; the seed's
  lowest bit is forced on. \<open>n\<close> is the number of bytes still to be filled.
\<close>

definition xorshift64 :: "64 word \<Rightarrow> 64 word" where
  "xorshift64 s =
     (let s1 = s XOR push_bit 13 s;
          s2 = s1 XOR drop_bit 7 s1
      in s2 XOR push_bit 17 s2)"

definition to_le_bytes64 :: "64 word \<Rightarrow> bytes" where
  "to_le_bytes64 w = map (\<lambda>i. ucast (drop_bit (8 * i) w)) [0..<8]"

function fill_loop :: "64 word \<Rightarrow> nat \<Rightarrow> bytes" where
  "fill_loop s n =
     (if n = 0 then []
      else let s' = xorshift64 s in take (min n 8) (to_le_bytes64 s') @ fill_loop s' (n - min n 8))"
  by pat_completeness auto
termination
  by (relation "measure (\<lambda>(_, n). n)") auto

declare fill_loop.simps [simp del]

definition fill_pseudo_random :: "64 word \<Rightarrow> 64 word \<Rightarrow> nat \<Rightarrow> bytes" where
  "fill_pseudo_random clock salt n = fill_loop ((clock XOR salt) OR 1) n"

definition random_bytes :: "64 word \<Rightarrow> 64 word \<Rightarrow> nat \<Rightarrow> bytes" where
  "random_bytes clock counter n = fill_pseudo_random clock (counter * 0x2545F4914F6CDD1D) n"

lemma length_to_le_bytes64 [simp]: "length (to_le_bytes64 w) = 8"
  by (simp add: to_le_bytes64_def)

lemma length_fill_loop [simp]: "length (fill_loop s n) = n"
proof (induction s n rule: fill_loop.induct)
  case (1 s n)
  then show ?case by (subst fill_loop.simps) (simp add: Let_def min_def)
qed

lemma length_random_bytes [simp]: "length (random_bytes clock counter n) = n"
  by (simp add: random_bytes_def fill_pseudo_random_def)

section \<open>Key agreement\<close>

text \<open>
  What the \<^verbatim>\<open>p256\<close> crate offers: reading a big-endian scalar, the affine coordinates of its public
  point, and the shared secret with a peer point, which fails when the point is not on the curve.
\<close>

record 's p256 =
  secret_from_slice :: "bytes \<Rightarrow> 's option"
  public_point :: "'s \<Rightarrow> bytes \<times> bytes"
  ecdh_shared :: "'s \<Rightarrow> bytes \<Rightarrow> bytes \<Rightarrow> bytes option"

record 's P256Keypair =
  kp_secret :: 's
  kp_x_le :: bytes
  kp_y_le :: bytes

definition from_private_be :: "'s p256 \<Rightarrow> bytes \<Rightarrow> 's P256Keypair option" where
  "from_private_be ec private_be =
     (case secret_from_slice ec private_be of
        None \<Rightarrow> None
      | Some secret \<Rightarrow>
          (case public_point ec secret of
             (x, y) \<Rightarrow>
               if length x = 32 \<and> length y = 32 then
                 Some \<lparr>kp_secret = secret, kp_x_le = rev_bytes 32 x, kp_y_le = rev_bytes 32 y\<rparr>
               else None))"

definition shared_x_le :: "'s p256 \<Rightarrow> 's P256Keypair \<Rightarrow> bytes \<Rightarrow> bytes \<Rightarrow> bytes option" where
  "shared_x_le ec kp peer_x_le peer_y_le =
     (case ecdh_shared ec (kp_secret kp) (rev_bytes 32 peer_x_le) (rev_bytes 32 peer_y_le) of
        None \<Rightarrow> None
      | Some shared_be \<Rightarrow> if length shared_be = 32 then Some (rev_bytes 32 shared_be) else None)"

end
