(* ===== verification/Hci_Types.thy ===== *)
theory Hci_Types
  imports Prelude
begin

text \<open>
  Bluetooth addresses and UUIDs (\<open>src/src/types/hci_types.rs\<close>): their byte forms, their text forms
  and the parsers of both. A \<^verbatim>\<open>[u8; N]\<close> is a byte list; \<open>wf_Address\<close> and \<open>wf_Uuid\<close> say that it has
  the length its array type fixes. A Rust string is its UTF-8 bytes, one \<open>char\<close> per byte. A slice
  expression on a string panics off a character boundary: such a result is \<open>None\<close>.
\<close>

section \<open>Text helpers of the standard library\<close>

text \<open>\<^verbatim>\<open>{:X}\<close> and \<^verbatim>\<open>{:x}\<close> print one hexadecimal digit per nibble, upper and lower case.\<close>

definition hex_digit_upper :: "nat \<Rightarrow> char" where
  "hex_digit_upper n = ''0123456789ABCDEF'' ! n"

definition hex_digit_lower :: "nat \<Rightarrow> char" where
  "hex_digit_lower n = ''0123456789abcdef'' ! n"

definition hex2_upper :: "u8 \<Rightarrow> string" where
  "hex2_upper b = [hex_digit_upper (unat b div 16), hex_digit_upper (unat b mod 16)]"

definition hex2_lower :: "u8 \<Rightarrow> string" where
  "hex2_lower b = [hex_digit_lower (unat b div 16), hex_digit_lower (unat b mod 16)]"

definition hex4_upper :: "u16 \<Rightarrow> string" where
  "hex4_upper w =
     [hex_digit_upper (unat w div 4096), hex_digit_upper (unat w div 256 mod 16),
      hex_digit_upper (unat w div 16 mod 16), hex_digit_upper (unat w mod 16)]"

text \<open>\<^verbatim>\<open>char::to_digit(16)\<close>.\<close>

definition to_digit16 :: "char \<Rightarrow> nat option" where
  "to_digit16 c =
     (let n = of_char c :: nat in
      if 48 \<le> n \<and> n \<le> 57 then Some (n - 48)
      else if 65 \<le> n \<and> n \<le> 70 then Some (n - 55)
      else if 97 \<le> n \<and> n \<le> 102 then Some (n - 87)
      else None)"

text \<open>
  \<^verbatim>\<open>from_str_radix(s, 16)\<close> of an unsigned type with maximum \<open>mx\<close>: an optional \<^verbatim>\<open>+\<close>, then at least
  one digit; a character that is no digit and a value above the maximum are errors.
\<close>

fun radix16_digits :: "nat \<Rightarrow> nat \<Rightarrow> string \<Rightarrow> nat option" where
  "radix16_digits mx acc [] = Some acc"
| "radix16_digits mx acc (c # cs) =
     (case to_digit16 c of
        None \<Rightarrow> None
      | Some d \<Rightarrow> if 16 * acc + d \<le> mx then radix16_digits mx (16 * acc + d) cs else None)"

definition from_str_radix16 :: "nat \<Rightarrow> string \<Rightarrow> nat option" where
  "from_str_radix16 mx s =
     (case s of
        [] \<Rightarrow> None
      | c # cs \<Rightarrow>
          (if c = CHR ''+'' then (if cs = [] then None else radix16_digits mx 0 cs)
           else radix16_digits mx 0 s))"

text \<open>\<^verbatim>\<open>str::split(char)\<close>: one part more than there are separators.\<close>

fun split_char :: "char \<Rightarrow> string \<Rightarrow> string list" where
  "split_char sep [] = [[]]"
| "split_char sep (c # cs) =
     (if c = sep then [] # split_char sep cs
      else (case split_char sep cs of
              [] \<Rightarrow> [[c]]
            | p # ps \<Rightarrow> (c # p) # ps))"

text \<open>\<^verbatim>\<open>str::is_char_boundary\<close> on the UTF-8 bytes of a string.\<close>

definition is_char_boundary :: "string \<Rightarrow> nat \<Rightarrow> bool" where
  "is_char_boundary s i =
     (i = 0 \<or> i = length s
      \<or> (i < length s \<and> \<not> (128 \<le> (of_char (s ! i) :: nat) \<and> (of_char (s ! i) :: nat) < 192)))"

text \<open>\<^verbatim>\<open>u8::from_str_radix\<close> and \<^verbatim>\<open>u16::from_str_radix\<close>.\<close>

definition u8_from_str_radix16 :: "string \<Rightarrow> u8 option" where
  "u8_from_str_radix16 s = map_option of_nat (from_str_radix16 255 s)"

definition u16_from_str_radix16 :: "string \<Rightarrow> u16 option" where
  "u16_from_str_radix16 s = map_option of_nat (from_str_radix16 65535 s)"

lemma hex_digits_checked:
  "\<forall>n < 16. to_digit16 (hex_digit_upper n) = Some n \<and> to_digit16 (hex_digit_lower n) = Some n
     \<and> hex_digit_upper n \<notin> set '':-+'' \<and> hex_digit_lower n \<notin> set '':-+''
     \<and> (of_char (hex_digit_lower n) :: nat) < 128"
  by code_simp

lemma hex_digit_facts:
  assumes "n < 16"
  shows "to_digit16 (hex_digit_upper n) = Some n" "to_digit16 (hex_digit_lower n) = Some n"
    and "hex_digit_upper n \<noteq> CHR '':''" "hex_digit_upper n \<noteq> CHR ''-''"
    and "hex_digit_upper n \<noteq> CHR ''+''" "hex_digit_lower n \<noteq> CHR ''-''"
    and "hex_digit_lower n \<noteq> CHR ''+''" "(of_char (hex_digit_lower n) :: nat) < 128"
  using hex_digits_checked assms by auto

section \<open>Bluetooth addresses\<close>

text \<open>\<^verbatim>\<open>Address\<close>: six bytes, least-significant first.\<close>

record Address =
  addr_bytes :: bytes

definition wf_Address :: "Address \<Rightarrow> bool" where
  "wf_Address a = (length (addr_bytes a) = 6)"

definition Address_ANY :: Address where
  "Address_ANY = \<lparr>addr_bytes = [0, 0, 0, 0, 0, 0]\<rparr>"

definition Address_new :: "bytes \<Rightarrow> Address" where
  "Address_new b = \<lparr>addr_bytes = b\<rparr>"

definition Address_from_be_bytes :: "bytes \<Rightarrow> Address" where
  "Address_from_be_bytes b = \<lparr>addr_bytes = [b ! 5, b ! 4, b ! 3, b ! 2, b ! 1, b ! 0]\<rparr>"

definition Address_as_slice :: "Address \<Rightarrow> bytes" where
  "Address_as_slice a = addr_bytes a"

fun join_colon :: "string list \<Rightarrow> string" where
  "join_colon [] = []"
| "join_colon [p] = p"
| "join_colon (p # ps) = p @ '':'' @ join_colon ps"

definition Address_to_netsim_wire_string :: "Address \<Rightarrow> string" where
  "Address_to_netsim_wire_string a = join_colon (map hex2_upper (addr_bytes a))"

definition Address_to_be_bytes :: "Address \<Rightarrow> bytes" where
  "Address_to_be_bytes a =
     [addr_bytes a ! 5, addr_bytes a ! 4, addr_bytes a ! 3,
      addr_bytes a ! 2, addr_bytes a ! 1, addr_bytes a ! 0]"

definition Address_display :: "Address \<Rightarrow> string" where
  "Address_display a =
     hex2_upper (addr_bytes a ! 5) @ '':'' @ hex2_upper (addr_bytes a ! 4) @ '':'' @
     hex2_upper (addr_bytes a ! 3) @ '':'' @ hex2_upper (addr_bytes a ! 2) @ '':'' @
     hex2_upper (addr_bytes a ! 1) @ '':'' @ hex2_upper (addr_bytes a ! 0)"

text \<open>The loop of \<^verbatim>\<open>Address::from_str\<close>: part \<open>i\<close> goes to byte \<open>5 - i\<close>.\<close>

fun address_parts :: "nat \<Rightarrow> bytes \<Rightarrow> string list \<Rightarrow> string + bytes" where
  "address_parts i b [] = Inr b"
| "address_parts i b (part # parts) =
     (case u8_from_str_radix16 part of
        None \<Rightarrow> Inl (''Invalid hex byte in address: '' @ part)
      | Some v \<Rightarrow> address_parts (Suc i) (b[5 - i := v]) parts)"

definition Address_from_str :: "string \<Rightarrow> string + Address" where
  "Address_from_str s =
     (let parts = split_char (CHR '':'') s in
      if length parts \<noteq> 6 then Inl (''Invalid Bluetooth address format: '' @ s)
      else (case address_parts 0 (replicate 6 0) parts of
              Inl e \<Rightarrow> Inl e
            | Inr b \<Rightarrow> Inr \<lparr>addr_bytes = b\<rparr>))"

datatype AddressType = Public | Random | PublicIdentity | RandomIdentity

section \<open>UUIDs\<close>

datatype Uuid =
    Uuid16 u16
  | Uuid128 bytes

fun wf_Uuid :: "Uuid \<Rightarrow> bool" where
  "wf_Uuid (Uuid16 _) = True"
| "wf_Uuid (Uuid128 b) = (length b = 16)"

definition BASE_UUID :: bytes where
  "BASE_UUID =
     [0xFB, 0x34, 0x9B, 0x5F, 0x80, 0x00, 0x00, 0x80, 0x00, 0x10, 0x00, 0x00, 0x00, 0x00, 0x00,
      0x00]"

abbreviation Uuid_CCCD :: Uuid where
  "Uuid_CCCD \<equiv> Uuid16 0x2902"

definition Uuid_from_u16 :: "u16 \<Rightarrow> Uuid" where
  "Uuid_from_u16 v = Uuid16 v"

definition Uuid_from_u128_bytes :: "bytes \<Rightarrow> Uuid" where
  "Uuid_from_u128_bytes b = Uuid128 b"

definition Uuid_from_bytes :: "bytes \<Rightarrow> Uuid option" where
  "Uuid_from_bytes sl =
     (if length sl = 2 then Some (Uuid16 (from_le_bytes (sl ! 0) (sl ! 1)))
      else if length sl = 16 then Some (Uuid128 sl)
      else None)"

fun Uuid_to_att_bytes :: "Uuid \<Rightarrow> bytes" where
  "Uuid_to_att_bytes (Uuid16 v) = to_le_bytes v"
| "Uuid_to_att_bytes (Uuid128 b) = b"

fun Uuid_to_128_bit_bytes :: "Uuid \<Rightarrow> bytes" where
  "Uuid_to_128_bit_bytes (Uuid16 v) =
     BASE_UUID[12 := ucast (v AND 0xFF), 13 := ucast (drop_bit 8 v AND 0xFF)]"
| "Uuid_to_128_bit_bytes (Uuid128 b) = b"

fun Uuid_len :: "Uuid \<Rightarrow> nat" where
  "Uuid_len (Uuid16 _) = 2"
| "Uuid_len (Uuid128 _) = 16"

fun Uuid_is_empty :: "Uuid \<Rightarrow> bool" where
  "Uuid_is_empty (Uuid16 v) = (v = 0)"
| "Uuid_is_empty (Uuid128 b) = list_all (\<lambda>x. x = 0) b"

fun Uuid_display :: "Uuid \<Rightarrow> string" where
  "Uuid_display (Uuid16 v) = hex4_upper v"
| "Uuid_display (Uuid128 b) =
     concat (map (\<lambda>i. hex2_lower (b ! i)) [15, 14, 13, 12]) @ ''-'' @
     concat (map (\<lambda>i. hex2_lower (b ! i)) [11, 10]) @ ''-'' @
     concat (map (\<lambda>i. hex2_lower (b ! i)) [9, 8]) @ ''-'' @
     concat (map (\<lambda>i. hex2_lower (b ! i)) [7, 6]) @ ''-'' @
     concat (map (\<lambda>i. hex2_lower (b ! i)) [5, 4, 3, 2, 1, 0])"

text \<open>
  The loop of \<^verbatim>\<open>Uuid::from_str\<close> over \<open>i = 16 - n, \<dots>, 15\<close> of a 32-byte string: \<open>None\<close> is the
  panic of \<^verbatim>\<open>&clean[i * 2..i * 2 + 2]\<close> off a character boundary.
\<close>

fun uuid_bytes_loop :: "string \<Rightarrow> string \<Rightarrow> nat \<Rightarrow> bytes \<Rightarrow> (string + bytes) option" where
  "uuid_bytes_loop s clean 0 b = Some (Inr b)"
| "uuid_bytes_loop s clean (Suc n) b =
     (let i = 16 - Suc n in
      if \<not> is_char_boundary clean (i * 2) \<or> \<not> is_char_boundary clean (i * 2 + 2) then None
      else (case u8_from_str_radix16 (take 2 (drop (i * 2) clean)) of
              None \<Rightarrow> Some (Inl (''Invalid hex in 128-bit UUID: '' @ s))
            | Some v \<Rightarrow> uuid_bytes_loop s clean n (b[15 - i := v])))"

definition Uuid_from_str :: "string \<Rightarrow> (string + Uuid) option" where
  "Uuid_from_str s =
     (let clean = filter (\<lambda>c. c \<noteq> CHR ''-'') s in
      if length clean = 4 then
        (case u16_from_str_radix16 clean of
           None \<Rightarrow> Some (Inl (''Invalid 16-bit UUID: '' @ s))
         | Some v \<Rightarrow> Some (Inr (Uuid16 v)))
      else if length clean = 32 then
        (case uuid_bytes_loop s clean 16 (replicate 16 0) of
           None \<Rightarrow> None
         | Some (Inl e) \<Rightarrow> Some (Inl e)
         | Some (Inr b) \<Rightarrow> Some (Inr (Uuid128 b)))
      else Some (Inl (''Invalid UUID length: '' @ s)))"


section \<open>Round trips\<close>

lemma unat_u8_nibbles [simp]: "unat (b :: u8) div 16 < 16"
  by (simp add: div_less_iff_less_mult)

lemma hex2_value [simp]:
  "u8_from_str_radix16 (hex2_upper b) = Some b"
  "u8_from_str_radix16 (hex2_lower b) = Some b"
proof -
  have "unat b div 16 \<le> 255" using unat_u8_nibbles [of b] by linarith
  then show "u8_from_str_radix16 (hex2_upper b) = Some b" "u8_from_str_radix16 (hex2_lower b) = Some b"
  by (simp_all add: u8_from_str_radix16_def from_str_radix16_def hex2_upper_def hex2_lower_def
      hex_digit_facts)
qed

lemma split_char_append:
  "sep \<notin> set p \<Longrightarrow> split_char sep (p @ sep # rest) = p # split_char sep rest"
  by (induction p) auto

lemma split_char_single: "sep \<notin> set p \<Longrightarrow> split_char sep p = [p]"
  by (induction p) auto

lemma hex2_upper_no_colon: "CHR '':'' \<notin> set (hex2_upper b)"
  using hex_digit_facts(3) [of "unat b div 16"] hex_digit_facts(3) [of "unat b mod 16"]
  by (auto simp: hex2_upper_def)

lemma Address_display_parts:
  "split_char (CHR '':'') (Address_display a) =
     map (\<lambda>i. hex2_upper (addr_bytes a ! i)) [5, 4, 3, 2, 1, 0]"
  using hex2_upper_no_colon
  by (simp add: Address_display_def split_char_append split_char_single)

text \<open>An address printed by its \<^verbatim>\<open>Display\<close> form is read back by \<^verbatim>\<open>from_str\<close> as the same
  address: the display order (most significant byte first) and the storage order (least significant
  first) agree between the two.\<close>
theorem Address_text_round_trip:
  assumes "wf_Address a"
  shows "Address_from_str (Address_display a) = Inr a"
proof -
  from assms obtain x0 x1 x2 x3 x4 x5 where "addr_bytes a = [x0, x1, x2, x3, x4, x5]"
    by (auto simp: wf_Address_def list_of_length)
  then show ?thesis
    by (cases a)
      (simp add: Address_from_str_def Address_display_parts eval_nat_numeral)
qed

theorem Address_text_round_trip_witness:
  "Address_from_str (Address_display \<lparr>addr_bytes = [0x06, 0, 0, 0x57, 0x1E, 0xCC]\<rparr>)
     = Inr \<lparr>addr_bytes = [0x06, 0, 0, 0x57, 0x1E, 0xCC]\<rparr>"
  by (rule Address_text_round_trip) (simp add: wf_Address_def)

lemma Uuid_att_bytes_length: "wf_Uuid u \<Longrightarrow> length (Uuid_to_att_bytes u) = Uuid_len u"
  by (cases u) auto

lemma Uuid_from_to_att_bytes: "wf_Uuid u \<Longrightarrow> Uuid_from_bytes (Uuid_to_att_bytes u) = Some u"
  by (cases u) (simp_all add: Uuid_from_bytes_def to_le_bytes_def)

lemma Uuid_from_bytes_SomeD:
  "Uuid_from_bytes bs = Some u \<Longrightarrow> wf_Uuid u \<and> Uuid_to_att_bytes u = bs"
  by (auto simp: Uuid_from_bytes_def list_of_length split: if_splits)

lemma u16_digits:
  fixes n :: nat
  shows "16 * (16 * (16 * (n div 4096) + n div 256 mod 16) + n div 16 mod 16) + n mod 16 = n"
proof -
  have "n div 256 = n div 16 div 16" and "n div 4096 = n div 256 div 16"
    by (simp_all flip: div_mult2_eq)
  then show ?thesis by (metis mult_div_mod_eq)
qed

lemma radix16_four_digits:
  assumes "a < 16" "b < 16" "c < 16" "d < 16"
  shows "from_str_radix16 65535 (map hex_digit_upper [a, b, c, d]) =
     Some (16 * (16 * (16 * a + b) + c) + d)"
proof -
  have "a \<le> 65535" "16 * a + b \<le> 65535" "16 * (16 * a + b) + c \<le> 65535"
      "16 * (16 * (16 * a + b) + c) + d \<le> 65535"
    using assms by (simp_all add: distrib_left)
  then show ?thesis
    using assms by (simp add: from_str_radix16_def hex_digit_facts)
qed

lemma hex4_value [simp]: "u16_from_str_radix16 (hex4_upper w) = Some w"
proof -
  have "unat w div 4096 < 16" by (simp add: div_less_iff_less_mult)
  from radix16_four_digits [OF this, of "unat w div 256 mod 16" "unat w div 16 mod 16" "unat w mod 16",
      unfolded u16_digits]
  show ?thesis by (simp add: u16_from_str_radix16_def hex4_upper_def)
qed

lemma hex4_no_dash: "filter (\<lambda>c. c \<noteq> CHR ''-'') (hex4_upper w) = hex4_upper w"
proof -
  have "unat w div 4096 < 16" by (simp add: div_less_iff_less_mult)
  then show ?thesis by (simp add: hex4_upper_def hex_digit_facts)
qed

lemma length_hex4: "length (hex4_upper w) = 4"
  by (simp add: hex4_upper_def)

lemma hex2_lower_no_dash: "filter (\<lambda>c. c \<noteq> CHR ''-'') (hex2_lower b) = hex2_lower b"
  by (simp add: hex2_lower_def hex_digit_facts)

lemma Uuid_display_clean:
  "filter (\<lambda>c. c \<noteq> CHR ''-'') (Uuid_display (Uuid128 b)) =
     concat (map (\<lambda>i. hex2_lower (b ! i)) [15, 14, 13, 12, 11, 10, 9, 8, 7, 6, 5, 4, 3, 2, 1, 0])"
  by (simp add: hex2_lower_no_dash)

lemma ascii_boundary:
  "list_all (\<lambda>c. (of_char c :: nat) < 128) s \<Longrightarrow> i \<le> length s \<Longrightarrow> is_char_boundary s i"
  by (cases "i = length s") (auto simp: is_char_boundary_def list_all_length dest!: spec [of _ i])

lemma uuid_loop_step:
  assumes "list_all (\<lambda>c. (of_char c :: nat) < 128) clean" "length clean = 32" "n < 16"
    and "take 2 (drop ((15 - n) * 2) clean) = hex2_lower x"
  shows "uuid_bytes_loop s clean (Suc n) b = uuid_bytes_loop s clean n (b[n := x])"
proof -
  have i: "16 - Suc n = 15 - n" "15 - (15 - n) = n" "(15 - n) * 2 + 2 \<le> 32"
    using assms(3) by auto
  then have "is_char_boundary clean ((15 - n) * 2)" "is_char_boundary clean ((15 - n) * 2 + 2)"
    using ascii_boundary [OF assms(1)] assms(2) by auto
  then show ?thesis
    using assms(4) by (simp only: uuid_bytes_loop.simps i Let_def) simp
qed

text \<open>Induction over the loop: the positions above \<open>n\<close> are already filled.\<close>

lemma uuid_loop_all:
  assumes "length b = 16" "n \<le> 16" "length acc = 16"
    and clean: "clean = concat (map hex2_lower (rev b))"
  shows "uuid_bytes_loop s clean n acc = Some (Inr (take n b @ drop n acc))"
  using assms(2,3)
proof (induction n arbitrary: acc)
  case 0
  then show ?case by simp
next
  case (Suc n)
  have len: "length clean = 32"
    using assms(1) by (simp add: clean length_concat o_def hex2_lower_def sum_list_triv)
  have ascii: "list_all (\<lambda>c. (of_char c :: nat) < 128) clean"
    by (auto simp: clean list_all_iff hex2_lower_def hex_digit_facts)
  have "take 2 (drop ((15 - n) * 2) clean) = hex2_lower (rev b ! (15 - n))"
    unfolding clean
    using concat_pairs_nth [of "15 - n" "rev b" hex2_lower] Suc.prems assms(1)
    by (simp add: hex2_lower_def)
  moreover have "rev b ! (15 - n) = b ! n"
    using Suc.prems assms(1) by (simp add: rev_nth)
  ultimately have "uuid_bytes_loop s clean (Suc n) acc = uuid_bytes_loop s clean n (acc[n := b ! n])"
    using uuid_loop_step [OF ascii len] Suc.prems by simp
  also have "\<dots> = Some (Inr (take n b @ drop n (acc[n := b ! n])))"
    using Suc by simp
  also have "take n b @ drop n (acc[n := b ! n]) = take (Suc n) b @ drop (Suc n) acc"
    using Suc.prems assms(1)
    by (simp add: take_Suc_conv_app_nth Cons_nth_drop_Suc [symmetric] drop_update_cancel)
  finally show ?case .
qed

text \<open>A UUID printed by its \<^verbatim>\<open>Display\<close> form (four upper-case digits for a 16-bit UUID, the
  dashed lower-case form for a 128-bit one) is read back by \<^verbatim>\<open>from_str\<close> as the same UUID, without
  a panic.\<close>
theorem Uuid_text_round_trip:
  assumes "wf_Uuid u"
  shows "Uuid_from_str (Uuid_display u) = Some (Inr u)"
proof (cases u)
  case (Uuid16 w)
  then show ?thesis
    by (simp add: Uuid_from_str_def hex4_no_dash length_hex4)
next
  case (Uuid128 b)
  with assms have b: "length b = 16" by simp
  have idx: "[15, 14, 13, 12, 11, 10, 9, 8, 7, 6, 5, 4, 3, 2, 1, 0] = rev [0..<16]"
    by (simp add: eval_nat_numeral)
  have "map (\<lambda>i. hex2_lower (b ! i)) [0..<16] = map hex2_lower b"
    using b by (intro nth_equalityI) auto
  then have "map (\<lambda>i. hex2_lower (b ! i)) (rev [0..<16]) = map hex2_lower (rev b)"
    by (simp only: rev_map [symmetric])
  then have clean: "filter (\<lambda>c. c \<noteq> CHR ''-'') (Uuid_display (Uuid128 b))
      = concat (map hex2_lower (rev b))"
    unfolding Uuid_display_clean idx by (rule arg_cong)
  have "length (concat (map hex2_lower (rev b))) = 32"
    using b by (simp add: length_concat o_def hex2_lower_def sum_list_triv)
  moreover have "uuid_bytes_loop s (concat (map hex2_lower (rev b))) 16 (replicate 16 0)
      = Some (Inr b)" for s
    using uuid_loop_all [OF b, of 16 "replicate 16 0" _ s] b by simp
  ultimately show ?thesis
    unfolding Uuid128 Uuid_from_str_def clean Let_def by simp
qed

theorem Uuid_text_round_trip_witness:
  "Uuid_from_str (Uuid_display (Uuid128 BASE_UUID)) = Some (Inr (Uuid128 BASE_UUID))"
  by (rule Uuid_text_round_trip) (simp add: BASE_UUID_def)

text \<open>\<^verbatim>\<open>Uuid::from_str\<close> panics on some well-formed text: the string of an \<^verbatim>\<open>a\<close>, a two-byte
  character (the UTF-8 bytes \<open>C3 A9\<close>) and 29 zeros has 32 bytes, and the first two-byte slice ends
  inside the character.\<close>
theorem Uuid_from_str_panics:
  "Uuid_from_str (CHR ''a'' # char_of (0xC3 :: nat) # char_of (0xA9 :: nat)
     # replicate 29 (CHR ''0'')) = None"
  by code_simp

end
