(* ===== verification/Smp_Pairing.thy ===== *)
theory Smp_Pairing
  imports Complex_Main Smp_Packets Smp_Crypto Hci_Types
begin

text \<open>
  The SMP pairing session (\<open>src/src/smp/pairing.rs\<close>, with the key records of
  \<open>src/src/smp/keystore.rs\<close>): configuration, session state, and one definition per method of the
  state machine. A method takes the session and returns the session it leaves. The results of the
  internal methods are always \<^verbatim>\<open>Ok\<close>, so they are dropped; a panic (an \<^verbatim>\<open>expect\<close> that fails) is
  \<open>None\<close>. Elliptic-curve operations are the parameter \<open>ec\<close>. The \<open>n\<close>-th random value the session
  draws is \<open>rnd n\<close> at the requested length, with the number of draws kept in the session. The clock
  of the Security Manager Timer, an \<^verbatim>\<open>f64\<close>, is a real number: rounding and the special values are
  not modelled.
\<close>

section \<open>Constants and configuration\<close>

definition SMP_DEBUG_KEY_PRIVATE_BE :: bytes where
  "SMP_DEBUG_KEY_PRIVATE_BE =
     [0x3F, 0x49, 0xF6, 0xD4, 0xA3, 0xC5, 0x5F, 0x38, 0x74, 0xC9, 0xB3, 0xE3, 0xD2, 0x10, 0x3F, 0x50,
      0x4A, 0xFF, 0x60, 0x7B, 0xEB, 0x40, 0xB7, 0x99, 0x58, 0x99, 0xB8, 0xA6, 0xCD, 0x3C, 0x1A, 0xBD]"

abbreviation (input) SMP_TIMEOUT_SECONDS :: real where "SMP_TIMEOUT_SECONDS \<equiv> 30"
abbreviation (input) OPCODE_KEYPRESS_NOTIFICATION :: u8 where "OPCODE_KEYPRESS_NOTIFICATION \<equiv> 0x0E"
abbreviation (input) OOB_DATA_PRESENT :: u8 where "OOB_DATA_PRESENT \<equiv> 0x01"
abbreviation (input) AUTH_REQ_RESERVED :: u8 where "AUTH_REQ_RESERVED \<equiv> 0xC2"
abbreviation (input) MIN_ENCRYPTION_KEY_SIZE :: u8 where "MIN_ENCRYPTION_KEY_SIZE \<equiv> 7"
abbreviation (input) MAX_ENCRYPTION_KEY_SIZE :: u8 where "MAX_ENCRYPTION_KEY_SIZE \<equiv> 16"
abbreviation (input) LEN_PAIRING_PARAMETERS :: nat where "LEN_PAIRING_PARAMETERS \<equiv> 7"
abbreviation (input) LEN_PAIRING_FAILED :: nat where "LEN_PAIRING_FAILED \<equiv> 2"

definition SMP_CTKD_H7_LEBR_SALT :: bytes where
  "SMP_CTKD_H7_LEBR_SALT = replicate 12 0 @ [0x74, 0x6D, 0x70, 0x31]"

definition SMP_CTKD_H7_BRLE_SALT :: bytes where
  "SMP_CTKD_H7_BRLE_SALT = replicate 12 0 @ [0x74, 0x6D, 0x70, 0x32]"

datatype Role = Initiator | Responder

datatype Phase =
    Idle | WaitPairingResponse | WaitPeerConfirm | WaitPeerRandom | WaitPeerPublicKey
  | WaitPeerDhKeyCheck | Complete | Failed

datatype IdentityAddressPreference = PreferPublic | PreferRandom

record PairingConfig =
  pc_io_capability :: u8
  pc_bonding :: bool
  pc_mitm :: bool
  pc_sc :: bool
  pc_debug_mode :: bool
  pc_defer_key_distribution :: bool
  pc_initiator_key_distribution :: u8
  pc_responder_key_distribution :: u8
  pc_identity_address_preference :: "IdentityAddressPreference option"

definition PairingConfig_default :: PairingConfig where
  "PairingConfig_default =
     \<lparr>pc_io_capability = io_NO_INPUT_NO_OUTPUT, pc_bonding = True, pc_mitm = False, pc_sc = True,
      pc_debug_mode = False, pc_defer_key_distribution = False,
      pc_initiator_key_distribution = key_dist_ENC_KEY OR key_dist_ID_KEY,
      pc_responder_key_distribution = key_dist_ENC_KEY OR key_dist_ID_KEY,
      pc_identity_address_preference = None\<rparr>"

definition resolve_identity_address ::
  "IdentityAddressPreference option \<Rightarrow> Address \<Rightarrow> Address \<Rightarrow> u8 \<times> Address" where
  "resolve_identity_address preference public_address static_address =
     (case preference of
        Some PreferPublic \<Rightarrow> (0, public_address)
      | Some PreferRandom \<Rightarrow> (1, static_address)
      | None \<Rightarrow> if public_address \<noteq> Address_ANY then (0, public_address) else (1, static_address))"

record PairingKey =
  pk_value :: bytes
  pk_authenticated :: bool
  pk_ediv :: "u16 option"
  pk_rand :: "bytes option"

definition PairingKey_new :: "bytes \<Rightarrow> PairingKey" where
  "PairingKey_new v = \<lparr>pk_value = v, pk_authenticated = False, pk_ediv = None, pk_rand = None\<rparr>"

record PairingKeys =
  keys_address_type :: "u8 option"
  keys_ltk :: "PairingKey option"
  keys_ltk_central :: "PairingKey option"
  keys_ltk_peripheral :: "PairingKey option"
  keys_irk :: "PairingKey option"
  keys_csrk :: "PairingKey option"
  keys_link_key :: "PairingKey option"

definition PairingKeys_default :: PairingKeys where
  "PairingKeys_default =
     \<lparr>keys_address_type = None, keys_ltk = None, keys_ltk_central = None, keys_ltk_peripheral = None,
      keys_irk = None, keys_csrk = None, keys_link_key = None\<rparr>"

section \<open>Building and parsing packets\<close>

definition build_16 :: "u8 \<Rightarrow> bytes \<Rightarrow> bytes" where
  "build_16 op v = op # v"

definition parse_16 :: "bytes \<Rightarrow> u8 \<Rightarrow> bytes option" where
  "parse_16 pdu op = (if length pdu \<noteq> 17 \<or> pdu ! 0 \<noteq> op then None else Some (take 16 (drop 1 pdu)))"

definition build_public_key :: "bytes \<Rightarrow> bytes \<Rightarrow> bytes" where
  "build_public_key x y = smp_PAIRING_PUBLIC_KEY # x @ y"

definition parse_public_key :: "bytes \<Rightarrow> (bytes \<times> bytes) option" where
  "parse_public_key pdu =
     (if length pdu \<noteq> 65 \<or> pdu ! 0 \<noteq> smp_PAIRING_PUBLIC_KEY then None
      else Some (take 32 (drop 1 pdu), take 32 (drop 33 pdu)))"

definition build_master_id :: "u16 \<Rightarrow> bytes \<Rightarrow> bytes" where
  "build_master_id ediv r = MasterIdentification_as_bytes (MasterIdentification_new ediv r)"

definition parse_master_id :: "bytes \<Rightarrow> (u16 \<times> bytes) option" where
  "parse_master_id pdu =
     (case MasterIdentification_parse pdu of
        None \<Rightarrow> None
      | Some (pkt, rest) \<Rightarrow> if rest \<noteq> [] then None else Some (mid_ediv pkt, mid_rand pkt))"

definition build_identity_addr_info :: "u8 \<Rightarrow> Address \<Rightarrow> bytes" where
  "build_identity_addr_info addr_type addr =
     IdentityAddressInformation_as_bytes (IdentityAddressInformation_new addr_type (addr_bytes addr))"

definition parse_identity_addr_info :: "bytes \<Rightarrow> (u8 \<times> Address) option" where
  "parse_identity_addr_info pdu =
     (case IdentityAddressInformation_parse pdu of
        None \<Rightarrow> None
      | Some (pkt, rest) \<Rightarrow>
          if rest \<noteq> [] then None
          else if 1 < iai_addr_type pkt then None
          else Some (iai_addr_type pkt, Address_new (iai_address pkt)))"

definition parse_pairing_parameters :: "bytes \<Rightarrow> SmpPairingPacket option" where
  "parse_pairing_parameters pdu =
     (if length pdu \<noteq> LEN_PAIRING_PARAMETERS then None
      else case SmpPairingPacket_parse pdu of
        None \<Rightarrow> None
      | Some (packet, _) \<Rightarrow>
          if io_KEYBOARD_DISPLAY < spp_io_capability packet then None
          else if OOB_DATA_PRESENT < spp_oob_data_flag packet then None
          else if spp_auth_req packet AND AUTH_REQ_RESERVED \<noteq> 0 then None
          else if \<not> (MIN_ENCRYPTION_KEY_SIZE \<le> spp_max_encryption_key_size packet
                     \<and> spp_max_encryption_key_size packet \<le> MAX_ENCRYPTION_KEY_SIZE) then None
          else Some packet)"

section \<open>Session state\<close>

record 's PairingSession =
  ps_role :: Role
  ps_phase :: Phase
  ps_io_capability :: u8
  ps_peer_io_capability :: u8
  ps_bonding :: bool
  ps_mitm :: bool
  ps_sc :: bool
  ps_defer_key_distribution :: bool
  ps_link_encrypted :: bool
  ps_initiator_key_distribution :: u8
  ps_responder_key_distribution :: u8
  ps_preq :: bytes
  ps_pres :: bytes
  ps_ia :: bytes
  ps_iat :: u8
  ps_ra :: bytes
  ps_rat :: u8
  ps_tk :: bytes
  ps_r_local :: bytes
  ps_peer_random :: "bytes option"
  ps_peer_confirm :: "bytes option"
  ps_stk :: "bytes option"
  ps_local_bonded_ltk :: bytes
  ps_local_bonded_ediv :: u16
  ps_local_bonded_rand :: bytes
  ps_peer_ltk :: "bytes option"
  ps_peer_ediv :: "u16 option"
  ps_peer_rand :: "bytes option"
  ps_ecdh :: "'s P256Keypair"
  ps_local_pub_x :: bytes
  ps_local_pub_y :: bytes
  ps_peer_pub_x :: bytes
  ps_peer_pub_y :: bytes
  ps_dh_key :: "bytes option"
  ps_ltk :: "bytes option"
  ps_ea :: "bytes option"
  ps_eb :: "bytes option"
  ps_local_irk :: bytes
  ps_peer_irk :: "bytes option"
  ps_peer_identity_address :: "(u8 \<times> Address) option"
  ps_peer_csrk :: "bytes option"
  ps_peer_expected :: bytes
  ps_own_keys_sent :: bool
  ps_complete :: bool
  ps_failed :: bool
  ps_timed_out :: bool
  ps_timer_remaining :: "real option"
  ps_last_tick :: "real option"
  ps_is_encrypted :: bool
  ps_identity_address_preference :: "IdentityAddressPreference option"
  ps_local_public_address :: Address
  ps_local_static_address :: Address
  ps_pending :: "bytes list"
  ps_draws :: nat

type_synonym nonces = "nat \<Rightarrow> nat \<Rightarrow> bytes"

fun is_random_type :: "AddressType \<Rightarrow> u8" where
  "is_random_type Random = 1"
| "is_random_type RandomIdentity = 1"
| "is_random_type _ = 0"

text \<open>
  \<^verbatim>\<open>PairingSession::new\<close>. \<open>generated\<close> is what \<^verbatim>\<open>P256Keypair::generate()\<close> returned; in debug mode the
  key pair is built from the fixed scalar, whose rejection by the curve library is a panic.
\<close>

definition PairingSession_new ::
  "'s p256 \<Rightarrow> 's P256Keypair \<Rightarrow> nonces \<Rightarrow> Role \<Rightarrow> PairingConfig \<Rightarrow> Address \<Rightarrow> AddressType \<Rightarrow> Address
   \<Rightarrow> AddressType \<Rightarrow> 's PairingSession option" where
  "PairingSession_new ec generated rnd role config local_address local_address_type peer_address peer_address_type =
     (let (ia, iat, ra, rat) =
            (if role = Initiator then
               (addr_bytes local_address, is_random_type local_address_type,
                addr_bytes peer_address, is_random_type peer_address_type)
             else
               (addr_bytes peer_address, is_random_type peer_address_type,
                addr_bytes local_address, is_random_type local_address_type));
          (local_public, local_static) =
            (case local_address_type of
               Public \<Rightarrow> (local_address, Address_ANY)
             | PublicIdentity \<Rightarrow> (local_address, Address_ANY)
             | Random \<Rightarrow> (Address_ANY, local_address)
             | RandomIdentity \<Rightarrow> (Address_ANY, local_address))
      in case (if pc_debug_mode config then from_private_be ec SMP_DEBUG_KEY_PRIVATE_BE else Some generated) of
           None \<Rightarrow> None
         | Some ecdh \<Rightarrow> Some
     \<lparr>ps_role = role, ps_phase = Idle, ps_io_capability = pc_io_capability config,
      ps_peer_io_capability = io_NO_INPUT_NO_OUTPUT, ps_bonding = pc_bonding config,
      ps_mitm = pc_mitm config, ps_sc = pc_sc config,
      ps_defer_key_distribution = pc_defer_key_distribution config, ps_link_encrypted = False,
      ps_initiator_key_distribution = pc_initiator_key_distribution config,
      ps_responder_key_distribution = pc_responder_key_distribution config,
      ps_preq = replicate 7 0, ps_pres = replicate 7 0, ps_ia = ia, ps_iat = iat, ps_ra = ra,
      ps_rat = rat, ps_tk = replicate 16 0, ps_r_local = replicate 16 0, ps_peer_random = None,
      ps_peer_confirm = None, ps_stk = None, ps_local_bonded_ltk = replicate 16 0,
      ps_local_bonded_ediv = 0, ps_local_bonded_rand = replicate 8 0, ps_peer_ltk = None,
      ps_peer_ediv = None, ps_peer_rand = None, ps_ecdh = ecdh, ps_local_pub_x = kp_x_le ecdh,
      ps_local_pub_y = kp_y_le ecdh, ps_peer_pub_x = replicate 32 0, ps_peer_pub_y = replicate 32 0,
      ps_dh_key = None, ps_ltk = None, ps_ea = None, ps_eb = None, ps_local_irk = rnd 0 16,
      ps_peer_irk = None, ps_peer_identity_address = None, ps_peer_csrk = None,
      ps_peer_expected = [], ps_own_keys_sent = False, ps_complete = False, ps_failed = False,
      ps_timed_out = False, ps_timer_remaining = None, ps_last_tick = None, ps_is_encrypted = False,
      ps_identity_address_preference = pc_identity_address_preference config,
      ps_local_public_address = local_public, ps_local_static_address = local_static,
      ps_pending = [], ps_draws = 1\<rparr>)"

definition draw :: "nonces \<Rightarrow> nat \<Rightarrow> 's PairingSession \<Rightarrow> bytes \<times> 's PairingSession" where
  "draw rnd n s = (rnd (ps_draws s) n, s\<lparr>ps_draws := Suc (ps_draws s)\<rparr>)"

definition auth_req_byte :: "'s PairingSession \<Rightarrow> u8" where
  "auth_req_byte s =
     (if ps_bonding s then auth_req_BONDING else 0) OR (if ps_mitm s then auth_req_MITM else 0)
     OR (if ps_sc s then auth_req_SC else 0)"

definition queue :: "bytes \<Rightarrow> 's PairingSession \<Rightarrow> 's PairingSession" where
  "queue pdu s = s\<lparr>ps_pending := ps_pending s @ [pdu], ps_timer_remaining := Some SMP_TIMEOUT_SECONDS\<rparr>"

definition stop_timer :: "'s PairingSession \<Rightarrow> 's PairingSession" where
  "stop_timer s = s\<lparr>ps_timer_remaining := None\<rparr>"

definition discard_key_material :: "'s PairingSession \<Rightarrow> 's PairingSession" where
  "discard_key_material s =
     s\<lparr>ps_tk := replicate 16 0, ps_stk := None, ps_dh_key := None, ps_ltk := None, ps_ea := None,
       ps_eb := None, ps_peer_confirm := None\<rparr>"

definition fail :: "u8 \<Rightarrow> 's PairingSession \<Rightarrow> 's PairingSession" where
  "fail reason s =
     stop_timer (queue [smp_PAIRING_FAILED, reason]
       (discard_key_material (s\<lparr>ps_phase := Failed, ps_failed := True\<rparr>)))"

definition session_tick :: "real \<Rightarrow> 's PairingSession \<Rightarrow> bool \<times> 's PairingSession" where
  "session_tick t_seconds s =
     (let elapsed = (case ps_last_tick s of
            Some previous \<Rightarrow> if previous < t_seconds then t_seconds - previous else 0
          | None \<Rightarrow> 0);
          s = s\<lparr>ps_last_tick := Some t_seconds\<rparr>
      in case ps_timer_remaining s of
           None \<Rightarrow> (False, s)
         | Some r \<Rightarrow>
             let remaining = r - elapsed in
             if 0 < remaining then (False, s\<lparr>ps_timer_remaining := Some remaining\<rparr>)
             else (True,
               (discard_key_material ((stop_timer s)\<lparr>ps_timed_out := True, ps_phase := Failed, ps_failed := True\<rparr>))
                 \<lparr>ps_pending := []\<rparr>))"

definition session_start :: "'s PairingSession \<Rightarrow> bytes \<times> 's PairingSession" where
  "session_start s =
     (let req = \<lparr>spp_opcode = smp_PAIRING_REQUEST, spp_io_capability = ps_io_capability s,
            spp_oob_data_flag = 0, spp_auth_req = auth_req_byte s,
            spp_max_encryption_key_size = MAX_ENCRYPTION_KEY_SIZE,
            spp_initiator_key_distribution = ps_initiator_key_distribution s,
            spp_responder_key_distribution = ps_responder_key_distribution s\<rparr>
      in (SmpPairingPacket_as_bytes req,
          s\<lparr>ps_preq := SmpPairingPacket_as_bytes req, ps_phase := WaitPairingResponse,
            ps_timer_remaining := Some SMP_TIMEOUT_SECONDS\<rparr>))"

definition poll_pending :: "'s PairingSession \<Rightarrow> bytes option \<times> 's PairingSession" where
  "poll_pending s =
     (case ps_pending s of
        [] \<Rightarrow> (None, s)
      | p # ps \<Rightarrow> (Some p, s\<lparr>ps_pending := ps\<rparr>))"

definition session_ltk :: "'s PairingSession \<Rightarrow> bytes option" where
  "session_ltk s = (if ps_sc s then ps_ltk s else ps_stk s)"

definition is_authenticated :: "'s PairingSession \<Rightarrow> bool" where
  "is_authenticated s =
     (ps_preq s ! 3 AND auth_req_MITM \<noteq> 0 \<and> ps_pres s ! 3 AND auth_req_MITM \<noteq> 0)"

definition encryption_key_size :: "'s PairingSession \<Rightarrow> u8" where
  "encryption_key_size s = min (ps_preq s ! 4) (ps_pres s ! 4)"

definition pairing_keys :: "'s PairingSession \<Rightarrow> PairingKeys" where
  "pairing_keys s =
     (let keys = PairingKeys_default;
          keys =
            (if ps_sc s then keys\<lparr>keys_ltk := map_option PairingKey_new (ps_ltk s)\<rparr>
             else
               let local_key = (PairingKey_new (ps_local_bonded_ltk s))
                     \<lparr>pk_ediv := Some (ps_local_bonded_ediv s), pk_rand := Some (ps_local_bonded_rand s)\<rparr>;
                   peer_key = map_option (\<lambda>v. (PairingKey_new v)
                     \<lparr>pk_ediv := ps_peer_ediv s, pk_rand := ps_peer_rand s\<rparr>) (ps_peer_ltk s)
               in if ps_role s = Initiator
                  then keys\<lparr>keys_ltk_peripheral := Some local_key, keys_ltk_central := peer_key\<rparr>
                  else keys\<lparr>keys_ltk_central := Some local_key, keys_ltk_peripheral := peer_key\<rparr>);
          keys = (case ps_peer_irk s of Some irk \<Rightarrow> keys\<lparr>keys_irk := Some (PairingKey_new irk)\<rparr> | None \<Rightarrow> keys)
      in case ps_peer_identity_address s of
           Some (addr_type, _) \<Rightarrow> keys\<lparr>keys_address_type := Some addr_type\<rparr>
         | None \<Rightarrow> keys)"

text \<open>Cross-transport key derivation; the key identifiers are ASCII \<^verbatim>\<open>tmp1\<close>, \<^verbatim>\<open>tmp2\<close>, \<^verbatim>\<open>lebr\<close> and \<^verbatim>\<open>brle\<close>.\<close>

definition derive_ltk :: "bytes \<Rightarrow> bool \<Rightarrow> bytes" where
  "derive_ltk link_key ct2 =
     (let ilk = (if ct2 then smp_h7 SMP_CTKD_H7_BRLE_SALT link_key
            else smp_h6 link_key [0x74, 0x6D, 0x70, 0x32])
      in smp_h6 ilk [0x62, 0x72, 0x6C, 0x65])"

definition derive_link_key :: "bytes \<Rightarrow> bool \<Rightarrow> bytes" where
  "derive_link_key ltk ct2 =
     (let ilk = (if ct2 then smp_h7 SMP_CTKD_H7_LEBR_SALT ltk
            else smp_h6 ltk [0x74, 0x6D, 0x70, 0x31])
      in smp_h6 ilk [0x6C, 0x65, 0x62, 0x72])"

section \<open>Key distribution\<close>

definition distribute_keys :: "'s PairingSession \<Rightarrow> 's PairingSession" where
  "distribute_keys s =
     (if ps_own_keys_sent s then s
      else
        let s = s\<lparr>ps_own_keys_sent := True\<rparr>;
            my_flags = (if ps_role s = Initiator then ps_initiator_key_distribution s
              else ps_responder_key_distribution s);
            s = (if \<not> ps_sc s \<and> my_flags AND key_dist_ENC_KEY \<noteq> 0
              then queue (build_master_id (ps_local_bonded_ediv s) (ps_local_bonded_rand s))
                (queue (build_16 smp_ENCRYPTION_INFO (ps_local_bonded_ltk s)) s)
              else s);
            s = (if my_flags AND key_dist_ID_KEY \<noteq> 0
              then case resolve_identity_address (ps_identity_address_preference s)
                     (ps_local_public_address s) (ps_local_static_address s) of
                     (addr_type, addr) \<Rightarrow>
                       queue (build_identity_addr_info addr_type addr)
                         (queue (build_16 smp_IDENTITY_INFO (ps_local_irk s)) s)
              else s)
        in if my_flags AND key_dist_SIGN_KEY \<noteq> 0
           then queue (build_16 smp_SIGNING_INFO (replicate 16 0)) s
           else s)"

definition on_peer_distribution_complete :: "'s PairingSession \<Rightarrow> 's PairingSession" where
  "on_peer_distribution_complete s =
     (let s = (if ps_role s = Initiator then distribute_keys s else s)
      in stop_timer (s\<lparr>ps_complete := True\<rparr>))"

definition on_encrypted :: "'s PairingSession \<Rightarrow> 's PairingSession" where
  "on_encrypted s =
     (let s = s\<lparr>ps_is_encrypted := True, ps_phase := Complete\<rparr>;
          s = (if ps_role s = Responder \<and> (\<not> ps_defer_key_distribution s \<or> ps_link_encrypted s)
            then distribute_keys s else s)
      in if ps_peer_expected s = [] then on_peer_distribution_complete s else s)"

definition on_link_encrypted :: "'s PairingSession \<Rightarrow> 's PairingSession" where
  "on_link_encrypted s =
     (let s = s\<lparr>ps_link_encrypted := True\<rparr>
      in if ps_phase s = Complete \<and> ps_role s = Responder then distribute_keys s else s)"

definition expected_opcodes :: "bool \<Rightarrow> u8 \<Rightarrow> bytes" where
  "expected_opcodes sc flags =
     (if \<not> sc \<and> flags AND key_dist_ENC_KEY \<noteq> 0 then [smp_ENCRYPTION_INFO, smp_MASTER_IDENTIFICATION] else [])
     @ (if flags AND key_dist_ID_KEY \<noteq> 0 then [smp_IDENTITY_INFO, smp_IDENTITY_ADDR_INFO] else [])
     @ (if flags AND key_dist_SIGN_KEY \<noteq> 0 then [smp_SIGNING_INFO] else [])"

definition compute_peer_expected :: "u8 \<Rightarrow> 's PairingSession \<Rightarrow> 's PairingSession" where
  "compute_peer_expected flags s = s\<lparr>ps_peer_expected := expected_opcodes (ps_sc s) flags\<rparr>"

text \<open>\<^verbatim>\<open>position\<close> finds the first occurrence and \<^verbatim>\<open>remove\<close> deletes it: that is \<open>remove1\<close>.\<close>

definition check_distribution :: "u8 \<Rightarrow> 's PairingSession \<Rightarrow> 's PairingSession" where
  "check_distribution op s =
     (if \<not> ps_is_encrypted s then fail smp_error_UNSPECIFIED_REASON s
      else if op \<notin> set (ps_peer_expected s) then fail smp_error_UNSPECIFIED_REASON s
      else
        let s = s\<lparr>ps_peer_expected := remove1 op (ps_peer_expected s)\<rparr>
        in if ps_peer_expected s = [] then on_peer_distribution_complete s else s)"

definition on_encryption_info :: "bytes \<Rightarrow> 's PairingSession \<Rightarrow> 's PairingSession" where
  "on_encryption_info pdu s =
     (case parse_16 pdu smp_ENCRYPTION_INFO of
        None \<Rightarrow> fail smp_error_INVALID_PARAMETERS s
      | Some v \<Rightarrow> check_distribution smp_ENCRYPTION_INFO (s\<lparr>ps_peer_ltk := Some v\<rparr>))"

definition on_master_identification :: "bytes \<Rightarrow> 's PairingSession \<Rightarrow> 's PairingSession" where
  "on_master_identification pdu s =
     (case parse_master_id pdu of
        None \<Rightarrow> fail smp_error_INVALID_PARAMETERS s
      | Some (ediv, r) \<Rightarrow>
          check_distribution smp_MASTER_IDENTIFICATION (s\<lparr>ps_peer_ediv := Some ediv, ps_peer_rand := Some r\<rparr>))"

definition on_identity_info :: "bytes \<Rightarrow> 's PairingSession \<Rightarrow> 's PairingSession" where
  "on_identity_info pdu s =
     (case parse_16 pdu smp_IDENTITY_INFO of
        None \<Rightarrow> fail smp_error_INVALID_PARAMETERS s
      | Some v \<Rightarrow> check_distribution smp_IDENTITY_INFO (s\<lparr>ps_peer_irk := Some v\<rparr>))"

definition on_identity_addr_info :: "bytes \<Rightarrow> 's PairingSession \<Rightarrow> 's PairingSession" where
  "on_identity_addr_info pdu s =
     (case parse_identity_addr_info pdu of
        None \<Rightarrow> fail smp_error_INVALID_PARAMETERS s
      | Some (addr_type, addr) \<Rightarrow>
          check_distribution smp_IDENTITY_ADDR_INFO
            (s\<lparr>ps_peer_identity_address := Some (addr_type, addr)\<rparr>))"

definition on_signing_info :: "bytes \<Rightarrow> 's PairingSession \<Rightarrow> 's PairingSession" where
  "on_signing_info pdu s =
     (case parse_16 pdu smp_SIGNING_INFO of
        None \<Rightarrow> fail smp_error_INVALID_PARAMETERS s
      | Some v \<Rightarrow> check_distribution smp_SIGNING_INFO (s\<lparr>ps_peer_csrk := Some v\<rparr>))"

section \<open>The exchange\<close>

definition on_pairing_failed :: "bytes \<Rightarrow> 's PairingSession \<Rightarrow> 's PairingSession" where
  "on_pairing_failed pdu s =
     (if length pdu \<noteq> LEN_PAIRING_FAILED then fail smp_error_INVALID_PARAMETERS s
      else stop_timer (discard_key_material (s\<lparr>ps_phase := Failed, ps_failed := True\<rparr>)))"

definition on_pairing_request :: "bytes \<Rightarrow> 's PairingSession \<Rightarrow> 's PairingSession" where
  "on_pairing_request pdu s =
     (if ps_role s \<noteq> Responder then fail smp_error_COMMAND_NOT_SUPPORTED s
      else case parse_pairing_parameters pdu of
        None \<Rightarrow> fail smp_error_INVALID_PARAMETERS s
      | Some req \<Rightarrow>
          let s = s\<lparr>ps_timer_remaining := Some SMP_TIMEOUT_SECONDS,
                ps_preq := SmpPairingPacket_as_bytes req,
                ps_peer_io_capability := spp_io_capability req,
                ps_sc := ps_sc s \<and> spp_auth_req req AND auth_req_SC \<noteq> 0,
                ps_bonding := ps_bonding s \<and> spp_auth_req req AND auth_req_BONDING \<noteq> 0,
                ps_initiator_key_distribution :=
                  ps_initiator_key_distribution s AND spp_initiator_key_distribution req,
                ps_responder_key_distribution :=
                  ps_responder_key_distribution s AND spp_responder_key_distribution req\<rparr>;
              s = compute_peer_expected (ps_initiator_key_distribution s) s;
              resp = SmpPairingPacket_as_bytes (SmpPairingPacket_new_response (ps_io_capability s)
                (auth_req_byte s) (ps_initiator_key_distribution s) (ps_responder_key_distribution s));
              s = queue resp (s\<lparr>ps_pres := resp\<rparr>)
          in s\<lparr>ps_phase := (if ps_sc s then WaitPeerPublicKey else WaitPeerConfirm)\<rparr>)"

definition send_confirm_legacy :: "nonces \<Rightarrow> 's PairingSession \<Rightarrow> 's PairingSession" where
  "send_confirm_legacy rnd s =
     (case draw rnd 16 s of
        (r, s) \<Rightarrow>
          let s = s\<lparr>ps_r_local := r\<rparr>;
              confirm = smp_c1 (ps_tk s) (ps_r_local s) (ps_preq s) (ps_pres s) (ps_iat s) (ps_rat s)
                (ps_ia s) (ps_ra s)
          in queue (build_16 smp_PAIRING_CONFIRM confirm) s)"

definition on_pairing_response :: "nonces \<Rightarrow> bytes \<Rightarrow> 's PairingSession \<Rightarrow> 's PairingSession" where
  "on_pairing_response rnd pdu s =
     (if ps_role s \<noteq> Initiator then fail smp_error_COMMAND_NOT_SUPPORTED s
      else case parse_pairing_parameters pdu of
        None \<Rightarrow> fail smp_error_INVALID_PARAMETERS s
      | Some resp \<Rightarrow>
          let s = s\<lparr>ps_pres := SmpPairingPacket_as_bytes resp,
                ps_peer_io_capability := spp_io_capability resp,
                ps_sc := ps_sc s \<and> spp_auth_req resp AND auth_req_SC \<noteq> 0,
                ps_bonding := ps_bonding s \<and> spp_auth_req resp AND auth_req_BONDING \<noteq> 0\<rparr>
          in if spp_initiator_key_distribution resp AND NOT (ps_initiator_key_distribution s) \<noteq> 0
                \<or> spp_responder_key_distribution resp AND NOT (ps_responder_key_distribution s) \<noteq> 0
             then fail smp_error_INVALID_PARAMETERS s
             else
               let s = s\<lparr>ps_initiator_key_distribution := spp_initiator_key_distribution resp,
                     ps_responder_key_distribution := spp_responder_key_distribution resp\<rparr>;
                   s = compute_peer_expected (ps_responder_key_distribution s) s
               in if ps_sc s
                  then (queue (build_public_key (ps_local_pub_x s) (ps_local_pub_y s)) s)
                    \<lparr>ps_phase := WaitPeerPublicKey\<rparr>
                  else (send_confirm_legacy rnd s)\<lparr>ps_phase := WaitPeerConfirm\<rparr>)"

definition on_pairing_confirm :: "nonces \<Rightarrow> bytes \<Rightarrow> 's PairingSession \<Rightarrow> 's PairingSession" where
  "on_pairing_confirm rnd pdu s =
     (case parse_16 pdu smp_PAIRING_CONFIRM of
        None \<Rightarrow> fail smp_error_INVALID_PARAMETERS s
      | Some v \<Rightarrow>
          let s = s\<lparr>ps_peer_confirm := Some v\<rparr> in
          if ps_sc s then
            if ps_role s \<noteq> Initiator then fail smp_error_COMMAND_NOT_SUPPORTED s
            else case draw rnd 16 s of
              (r, s) \<Rightarrow>
                (queue (build_16 smp_PAIRING_RANDOM r) (s\<lparr>ps_r_local := r\<rparr>))\<lparr>ps_phase := WaitPeerRandom\<rparr>
          else if ps_role s = Initiator then
            (queue (build_16 smp_PAIRING_RANDOM (ps_r_local s)) s)\<lparr>ps_phase := WaitPeerRandom\<rparr>
          else (send_confirm_legacy rnd s)\<lparr>ps_phase := WaitPeerRandom\<rparr>)"

definition on_random_legacy :: "nonces \<Rightarrow> bytes \<Rightarrow> 's PairingSession \<Rightarrow> 's PairingSession" where
  "on_random_legacy rnd peer_random s =
     (case ps_peer_confirm s of
        None \<Rightarrow> fail smp_error_UNSPECIFIED_REASON s
      | Some expected \<Rightarrow>
          let check = smp_c1 (ps_tk s) peer_random (ps_preq s) (ps_pres s) (ps_iat s) (ps_rat s)
                (ps_ia s) (ps_ra s)
          in if check \<noteq> expected then fail smp_error_CONFIRM_VALUE_FAILED s
             else
               let (mrand, srand) =
                     (if ps_role s = Initiator then (ps_r_local s, peer_random)
                      else (peer_random, ps_r_local s));
                   s = s\<lparr>ps_stk := Some (smp_s1 (ps_tk s) srand mrand)\<rparr>;
                   (ltk, s) = draw rnd 16 s;
                   (ediv, s) = draw rnd 2 s;
                   (rand8, s) = draw rnd 8 s;
                   s = s\<lparr>ps_local_bonded_ltk := ltk,
                         ps_local_bonded_ediv := from_le_bytes (ediv ! 0) (ediv ! 1),
                         ps_local_bonded_rand := rand8\<rparr>;
                   s = (if ps_role s = Responder
                     then queue (build_16 smp_PAIRING_RANDOM (ps_r_local s)) s else s)
               in on_encrypted s)"

definition finish_sc_random_exchange :: "'s PairingSession \<Rightarrow> 's PairingSession option" where
  "finish_sc_random_exchange s =
     (case ps_peer_random s of
        None \<Rightarrow> None
      | Some peer_random \<Rightarrow>
          let (na, nb) = (if ps_role s = Initiator then (ps_r_local s, peer_random)
                else (peer_random, ps_r_local s));
              a = ps_ia s @ [ps_iat s];
              b = ps_ra s @ [ps_rat s]
          in case ps_dh_key s of
               None \<Rightarrow> None
             | Some dh_key \<Rightarrow>
                 let (mac_key, ltk) = smp_f5 dh_key na nb a b;
                     io_cap_a = take 3 (drop 1 (ps_preq s));
                     io_cap_b = take 3 (drop 1 (ps_pres s));
                     zero = replicate 16 0
                 in Some (s\<lparr>ps_ltk := Some ltk,
                      ps_ea := Some (smp_f6 mac_key na nb zero io_cap_a a b),
                      ps_eb := Some (smp_f6 mac_key nb na zero io_cap_b b a)\<rparr>))"

definition on_random_sc :: "bytes \<Rightarrow> 's PairingSession \<Rightarrow> 's PairingSession option" where
  "on_random_sc peer_random s =
     (if ps_dh_key s = None then Some (fail smp_error_UNSPECIFIED_REASON s)
      else case ps_role s of
        Responder \<Rightarrow>
          (case finish_sc_random_exchange (queue (build_16 smp_PAIRING_RANDOM (ps_r_local s)) s) of
             None \<Rightarrow> None
           | Some s \<Rightarrow> Some (s\<lparr>ps_phase := WaitPeerDhKeyCheck\<rparr>))
      | Initiator \<Rightarrow>
          (case ps_peer_confirm s of
             None \<Rightarrow> Some (fail smp_error_UNSPECIFIED_REASON s)
           | Some expected \<Rightarrow>
               if smp_f4 (ps_peer_pub_x s) (ps_local_pub_x s) peer_random 0 \<noteq> expected
               then Some (fail smp_error_CONFIRM_VALUE_FAILED s)
               else case finish_sc_random_exchange s of
                 None \<Rightarrow> None
               | Some s \<Rightarrow>
                   (case ps_ea s of
                      None \<Rightarrow> None
                    | Some ea \<Rightarrow>
                        Some ((queue (build_16 smp_PAIRING_DHKEY_CHECK ea) s)
                          \<lparr>ps_phase := WaitPeerDhKeyCheck\<rparr>))))"

definition on_pairing_random :: "nonces \<Rightarrow> bytes \<Rightarrow> 's PairingSession \<Rightarrow> 's PairingSession option" where
  "on_pairing_random rnd pdu s =
     (case parse_16 pdu smp_PAIRING_RANDOM of
        None \<Rightarrow> Some (fail smp_error_INVALID_PARAMETERS s)
      | Some v \<Rightarrow>
          let s = s\<lparr>ps_peer_random := Some v\<rparr> in
          if ps_sc s then on_random_sc v s else Some (on_random_legacy rnd v s))"

definition on_public_key :: "'s p256 \<Rightarrow> nonces \<Rightarrow> bytes \<Rightarrow> 's PairingSession \<Rightarrow> 's PairingSession" where
  "on_public_key ec rnd pdu s =
     (case parse_public_key pdu of
        None \<Rightarrow> fail smp_error_INVALID_PARAMETERS s
      | Some (x, y) \<Rightarrow>
          let s = s\<lparr>ps_peer_pub_x := x, ps_peer_pub_y := y\<rparr> in
          (case shared_x_le ec (ps_ecdh s) x y of
             None \<Rightarrow> fail smp_error_DHKEY_CHECK_FAILED s
           | Some dh_key \<Rightarrow>
               let s = s\<lparr>ps_dh_key := Some dh_key\<rparr> in
               (case ps_role s of
                  Initiator \<Rightarrow> s\<lparr>ps_phase := WaitPeerConfirm\<rparr>
                | Responder \<Rightarrow>
                    let s = queue (build_public_key (ps_local_pub_x s) (ps_local_pub_y s)) s;
                        (r, s) = draw rnd 16 s;
                        s = s\<lparr>ps_r_local := r\<rparr>;
                        confirm = smp_f4 (ps_local_pub_x s) x (ps_r_local s) 0
                    in (queue (build_16 smp_PAIRING_CONFIRM confirm) s)\<lparr>ps_phase := WaitPeerRandom\<rparr>)))"

definition on_dhkey_check :: "bytes \<Rightarrow> 's PairingSession \<Rightarrow> 's PairingSession option" where
  "on_dhkey_check pdu s =
     (case parse_16 pdu smp_PAIRING_DHKEY_CHECK of
        None \<Rightarrow> Some (fail smp_error_INVALID_PARAMETERS s)
      | Some v \<Rightarrow>
          (case (if ps_role s = Initiator then ps_eb s else ps_ea s) of
             None \<Rightarrow> Some (fail smp_error_UNSPECIFIED_REASON s)
           | Some expected \<Rightarrow>
               if v \<noteq> expected then Some (fail smp_error_DHKEY_CHECK_FAILED s)
               else if ps_role s = Responder then
                 (case ps_eb s of
                    None \<Rightarrow> None
                  | Some eb \<Rightarrow> Some (on_encrypted (queue (build_16 smp_PAIRING_DHKEY_CHECK eb) s)))
               else Some (on_encrypted s)))"

definition session_step ::
  "'s p256 \<Rightarrow> nonces \<Rightarrow> bytes \<Rightarrow> 's PairingSession \<Rightarrow> 's PairingSession option" where
  "session_step ec rnd pdu s =
     (if ps_failed s then Some s
      else if pdu = [] then Some (fail smp_error_INVALID_PARAMETERS s)
      else
        let op = pdu ! 0 in
        if op = smp_PAIRING_REQUEST then Some (on_pairing_request pdu s)
        else if op = smp_PAIRING_RESPONSE then Some (on_pairing_response rnd pdu s)
        else if op = smp_PAIRING_CONFIRM then Some (on_pairing_confirm rnd pdu s)
        else if op = smp_PAIRING_RANDOM then on_pairing_random rnd pdu s
        else if op = smp_PAIRING_FAILED then Some (on_pairing_failed pdu s)
        else if op = smp_PAIRING_PUBLIC_KEY then Some (on_public_key ec rnd pdu s)
        else if op = smp_PAIRING_DHKEY_CHECK then on_dhkey_check pdu s
        else if op = smp_ENCRYPTION_INFO then Some (on_encryption_info pdu s)
        else if op = smp_MASTER_IDENTIFICATION then Some (on_master_identification pdu s)
        else if op = smp_IDENTITY_INFO then Some (on_identity_info pdu s)
        else if op = smp_IDENTITY_ADDR_INFO then Some (on_identity_addr_info pdu s)
        else if op = smp_SIGNING_INFO then Some (on_signing_info pdu s)
        else if op = smp_SECURITY_REQUEST \<or> op = OPCODE_KEYPRESS_NOTIFICATION then
          Some (fail smp_error_COMMAND_NOT_SUPPORTED s)
        else Some s)"

definition handle_pdu ::
  "'s p256 \<Rightarrow> nonces \<Rightarrow> bytes \<Rightarrow> 's PairingSession \<Rightarrow> (bytes option \<times> 's PairingSession) option" where
  "handle_pdu ec rnd pdu s = map_option poll_pending (session_step ec rnd pdu s)"

end
