(* ===== verification/Bond_Store.thy ===== *)
theory Bond_Store
  imports Btree_Map Smp_Pairing
begin

text \<open>
  Bonded-peer records (\<open>src/src/device/bond_store.rs\<close>). The trait \<^verbatim>\<open>BondStore\<close> is the locale
  \<open>bond_store\<close>: its operations with the laws their documentation promises, and what the device layer
  needs of a store, proved from the laws. The in-memory store interprets it. A \<^verbatim>\<open>HashMap\<close> is a partial
  function, so the peer list, whose order is unspecified, is a set.
\<close>

section \<open>Records and the in-memory store\<close>

record BondSecurity =
  bs_keys :: PairingKeys
  bs_secure_connections :: bool
  bs_authenticated :: bool
  bs_key_size :: u8

record BondRecord =
  br_security :: "BondSecurity option"
  br_cccds :: "u16 btree_map"

definition BondRecord_default :: BondRecord where
  "BondRecord_default = \<lparr>br_security = None, br_cccds = []\<rparr>"

record MemoryBondStore =
  bonds :: "Address \<rightharpoonup> BondRecord"

definition MemoryBondStore_new :: MemoryBondStore where
  "MemoryBondStore_new = \<lparr>bonds = Map.empty\<rparr>"

text \<open>\<^verbatim>\<open>entry(peer).or_default()\<close>.\<close>

definition bond_entry :: "MemoryBondStore \<Rightarrow> Address \<Rightarrow> BondRecord" where
  "bond_entry st peer = (case bonds st peer of Some r \<Rightarrow> r | None \<Rightarrow> BondRecord_default)"

definition store_security :: "Address \<Rightarrow> BondSecurity \<Rightarrow> MemoryBondStore \<Rightarrow> MemoryBondStore" where
  "store_security peer security st =
     st\<lparr>bonds := (bonds st)(peer \<mapsto> (bond_entry st peer)\<lparr>br_security := Some security\<rparr>)\<rparr>"

definition load_security :: "MemoryBondStore \<Rightarrow> Address \<Rightarrow> BondSecurity option" where
  "load_security st peer = (case bonds st peer of None \<Rightarrow> None | Some r \<Rightarrow> br_security r)"

definition store_cccd :: "Address \<Rightarrow> u16 \<Rightarrow> u16 \<Rightarrow> MemoryBondStore \<Rightarrow> MemoryBondStore" where
  "store_cccd peer cccd_handle v st =
     (if v = 0 then
        (case bonds st peer of
           None \<Rightarrow> st
         | Some r \<Rightarrow>
             st\<lparr>bonds := (bonds st)(peer \<mapsto> r\<lparr>br_cccds := bt_remove cccd_handle (br_cccds r)\<rparr>)\<rparr>)
      else
        let r = bond_entry st peer in
        st\<lparr>bonds := (bonds st)(peer \<mapsto> r\<lparr>br_cccds := bt_insert cccd_handle v (br_cccds r)\<rparr>)\<rparr>)"

definition load_cccds :: "MemoryBondStore \<Rightarrow> Address \<Rightarrow> (u16 \<times> u16) list" where
  "load_cccds st peer = (case bonds st peer of None \<Rightarrow> [] | Some r \<Rightarrow> br_cccds r)"

definition bond_delete :: "Address \<Rightarrow> MemoryBondStore \<Rightarrow> bool \<times> MemoryBondStore" where
  "bond_delete peer st = (bonds st peer \<noteq> None, st\<lparr>bonds := (bonds st)(peer := None)\<rparr>)"

definition bond_peers :: "MemoryBondStore \<Rightarrow> Address set" where
  "bond_peers st = dom (bonds st)"

definition is_bonded :: "MemoryBondStore \<Rightarrow> Address \<Rightarrow> bool" where
  "is_bonded st peer = (load_security st peer \<noteq> None)"

section \<open>The contract of a store\<close>

locale bond_store =
  fixes inv :: "'st \<Rightarrow> bool"
    and put_sec :: "Address \<Rightarrow> BondSecurity \<Rightarrow> 'st \<Rightarrow> 'st"
    and get_sec :: "'st \<Rightarrow> Address \<Rightarrow> BondSecurity option"
    and put_cccd :: "Address \<Rightarrow> u16 \<Rightarrow> u16 \<Rightarrow> 'st \<Rightarrow> 'st"
    and get_cccds :: "'st \<Rightarrow> Address \<Rightarrow> (u16 \<times> u16) list"
    and del :: "Address \<Rightarrow> 'st \<Rightarrow> 'st"
  assumes put_sec_inv: "inv st \<Longrightarrow> inv (put_sec p s st)"
    and put_cccd_inv: "inv st \<Longrightarrow> inv (put_cccd p h v st)"
    and del_inv: "inv st \<Longrightarrow> inv (del p st)"
    and get_put_sec: "get_sec (put_sec p s st) = (get_sec st)(p \<mapsto> s)"
    and cccds_put_sec: "get_cccds (put_sec p s st) = get_cccds st"
    and get_put_cccd: "get_sec (put_cccd p h v st) = get_sec st"
    and cccds_put_cccd: "inv st \<Longrightarrow> map_of (get_cccds (put_cccd p h v st) q) =
        (map_of (get_cccds st q))(h := if q \<noteq> p then map_of (get_cccds st q) h
           else if v = 0 then None else Some v)"
    and get_del: "get_sec (del p st) = (get_sec st)(p := None)"
    and cccds_del: "get_cccds (del p st) = (get_cccds st)(p := [])"
    and cccds_distinct: "inv st \<Longrightarrow> distinct (map fst (get_cccds st p))"
begin

lemma sweep_inv: "inv st \<Longrightarrow> inv (fold (\<lambda>(h, v). put_cccd p h v) hvs st)"
  by (induction hvs arbitrary: st) (auto intro: put_cccd_inv)

lemma sweep_sec: "get_sec (fold (\<lambda>(h, v). put_cccd p h v) hvs st) = get_sec st"
  by (induction hvs arbitrary: st) (auto simp: get_put_cccd)

text \<open>Recording a list of subscriptions: the recorded values are loaded back, others are kept.\<close>

lemma sweep_cccds:
  assumes "inv st" "distinct (map fst hvs)" "\<forall>(h, v) \<in> set hvs. v \<noteq> 0"
  shows "map_of (get_cccds (fold (\<lambda>(h, v). put_cccd p h v) hvs st) q)
    = (if q = p then map_of (get_cccds st p) ++ map_of hvs else map_of (get_cccds st q))"
  using assms
proof (induction hvs arbitrary: st)
  case (Cons hv hvs)
  obtain h v where hv: "hv = (h, v)" by (cases hv)
  with Cons.prems have v: "v \<noteq> 0" "map_of hvs h = None" by (auto simp: map_of_eq_None_iff)
  have step: "map_of (get_cccds (put_cccd p h v st) q) =
      (map_of (get_cccds st q))(h := if q \<noteq> p then map_of (get_cccds st q) h else Some v)"
    using cccds_put_cccd [OF Cons.prems(1)] v(1) by simp
  from Cons.IH [of "put_cccd p h v st"] Cons.prems put_cccd_inv [OF Cons.prems(1)]
  have "map_of (get_cccds (fold (\<lambda>(h, v). put_cccd p h v) (hv # hvs) st) q) =
      (if q = p then map_of (get_cccds (put_cccd p h v st) p) ++ map_of hvs
       else map_of (get_cccds (put_cccd p h v st) q))"
    by (simp add: hv)
  with step v(2) show ?case
    by (auto simp: hv map_add_def fun_eq_iff split: option.splits)
qed simp

text \<open>A bond is a security record: recording subscriptions neither makes nor breaks one.\<close>

lemma bonded_after_record:
  "get_sec (fold (\<lambda>(h, v). put_cccd p h v) hvs (put_sec p s st)) q =
     (if q = p then Some s else get_sec st q)"
  by (simp add: sweep_sec get_put_sec)

end

definition bond_store_inv :: "MemoryBondStore \<Rightarrow> bool" where
  "bond_store_inv st = (\<forall>r \<in> ran (bonds st). bt_inv (br_cccds r))"

lemma bond_entry_inv: "bond_store_inv st \<Longrightarrow> bt_inv (br_cccds (bond_entry st p))"
  by (auto simp: bond_store_inv_def bond_entry_def BondRecord_default_def bt_inv_def ran_def
      split: option.split)

lemma bond_store_inv_upd:
  "bond_store_inv st \<Longrightarrow> bt_inv (br_cccds r) \<Longrightarrow> bond_store_inv (st\<lparr>bonds := (bonds st)(p \<mapsto> r)\<rparr>)"
  by (auto simp: bond_store_inv_def ran_def split: if_splits)

lemma bond_store_inv_entry: "bond_store_inv st \<Longrightarrow> bonds st p = Some r \<Longrightarrow> bt_inv (br_cccds r)"
  by (auto simp: bond_store_inv_def ran_def)

lemma bt_map_of: "map_of m = bt_get m"
  by (simp add: bt_get_def fun_eq_iff)

lemma store_cccd_map_of:
  assumes "bond_store_inv st"
  shows "map_of (load_cccds (store_cccd p h v st) q) =
    (map_of (load_cccds st q))(h := if q \<noteq> p then map_of (load_cccds st q) h
       else if v = 0 then None else Some v)"
proof (cases "bonds st p")
  case None
  then show ?thesis
    by (simp add: store_cccd_def load_cccds_def bond_entry_def BondRecord_default_def Let_def fun_eq_iff)
next
  case (Some r)
  then have "bt_inv (br_cccds r)" by (rule bond_store_inv_entry [OF assms])
  with Some show ?thesis
    by (simp add: store_cccd_def load_cccds_def bond_entry_def Let_def bt_map_of bt_remove_get bt_insert_get)
qed

interpretation memory_store: bond_store bond_store_inv store_security load_security store_cccd load_cccds
  "\<lambda>p st. snd (bond_delete p st)"
proof
  fix st p h v
  assume inv: "bond_store_inv st"
  show "bond_store_inv (store_security p s st)" for s
    unfolding store_security_def by (rule bond_store_inv_upd [OF inv]) (simp add: bond_entry_inv [OF inv])
  show "bond_store_inv (store_cccd p h v st)"
    unfolding store_cccd_def Let_def
    using inv by (auto simp: bond_entry_inv bt.del_inv bt.ins_inv intro!: bond_store_inv_upd
        dest: bond_store_inv_entry split: option.split)
  show "bond_store_inv (snd (bond_delete p st))"
    using inv by (auto simp: bond_store_inv_def bond_delete_def ran_def)
  show "distinct (map fst (load_cccds st p))"
    using inv by (auto simp: load_cccds_def strict_sorted_iff bt_inv_def
        dest: bond_store_inv_entry split: option.split)
next
  fix st p h v q
  assume "bond_store_inv st"
  then show "map_of (load_cccds (store_cccd p h v st) q) =
    (map_of (load_cccds st q))(h := if q \<noteq> p then map_of (load_cccds st q) h
       else if v = 0 then None else Some v)"
    by (rule store_cccd_map_of)
qed (auto simp: fun_eq_iff load_security_def load_cccds_def store_security_def store_cccd_def
    bond_delete_def bond_entry_def BondRecord_default_def Let_def split: option.splits)

section \<open>The peer list\<close>

text \<open>A peer whose last record was deleted by unsubscribing is still listed, and deleting it
  reports that a record existed, although nothing of it can be loaded any more: the documentation of
  the trait promises only peers with at least one record.\<close>
theorem unsubscribed_peer_still_listed:
  assumes "v \<noteq> 0" "bonds st peer = None"
  shows "let st' = store_cccd peer h 0 (store_cccd peer h v st) in
    load_security st' peer = None \<and> load_cccds st' peer = []
    \<and> peer \<in> bond_peers st' \<and> fst (bond_delete peer st')"
  using assms
  by (simp add: Let_def store_cccd_def bond_entry_def BondRecord_default_def load_security_def
      load_cccds_def bond_peers_def bond_delete_def bt_remove_def)

theorem unsubscribed_peer_still_listed_witness:
  "let st' = store_cccd Address_ANY 4 0 (store_cccd Address_ANY 4 1 MemoryBondStore_new) in
    load_security st' Address_ANY = None \<and> load_cccds st' Address_ANY = []
    \<and> Address_ANY \<in> bond_peers st' \<and> fst (bond_delete Address_ANY st')"
  by (rule unsubscribed_peer_still_listed) (simp_all add: MemoryBondStore_new_def)

end
