(* ===== verification/Att_Pdu.thy ===== *)
theory Att_Pdu
  imports Prelude
begin

text \<open>
  Attribute Protocol packets (\<open>src/src/packets/att.rs\<close>): opcodes and error codes, the fixed
  structures with their wire layouts and constructors, the parsers the \<^verbatim>\<open>impl_att_parse!\<close> macro
  generates, the attribute data lists, and the parser of a whole packet. A \<^verbatim>\<open>Ref\<close> to a structure
  inside the input is the structure's value.
\<close>

section \<open>Opcodes and error codes\<close>

abbreviation (input) opcode_ERROR_RSP :: u8 where "opcode_ERROR_RSP \<equiv> 0x01"
abbreviation (input) opcode_EXCHANGE_MTU_REQ :: u8 where "opcode_EXCHANGE_MTU_REQ \<equiv> 0x02"
abbreviation (input) opcode_EXCHANGE_MTU_RSP :: u8 where "opcode_EXCHANGE_MTU_RSP \<equiv> 0x03"
abbreviation (input) opcode_FIND_INFORMATION_REQ :: u8 where "opcode_FIND_INFORMATION_REQ \<equiv> 0x04"
abbreviation (input) opcode_FIND_INFORMATION_RSP :: u8 where "opcode_FIND_INFORMATION_RSP \<equiv> 0x05"
abbreviation (input) opcode_FIND_BY_TYPE_VALUE_REQ :: u8 where "opcode_FIND_BY_TYPE_VALUE_REQ \<equiv> 0x06"
abbreviation (input) opcode_FIND_BY_TYPE_VALUE_RSP :: u8 where "opcode_FIND_BY_TYPE_VALUE_RSP \<equiv> 0x07"
abbreviation (input) opcode_READ_BY_TYPE_REQ :: u8 where "opcode_READ_BY_TYPE_REQ \<equiv> 0x08"
abbreviation (input) opcode_READ_BY_TYPE_RSP :: u8 where "opcode_READ_BY_TYPE_RSP \<equiv> 0x09"
abbreviation (input) opcode_READ_REQ :: u8 where "opcode_READ_REQ \<equiv> 0x0A"
abbreviation (input) opcode_READ_RSP :: u8 where "opcode_READ_RSP \<equiv> 0x0B"
abbreviation (input) opcode_READ_BLOB_REQ :: u8 where "opcode_READ_BLOB_REQ \<equiv> 0x0C"
abbreviation (input) opcode_READ_BLOB_RSP :: u8 where "opcode_READ_BLOB_RSP \<equiv> 0x0D"
abbreviation (input) opcode_READ_MULTIPLE_REQ :: u8 where "opcode_READ_MULTIPLE_REQ \<equiv> 0x0E"
abbreviation (input) opcode_READ_MULTIPLE_RSP :: u8 where "opcode_READ_MULTIPLE_RSP \<equiv> 0x0F"
abbreviation (input) opcode_READ_BY_GROUP_TYPE_REQ :: u8 where "opcode_READ_BY_GROUP_TYPE_REQ \<equiv> 0x10"
abbreviation (input) opcode_READ_BY_GROUP_TYPE_RSP :: u8 where "opcode_READ_BY_GROUP_TYPE_RSP \<equiv> 0x11"
abbreviation (input) opcode_WRITE_REQ :: u8 where "opcode_WRITE_REQ \<equiv> 0x12"
abbreviation (input) opcode_WRITE_RSP :: u8 where "opcode_WRITE_RSP \<equiv> 0x13"
abbreviation (input) opcode_WRITE_CMD :: u8 where "opcode_WRITE_CMD \<equiv> 0x52"
abbreviation (input) opcode_PREPARE_WRITE_REQ :: u8 where "opcode_PREPARE_WRITE_REQ \<equiv> 0x16"
abbreviation (input) opcode_PREPARE_WRITE_RSP :: u8 where "opcode_PREPARE_WRITE_RSP \<equiv> 0x17"
abbreviation (input) opcode_EXECUTE_WRITE_REQ :: u8 where "opcode_EXECUTE_WRITE_REQ \<equiv> 0x18"
abbreviation (input) opcode_EXECUTE_WRITE_RSP :: u8 where "opcode_EXECUTE_WRITE_RSP \<equiv> 0x19"
abbreviation (input) opcode_HANDLE_VALUE_NTF :: u8 where "opcode_HANDLE_VALUE_NTF \<equiv> 0x1B"
abbreviation (input) opcode_HANDLE_VALUE_IND :: u8 where "opcode_HANDLE_VALUE_IND \<equiv> 0x1D"
abbreviation (input) opcode_HANDLE_VALUE_CFM :: u8 where "opcode_HANDLE_VALUE_CFM \<equiv> 0x1E"

abbreviation (input) error_INVALID_HANDLE :: u8 where "error_INVALID_HANDLE \<equiv> 0x01"
abbreviation (input) error_READ_NOT_PERMITTED :: u8 where "error_READ_NOT_PERMITTED \<equiv> 0x02"
abbreviation (input) error_WRITE_NOT_PERMITTED :: u8 where "error_WRITE_NOT_PERMITTED \<equiv> 0x03"
abbreviation (input) error_INVALID_PDU :: u8 where "error_INVALID_PDU \<equiv> 0x04"
abbreviation (input) error_INSUFFICIENT_AUTHENTICATION :: u8 where "error_INSUFFICIENT_AUTHENTICATION \<equiv> 0x05"
abbreviation (input) error_REQUEST_NOT_SUPPORTED :: u8 where "error_REQUEST_NOT_SUPPORTED \<equiv> 0x06"
abbreviation (input) error_INVALID_OFFSET :: u8 where "error_INVALID_OFFSET \<equiv> 0x07"
abbreviation (input) error_INSUFFICIENT_AUTHORIZATION :: u8 where "error_INSUFFICIENT_AUTHORIZATION \<equiv> 0x08"
abbreviation (input) error_PREPARE_QUEUE_FULL :: u8 where "error_PREPARE_QUEUE_FULL \<equiv> 0x09"
abbreviation (input) error_ATTRIBUTE_NOT_FOUND :: u8 where "error_ATTRIBUTE_NOT_FOUND \<equiv> 0x0A"
abbreviation (input) error_ATTRIBUTE_NOT_LONG :: u8 where "error_ATTRIBUTE_NOT_LONG \<equiv> 0x0B"
abbreviation (input) error_INSUFFICIENT_KEY_SIZE :: u8 where "error_INSUFFICIENT_KEY_SIZE \<equiv> 0x0C"
abbreviation (input) error_INVALID_ATTRIBUTE_VALUE_LENGTH :: u8 where "error_INVALID_ATTRIBUTE_VALUE_LENGTH \<equiv> 0x0D"
abbreviation (input) error_UNLIKELY_ERROR :: u8 where "error_UNLIKELY_ERROR \<equiv> 0x0E"
abbreviation (input) error_INSUFFICIENT_ENCRYPTION :: u8 where "error_INSUFFICIENT_ENCRYPTION \<equiv> 0x0F"
abbreviation (input) error_UNSUPPORTED_GROUP_TYPE :: u8 where "error_UNSUPPORTED_GROUP_TYPE \<equiv> 0x10"
abbreviation (input) error_INSUFFICIENT_RESOURCES :: u8 where "error_INSUFFICIENT_RESOURCES \<equiv> 0x11"
abbreviation (input) error_DATABASE_OUT_OF_SYNC :: u8 where "error_DATABASE_OUT_OF_SYNC \<equiv> 0x12"
abbreviation (input) error_VALUE_NOT_ALLOWED :: u8 where "error_VALUE_NOT_ALLOWED \<equiv> 0x13"

section \<open>Fixed structures\<close>

record AttErrorRsp =
  aer_opcode :: u8
  aer_request_opcode :: u8
  aer_attribute_handle :: u16
  aer_error_code :: u8

record AttExchangeMtuReq =
  emq_opcode :: u8
  emq_client_rx_mtu :: u16

record AttExchangeMtuRsp =
  emr_opcode :: u8
  emr_server_rx_mtu :: u16

record AttFindInformationReq =
  fiq_opcode :: u8
  fiq_start_handle :: u16
  fiq_end_handle :: u16

record AttFindInformationRspHeader =
  fir_opcode :: u8
  fir_format :: u8

record AttFindInformationItemHeader =
  fii_attribute_handle :: u16

record AttFindByTypeValueReqHeader =
  fbq_opcode :: u8
  fbq_start_handle :: u16
  fbq_end_handle :: u16
  fbq_attribute_type :: u16

record AttHandlesInformation =
  ahi_found_attribute_handle :: u16
  ahi_group_end_handle :: u16

record AttReadByTypeReqHeader =
  rtq_opcode :: u8
  rtq_start_handle :: u16
  rtq_end_handle :: u16

record AttReadByTypeRspHeader =
  rtr_opcode :: u8
  rtr_length :: u8

record AttReadByTypeItemHeader =
  rti_attribute_handle :: u16

record AttReadByGroupTypeReqHeader =
  rgq_opcode :: u8
  rgq_start_handle :: u16
  rgq_end_handle :: u16

record AttReadByGroupTypeRspHeader =
  rgr_opcode :: u8
  rgr_length :: u8

record AttReadByGroupTypeItemHeader =
  rgi_attribute_handle :: u16
  rgi_end_group_handle :: u16

record AttReadReq =
  rrq_opcode :: u8
  rrq_handle :: u16

record AttReadBlobReq =
  rbq_opcode :: u8
  rbq_handle :: u16
  rbq_offset :: u16

record AttWriteReqHeader =
  wrq_opcode :: u8
  wrq_handle :: u16

record AttPrepareWriteReqHeader =
  pwq_opcode :: u8
  pwq_handle :: u16
  pwq_offset :: u16

record AttPrepareWriteRspHeader =
  pwr_opcode :: u8
  pwr_handle :: u16
  pwr_offset :: u16

record AttExecuteWriteReq =
  ewq_opcode :: u8
  ewq_flags :: u8

record AttHandleValueHeader =
  hvh_opcode :: u8
  hvh_handle :: u16

definition AttErrorRsp_as_bytes :: "AttErrorRsp \<Rightarrow> bytes" where
  "AttErrorRsp_as_bytes h =
     [aer_opcode h] @ [aer_request_opcode h] @ to_le_bytes (aer_attribute_handle h) @
     [aer_error_code h]"

definition AttErrorRsp_of_bytes :: "bytes \<Rightarrow> AttErrorRsp" where
  "AttErrorRsp_of_bytes bs =
     \<lparr>aer_opcode = bs ! 0, aer_request_opcode = bs ! 1,
      aer_attribute_handle = from_le_bytes (bs ! 2) (bs ! 3), aer_error_code = bs ! 4\<rparr>"

definition AttExchangeMtuReq_as_bytes :: "AttExchangeMtuReq \<Rightarrow> bytes" where
  "AttExchangeMtuReq_as_bytes h =
     [emq_opcode h] @ to_le_bytes (emq_client_rx_mtu h)"

definition AttExchangeMtuReq_of_bytes :: "bytes \<Rightarrow> AttExchangeMtuReq" where
  "AttExchangeMtuReq_of_bytes bs =
     \<lparr>emq_opcode = bs ! 0, emq_client_rx_mtu = from_le_bytes (bs ! 1) (bs ! 2)\<rparr>"

definition AttExchangeMtuRsp_as_bytes :: "AttExchangeMtuRsp \<Rightarrow> bytes" where
  "AttExchangeMtuRsp_as_bytes h =
     [emr_opcode h] @ to_le_bytes (emr_server_rx_mtu h)"

definition AttExchangeMtuRsp_of_bytes :: "bytes \<Rightarrow> AttExchangeMtuRsp" where
  "AttExchangeMtuRsp_of_bytes bs =
     \<lparr>emr_opcode = bs ! 0, emr_server_rx_mtu = from_le_bytes (bs ! 1) (bs ! 2)\<rparr>"

definition AttFindInformationReq_as_bytes :: "AttFindInformationReq \<Rightarrow> bytes" where
  "AttFindInformationReq_as_bytes h =
     [fiq_opcode h] @ to_le_bytes (fiq_start_handle h) @ to_le_bytes (fiq_end_handle h)"

definition AttFindInformationReq_of_bytes :: "bytes \<Rightarrow> AttFindInformationReq" where
  "AttFindInformationReq_of_bytes bs =
     \<lparr>fiq_opcode = bs ! 0, fiq_start_handle = from_le_bytes (bs ! 1) (bs ! 2),
      fiq_end_handle = from_le_bytes (bs ! 3) (bs ! 4)\<rparr>"

definition AttFindInformationRspHeader_as_bytes :: "AttFindInformationRspHeader \<Rightarrow> bytes" where
  "AttFindInformationRspHeader_as_bytes h =
     [fir_opcode h] @ [fir_format h]"

definition AttFindInformationRspHeader_of_bytes :: "bytes \<Rightarrow> AttFindInformationRspHeader" where
  "AttFindInformationRspHeader_of_bytes bs =
     \<lparr>fir_opcode = bs ! 0, fir_format = bs ! 1\<rparr>"

definition AttFindInformationItemHeader_as_bytes :: "AttFindInformationItemHeader \<Rightarrow> bytes" where
  "AttFindInformationItemHeader_as_bytes h =
     to_le_bytes (fii_attribute_handle h)"

definition AttFindInformationItemHeader_of_bytes :: "bytes \<Rightarrow> AttFindInformationItemHeader" where
  "AttFindInformationItemHeader_of_bytes bs =
     \<lparr>fii_attribute_handle = from_le_bytes (bs ! 0) (bs ! 1)\<rparr>"

definition AttFindByTypeValueReqHeader_as_bytes :: "AttFindByTypeValueReqHeader \<Rightarrow> bytes" where
  "AttFindByTypeValueReqHeader_as_bytes h =
     [fbq_opcode h] @ to_le_bytes (fbq_start_handle h) @ to_le_bytes (fbq_end_handle h) @
     to_le_bytes (fbq_attribute_type h)"

definition AttFindByTypeValueReqHeader_of_bytes :: "bytes \<Rightarrow> AttFindByTypeValueReqHeader" where
  "AttFindByTypeValueReqHeader_of_bytes bs =
     \<lparr>fbq_opcode = bs ! 0, fbq_start_handle = from_le_bytes (bs ! 1) (bs ! 2),
      fbq_end_handle = from_le_bytes (bs ! 3) (bs ! 4),
      fbq_attribute_type = from_le_bytes (bs ! 5) (bs ! 6)\<rparr>"

definition AttHandlesInformation_as_bytes :: "AttHandlesInformation \<Rightarrow> bytes" where
  "AttHandlesInformation_as_bytes h =
     to_le_bytes (ahi_found_attribute_handle h) @ to_le_bytes (ahi_group_end_handle h)"

definition AttHandlesInformation_of_bytes :: "bytes \<Rightarrow> AttHandlesInformation" where
  "AttHandlesInformation_of_bytes bs =
     \<lparr>ahi_found_attribute_handle = from_le_bytes (bs ! 0) (bs ! 1),
      ahi_group_end_handle = from_le_bytes (bs ! 2) (bs ! 3)\<rparr>"

definition AttReadByTypeReqHeader_as_bytes :: "AttReadByTypeReqHeader \<Rightarrow> bytes" where
  "AttReadByTypeReqHeader_as_bytes h =
     [rtq_opcode h] @ to_le_bytes (rtq_start_handle h) @ to_le_bytes (rtq_end_handle h)"

definition AttReadByTypeReqHeader_of_bytes :: "bytes \<Rightarrow> AttReadByTypeReqHeader" where
  "AttReadByTypeReqHeader_of_bytes bs =
     \<lparr>rtq_opcode = bs ! 0, rtq_start_handle = from_le_bytes (bs ! 1) (bs ! 2),
      rtq_end_handle = from_le_bytes (bs ! 3) (bs ! 4)\<rparr>"

definition AttReadByTypeRspHeader_as_bytes :: "AttReadByTypeRspHeader \<Rightarrow> bytes" where
  "AttReadByTypeRspHeader_as_bytes h =
     [rtr_opcode h] @ [rtr_length h]"

definition AttReadByTypeRspHeader_of_bytes :: "bytes \<Rightarrow> AttReadByTypeRspHeader" where
  "AttReadByTypeRspHeader_of_bytes bs =
     \<lparr>rtr_opcode = bs ! 0, rtr_length = bs ! 1\<rparr>"

definition AttReadByTypeItemHeader_as_bytes :: "AttReadByTypeItemHeader \<Rightarrow> bytes" where
  "AttReadByTypeItemHeader_as_bytes h =
     to_le_bytes (rti_attribute_handle h)"

definition AttReadByTypeItemHeader_of_bytes :: "bytes \<Rightarrow> AttReadByTypeItemHeader" where
  "AttReadByTypeItemHeader_of_bytes bs =
     \<lparr>rti_attribute_handle = from_le_bytes (bs ! 0) (bs ! 1)\<rparr>"

definition AttReadByGroupTypeReqHeader_as_bytes :: "AttReadByGroupTypeReqHeader \<Rightarrow> bytes" where
  "AttReadByGroupTypeReqHeader_as_bytes h =
     [rgq_opcode h] @ to_le_bytes (rgq_start_handle h) @ to_le_bytes (rgq_end_handle h)"

definition AttReadByGroupTypeReqHeader_of_bytes :: "bytes \<Rightarrow> AttReadByGroupTypeReqHeader" where
  "AttReadByGroupTypeReqHeader_of_bytes bs =
     \<lparr>rgq_opcode = bs ! 0, rgq_start_handle = from_le_bytes (bs ! 1) (bs ! 2),
      rgq_end_handle = from_le_bytes (bs ! 3) (bs ! 4)\<rparr>"

definition AttReadByGroupTypeRspHeader_as_bytes :: "AttReadByGroupTypeRspHeader \<Rightarrow> bytes" where
  "AttReadByGroupTypeRspHeader_as_bytes h =
     [rgr_opcode h] @ [rgr_length h]"

definition AttReadByGroupTypeRspHeader_of_bytes :: "bytes \<Rightarrow> AttReadByGroupTypeRspHeader" where
  "AttReadByGroupTypeRspHeader_of_bytes bs =
     \<lparr>rgr_opcode = bs ! 0, rgr_length = bs ! 1\<rparr>"

definition AttReadByGroupTypeItemHeader_as_bytes :: "AttReadByGroupTypeItemHeader \<Rightarrow> bytes" where
  "AttReadByGroupTypeItemHeader_as_bytes h =
     to_le_bytes (rgi_attribute_handle h) @ to_le_bytes (rgi_end_group_handle h)"

definition AttReadByGroupTypeItemHeader_of_bytes :: "bytes \<Rightarrow> AttReadByGroupTypeItemHeader" where
  "AttReadByGroupTypeItemHeader_of_bytes bs =
     \<lparr>rgi_attribute_handle = from_le_bytes (bs ! 0) (bs ! 1),
      rgi_end_group_handle = from_le_bytes (bs ! 2) (bs ! 3)\<rparr>"

definition AttReadReq_as_bytes :: "AttReadReq \<Rightarrow> bytes" where
  "AttReadReq_as_bytes h =
     [rrq_opcode h] @ to_le_bytes (rrq_handle h)"

definition AttReadReq_of_bytes :: "bytes \<Rightarrow> AttReadReq" where
  "AttReadReq_of_bytes bs =
     \<lparr>rrq_opcode = bs ! 0, rrq_handle = from_le_bytes (bs ! 1) (bs ! 2)\<rparr>"

definition AttReadBlobReq_as_bytes :: "AttReadBlobReq \<Rightarrow> bytes" where
  "AttReadBlobReq_as_bytes h =
     [rbq_opcode h] @ to_le_bytes (rbq_handle h) @ to_le_bytes (rbq_offset h)"

definition AttReadBlobReq_of_bytes :: "bytes \<Rightarrow> AttReadBlobReq" where
  "AttReadBlobReq_of_bytes bs =
     \<lparr>rbq_opcode = bs ! 0, rbq_handle = from_le_bytes (bs ! 1) (bs ! 2),
      rbq_offset = from_le_bytes (bs ! 3) (bs ! 4)\<rparr>"

definition AttWriteReqHeader_as_bytes :: "AttWriteReqHeader \<Rightarrow> bytes" where
  "AttWriteReqHeader_as_bytes h =
     [wrq_opcode h] @ to_le_bytes (wrq_handle h)"

definition AttWriteReqHeader_of_bytes :: "bytes \<Rightarrow> AttWriteReqHeader" where
  "AttWriteReqHeader_of_bytes bs =
     \<lparr>wrq_opcode = bs ! 0, wrq_handle = from_le_bytes (bs ! 1) (bs ! 2)\<rparr>"

definition AttPrepareWriteReqHeader_as_bytes :: "AttPrepareWriteReqHeader \<Rightarrow> bytes" where
  "AttPrepareWriteReqHeader_as_bytes h =
     [pwq_opcode h] @ to_le_bytes (pwq_handle h) @ to_le_bytes (pwq_offset h)"

definition AttPrepareWriteReqHeader_of_bytes :: "bytes \<Rightarrow> AttPrepareWriteReqHeader" where
  "AttPrepareWriteReqHeader_of_bytes bs =
     \<lparr>pwq_opcode = bs ! 0, pwq_handle = from_le_bytes (bs ! 1) (bs ! 2),
      pwq_offset = from_le_bytes (bs ! 3) (bs ! 4)\<rparr>"

definition AttPrepareWriteRspHeader_as_bytes :: "AttPrepareWriteRspHeader \<Rightarrow> bytes" where
  "AttPrepareWriteRspHeader_as_bytes h =
     [pwr_opcode h] @ to_le_bytes (pwr_handle h) @ to_le_bytes (pwr_offset h)"

definition AttPrepareWriteRspHeader_of_bytes :: "bytes \<Rightarrow> AttPrepareWriteRspHeader" where
  "AttPrepareWriteRspHeader_of_bytes bs =
     \<lparr>pwr_opcode = bs ! 0, pwr_handle = from_le_bytes (bs ! 1) (bs ! 2),
      pwr_offset = from_le_bytes (bs ! 3) (bs ! 4)\<rparr>"

definition AttExecuteWriteReq_as_bytes :: "AttExecuteWriteReq \<Rightarrow> bytes" where
  "AttExecuteWriteReq_as_bytes h =
     [ewq_opcode h] @ [ewq_flags h]"

definition AttExecuteWriteReq_of_bytes :: "bytes \<Rightarrow> AttExecuteWriteReq" where
  "AttExecuteWriteReq_of_bytes bs =
     \<lparr>ewq_opcode = bs ! 0, ewq_flags = bs ! 1\<rparr>"

definition AttHandleValueHeader_as_bytes :: "AttHandleValueHeader \<Rightarrow> bytes" where
  "AttHandleValueHeader_as_bytes h =
     [hvh_opcode h] @ to_le_bytes (hvh_handle h)"

definition AttHandleValueHeader_of_bytes :: "bytes \<Rightarrow> AttHandleValueHeader" where
  "AttHandleValueHeader_of_bytes bs =
     \<lparr>hvh_opcode = bs ! 0, hvh_handle = from_le_bytes (bs ! 1) (bs ! 2)\<rparr>"

lemmas att_layout_defs =
  AttErrorRsp_as_bytes_def AttErrorRsp_of_bytes_def AttExchangeMtuReq_as_bytes_def
  AttExchangeMtuReq_of_bytes_def AttExchangeMtuRsp_as_bytes_def AttExchangeMtuRsp_of_bytes_def
  AttFindInformationReq_as_bytes_def AttFindInformationReq_of_bytes_def
  AttFindInformationRspHeader_as_bytes_def AttFindInformationRspHeader_of_bytes_def
  AttFindInformationItemHeader_as_bytes_def AttFindInformationItemHeader_of_bytes_def
  AttFindByTypeValueReqHeader_as_bytes_def AttFindByTypeValueReqHeader_of_bytes_def
  AttHandlesInformation_as_bytes_def AttHandlesInformation_of_bytes_def
  AttReadByTypeReqHeader_as_bytes_def AttReadByTypeReqHeader_of_bytes_def
  AttReadByTypeRspHeader_as_bytes_def AttReadByTypeRspHeader_of_bytes_def
  AttReadByTypeItemHeader_as_bytes_def AttReadByTypeItemHeader_of_bytes_def
  AttReadByGroupTypeReqHeader_as_bytes_def AttReadByGroupTypeReqHeader_of_bytes_def
  AttReadByGroupTypeRspHeader_as_bytes_def AttReadByGroupTypeRspHeader_of_bytes_def
  AttReadByGroupTypeItemHeader_as_bytes_def AttReadByGroupTypeItemHeader_of_bytes_def
  AttReadReq_as_bytes_def AttReadReq_of_bytes_def AttReadBlobReq_as_bytes_def
  AttReadBlobReq_of_bytes_def AttWriteReqHeader_as_bytes_def AttWriteReqHeader_of_bytes_def
  AttPrepareWriteReqHeader_as_bytes_def AttPrepareWriteReqHeader_of_bytes_def
  AttPrepareWriteRspHeader_as_bytes_def AttPrepareWriteRspHeader_of_bytes_def
  AttExecuteWriteReq_as_bytes_def AttExecuteWriteReq_of_bytes_def
  AttHandleValueHeader_as_bytes_def AttHandleValueHeader_of_bytes_def

interpretation aer_layout: wire_layout 5 "\<lambda>_. True"
  AttErrorRsp_as_bytes AttErrorRsp_of_bytes
  by unfold_locales (auto simp: att_layout_defs to_le_bytes_def list_of_length)

interpretation emq_layout: wire_layout 3 "\<lambda>_. True"
  AttExchangeMtuReq_as_bytes AttExchangeMtuReq_of_bytes
  by unfold_locales (auto simp: att_layout_defs to_le_bytes_def list_of_length)

interpretation emr_layout: wire_layout 3 "\<lambda>_. True"
  AttExchangeMtuRsp_as_bytes AttExchangeMtuRsp_of_bytes
  by unfold_locales (auto simp: att_layout_defs to_le_bytes_def list_of_length)

interpretation fiq_layout: wire_layout 5 "\<lambda>_. True"
  AttFindInformationReq_as_bytes AttFindInformationReq_of_bytes
  by unfold_locales (auto simp: att_layout_defs to_le_bytes_def list_of_length)

interpretation fir_layout: wire_layout 2 "\<lambda>_. True"
  AttFindInformationRspHeader_as_bytes AttFindInformationRspHeader_of_bytes
  by unfold_locales (auto simp: att_layout_defs to_le_bytes_def list_of_length)

interpretation fii_layout: wire_layout 2 "\<lambda>_. True"
  AttFindInformationItemHeader_as_bytes AttFindInformationItemHeader_of_bytes
  by unfold_locales (auto simp: att_layout_defs to_le_bytes_def list_of_length)

interpretation fbq_layout: wire_layout 7 "\<lambda>_. True"
  AttFindByTypeValueReqHeader_as_bytes AttFindByTypeValueReqHeader_of_bytes
  by unfold_locales (auto simp: att_layout_defs to_le_bytes_def list_of_length)

interpretation ahi_layout: wire_layout 4 "\<lambda>_. True"
  AttHandlesInformation_as_bytes AttHandlesInformation_of_bytes
  by unfold_locales (auto simp: att_layout_defs to_le_bytes_def list_of_length)

interpretation rtq_layout: wire_layout 5 "\<lambda>_. True"
  AttReadByTypeReqHeader_as_bytes AttReadByTypeReqHeader_of_bytes
  by unfold_locales (auto simp: att_layout_defs to_le_bytes_def list_of_length)

interpretation rtr_layout: wire_layout 2 "\<lambda>_. True"
  AttReadByTypeRspHeader_as_bytes AttReadByTypeRspHeader_of_bytes
  by unfold_locales (auto simp: att_layout_defs to_le_bytes_def list_of_length)

interpretation rti_layout: wire_layout 2 "\<lambda>_. True"
  AttReadByTypeItemHeader_as_bytes AttReadByTypeItemHeader_of_bytes
  by unfold_locales (auto simp: att_layout_defs to_le_bytes_def list_of_length)

interpretation rgq_layout: wire_layout 5 "\<lambda>_. True"
  AttReadByGroupTypeReqHeader_as_bytes AttReadByGroupTypeReqHeader_of_bytes
  by unfold_locales (auto simp: att_layout_defs to_le_bytes_def list_of_length)

interpretation rgr_layout: wire_layout 2 "\<lambda>_. True"
  AttReadByGroupTypeRspHeader_as_bytes AttReadByGroupTypeRspHeader_of_bytes
  by unfold_locales (auto simp: att_layout_defs to_le_bytes_def list_of_length)

interpretation rgi_layout: wire_layout 4 "\<lambda>_. True"
  AttReadByGroupTypeItemHeader_as_bytes AttReadByGroupTypeItemHeader_of_bytes
  by unfold_locales (auto simp: att_layout_defs to_le_bytes_def list_of_length)

interpretation rrq_layout: wire_layout 3 "\<lambda>_. True"
  AttReadReq_as_bytes AttReadReq_of_bytes
  by unfold_locales (auto simp: att_layout_defs to_le_bytes_def list_of_length)

interpretation rbq_layout: wire_layout 5 "\<lambda>_. True"
  AttReadBlobReq_as_bytes AttReadBlobReq_of_bytes
  by unfold_locales (auto simp: att_layout_defs to_le_bytes_def list_of_length)

interpretation wrq_layout: wire_layout 3 "\<lambda>_. True"
  AttWriteReqHeader_as_bytes AttWriteReqHeader_of_bytes
  by unfold_locales (auto simp: att_layout_defs to_le_bytes_def list_of_length)

interpretation pwq_layout: wire_layout 5 "\<lambda>_. True"
  AttPrepareWriteReqHeader_as_bytes AttPrepareWriteReqHeader_of_bytes
  by unfold_locales (auto simp: att_layout_defs to_le_bytes_def list_of_length)

interpretation pwr_layout: wire_layout 5 "\<lambda>_. True"
  AttPrepareWriteRspHeader_as_bytes AttPrepareWriteRspHeader_of_bytes
  by unfold_locales (auto simp: att_layout_defs to_le_bytes_def list_of_length)

interpretation ewq_layout: wire_layout 2 "\<lambda>_. True"
  AttExecuteWriteReq_as_bytes AttExecuteWriteReq_of_bytes
  by unfold_locales (auto simp: att_layout_defs to_le_bytes_def list_of_length)

interpretation hvh_layout: wire_layout 3 "\<lambda>_. True"
  AttHandleValueHeader_as_bytes AttHandleValueHeader_of_bytes
  by unfold_locales (auto simp: att_layout_defs to_le_bytes_def list_of_length)

section \<open>Constructors\<close>

definition AttErrorRsp_new :: "u8 \<Rightarrow> u16 \<Rightarrow> u8 \<Rightarrow> AttErrorRsp" where
  "AttErrorRsp_new request_opcode handle error_code =
     \<lparr>aer_opcode = opcode_ERROR_RSP,
      aer_request_opcode = request_opcode,
      aer_attribute_handle = handle,
      aer_error_code = error_code\<rparr>"

definition AttExchangeMtuReq_new :: "u16 \<Rightarrow> AttExchangeMtuReq" where
  "AttExchangeMtuReq_new client_rx_mtu =
     \<lparr>emq_opcode = opcode_EXCHANGE_MTU_REQ, emq_client_rx_mtu = client_rx_mtu\<rparr>"

definition AttExchangeMtuRsp_new :: "u16 \<Rightarrow> AttExchangeMtuRsp" where
  "AttExchangeMtuRsp_new server_rx_mtu =
     \<lparr>emr_opcode = opcode_EXCHANGE_MTU_RSP, emr_server_rx_mtu = server_rx_mtu\<rparr>"

definition AttFindInformationReq_new :: "u16 \<Rightarrow> u16 \<Rightarrow> AttFindInformationReq" where
  "AttFindInformationReq_new start_handle end_handle =
     \<lparr>fiq_opcode = opcode_FIND_INFORMATION_REQ,
      fiq_start_handle = start_handle,
      fiq_end_handle = end_handle\<rparr>"

definition AttFindInformationRspHeader_new :: "u8 \<Rightarrow> AttFindInformationRspHeader" where
  "AttFindInformationRspHeader_new format =
     \<lparr>fir_opcode = opcode_FIND_INFORMATION_RSP, fir_format = format\<rparr>"

definition AttFindInformationItemHeader_new :: "u16 \<Rightarrow> AttFindInformationItemHeader" where
  "AttFindInformationItemHeader_new attribute_handle =
     \<lparr>fii_attribute_handle = attribute_handle\<rparr>"

definition AttFindByTypeValueReqHeader_new :: "u16 \<Rightarrow> u16 \<Rightarrow> u16 \<Rightarrow> AttFindByTypeValueReqHeader" where
  "AttFindByTypeValueReqHeader_new start_handle end_handle attribute_type =
     \<lparr>fbq_opcode = opcode_FIND_BY_TYPE_VALUE_REQ,
      fbq_start_handle = start_handle,
      fbq_end_handle = end_handle,
      fbq_attribute_type = attribute_type\<rparr>"

definition AttHandlesInformation_new :: "u16 \<Rightarrow> u16 \<Rightarrow> AttHandlesInformation" where
  "AttHandlesInformation_new found_attribute_handle group_end_handle =
     \<lparr>ahi_found_attribute_handle = found_attribute_handle,
      ahi_group_end_handle = group_end_handle\<rparr>"

definition AttReadByTypeRspHeader_new :: "nat \<Rightarrow> AttReadByTypeRspHeader" where
  "AttReadByTypeRspHeader_new value_len =
     \<lparr>rtr_opcode = opcode_READ_BY_TYPE_RSP, rtr_length = of_nat (2 + value_len)\<rparr>"

definition AttReadByTypeItemHeader_new :: "u16 \<Rightarrow> AttReadByTypeItemHeader" where
  "AttReadByTypeItemHeader_new attribute_handle =
     \<lparr>rti_attribute_handle = attribute_handle\<rparr>"

definition AttReadByGroupTypeRspHeader_new :: "nat \<Rightarrow> AttReadByGroupTypeRspHeader" where
  "AttReadByGroupTypeRspHeader_new value_len =
     \<lparr>rgr_opcode = opcode_READ_BY_GROUP_TYPE_RSP, rgr_length = of_nat (4 + value_len)\<rparr>"

definition AttReadByGroupTypeItemHeader_new :: "u16 \<Rightarrow> u16 \<Rightarrow> AttReadByGroupTypeItemHeader" where
  "AttReadByGroupTypeItemHeader_new attribute_handle end_group_handle =
     \<lparr>rgi_attribute_handle = attribute_handle, rgi_end_group_handle = end_group_handle\<rparr>"

definition AttReadBlobReq_new :: "u16 \<Rightarrow> u16 \<Rightarrow> AttReadBlobReq" where
  "AttReadBlobReq_new handle offset =
     \<lparr>rbq_opcode = opcode_READ_BLOB_REQ, rbq_handle = handle, rbq_offset = offset\<rparr>"

definition AttWriteReqHeader_new :: "u8 \<Rightarrow> u16 \<Rightarrow> AttWriteReqHeader" where
  "AttWriteReqHeader_new opcode handle =
     \<lparr>wrq_opcode = opcode, wrq_handle = handle\<rparr>"

definition AttPrepareWriteReqHeader_new :: "u16 \<Rightarrow> u16 \<Rightarrow> AttPrepareWriteReqHeader" where
  "AttPrepareWriteReqHeader_new handle offset =
     \<lparr>pwq_opcode = opcode_PREPARE_WRITE_REQ, pwq_handle = handle, pwq_offset = offset\<rparr>"

definition AttPrepareWriteRspHeader_new :: "u16 \<Rightarrow> u16 \<Rightarrow> AttPrepareWriteRspHeader" where
  "AttPrepareWriteRspHeader_new handle offset =
     \<lparr>pwr_opcode = opcode_PREPARE_WRITE_RSP, pwr_handle = handle, pwr_offset = offset\<rparr>"

definition AttExecuteWriteReq_new :: "u8 \<Rightarrow> AttExecuteWriteReq" where
  "AttExecuteWriteReq_new flags =
     \<lparr>ewq_opcode = opcode_EXECUTE_WRITE_REQ, ewq_flags = flags\<rparr>"

definition AttHandleValueHeader_new :: "u8 \<Rightarrow> u16 \<Rightarrow> AttHandleValueHeader" where
  "AttHandleValueHeader_new opcode handle =
     \<lparr>hvh_opcode = opcode, hvh_handle = handle\<rparr>"

section \<open>Parsing a structure\<close>

text \<open>The two arms of \<^verbatim>\<open>impl_att_parse!\<close>: view the structure, then compare its opcode.\<close>

definition impl_att_parse :: "nat \<Rightarrow> (bytes \<Rightarrow> 'a) \<Rightarrow> ('a \<Rightarrow> u8) \<Rightarrow> u8 \<Rightarrow> bytes \<Rightarrow> ('a \<times> bytes) option" where
  "impl_att_parse sz dec opcode expected bs =
     (case from_prefix sz dec bs of
        None \<Rightarrow> None
      | Some (r, rest) \<Rightarrow> if opcode r \<noteq> expected then None else Some (r, rest))"

definition impl_att_parse2 ::
  "nat \<Rightarrow> (bytes \<Rightarrow> 'a) \<Rightarrow> ('a \<Rightarrow> u8) \<Rightarrow> u8 \<Rightarrow> u8 \<Rightarrow> bytes \<Rightarrow> ('a \<times> bytes) option" where
  "impl_att_parse2 sz dec opcode op1 op2 bs =
     (case from_prefix sz dec bs of
        None \<Rightarrow> None
      | Some (r, rest) \<Rightarrow> if opcode r \<noteq> op1 \<and> opcode r \<noteq> op2 then None else Some (r, rest))"

definition AttErrorRsp_parse :: "bytes \<Rightarrow> (AttErrorRsp \<times> bytes) option" where
  "AttErrorRsp_parse =
     impl_att_parse 5 AttErrorRsp_of_bytes aer_opcode opcode_ERROR_RSP"

definition AttExchangeMtuReq_parse :: "bytes \<Rightarrow> (AttExchangeMtuReq \<times> bytes) option" where
  "AttExchangeMtuReq_parse =
     impl_att_parse 3 AttExchangeMtuReq_of_bytes emq_opcode opcode_EXCHANGE_MTU_REQ"

definition AttExchangeMtuRsp_parse :: "bytes \<Rightarrow> (AttExchangeMtuRsp \<times> bytes) option" where
  "AttExchangeMtuRsp_parse =
     impl_att_parse 3 AttExchangeMtuRsp_of_bytes emr_opcode opcode_EXCHANGE_MTU_RSP"

definition AttFindInformationReq_parse :: "bytes \<Rightarrow> (AttFindInformationReq \<times> bytes) option" where
  "AttFindInformationReq_parse =
     impl_att_parse 5 AttFindInformationReq_of_bytes fiq_opcode opcode_FIND_INFORMATION_REQ"

definition AttFindInformationRspHeader_parse :: "bytes \<Rightarrow> (AttFindInformationRspHeader \<times> bytes) option" where
  "AttFindInformationRspHeader_parse =
     impl_att_parse 2 AttFindInformationRspHeader_of_bytes fir_opcode opcode_FIND_INFORMATION_RSP"

definition AttFindByTypeValueReqHeader_parse :: "bytes \<Rightarrow> (AttFindByTypeValueReqHeader \<times> bytes) option" where
  "AttFindByTypeValueReqHeader_parse =
     impl_att_parse 7 AttFindByTypeValueReqHeader_of_bytes fbq_opcode opcode_FIND_BY_TYPE_VALUE_REQ"

definition AttReadByTypeReqHeader_parse :: "bytes \<Rightarrow> (AttReadByTypeReqHeader \<times> bytes) option" where
  "AttReadByTypeReqHeader_parse =
     impl_att_parse 5 AttReadByTypeReqHeader_of_bytes rtq_opcode opcode_READ_BY_TYPE_REQ"

definition AttReadByTypeRspHeader_parse :: "bytes \<Rightarrow> (AttReadByTypeRspHeader \<times> bytes) option" where
  "AttReadByTypeRspHeader_parse =
     impl_att_parse 2 AttReadByTypeRspHeader_of_bytes rtr_opcode opcode_READ_BY_TYPE_RSP"

definition AttReadByGroupTypeReqHeader_parse :: "bytes \<Rightarrow> (AttReadByGroupTypeReqHeader \<times> bytes) option" where
  "AttReadByGroupTypeReqHeader_parse =
     impl_att_parse 5 AttReadByGroupTypeReqHeader_of_bytes rgq_opcode opcode_READ_BY_GROUP_TYPE_REQ"

definition AttReadByGroupTypeRspHeader_parse :: "bytes \<Rightarrow> (AttReadByGroupTypeRspHeader \<times> bytes) option" where
  "AttReadByGroupTypeRspHeader_parse =
     impl_att_parse 2 AttReadByGroupTypeRspHeader_of_bytes rgr_opcode opcode_READ_BY_GROUP_TYPE_RSP"

definition AttReadReq_parse :: "bytes \<Rightarrow> (AttReadReq \<times> bytes) option" where
  "AttReadReq_parse =
     impl_att_parse 3 AttReadReq_of_bytes rrq_opcode opcode_READ_REQ"

definition AttReadBlobReq_parse :: "bytes \<Rightarrow> (AttReadBlobReq \<times> bytes) option" where
  "AttReadBlobReq_parse =
     impl_att_parse 5 AttReadBlobReq_of_bytes rbq_opcode opcode_READ_BLOB_REQ"

definition AttWriteReqHeader_parse :: "bytes \<Rightarrow> (AttWriteReqHeader \<times> bytes) option" where
  "AttWriteReqHeader_parse =
     impl_att_parse2 3 AttWriteReqHeader_of_bytes wrq_opcode opcode_WRITE_REQ opcode_WRITE_CMD"

definition AttPrepareWriteReqHeader_parse :: "bytes \<Rightarrow> (AttPrepareWriteReqHeader \<times> bytes) option" where
  "AttPrepareWriteReqHeader_parse =
     impl_att_parse 5 AttPrepareWriteReqHeader_of_bytes pwq_opcode opcode_PREPARE_WRITE_REQ"

definition AttPrepareWriteRspHeader_parse :: "bytes \<Rightarrow> (AttPrepareWriteRspHeader \<times> bytes) option" where
  "AttPrepareWriteRspHeader_parse =
     impl_att_parse 5 AttPrepareWriteRspHeader_of_bytes pwr_opcode opcode_PREPARE_WRITE_RSP"

definition AttExecuteWriteReq_parse :: "bytes \<Rightarrow> (AttExecuteWriteReq \<times> bytes) option" where
  "AttExecuteWriteReq_parse =
     impl_att_parse 2 AttExecuteWriteReq_of_bytes ewq_opcode opcode_EXECUTE_WRITE_REQ"

definition AttHandleValueHeader_parse :: "bytes \<Rightarrow> (AttHandleValueHeader \<times> bytes) option" where
  "AttHandleValueHeader_parse =
     impl_att_parse2 3 AttHandleValueHeader_of_bytes hvh_opcode opcode_HANDLE_VALUE_NTF opcode_HANDLE_VALUE_IND"

lemmas att_parse_defs =
  AttErrorRsp_parse_def AttExchangeMtuReq_parse_def AttExchangeMtuRsp_parse_def
  AttFindInformationReq_parse_def AttFindInformationRspHeader_parse_def
  AttFindByTypeValueReqHeader_parse_def AttReadByTypeReqHeader_parse_def
  AttReadByTypeRspHeader_parse_def AttReadByGroupTypeReqHeader_parse_def
  AttReadByGroupTypeRspHeader_parse_def AttReadReq_parse_def AttReadBlobReq_parse_def
  AttWriteReqHeader_parse_def AttPrepareWriteReqHeader_parse_def
  AttPrepareWriteRspHeader_parse_def AttExecuteWriteReq_parse_def
  AttHandleValueHeader_parse_def

end
