(* ===== verification/Gatt_Database.thy ===== *)
theory Gatt_Database
  imports Btree_Map Hci_Types Att_Pdu
begin

text \<open>
  The GATT server database (\<open>src/src/gatt/database.rs\<close>): attributes in ascending handle order, the
  registration operations, permission-checked reads and writes, handlers that own an attribute's
  write behaviour, and the range queries of service discovery. A panic (the handle space is used
  up) is \<open>None\<close>. The attached handlers are values of a type \<open>'h\<close>; what a handler does on a write is
  the argument \<open>on_write\<close>, which may change the handler and the whole database.
\<close>

section \<open>Declarations\<close>

abbreviation (input) PRIMARY_SERVICE :: u16 where "PRIMARY_SERVICE \<equiv> 0x2800"
abbreviation (input) SECONDARY_SERVICE :: u16 where "SECONDARY_SERVICE \<equiv> 0x2801"
abbreviation (input) INCLUDE :: u16 where "INCLUDE \<equiv> 0x2802"
abbreviation (input) CHARACTERISTIC :: u16 where "CHARACTERISTIC \<equiv> 0x2803"
abbreviation (input) CLIENT_CHARACTERISTIC_CONFIGURATION :: u16 where
  "CLIENT_CHARACTERISTIC_CONFIGURATION \<equiv> 0x2902"
abbreviation (input) CHARACTERISTIC_USER_DESCRIPTION :: u16 where
  "CHARACTERISTIC_USER_DESCRIPTION \<equiv> 0x2901"

record CharacteristicDecl =
  cd_properties :: u8
  cd_value_handle :: u16

definition CharacteristicDecl_as_bytes :: "CharacteristicDecl \<Rightarrow> bytes" where
  "CharacteristicDecl_as_bytes h = [cd_properties h] @ to_le_bytes (cd_value_handle h)"

definition CharacteristicDecl_of_bytes :: "bytes \<Rightarrow> CharacteristicDecl" where
  "CharacteristicDecl_of_bytes bs =
     \<lparr>cd_properties = bs ! 0, cd_value_handle = from_le_bytes (bs ! 1) (bs ! 2)\<rparr>"

interpretation cd_layout: wire_layout 3 "\<lambda>_. True" CharacteristicDecl_as_bytes CharacteristicDecl_of_bytes
  by unfold_locales
    (auto simp: CharacteristicDecl_as_bytes_def CharacteristicDecl_of_bytes_def to_le_bytes_def list_of_length)

definition CharacteristicDecl_new :: "u8 \<Rightarrow> u16 \<Rightarrow> CharacteristicDecl" where
  "CharacteristicDecl_new properties value_handle =
     \<lparr>cd_properties = properties, cd_value_handle = value_handle\<rparr>"

abbreviation (input) prop_BROADCAST :: u8 where "prop_BROADCAST \<equiv> 0x01"
abbreviation (input) prop_READ :: u8 where "prop_READ \<equiv> 0x02"
abbreviation (input) prop_WRITE_WITHOUT_RESPONSE :: u8 where "prop_WRITE_WITHOUT_RESPONSE \<equiv> 0x04"
abbreviation (input) prop_WRITE :: u8 where "prop_WRITE \<equiv> 0x08"
abbreviation (input) prop_NOTIFY :: u8 where "prop_NOTIFY \<equiv> 0x10"
abbreviation (input) prop_INDICATE :: u8 where "prop_INDICATE \<equiv> 0x20"
abbreviation (input) prop_AUTHENTICATED_SIGNED_WRITES :: u8 where
  "prop_AUTHENTICATED_SIGNED_WRITES \<equiv> 0x40"
abbreviation (input) prop_EXTENDED_PROPERTIES :: u8 where "prop_EXTENDED_PROPERTIES \<equiv> 0x80"

record AttributePermissions =
  perm_read :: bool
  perm_write :: bool
  perm_read_auth :: bool
  perm_write_auth :: bool
  perm_encrypt_read :: bool
  perm_encrypt_write :: bool

definition permissions_read_only :: AttributePermissions where
  "permissions_read_only =
     \<lparr>perm_read = True, perm_write = False, perm_read_auth = False, perm_write_auth = False,
      perm_encrypt_read = False, perm_encrypt_write = False\<rparr>"

definition permissions_write_only :: AttributePermissions where
  "permissions_write_only =
     \<lparr>perm_read = False, perm_write = True, perm_read_auth = False, perm_write_auth = False,
      perm_encrypt_read = False, perm_encrypt_write = False\<rparr>"

definition permissions_default :: AttributePermissions where
  "permissions_default =
     \<lparr>perm_read = True, perm_write = True, perm_read_auth = False, perm_write_auth = False,
      perm_encrypt_read = False, perm_encrypt_write = False\<rparr>"

section \<open>The database\<close>

record 'h Attribute =
  attr_handle :: u16
  attr_uuid :: Uuid
  attr_value :: bytes
  attr_permissions :: AttributePermissions
  attr_handler :: "'h option"

text \<open>A clone starts without a handler; equality ignores the handler.\<close>

definition Attribute_clone :: "'h Attribute \<Rightarrow> 'h Attribute" where
  "Attribute_clone a = a\<lparr>attr_handler := None\<rparr>"

definition Attribute_eq :: "'h Attribute \<Rightarrow> 'h Attribute \<Rightarrow> bool" where
  "Attribute_eq a b =
     (attr_handle a = attr_handle b \<and> attr_uuid a = attr_uuid b \<and> attr_value a = attr_value b
      \<and> attr_permissions a = attr_permissions b)"

record 'h GattDatabase =
  attributes :: "'h Attribute btree_map"
  next_handle :: u16

type_synonym 'h on_write = "'h \<Rightarrow> 'h GattDatabase \<Rightarrow> bytes \<Rightarrow> (u8 + unit) \<times> 'h \<times> 'h GattDatabase"

definition GattDatabase_new :: "'h GattDatabase" where
  "GattDatabase_new = \<lparr>attributes = [], next_handle = 0x0001\<rparr>"

definition GattDatabase_clone :: "'h GattDatabase \<Rightarrow> 'h GattDatabase" where
  "GattDatabase_clone db = db\<lparr>attributes := map (\<lambda>(h, a). (h, Attribute_clone a)) (attributes db)\<rparr>"

definition allocate_handle :: "'h GattDatabase \<Rightarrow> (u16 \<times> 'h GattDatabase) option" where
  "allocate_handle db =
     (let h = next_handle db in
      if h = 0xFFFF then None else Some (h, db\<lparr>next_handle := h + 1\<rparr>))"

definition insert_attribute :: "'h GattDatabase \<Rightarrow> u16 \<Rightarrow> 'h Attribute \<Rightarrow> 'h GattDatabase" where
  "insert_attribute db h a = db\<lparr>attributes := bt_insert h a (attributes db)\<rparr>"

definition add_attribute ::
  "'h GattDatabase \<Rightarrow> Uuid \<Rightarrow> AttributePermissions \<Rightarrow> bytes \<Rightarrow> (u16 \<times> 'h GattDatabase) option" where
  "add_attribute db uuid permissions value =
     (case allocate_handle db of
        None \<Rightarrow> None
      | Some (handle, db') \<Rightarrow>
          Some (handle, insert_attribute db' handle
            \<lparr>attr_handle = handle, attr_uuid = uuid, attr_value = value,
             attr_permissions = permissions, attr_handler = None\<rparr>))"

definition add_service :: "'h GattDatabase \<Rightarrow> Uuid \<Rightarrow> bool \<Rightarrow> (u16 \<times> 'h GattDatabase) option" where
  "add_service db uuid primary =
     (case allocate_handle db of
        None \<Rightarrow> None
      | Some (handle, db') \<Rightarrow>
          let decl_uuid = (if primary then Uuid_from_u16 PRIMARY_SERVICE else Uuid_from_u16 SECONDARY_SERVICE);
              val = (case uuid of Uuid16 u \<Rightarrow> to_le_bytes u | Uuid128 u \<Rightarrow> u)
          in Some (handle, insert_attribute db' handle
               \<lparr>attr_handle = handle, attr_uuid = decl_uuid, attr_value = val,
                attr_permissions = permissions_read_only, attr_handler = None\<rparr>))"

definition add_include ::
  "'h GattDatabase \<Rightarrow> u16 \<Rightarrow> u16 \<Rightarrow> Uuid option \<Rightarrow> (u16 \<times> 'h GattDatabase) option" where
  "add_include db included_service_handle end_group_handle service_uuid =
     (let value = to_le_bytes included_service_handle @ to_le_bytes end_group_handle
          @ (case service_uuid of Some (Uuid16 u) \<Rightarrow> to_le_bytes u | _ \<Rightarrow> [])
      in add_attribute db (Uuid_from_u16 INCLUDE) permissions_read_only value)"

definition add_characteristic ::
  "'h GattDatabase \<Rightarrow> Uuid \<Rightarrow> u8 \<Rightarrow> bytes \<Rightarrow> AttributePermissions
   \<Rightarrow> ((u16 \<times> u16) \<times> 'h GattDatabase) option" where
  "add_characteristic db uuid properties initial_value permissions =
     (case allocate_handle db of
        None \<Rightarrow> None
      | Some (decl_handle, db1) \<Rightarrow>
     (case allocate_handle db1 of
        None \<Rightarrow> None
      | Some (val_handle, db2) \<Rightarrow>
          let decl_val = CharacteristicDecl_as_bytes (CharacteristicDecl_new properties val_handle)
                @ (case uuid of Uuid16 u \<Rightarrow> to_le_bytes u | Uuid128 u \<Rightarrow> u);
              db3 = insert_attribute db2 decl_handle
                \<lparr>attr_handle = decl_handle, attr_uuid = Uuid_from_u16 CHARACTERISTIC,
                 attr_value = decl_val, attr_permissions = permissions_read_only, attr_handler = None\<rparr>;
              db4 = insert_attribute db3 val_handle
                \<lparr>attr_handle = val_handle, attr_uuid = uuid, attr_value = initial_value,
                 attr_permissions = permissions, attr_handler = None\<rparr>
          in Some ((decl_handle, val_handle), db4)))"

definition add_cccd :: "'h GattDatabase \<Rightarrow> (u16 \<times> 'h GattDatabase) option" where
  "add_cccd db =
     (case allocate_handle db of
        None \<Rightarrow> None
      | Some (handle, db') \<Rightarrow>
          Some (handle, insert_attribute db' handle
            \<lparr>attr_handle = handle, attr_uuid = Uuid_from_u16 CLIENT_CHARACTERISTIC_CONFIGURATION,
             attr_value = [0x00, 0x00], attr_permissions = permissions_default, attr_handler = None\<rparr>))"

definition add_descriptor ::
  "'h GattDatabase \<Rightarrow> Uuid \<Rightarrow> bytes \<Rightarrow> AttributePermissions \<Rightarrow> (u16 \<times> 'h GattDatabase) option" where
  "add_descriptor db uuid value permissions = add_attribute db uuid permissions value"

definition add_characteristic_with_cccd ::
  "'h GattDatabase \<Rightarrow> Uuid \<Rightarrow> u8 \<Rightarrow> bytes \<Rightarrow> AttributePermissions
   \<Rightarrow> ((u16 \<times> u16) \<times> 'h GattDatabase) option" where
  "add_characteristic_with_cccd db uuid properties value permissions =
     (case add_characteristic db uuid properties value permissions of
        None \<Rightarrow> None
      | Some (handles, db') \<Rightarrow>
          if properties AND (prop_NOTIFY OR prop_INDICATE) \<noteq> 0 then
            map_option (\<lambda>(_, db''). (handles, db''))
              (add_descriptor db' (Uuid_from_u16 CLIENT_CHARACTERISTIC_CONFIGURATION) [0x00, 0x00]
                permissions_default)
          else Some (handles, db'))"

section \<open>Reading and writing\<close>

definition GattDatabase_read :: "'h GattDatabase \<Rightarrow> u16 \<Rightarrow> nat \<Rightarrow> u8 + bytes" where
  "GattDatabase_read db handle offset =
     (case bt_get (attributes db) handle of
        None \<Rightarrow> Inl error_INVALID_HANDLE
      | Some attr \<Rightarrow>
          if \<not> perm_read (attr_permissions attr) then Inl error_READ_NOT_PERMITTED
          else if length (attr_value attr) < offset then Inl error_INVALID_OFFSET
          else Inr (drop offset (attr_value attr)))"

definition value_handle_for_uuid :: "'h GattDatabase \<Rightarrow> Uuid \<Rightarrow> u16 option" where
  "value_handle_for_uuid db uuid =
     map_option fst (List.find (\<lambda>(_, attr). attr_uuid attr = uuid) (attributes db))"

definition GattDatabase_value :: "'h GattDatabase \<Rightarrow> u16 \<Rightarrow> bytes option" where
  "GattDatabase_value db handle = map_option attr_value (bt_get (attributes db) handle)"

definition modify_attribute ::
  "'h GattDatabase \<Rightarrow> u16 \<Rightarrow> ('h Attribute \<Rightarrow> 'h Attribute) \<Rightarrow> 'h GattDatabase" where
  "modify_attribute db handle f = db\<lparr>attributes := bt_modify handle f (attributes db)\<rparr>"

definition check_write_permitted :: "'h GattDatabase \<Rightarrow> u16 \<Rightarrow> u8 + 'h Attribute" where
  "check_write_permitted db handle =
     (case bt_get (attributes db) handle of
        None \<Rightarrow> Inl error_INVALID_HANDLE
      | Some attr \<Rightarrow>
          if \<not> perm_write (attr_permissions attr) then Inl error_WRITE_NOT_PERMITTED else Inr attr)"

definition GattDatabase_write ::
  "'h on_write \<Rightarrow> 'h GattDatabase \<Rightarrow> u16 \<Rightarrow> bytes \<Rightarrow> (u8 + unit) \<times> 'h GattDatabase" where
  "GattDatabase_write on_write db handle value =
     (case check_write_permitted db handle of
        Inl e \<Rightarrow> (Inl e, db)
      | Inr attr \<Rightarrow>
     (case attr_handler attr of
        None \<Rightarrow> (Inr (), modify_attribute db handle (\<lambda>a. a\<lparr>attr_value := value\<rparr>))
      | Some handler \<Rightarrow>
          let db1 = modify_attribute db handle (\<lambda>a. a\<lparr>attr_handler := None\<rparr>) in
          (case on_write handler db1 value of
             (res, handler', db2) \<Rightarrow>
               (res, modify_attribute db2 handle (\<lambda>a. a\<lparr>attr_handler := Some handler'\<rparr>)))))"

definition set_handler :: "'h GattDatabase \<Rightarrow> u16 \<Rightarrow> 'h \<Rightarrow> (u8 + unit) \<times> 'h GattDatabase" where
  "set_handler db handle handler =
     (case bt_get (attributes db) handle of
        None \<Rightarrow> (Inl error_INVALID_HANDLE, db)
      | Some _ \<Rightarrow> (Inr (), modify_attribute db handle (\<lambda>a. a\<lparr>attr_handler := Some handler\<rparr>)))"

definition has_handler :: "'h GattDatabase \<Rightarrow> u16 \<Rightarrow> bool" where
  "has_handler db handle =
     (case bt_get (attributes db) handle of None \<Rightarrow> False | Some attr \<Rightarrow> attr_handler attr \<noteq> None)"

definition set_value :: "'h GattDatabase \<Rightarrow> u16 \<Rightarrow> bytes \<Rightarrow> (u8 + unit) \<times> 'h GattDatabase" where
  "set_value db handle value =
     (case bt_get (attributes db) handle of
        None \<Rightarrow> (Inl error_INVALID_HANDLE, db)
      | Some _ \<Rightarrow> (Inr (), modify_attribute db handle (\<lambda>a. a\<lparr>attr_value := value\<rparr>)))"

text \<open>The value after \<^verbatim>\<open>resize\<close> with zeros and \<^verbatim>\<open>copy_from_slice\<close> at the offset.\<close>

definition overwrite_at :: "nat \<Rightarrow> bytes \<Rightarrow> bytes \<Rightarrow> bytes" where
  "overwrite_at offset value old =
     (let resized = (if length old < offset + length value
            then old @ replicate (offset + length value - length old) 0 else old)
      in take offset resized @ value @ drop (offset + length value) resized)"

definition write_offset ::
  "'h GattDatabase \<Rightarrow> u16 \<Rightarrow> nat \<Rightarrow> bytes \<Rightarrow> (u8 + unit) \<times> 'h GattDatabase" where
  "write_offset db handle offset value =
     (case check_write_permitted db handle of
        Inl e \<Rightarrow> (Inl e, db)
      | Inr _ \<Rightarrow>
          (Inr (), modify_attribute db handle (\<lambda>a. a\<lparr>attr_value := overwrite_at offset value (attr_value a)\<rparr>)))"

section \<open>Range queries\<close>

definition read_by_type :: "'h GattDatabase \<Rightarrow> u16 \<Rightarrow> u16 \<Rightarrow> Uuid \<Rightarrow> (u16 \<times> bytes) list" where
  "read_by_type db start end_h uuid =
     (if end_h < start then []
      else map (\<lambda>(h, attr). (h, attr_value attr))
        (filter (\<lambda>(_, attr). attr_uuid attr = uuid \<and> perm_read (attr_permissions attr))
          (bt_range start end_h (attributes db))))"

definition is_service_declaration :: "'h Attribute \<Rightarrow> bool" where
  "is_service_declaration attr =
     (attr_uuid attr = Uuid_from_u16 PRIMARY_SERVICE \<or> attr_uuid attr = Uuid_from_u16 SECONDARY_SERVICE)"

text \<open>The loop of \<^verbatim>\<open>group_end_handle\<close>; \<^verbatim>\<open>service_handle + 1\<close> overflows at the last handle.\<close>

fun group_scan :: "u16 \<Rightarrow> (u16 \<times> 'h Attribute) list \<Rightarrow> u16" where
  "group_scan e [] = e"
| "group_scan e ((handle, attr) # rest) =
     (if is_service_declaration attr then e else group_scan handle rest)"

definition group_end_handle :: "'h GattDatabase \<Rightarrow> u16 \<Rightarrow> u16 option" where
  "group_end_handle db service_handle =
     (if service_handle = 0xFFFF then None
      else Some (group_scan service_handle (bt_range_from (service_handle + 1) (attributes db))))"

definition find_information :: "'h GattDatabase \<Rightarrow> u16 \<Rightarrow> u16 \<Rightarrow> (u16 \<times> Uuid) list" where
  "find_information db start end_h =
     (if end_h < start then []
      else map (\<lambda>(h, attr). (h, attr_uuid attr)) (bt_range start end_h (attributes db)))"

section \<open>Invariant\<close>

text \<open>
  Attributes are in ascending handle order, stored under their own handle, and every handle in use
  is above zero and below the next one to be given out.
\<close>

definition gatt_inv :: "'h GattDatabase \<Rightarrow> bool" where
  "gatt_inv db =
     (bt_inv (attributes db) \<and> 0 < next_handle db
      \<and> (\<forall>(k, a) \<in> set (attributes db). attr_handle a = k \<and> 0 < k \<and> k < next_handle db))"

lemma gatt_inv_new: "gatt_inv GattDatabase_new"
  by (simp add: gatt_inv_def GattDatabase_new_def bt_inv_def)

lemma gatt_inv_get:
  "gatt_inv db \<Longrightarrow> bt_get (attributes db) k = Some a \<Longrightarrow> attr_handle a = k \<and> 0 < k \<and> k < next_handle db"
  using bt.entries_get [of "attributes db" k a] by (auto simp: gatt_inv_def)

text \<open>All registrations come down to \<^verbatim>\<open>add_attribute\<close>.\<close>

lemma add_service_as_attribute:
  "add_service db uuid primary =
     add_attribute db (Uuid_from_u16 (if primary then PRIMARY_SERVICE else SECONDARY_SERVICE))
       permissions_read_only (Uuid_to_att_bytes uuid)"
  by (cases uuid) (simp_all add: add_service_def add_attribute_def Let_def split: option.splits)

lemma add_cccd_as_attribute:
  "add_cccd db = add_attribute db (Uuid_from_u16 CLIENT_CHARACTERISTIC_CONFIGURATION)
     permissions_default [0x00, 0x00]"
  by (simp add: add_cccd_def add_attribute_def split: option.splits)

lemma add_characteristic_as_attributes:
  "add_characteristic db uuid properties value permissions =
     (case add_attribute db (Uuid_from_u16 CHARACTERISTIC) permissions_read_only
        (CharacteristicDecl_as_bytes (CharacteristicDecl_new properties (next_handle db + 1))
         @ Uuid_to_att_bytes uuid) of
        None \<Rightarrow> None
      | Some (d, db1) \<Rightarrow>
          map_option (\<lambda>(v, db2). ((d, v), db2)) (add_attribute db1 uuid permissions value))"
  by (cases uuid)
    (simp_all add: add_characteristic_def add_attribute_def allocate_handle_def insert_attribute_def Let_def)

lemma add_attribute_appends:
  assumes "gatt_inv db" "next_handle db \<noteq> 0xFFFF"
  defines "h \<equiv> next_handle db"
  shows "add_attribute db uuid permissions value = Some (h,
    db\<lparr>attributes := attributes db @ [(h, \<lparr>attr_handle = h, attr_uuid = uuid, attr_value = value,
         attr_permissions = permissions, attr_handler = None\<rparr>)], next_handle := h + 1\<rparr>)"
proof -
  have "\<forall>k \<in> fst ` set (attributes db). k < h"
    using assms(1) by (auto simp: gatt_inv_def h_def)
  then show ?thesis
    using assms(2)
    by (simp add: add_attribute_def allocate_handle_def insert_attribute_def h_def Let_def
        bt_insert_append)
qed

lemma next_handle_Suc:
  "next_handle db \<noteq> 0xFFFF \<Longrightarrow> unat (next_handle db + 1) = Suc (unat (next_handle db))"
  by (rule unat_u16_plus_1) (simp add: order_less_le)

lemma add_attribute_inv:
  assumes "gatt_inv db" "add_attribute db uuid permissions value = Some (h, db')"
  shows "gatt_inv db' \<and> h = next_handle db \<and> unat (next_handle db') = Suc (unat (next_handle db))"
proof -
  have ne: "next_handle db \<noteq> 0xFFFF"
    using assms(2) by (auto simp: add_attribute_def allocate_handle_def Let_def split: if_splits)
  have less: "next_handle db < next_handle db + 1"
    using next_handle_Suc [OF ne] by (simp add: word_less_nat_alt)
  have "h = next_handle db" and "db' = db\<lparr>attributes := attributes db @ [(h,
      \<lparr>attr_handle = h, attr_uuid = uuid, attr_value = value, attr_permissions = permissions,
       attr_handler = None\<rparr>)], next_handle := h + 1\<rparr>"
    using assms(2) unfolding add_attribute_appends [OF assms(1) ne] by auto
  note db' = this(2) [unfolded this(1)] and h = this(1)
  have "bt_inv (attributes db')"
    using assms(1) by (auto simp: db' gatt_inv_def bt_inv_def sorted_wrt_append)
  moreover have "\<forall>(k, a) \<in> set (attributes db'). attr_handle a = k \<and> 0 < k \<and> k < next_handle db'"
    using assms(1) less by (auto simp: db' gatt_inv_def dest: less_trans)
  moreover have "0 < next_handle db'"
    using less assms(1) by (auto simp: db' gatt_inv_def dest: less_trans)
  ultimately show ?thesis
    using next_handle_Suc [OF ne] by (auto simp: db' h gatt_inv_def)
qed

lemma add_attribute_None: "add_attribute db uuid permissions value = None \<longleftrightarrow> next_handle db = 0xFFFF"
  by (simp add: add_attribute_def allocate_handle_def Let_def)

lemma modify_attribute_inv:
  assumes "gatt_inv db" "\<And>a. attr_handle (f a) = attr_handle a"
  shows "gatt_inv (modify_attribute db h f)"
  using assms by (auto simp: gatt_inv_def modify_attribute_def bt_modify_inv) (auto simp: bt_modify_def split: if_splits)

lemma modify_attribute_simps [simp]:
  "next_handle (modify_attribute db h f) = next_handle db"
  "bt_get (attributes (modify_attribute db h f)) =
     (bt_get (attributes db))(h := map_option f (bt_get (attributes db) h))"
  by (simp_all add: modify_attribute_def bt_modify_get)

section \<open>Every operation keeps the invariant\<close>

datatype 'h gatt_op =
    AddService Uuid bool
  | AddInclude u16 u16 "Uuid option"
  | AddCharacteristic Uuid u8 bytes AttributePermissions
  | AddCharacteristicWithCccd Uuid u8 bytes AttributePermissions
  | AddCccd
  | AddDescriptor Uuid bytes AttributePermissions
  | Write u16 bytes
  | WriteOffset u16 nat bytes
  | SetValue u16 bytes
  | SetHandler u16 'h

fun gatt_apply :: "'h on_write \<Rightarrow> 'h GattDatabase \<Rightarrow> 'h gatt_op \<Rightarrow> 'h GattDatabase option" where
  "gatt_apply ow db (AddService u p) = map_option snd (add_service db u p)"
| "gatt_apply ow db (AddInclude s e u) = map_option snd (add_include db s e u)"
| "gatt_apply ow db (AddCharacteristic u p v perms) = map_option snd (add_characteristic db u p v perms)"
| "gatt_apply ow db (AddCharacteristicWithCccd u p v perms) =
     map_option snd (add_characteristic_with_cccd db u p v perms)"
| "gatt_apply ow db AddCccd = map_option snd (add_cccd db)"
| "gatt_apply ow db (AddDescriptor u v perms) = map_option snd (add_descriptor db u v perms)"
| "gatt_apply ow db (Write h v) = Some (snd (GattDatabase_write ow db h v))"
| "gatt_apply ow db (WriteOffset h n v) = Some (snd (write_offset db h n v))"
| "gatt_apply ow db (SetValue h v) = Some (snd (set_value db h v))"
| "gatt_apply ow db (SetHandler h x) = Some (snd (set_handler db h x))"

fun gatt_run :: "'h on_write \<Rightarrow> 'h GattDatabase \<Rightarrow> 'h gatt_op list \<Rightarrow> 'h GattDatabase option" where
  "gatt_run ow db [] = Some db"
| "gatt_run ow db (op # ops) =
     (case gatt_apply ow db op of None \<Rightarrow> None | Some db' \<Rightarrow> gatt_run ow db' ops)"

text \<open>The handles an operation takes.\<close>

fun handles_taken :: "'h gatt_op \<Rightarrow> nat" where
  "handles_taken (AddCharacteristic _ _ _ _) = 2"
| "handles_taken (AddCharacteristicWithCccd _ p _ _) =
     (if p AND (prop_NOTIFY OR prop_INDICATE) \<noteq> 0 then 3 else 2)"
| "handles_taken (Write _ _) = 0"
| "handles_taken (WriteOffset _ _ _) = 0"
| "handles_taken (SetValue _ _) = 0"
| "handles_taken (SetHandler _ _) = 0"
| "handles_taken _ = 1"

text \<open>What the database relies on of a handler: it leaves a well-formed database with as many handles.\<close>

definition handler_ok :: "'h on_write \<Rightarrow> bool" where
  "handler_ok ow \<longleftrightarrow> (\<forall>h db v. gatt_inv db \<longrightarrow>
     gatt_inv (snd (snd (ow h db v))) \<and> next_handle (snd (snd (ow h db v))) = next_handle db)"

lemma GattDatabase_write_inv:
  assumes "gatt_inv db" "handler_ok ow"
  shows "gatt_inv (snd (GattDatabase_write ow db h v))
    \<and> next_handle (snd (GattDatabase_write ow db h v)) = next_handle db"
proof -
  define db1 where "db1 = modify_attribute db h (\<lambda>a. a\<lparr>attr_handler := None\<rparr>)"
  have db1: "gatt_inv db1" "next_handle db1 = next_handle db"
    using assms(1) by (auto simp: db1_def intro: modify_attribute_inv)
  show ?thesis
    using assms db1 modify_attribute_inv [OF assms(1), of "\<lambda>a. a\<lparr>attr_value := v\<rparr>"]
    unfolding GattDatabase_write_def db1_def [symmetric] handler_ok_def
    by (auto simp: Let_def split: sum.splits option.splits prod.splits
        intro!: modify_attribute_inv) (metis snd_conv)+
qed

lemma write_ops_inv:
  assumes "gatt_inv db"
  shows "gatt_inv (snd (write_offset db h n v)) \<and> next_handle (snd (write_offset db h n v)) = next_handle db"
    and "gatt_inv (snd (set_value db h v)) \<and> next_handle (snd (set_value db h v)) = next_handle db"
    and "gatt_inv (snd (set_handler db h x)) \<and> next_handle (snd (set_handler db h x)) = next_handle db"
  using assms
  by (auto simp: write_offset_def set_value_def set_handler_def split: sum.splits option.splits
      intro!: modify_attribute_inv)

lemma add_attribute_succeeds:
  assumes "gatt_inv db" "unat (next_handle db) + n \<le> 65535" "0 < n"
  shows "\<exists>h db'. add_attribute db uuid permissions v = Some (h, db') \<and> gatt_inv db'
    \<and> unat (next_handle db') = Suc (unat (next_handle db))"
proof -
  have "next_handle db \<noteq> 0xFFFF"
    using assms(2,3) by auto
  then obtain r where r: "add_attribute db uuid permissions v = Some r"
    using add_attribute_None [of db uuid permissions v] by (cases "add_attribute db uuid permissions v") auto
  with add_attribute_inv [OF assms(1), of uuid permissions v] show ?thesis
    by (cases r) auto
qed

lemma add_characteristic_succeeds:
  assumes "gatt_inv db" "unat (next_handle db) + 2 \<le> 65535"
  shows "\<exists>hs db'. add_characteristic db uuid properties v permissions = Some (hs, db') \<and> gatt_inv db'
    \<and> unat (next_handle db') = unat (next_handle db) + 2"
proof -
  obtain h1 db1 where db1: "add_attribute db (Uuid_from_u16 CHARACTERISTIC) permissions_read_only
        (CharacteristicDecl_as_bytes (CharacteristicDecl_new properties (next_handle db + 1))
         @ Uuid_to_att_bytes uuid) = Some (h1, db1)" "gatt_inv db1"
      "unat (next_handle db1) = Suc (unat (next_handle db))"
    using add_attribute_succeeds [OF assms] by (metis zero_less_numeral)
  obtain h2 db2 where "add_attribute db1 uuid permissions v = Some (h2, db2)" "gatt_inv db2"
      "unat (next_handle db2) = Suc (unat (next_handle db1))"
    using add_attribute_succeeds [OF db1(2), of 1 uuid permissions v] db1(3) assms(2) by auto
  with db1 show ?thesis
    by (simp add: add_characteristic_as_attributes)
qed

lemma gatt_apply_succeeds:
  assumes "gatt_inv db" "handler_ok ow" "unat (next_handle db) + handles_taken op \<le> 65535"
  shows "\<exists>db'. gatt_apply ow db op = Some db' \<and> gatt_inv db'
    \<and> unat (next_handle db') = unat (next_handle db) + handles_taken op"
proof (cases op)
  case (AddCharacteristic u p v perms)
  with add_characteristic_succeeds [OF assms(1), of u p v perms] assms(3) show ?thesis by auto
next
  case (AddCharacteristicWithCccd u p v perms)
  then have "unat (next_handle db) + 2 \<le> 65535" using assms(3) by (auto split: if_splits)
  with add_characteristic_succeeds [OF assms(1)] obtain hs db1 where db1:
      "add_characteristic db u p v perms = Some (hs, db1)" "gatt_inv db1"
      "unat (next_handle db1) = unat (next_handle db) + 2"
    by blast
  with AddCharacteristicWithCccd assms(3) show ?thesis
    using add_attribute_succeeds [OF db1(2), of 1 "Uuid_from_u16 CLIENT_CHARACTERISTIC_CONFIGURATION"
        permissions_default "[0x00, 0x00]"]
    by (auto simp: add_characteristic_with_cccd_def add_descriptor_def split: if_splits)
next
  case (Write h v)
  with GattDatabase_write_inv [OF assms(1,2)] show ?thesis by simp
qed (use assms(1,3) write_ops_inv [OF assms(1)] add_attribute_succeeds [OF assms(1), of 1] in
    \<open>auto simp: add_service_as_attribute add_cccd_as_attribute add_include_def add_descriptor_def Let_def;
      fastforce\<close>)+

lemma gatt_run_from:
  assumes "gatt_inv db" "handler_ok ow" "unat (next_handle db) + sum_list (map handles_taken ops) \<le> 65535"
  shows "\<exists>db'. gatt_run ow db ops = Some db' \<and> gatt_inv db'
    \<and> unat (next_handle db') = unat (next_handle db) + sum_list (map handles_taken ops)"
  using assms(1,3)
proof (induction ops arbitrary: db)
  case Nil
  then show ?case by simp
next
  case (Cons op ops)
  then obtain db1 where db1: "gatt_apply ow db op = Some db1" "gatt_inv db1"
      "unat (next_handle db1) = unat (next_handle db) + handles_taken op"
    using gatt_apply_succeeds [OF Cons.prems(1) assms(2), of op] by auto
  with Cons.IH [of db1] Cons.prems(2) show ?case by (simp add: add.assoc)
qed

text \<open>C23: Registering services, includes, characteristics and descriptors in any order, interleaved
  with writes and handlers that respect the database, never fails while at most 65534 handles are
  needed, and always leaves a database whose attributes are sorted, stored under their own non-zero
  handle, and below the next handle.\<close>
theorem gatt_run_invariant:
  assumes "handler_ok ow" "sum_list (map handles_taken ops) \<le> 65534"
  shows "\<exists>db. gatt_run ow GattDatabase_new ops = Some db \<and> gatt_inv db
    \<and> unat (next_handle db) = Suc (sum_list (map handles_taken ops))"
  using gatt_run_from [OF gatt_inv_new assms(1), of ops] assms(2)
  by (simp add: GattDatabase_new_def)

text \<open>A control point that stores what it is given under handle 1 and counts its writes.\<close>

definition counting_handler :: "nat on_write" where
  "counting_handler n db v = (Inr (), Suc n, snd (set_value db 1 v))"

theorem gatt_run_invariant_witness:
  "\<exists>db. gatt_run counting_handler GattDatabase_new
      [AddService (Uuid16 0x180D) True, AddCharacteristicWithCccd (Uuid16 0x2A37) 0x10 [0, 80] permissions_default,
       SetHandler 3 0, Write 3 [9]] = Some db \<and> gatt_inv db
    \<and> unat (next_handle db) = Suc (sum_list (map handles_taken
        [AddService (Uuid16 0x180D) True, AddCharacteristicWithCccd (Uuid16 0x2A37) 0x10 [0, 80] permissions_default,
         SetHandler 3 (0 :: nat), Write 3 [9]]))"
  by (rule gatt_run_invariant)
    (simp_all add: handler_ok_def counting_handler_def write_ops_inv split: if_splits)

section \<open>Reads and writes\<close>

text \<open>Writes one after the other, with their results, and what they are to do to an attribute without a
  handler: the last value written to it stays, if it may be written.\<close>

fun write_all :: "'h on_write \<Rightarrow> (u16 \<times> bytes) list \<Rightarrow> 'h GattDatabase \<Rightarrow> (u8 + unit) list \<times> 'h GattDatabase" where
  "write_all ow [] db = ([], db)"
| "write_all ow ((h, v) # ws) db =
     (let (r, db) = GattDatabase_write ow db h v; (rs, db) = write_all ow ws db in (r # rs, db))"

definition write_result :: "'h Attribute option \<Rightarrow> u8 + unit" where
  "write_result entry =
     (case entry of
        None \<Rightarrow> Inl error_INVALID_HANDLE
      | Some a \<Rightarrow> if perm_write (attr_permissions a) then Inr () else Inl error_WRITE_NOT_PERMITTED)"

definition last_write :: "(u16 \<times> bytes) list \<Rightarrow> u16 \<Rightarrow> 'h Attribute \<Rightarrow> 'h Attribute" where
  "last_write ws h a =
     (case map_of (rev ws) h of
        Some v \<Rightarrow> if perm_write (attr_permissions a) then a\<lparr>attr_value := v\<rparr> else a
      | None \<Rightarrow> a)"

definition read_result :: "'h Attribute option \<Rightarrow> nat \<Rightarrow> u8 + bytes" where
  "read_result entry offset =
     (case entry of
        None \<Rightarrow> Inl error_INVALID_HANDLE
      | Some a \<Rightarrow>
          if \<not> perm_read (attr_permissions a) then Inl error_READ_NOT_PERMITTED
          else if length (attr_value a) < offset then Inl error_INVALID_OFFSET
          else Inr (drop offset (attr_value a)))"

lemma plain_write:
  assumes "\<forall>a. bt_get (attributes db) h = Some a \<longrightarrow> attr_handler a = None"
  shows "\<exists>db'. GattDatabase_write ow db h v = (write_result (bt_get (attributes db) h), db')
    \<and> bt_get (attributes db') = (\<lambda>k. map_option (last_write [(h, v)] k) (bt_get (attributes db) k))"
proof -
  have other: "last_write [(h, v)] k = (\<lambda>a. a)" if "k \<noteq> h" for k
    using that by (simp add: last_write_def fun_eq_iff)
  have split: "(\<lambda>k. map_option (last_write [(h, v)] k) (bt_get (attributes db) k))
      = (bt_get (attributes db))(h := map_option (last_write [(h, v)] h) (bt_get (attributes db) h))"
    by (rule ext) (simp add: other option.map_ident)
  show ?thesis
    using assms unfolding split
    by (cases "bt_get (attributes db) h")
      (auto simp: GattDatabase_write_def check_write_permitted_def write_result_def last_write_def fun_upd_idem)
qed

lemma last_write_Cons:
  "last_write ws k (last_write [(h, v)] k a) = last_write ((h, v) # ws) k a"
  by (auto simp: last_write_def map_add_def split: option.splits)

lemma last_write_simps [simp]:
  "attr_permissions (last_write ws h a) = attr_permissions a" "attr_handler (last_write ws h a) = attr_handler a"
  by (simp_all add: last_write_def split: option.split)

lemma plain_writes:
  assumes "\<forall>(k, v) \<in> set ws. \<forall>a. bt_get (attributes db) k = Some a \<longrightarrow> attr_handler a = None"
  shows "\<exists>db'. write_all ow ws db = (map (\<lambda>(k, _). write_result (bt_get (attributes db) k)) ws, db')
    \<and> bt_get (attributes db') = (\<lambda>k. map_option (last_write ws k) (bt_get (attributes db) k))"
  using assms
proof (induction ws arbitrary: db)
  case Nil
  then show ?case by (simp add: last_write_def option.map_ident)
next
  case (Cons w ws)
  obtain h v where w: "w = (h, v)" by fastforce
  with Cons.prems plain_write [of db h ow v] obtain db1 where
    one: "GattDatabase_write ow db h v = (write_result (bt_get (attributes db) h), db1)"
      "bt_get (attributes db1) = (\<lambda>k. map_option (last_write [(h, v)] k) (bt_get (attributes db) k))" by auto
  have result [simp]: "write_result (map_option (last_write [(h, v)] k) x) = write_result x" for k x
    by (simp add: write_result_def split: option.split)
  from Cons.prems have "\<forall>(k, v) \<in> set ws. \<forall>a. bt_get (attributes db1) k = Some a \<longrightarrow> attr_handler a = None"
    by (fastforce simp: one(2))
  from Cons.IH [OF this] show ?case
    by (auto simp: w one option.map_comp comp_def last_write_Cons)
qed

lemma read_read_result: "GattDatabase_read db h offset = read_result (bt_get (attributes db) h) offset"
  by (simp add: GattDatabase_read_def read_result_def split: option.split)

lemma handled_write:
  assumes "bt_get (attributes db) h = Some a" "perm_write (attr_permissions a)" "attr_handler a = Some x"
    and "ow x (modify_attribute db h (\<lambda>a. a\<lparr>attr_handler := None\<rparr>)) v = (res, x', db2)"
  shows "\<exists>db'. GattDatabase_write ow db h v = (res, db')
    \<and> GattDatabase_value db' = GattDatabase_value db2
    \<and> map_option attr_handler (bt_get (attributes db') h)
        = map_option (\<lambda>_. Some x') (bt_get (attributes db2) h)"
  using assms
  by (auto simp: GattDatabase_write_def check_write_permitted_def GattDatabase_value_def fun_eq_iff
      option.map_comp comp_def cong: map_option_cong)

text \<open>C24: After any history of writes to attributes without a handler, each write has reported its
  missing handle or its missing permission or success, every attribute holds the last value written
  to it if it may be written and its old value otherwise, with everything else about it unchanged,
  and a read at any handle and offset returns exactly that value's rest or the error due. A write to
  a writable attribute with a handler is the handler's business alone, which it is called for while
  it is detached: the result is the handler's, the stored values are those it left, and the handler,
  in the state it is in after the call, is attached again unless it removed its own attribute.\<close>
theorem GattDatabase_write_read:
  assumes "\<forall>(k, v) \<in> set ws. \<forall>a. bt_get (attributes db) k = Some a \<longrightarrow> attr_handler a = None"
  shows "(\<exists>db'. write_all ow ws db = (map (\<lambda>(k, _). write_result (bt_get (attributes db) k)) ws, db')
      \<and> (\<forall>h. bt_get (attributes db') h = map_option (last_write ws h) (bt_get (attributes db) h))
      \<and> (\<forall>h offset. GattDatabase_read db' h offset
          = read_result (map_option (last_write ws h) (bt_get (attributes db) h)) offset))
    \<and> (\<forall>h v a x res x' db2. bt_get (attributes db) h = Some a \<and> perm_write (attr_permissions a) \<and> attr_handler a = Some x
        \<and> ow x (modify_attribute db h (\<lambda>a. a\<lparr>attr_handler := None\<rparr>)) v = (res, x', db2)
        \<longrightarrow> (\<exists>db'. GattDatabase_write ow db h v = (res, db') \<and> GattDatabase_value db' = GattDatabase_value db2
          \<and> map_option attr_handler (bt_get (attributes db') h) = map_option (\<lambda>_. Some x') (bt_get (attributes db2) h)))"
  using plain_writes [OF assms, of ow] handled_write [of db _ _ _ ow] by (auto simp: read_read_result)

definition sample_db :: "nat GattDatabase" where
  "sample_db = \<lparr>attributes =
     [(1, \<lparr>attr_handle = 1, attr_uuid = Uuid16 0x2800, attr_value = [0x0D, 0x18],
           attr_permissions = permissions_read_only, attr_handler = None\<rparr>),
      (2, \<lparr>attr_handle = 2, attr_uuid = Uuid16 0x2803, attr_value = [0x0A, 3, 0, 0x37, 0x2A],
           attr_permissions = permissions_read_only, attr_handler = None\<rparr>),
      (3, \<lparr>attr_handle = 3, attr_uuid = Uuid16 0x2A37, attr_value = [0, 80],
           attr_permissions = permissions_default, attr_handler = None\<rparr>),
      (4, \<lparr>attr_handle = 4, attr_uuid = Uuid16 0x2800, attr_value = [0x0F, 0x18],
           attr_permissions = permissions_read_only, attr_handler = None\<rparr>)],
     next_handle = 5\<rparr>"

lemma gatt_inv_sample_db: "gatt_inv sample_db"
  by (simp add: gatt_inv_def sample_db_def bt_inv_def)

theorem GattDatabase_write_read_witness:
  "\<exists>rs db'. write_all counting_handler [(3, [7, 8, 9]), (1, [0]), (3, [5, 6]), (9, [1])] sample_db = (rs, db')
    \<and> rs = [Inr (), Inl error_WRITE_NOT_PERMITTED, Inr (), Inl error_INVALID_HANDLE]
    \<and> GattDatabase_read db' 3 1 = Inr [6] \<and> GattDatabase_read db' 1 0 = Inr [0x0D, 0x18]"
proof -
  let ?ws = "[(3, [7, 8, 9]), (1, [0]), (3, [5, 6]), (9, [1])] :: (u16 \<times> bytes) list"
  have "\<forall>(k, v) \<in> set ?ws. \<forall>a. bt_get (attributes sample_db) k = Some a \<longrightarrow> attr_handler a = None"
    by (auto simp: sample_db_def bt_get_def split: if_splits)
  from GattDatabase_write_read [OF this, of counting_handler, THEN conjunct1]
  obtain db' where w: "write_all counting_handler ?ws sample_db
        = (map (\<lambda>(k, _). write_result (bt_get (attributes sample_db) k)) ?ws, db')"
      "\<And>h offset. GattDatabase_read db' h offset = read_result (map_option (last_write ?ws h) (bt_get (attributes sample_db) h)) offset"
    by (elim exE conjE) metis
  show ?thesis
    unfolding w(1)
    by (intro exI conjI) (rule refl, simp_all add: w(2) sample_db_def bt_get_def write_result_def read_result_def last_write_def
        permissions_default_def permissions_read_only_def)
qed

section \<open>Long writes\<close>

lemma overwrite_at_nth:
  "i < max (length old) (off + length v) \<Longrightarrow>
   overwrite_at off v old ! i =
     (if off \<le> i \<and> i < off + length v then v ! (i - off) else if i < length old then old ! i else 0)"
  by (auto simp: overwrite_at_def Let_def nth_append min_def)

lemma length_overwrite_at: "length (overwrite_at off v old) = max (length old) (off + length v)"
  by (auto simp: overwrite_at_def Let_def)

lemma overwrite_at_append:
  "overwrite_at (off + length u) v (overwrite_at off u old) = overwrite_at off (u @ v) old"
  by (rule nth_equalityI) (auto simp: length_overwrite_at overwrite_at_nth nth_append)

text \<open>Writing a list of parts, each where the previous one ended.\<close>

fun write_parts :: "'h GattDatabase \<Rightarrow> u16 \<Rightarrow> nat \<Rightarrow> bytes list \<Rightarrow> 'h GattDatabase" where
  "write_parts db h off [] = db"
| "write_parts db h off (p # ps) = write_parts (snd (write_offset db h off p)) h (off + length p) ps"

lemma write_offset_get:
  "bt_get (attributes (snd (write_offset db h off v))) = (bt_get (attributes db))(h :=
     map_option (\<lambda>a. if perm_write (attr_permissions a)
       then a\<lparr>attr_value := overwrite_at off v (attr_value a)\<rparr> else a) (bt_get (attributes db) h))"
  by (auto simp: write_offset_def check_write_permitted_def fun_eq_iff split: option.splits)

lemma write_parts_cong:
  "bt_get (attributes db) = bt_get (attributes db') \<Longrightarrow>
   bt_get (attributes (write_parts db h off ps)) = bt_get (attributes (write_parts db' h off ps))"
  by (induction ps arbitrary: db db' off) (simp_all add: write_offset_get)

lemma write_parts_get:
  "bt_get (attributes (write_parts (snd (write_offset db h off p)) h (off + length p) ps))
     = bt_get (attributes (snd (write_offset db h off (concat (p # ps)))))"
proof (induction ps arbitrary: p)
  case Nil
  then show ?case by simp
next
  case (Cons q ps)
  have "bt_get (attributes (snd (write_offset (snd (write_offset db h off p)) h (off + length p) q)))
      = bt_get (attributes (snd (write_offset db h off (p @ q))))"
    by (cases "bt_get (attributes db) h") (auto simp: write_offset_get fun_eq_iff overwrite_at_append)
  from write_parts_cong [OF this, of h "off + length (p @ q)" ps] Cons.IH [of "p @ q"]
  show ?case by (simp add: add.assoc)
qed

text \<open>However a long value is cut into consecutive parts, writing the parts one after the other
  leaves a writable attribute with the whole value at the first offset: bytes outside the written
  span keep their value, a gap before it is filled with zeros, and no other attribute changes.\<close>
theorem write_parts_is_one_write:
  assumes "ps \<noteq> []" "bt_get (attributes db) h = Some a" "perm_write (attr_permissions a)"
  defines "old \<equiv> attr_value a" and "v \<equiv> concat ps"
  shows "\<exists>v'. bt_get (attributes (write_parts db h off ps))
        = (bt_get (attributes db))(h \<mapsto> a\<lparr>attr_value := v'\<rparr>)
      \<and> length v' = max (length old) (off + length v)
      \<and> (\<forall>i < length v'. v' ! i =
           (if off \<le> i \<and> i < off + length v then v ! (i - off)
            else if i < length old then old ! i else 0))"
proof (intro exI conjI)
  obtain p ps' where "ps = p # ps'" using assms(1) by (cases ps) auto
  then show "bt_get (attributes (write_parts db h off ps))
      = (bt_get (attributes db))(h \<mapsto> a\<lparr>attr_value := overwrite_at off v old\<rparr>)"
    using write_parts_get [of db h off p ps'] assms(2,3)
    by (simp add: write_offset_get v_def old_def)
qed (simp_all add: length_overwrite_at overwrite_at_nth)

theorem write_parts_is_one_write_witness:
  "let a = the (bt_get (attributes sample_db) 3) in
    \<exists>v'. bt_get (attributes (write_parts sample_db 3 1 [[5], [6, 7]]))
        = (bt_get (attributes sample_db))(3 \<mapsto> a\<lparr>attr_value := v'\<rparr>)
      \<and> length v' = max (length (attr_value a)) (1 + length (concat [[5 :: u8], [6, 7]]))
      \<and> (\<forall>i < length v'. v' ! i =
           (if 1 \<le> i \<and> i < 1 + length (concat [[5 :: u8], [6, 7]]) then concat [[5], [6, 7]] ! (i - 1)
            else if i < length (attr_value a) then attr_value a ! i else 0))"
  unfolding Let_def
  by (rule write_parts_is_one_write) (simp_all add: sample_db_def bt_get_def permissions_default_def)

section \<open>Discovery\<close>

lemma group_scan_spec:
  assumes "sorted_wrt (<) (map fst xs)" "\<forall>x \<in> set xs. e < fst x"
  defines "r \<equiv> group_scan e xs"
  shows "e \<le> r \<and> (r = e \<or> r \<in> fst ` set xs)
    \<and> (\<forall>(k, a) \<in> set xs. k \<le> r \<longrightarrow> \<not> is_service_declaration a)
    \<and> (\<forall>(k, a) \<in> set xs. r < k \<longrightarrow> (\<exists>(s, d) \<in> set xs. r < s \<and> s \<le> k \<and> is_service_declaration d))"
  using assms(1,2) unfolding r_def
proof (induction xs arbitrary: e)
  case Nil
  then show ?case by simp
next
  case (Cons x xs)
  obtain k a where x: "x = (k, a)" by (cases x)
  show ?case
  proof (cases "is_service_declaration a")
    case True
    then show ?thesis
      using Cons.prems by (auto simp: x intro: less_imp_le)
  next
    case False
    have "sorted_wrt (<) (map fst xs)" "\<forall>y \<in> set xs. k < fst y"
      using Cons.prems(1) by (auto simp: x)
    note IH = Cons.IH [OF this]
    have "e < k" using Cons.prems(2) by (simp add: x)
    with False IH show ?thesis
      by (auto simp: x)
  qed
qed

lemma group_end_handle_spec:
  assumes "gatt_inv db" "bt_get (attributes db) h = Some a"
  shows "\<exists>e. group_end_handle db h = Some e \<and> h \<le> e \<and> bt_get (attributes db) e \<noteq> None
    \<and> (\<forall>k b. bt_get (attributes db) k = Some b \<and> h < k \<and> k \<le> e \<longrightarrow> \<not> is_service_declaration b)
    \<and> (\<forall>k b. bt_get (attributes db) k = Some b \<and> e < k \<longrightarrow>
         (\<exists>s d. bt_get (attributes db) s = Some d \<and> e < s \<and> s \<le> k \<and> is_service_declaration d))"
proof -
  have h: "h \<noteq> 0xFFFF"
    using gatt_inv_get [OF assms] u16_le_max [of "next_handle db"] by (auto simp del: u16_le_max)
  have succ: "h + 1 \<le> k \<longleftrightarrow> h < k" for k
    using h by (rule u16_succ_le)
  have inv: "bt_inv (attributes db)" using assms(1) by (simp add: gatt_inv_def)
  define xs where "xs = bt_range_from (h + 1) (attributes db)"
  have mem: "(k, b) \<in> set xs \<longleftrightarrow> bt_get (attributes db) k = Some b \<and> h < k" for k b
    using bt.entries_get [OF inv, of k b] by (auto simp: xs_def bt_range_from_def succ)
  have "sorted_wrt (<) (map fst xs)"
    unfolding xs_def bt_range_from_def using bt.range_sorted [OF inv] .
  moreover have "\<forall>x \<in> set xs. h < fst x" using mem by force
  ultimately have spec: "h \<le> group_scan h xs" "group_scan h xs = h \<or> group_scan h xs \<in> fst ` set xs"
      "\<forall>(k, b) \<in> set xs. k \<le> group_scan h xs \<longrightarrow> \<not> is_service_declaration b"
      "\<forall>(k, b) \<in> set xs. group_scan h xs < k \<longrightarrow>
         (\<exists>(s, d) \<in> set xs. group_scan h xs < s \<and> s \<le> k \<and> is_service_declaration d)"
    using group_scan_spec [of xs h] by blast+
  have "bt_get (attributes db) (group_scan h xs) \<noteq> None"
    using spec(2) assms(2) mem by auto
  moreover have "\<exists>s d. bt_get (attributes db) s = Some d \<and> group_scan h xs < s \<and> s \<le> k \<and> is_service_declaration d"
    if "bt_get (attributes db) k = Some b" "group_scan h xs < k" for k b
  proof -
    have "(k, b) \<in> set xs" using that spec(1) mem by auto
    then show ?thesis using spec(4) that(2) mem by fastforce
  qed
  moreover have "\<not> is_service_declaration b"
    if "bt_get (attributes db) k = Some b" "h < k" "k \<le> group_scan h xs" for k b
    using spec(3) that mem [of k b] by auto
  ultimately show ?thesis
    using h spec(1) unfolding group_end_handle_def xs_def [symmetric] by auto
qed

text \<open>C25: The end of a service group is the handle of an attribute at or after the service's own
  declaration; no other service is declared within the group, and every attribute beyond the end
  belongs to a service declared after it: the groups of a database partition its attributes.\<close>
theorem group_end_handle_correct:
  assumes "gatt_inv db" "bt_get (attributes db) h = Some a"
  shows "\<exists>e. group_end_handle db h = Some e \<and> h \<le> e \<and> bt_get (attributes db) e \<noteq> None
    \<and> (\<forall>k b. bt_get (attributes db) k = Some b \<and> h < k \<and> k \<le> e \<longrightarrow> \<not> is_service_declaration b)
    \<and> (\<forall>k b. bt_get (attributes db) k = Some b \<and> e < k \<longrightarrow>
         (\<exists>s d. bt_get (attributes db) s = Some d \<and> e < s \<and> s \<le> k \<and> is_service_declaration d))"
  using assms by (rule group_end_handle_spec)

theorem group_end_handle_correct_witness:
  "\<exists>e. group_end_handle sample_db 1 = Some e \<and> 1 \<le> e \<and> bt_get (attributes sample_db) e \<noteq> None
    \<and> (\<forall>k b. bt_get (attributes sample_db) k = Some b \<and> 1 < k \<and> k \<le> e \<longrightarrow> \<not> is_service_declaration b)
    \<and> (\<forall>k b. bt_get (attributes sample_db) k = Some b \<and> e < k \<longrightarrow>
         (\<exists>s d. bt_get (attributes sample_db) s = Some d \<and> e < s \<and> s \<le> k \<and> is_service_declaration d))"
  by (rule group_end_handle_correct [OF gatt_inv_sample_db]) (simp add: sample_db_def bt_get_def)

lemma range_queries:
  assumes "gatt_inv db"
  shows "sorted_wrt (<) (map fst (read_by_type db s e u))
    \<and> sorted_wrt (<) (map fst (find_information db s e))
    \<and> ((k, v) \<in> set (read_by_type db s e u) \<longleftrightarrow> s \<le> k \<and> k \<le> e \<and>
        (\<exists>a. bt_get (attributes db) k = Some a \<and> attr_uuid a = u \<and> perm_read (attr_permissions a)
           \<and> attr_value a = v))
    \<and> ((k, u') \<in> set (find_information db s e) \<longleftrightarrow> s \<le> k \<and> k \<le> e \<and>
        (\<exists>a. bt_get (attributes db) k = Some a \<and> attr_uuid a = u'))"
proof -
  have inv: "bt_inv (attributes db)" using assms by (simp add: gatt_inv_def)
  have "sorted_wrt (<) (map fst (read_by_type db s e u))"
    unfolding read_by_type_def bt_range_def
    using bt.range_sorted [OF inv] by (auto simp: case_prod_beta comp_def)
  moreover have "sorted_wrt (<) (map fst (find_information db s e))"
    unfolding find_information_def bt_range_def
    using bt.range_sorted [OF inv] by (auto simp: case_prod_beta comp_def)
  ultimately show ?thesis
    using bt.entries_get [OF inv, of k]
    by (auto simp: read_by_type_def find_information_def bt_range_def image_iff Bex_def
        dest: order_trans)
qed

text \<open>C26: The range queries return exactly the attributes of the range, in ascending handle order:
  Read By Type those of the type that may be read, with their values, Find Information all of them
  with their types; an inverted range gives nothing.\<close>
theorem range_queries_correct:
  assumes "gatt_inv db"
  shows "sorted_wrt (<) (map fst (read_by_type db s e u))
    \<and> sorted_wrt (<) (map fst (find_information db s e))
    \<and> ((k, v) \<in> set (read_by_type db s e u) \<longleftrightarrow> s \<le> k \<and> k \<le> e \<and>
        (\<exists>a. bt_get (attributes db) k = Some a \<and> attr_uuid a = u \<and> perm_read (attr_permissions a)
           \<and> attr_value a = v))
    \<and> ((k, u') \<in> set (find_information db s e) \<longleftrightarrow> s \<le> k \<and> k \<le> e \<and>
        (\<exists>a. bt_get (attributes db) k = Some a \<and> attr_uuid a = u'))"
  using assms by (rule range_queries)

theorem range_queries_correct_witness:
  "sorted_wrt (<) (map fst (read_by_type sample_db 1 5 (Uuid16 0x2800)))
    \<and> sorted_wrt (<) (map fst (find_information sample_db 1 5))
    \<and> ((4, [0x0F, 0x18]) \<in> set (read_by_type sample_db 1 5 (Uuid16 0x2800)) \<longleftrightarrow> 1 \<le> (4 :: u16) \<and> (4 :: u16) \<le> 5 \<and>
        (\<exists>a. bt_get (attributes sample_db) 4 = Some a \<and> attr_uuid a = Uuid16 0x2800
           \<and> perm_read (attr_permissions a) \<and> attr_value a = [0x0F, 0x18]))
    \<and> ((4, Uuid16 0x2800) \<in> set (find_information sample_db 1 5) \<longleftrightarrow> 1 \<le> (4 :: u16) \<and> (4 :: u16) \<le> 5 \<and>
        (\<exists>a. bt_get (attributes sample_db) 4 = Some a \<and> attr_uuid a = Uuid16 0x2800))"
  by (rule range_queries_correct [OF gatt_inv_sample_db])

end
