(* ===== verification/Ccm.thy ===== *)
theory Ccm
  imports Aes
begin

text \<open>
  AES-CCM authenticated encryption (\<open>src/src/crypto/ccm.rs\<close>). A failed assertion (parameters out
  of range, additional data too long) is the outer \<open>None\<close>; an authentication failure is the
  \<open>Some None\<close> of decryption.
\<close>

type_synonym u64 = "64 word"

definition to_be_bytes64 :: "u64 \<Rightarrow> bytes" where
  "to_be_bytes64 w = map (\<lambda>i. ucast (drop_bit (8 * (7 - i)) w)) [0..<8]"

definition xor_into :: "bytes \<Rightarrow> bytes \<Rightarrow> bytes" where
  "xor_into x chunk = xor_bytes (take (length chunk) x) chunk @ drop (length chunk) x"

function cbc_absorb :: "bytes \<Rightarrow> bytes \<Rightarrow> bytes \<Rightarrow> bytes" where
  "cbc_absorb key x rest =
     (if rest = [] then x
      else cbc_absorb key (aes_128_encrypt_block key (xor_into x (take 16 rest))) (drop 16 rest))"
  by pat_completeness auto
termination
  by (relation "measure (\<lambda>(_, _, rest). length rest)") auto

declare cbc_absorb.simps [simp del]

definition cbc_mac :: "bytes \<Rightarrow> bytes \<Rightarrow> bytes \<Rightarrow> bytes \<Rightarrow> nat \<Rightarrow> bytes option" where
  "cbc_mac key nonce aad message mic_len =
     (let l = 15 - length nonce;
          flags = push_bit 6 (if aad \<noteq> [] then 1 else 0)
            OR push_bit 3 ((of_nat mic_len - 2) div 2) OR (of_nat l - 1);
          b0 = flags # nonce @ drop (8 - l) (to_be_bytes64 (of_nat (length message)));
          x = aes_128_encrypt_block key b0
      in if aad \<noteq> [] then
           if 0xFF00 \<le> length aad then None
           else
             let len = of_nat (length aad) :: u16;
                 head = take 14 aad;
                 block = [ucast (drop_bit 8 len), ucast len] @ head @ replicate (14 - length head) 0;
                 x = aes_128_encrypt_block key (xor_bytes block x);
                 x = cbc_absorb key x (drop (length head) aad)
             in Some (cbc_absorb key x message)
         else Some (cbc_absorb key x message))"

definition keystream_block :: "bytes \<Rightarrow> bytes \<Rightarrow> u64 \<Rightarrow> bytes" where
  "keystream_block key nonce counter =
     (let l = 15 - length nonce
      in aes_128_encrypt_block key ((of_nat l - 1) # nonce @ drop (8 - l) (to_be_bytes64 counter)))"

definition check_parameters :: "bytes \<Rightarrow> nat \<Rightarrow> bool" where
  "check_parameters nonce mic_len =
     (7 \<le> length nonce \<and> length nonce \<le> 13 \<and> 4 \<le> mic_len \<and> mic_len \<le> 16 \<and> mic_len mod 2 = 0)"

text \<open>The loop over \<^verbatim>\<open>chunks_mut(16).enumerate()\<close> from chunk \<open>i\<close> on.\<close>

function ctr_xor :: "bytes \<Rightarrow> bytes \<Rightarrow> nat \<Rightarrow> bytes \<Rightarrow> bytes" where
  "ctr_xor key nonce i data =
     (if data = [] then []
      else xor_bytes (take 16 data) (keystream_block key nonce (of_nat i + 1))
        @ ctr_xor key nonce (Suc i) (drop 16 data))"
  by pat_completeness auto
termination
  by (relation "measure (\<lambda>(_, _, _, data). length data)") auto

declare ctr_xor.simps [simp del]

definition ccm_encrypt :: "bytes \<Rightarrow> bytes \<Rightarrow> bytes \<Rightarrow> bytes \<Rightarrow> nat \<Rightarrow> bytes option" where
  "ccm_encrypt key nonce aad plaintext mic_len =
     (if \<not> check_parameters nonce mic_len then None
      else case cbc_mac key nonce aad plaintext mic_len of
        None \<Rightarrow> None
      | Some tag \<Rightarrow>
          let s0 = keystream_block key nonce 0
          in Some (ctr_xor key nonce 0 plaintext @ map (\<lambda>i. tag ! i XOR s0 ! i) [0..<mic_len]))"

definition ccm_decrypt :: "bytes \<Rightarrow> bytes \<Rightarrow> bytes \<Rightarrow> bytes \<Rightarrow> nat \<Rightarrow> bytes option option" where
  "ccm_decrypt key nonce aad ciphertext_and_mic mic_len =
     (if \<not> check_parameters nonce mic_len then None
      else if length ciphertext_and_mic < mic_len then Some None
      else
        let ciphertext = take (length ciphertext_and_mic - mic_len) ciphertext_and_mic;
            mic = drop (length ciphertext_and_mic - mic_len) ciphertext_and_mic;
            plaintext = ctr_xor key nonce 0 ciphertext
        in case cbc_mac key nonce aad plaintext mic_len of
             None \<Rightarrow> None
           | Some tag \<Rightarrow>
               let s0 = keystream_block key nonce 0;
                   diff = foldl (\<lambda>d (i, m). d OR (m XOR tag ! i XOR s0 ! i)) 0 (enumerate 0 mic)
               in if diff \<noteq> 0 then Some None else Some (Some plaintext))"

section \<open>Round trip and authentication\<close>

lemma length_to_be_bytes64 [simp]: "length (to_be_bytes64 w) = 8"
  by (simp add: to_be_bytes64_def)

lemma length_keystream_block [simp]: "length key = 16 \<Longrightarrow> length (keystream_block key nonce c) = 16"
  by (simp add: keystream_block_def Let_def)

lemma xor_bytes_twice: "length xs \<le> length k \<Longrightarrow> xor_bytes (xor_bytes xs k) k = xs"
proof (induction xs arbitrary: k)
  case (Cons x xs)
  then show ?case by (cases k) (auto simp: xor_bytes_def xor.assoc)
qed (simp add: xor_bytes_def)

lemma length_ctr_xor [simp]: "length key = 16 \<Longrightarrow> length (ctr_xor key nonce i data) = length data"
proof (induction key nonce i data rule: ctr_xor.induct)
  case (1 key nonce i data)
  then show ?case by (subst ctr_xor.simps) (auto simp: min_def)
qed

lemma ctr_xor_twice:
  "length key = 16 \<Longrightarrow> ctr_xor key nonce i (ctr_xor key nonce i data) = data"
proof (induction key nonce i data rule: ctr_xor.induct)
  case (1 key nonce i data)
  show ?case
  proof (cases "data = []")
    case True
    then show ?thesis by (simp add: ctr_xor.simps)
  next
    case False
    define k where "k = keystream_block key nonce (of_nat i + 1)"
    define c where "c = xor_bytes (take 16 data) k"
    have step: "ctr_xor key nonce i data = c @ ctr_xor key nonce (Suc i) (drop 16 data)"
      using False by (subst ctr_xor.simps) (simp add: c_def k_def)
    have len: "length c = min 16 (length data)" and k: "length k = 16"
      using 1 by (auto simp: c_def k_def)
    have "take 16 (c @ ctr_xor key nonce (Suc i) (drop 16 data)) = c
        \<and> drop 16 (c @ ctr_xor key nonce (Suc i) (drop 16 data)) = ctr_xor key nonce (Suc i) (drop 16 data)"
    proof (cases "16 \<le> length data")
      case True
      then show ?thesis using len by simp
    next
      case short: False
      then have "ctr_xor key nonce (Suc i) (drop 16 data) = []" by (simp add: ctr_xor.simps)
      then show ?thesis using len short by simp
    qed
    moreover have "c \<noteq> []" using len False by (cases data) auto
    ultimately have "ctr_xor key nonce i (c @ ctr_xor key nonce (Suc i) (drop 16 data))
        = xor_bytes c k @ drop 16 data"
      using False 1 by (subst ctr_xor.simps) (auto simp: k_def)
    also have "xor_bytes c k = take 16 data"
      unfolding c_def using k by (intro xor_bytes_twice) simp
    finally show ?thesis unfolding step by simp
  qed
qed

lemma foldl_or_zero:
  fixes d0 :: u8
  shows "foldl (\<lambda>d (i, m). d OR f i m) d0 xs = 0 \<longleftrightarrow> d0 = 0 \<and> (\<forall>(i, m) \<in> set xs. f i m = 0)"
  by (induction xs arbitrary: d0) (auto simp: or_eq_0_iff)

lemma xor_eq_0: "(m :: u8) XOR x = 0 \<longleftrightarrow> m = x"
  by (auto simp: bit_eq_iff bit_xor_iff)

lemma mic_accepted:
  fixes tag s0 mic :: bytes
  shows "foldl (\<lambda>d (i, m). d OR (m XOR tag ! i XOR s0 ! i)) 0 (enumerate 0 mic) = 0
    \<longleftrightarrow> mic = map (\<lambda>i. tag ! i XOR s0 ! i) [0..<length mic]"
proof -
  have "foldl (\<lambda>d (i, m). d OR (m XOR tag ! i XOR s0 ! i)) 0 (enumerate 0 mic) = 0
      \<longleftrightarrow> (\<forall>(i, m) \<in> set (enumerate 0 mic). m XOR tag ! i XOR s0 ! i = 0)"
    by (rule foldl_or_zero [where ?d0.0 = 0, unfolded simp_thms])
  also have "\<dots> \<longleftrightarrow> (\<forall>i < length mic. mic ! i = tag ! i XOR s0 ! i)"
    by (simp add: all_set_conv_all_nth nth_enumerate_eq xor_eq_0)
  also have "\<dots> \<longleftrightarrow> mic = map (\<lambda>i. tag ! i XOR s0 ! i) [0..<length mic]"
    by (subst list_eq_iff_nth_eq) simp
  finally show ?thesis .
qed

lemma ccm_accepts_iff:
  assumes "length key = 16"
  shows "ccm_decrypt key nonce aad c m = Some (Some p) \<longleftrightarrow> ccm_encrypt key nonce aad p m = Some c"
proof
  assume dec: "ccm_decrypt key nonce aad c m = Some (Some p)"
  let ?n = "length c - m"
  have params: "check_parameters nonce m" "m \<le> length c"
    using dec by (auto simp: ccm_decrypt_def split: if_splits)
  with dec obtain tag where tag: "cbc_mac key nonce aad p m = Some tag"
      and p: "p = ctr_xor key nonce 0 (take ?n c)"
      and mic: "drop ?n c = map (\<lambda>i. tag ! i XOR keystream_block key nonce 0 ! i) [0..<m]"
    by (auto simp: ccm_decrypt_def Let_def mic_accepted split: option.splits if_splits)
  show "ccm_encrypt key nonce aad p m = Some c"
    using params tag mic [symmetric] unfolding p
    by (simp add: ccm_encrypt_def ctr_xor_twice [OF assms])
next
  assume enc: "ccm_encrypt key nonce aad p m = Some c"
  then obtain tag where params: "check_parameters nonce m" and tag: "cbc_mac key nonce aad p m = Some tag"
      and c: "c = ctr_xor key nonce 0 p @ map (\<lambda>i. tag ! i XOR keystream_block key nonce 0 ! i) [0..<m]"
    by (auto simp: ccm_encrypt_def Let_def split: option.splits if_splits)
  show "ccm_decrypt key nonce aad c m = Some (Some p)"
    using params tag
    by (simp add: ccm_decrypt_def c Let_def mic_accepted ctr_xor_twice [OF assms] assms)
qed

text \<open>Decryption accepts exactly what encryption produces: a packet decrypts to a plaintext if and
  only if it is that plaintext's encryption under the same key, nonce, additional data and tag
  length. So decryption inverts encryption, and a packet that no plaintext encrypts to, whether its
  ciphertext, its tag or its additional data was changed, is rejected.\<close>
theorem ccm_decrypt_iff_encrypt:
  assumes "length key = 16"
  shows "ccm_decrypt key nonce aad c m = Some (Some p) \<longleftrightarrow> ccm_encrypt key nonce aad p m = Some c"
  using assms by (rule ccm_accepts_iff)

theorem ccm_decrypt_iff_encrypt_witness:
  "ccm_decrypt (replicate 16 1) (replicate 13 2) [3] [4, 5, 6, 7, 8] 4 = Some (Some [9])
    \<longleftrightarrow> ccm_encrypt (replicate 16 1) (replicate 13 2) [3] [9] 4 = Some [4, 5, 6, 7, 8]"
  by (rule ccm_decrypt_iff_encrypt) simp

text \<open>With the 13-octet nonce the counter field has two octets, and nothing bounds the message: the
  keystream of chunk 65535 is the block that masks the tag, and the one after it repeats the first
  chunk's.\<close>
theorem ccm_keystream_repeats:
  assumes "length nonce = 13"
  shows "keystream_block key nonce 65536 = keystream_block key nonce 0
    \<and> keystream_block key nonce 65537 = keystream_block key nonce 1"
proof -
  have wrap: "(256 :: u8) = 0" "(65536 :: u8) = 0" "(65537 :: u8) = 1" by simp_all
  have "[0..<8] = [0, 1, 2, 3, 4, 5, 6, 7 :: nat]" by code_simp
  then show ?thesis
    using assms by (simp add: keystream_block_def Let_def to_be_bytes64_def wrap)
qed

theorem ccm_keystream_repeats_witness:
  "keystream_block (replicate 16 1) (replicate 13 0) 65536 = keystream_block (replicate 16 1) (replicate 13 0) 0
    \<and> keystream_block (replicate 16 1) (replicate 13 0) 65537 = keystream_block (replicate 16 1) (replicate 13 0) 1"
  by (rule ccm_keystream_repeats) simp

end
