(* ===== verification/Advertising.thy ===== *)
theory Advertising
  imports Ccm
begin

text \<open>
  GAP advertising data (\<open>src/src/gap/advertising.rs\<close>) and Encrypted Advertising Data
  (\<open>src/src/gap/ead.rs\<close>): the builder and its encoding, the reduction of a payload to the 31 octets
  of legacy advertising, the scanner of AD structures, and the CCM wrapping. A Rust \<^verbatim>\<open>String\<close> is the
  list of its characters, each as its UTF-8 bytes, so that \<^verbatim>\<open>pop\<close> drops a whole character and
  \<^verbatim>\<open>as_bytes\<close> is the concatenation.
\<close>

section \<open>Builder\<close>

abbreviation (input) ad_FLAGS :: u8 where "ad_FLAGS \<equiv> 0x01"
abbreviation (input) ad_INCOMPLETE_16BIT_UUIDS :: u8 where "ad_INCOMPLETE_16BIT_UUIDS \<equiv> 0x02"
abbreviation (input) ad_COMPLETE_16BIT_UUIDS :: u8 where "ad_COMPLETE_16BIT_UUIDS \<equiv> 0x03"
abbreviation (input) ad_INCOMPLETE_128BIT_UUIDS :: u8 where "ad_INCOMPLETE_128BIT_UUIDS \<equiv> 0x06"
abbreviation (input) ad_COMPLETE_128BIT_UUIDS :: u8 where "ad_COMPLETE_128BIT_UUIDS \<equiv> 0x07"
abbreviation (input) ad_SHORTENED_LOCAL_NAME :: u8 where "ad_SHORTENED_LOCAL_NAME \<equiv> 0x08"
abbreviation (input) ad_COMPLETE_LOCAL_NAME :: u8 where "ad_COMPLETE_LOCAL_NAME \<equiv> 0x09"
abbreviation (input) ad_TX_POWER_LEVEL :: u8 where "ad_TX_POWER_LEVEL \<equiv> 0x0A"
abbreviation (input) ad_SERVICE_DATA_16BIT :: u8 where "ad_SERVICE_DATA_16BIT \<equiv> 0x16"
abbreviation (input) ad_APPEARANCE :: u8 where "ad_APPEARANCE \<equiv> 0x19"
abbreviation (input) ad_RESOLVABLE_SET_IDENTIFIER :: u8 where "ad_RESOLVABLE_SET_IDENTIFIER \<equiv> 0x2E"
abbreviation (input) ad_BROADCAST_NAME :: u8 where "ad_BROADCAST_NAME \<equiv> 0x30"
abbreviation (input) ad_MANUFACTURER_SPECIFIC_DATA :: u8 where "ad_MANUFACTURER_SPECIFIC_DATA \<equiv> 0xFF"

abbreviation (input) MAX_ADV_LEN :: nat where "MAX_ADV_LEN \<equiv> 31"

abbreviation (input) flags_LE_LIMITED_DISCOVERABLE :: u8 where "flags_LE_LIMITED_DISCOVERABLE \<equiv> 0x01"
abbreviation (input) flags_LE_GENERAL_DISCOVERABLE :: u8 where "flags_LE_GENERAL_DISCOVERABLE \<equiv> 0x02"
abbreviation (input) flags_BR_EDR_NOT_SUPPORTED :: u8 where "flags_BR_EDR_NOT_SUPPORTED \<equiv> 0x04"
abbreviation (input) flags_SIMULTANEOUS_LE_BR_CONTROLLER :: u8 where
  "flags_SIMULTANEOUS_LE_BR_CONTROLLER \<equiv> 0x08"
abbreviation (input) flags_SIMULTANEOUS_LE_BR_HOST :: u8 where "flags_SIMULTANEOUS_LE_BR_HOST \<equiv> 0x10"

type_synonym utf8_string = "bytes list"

record AdvertisingData =
  ad_flags :: "u8 option"
  complete_name :: "utf8_string option"
  service_uuids_16 :: "u16 list"
  service_uuids_128 :: "bytes list"
  ad_service_data_16 :: "(u16 \<times> bytes) list"
  manufacturer_data :: "bytes option"
  ad_resolvable_set_identifier :: "bytes option"
  name_is_shortened :: bool

definition AdvertisingData_new :: AdvertisingData where
  "AdvertisingData_new =
     \<lparr>ad_flags = None, complete_name = None, service_uuids_16 = [], service_uuids_128 = [],
      ad_service_data_16 = [], manufacturer_data = None, ad_resolvable_set_identifier = None,
      name_is_shortened = False\<rparr>"

definition with_flags :: "u8 \<Rightarrow> AdvertisingData \<Rightarrow> AdvertisingData" where
  "with_flags flags ad = ad\<lparr>ad_flags := Some flags\<rparr>"

definition with_name :: "utf8_string \<Rightarrow> AdvertisingData \<Rightarrow> AdvertisingData" where
  "with_name name ad = ad\<lparr>complete_name := Some name, name_is_shortened := False\<rparr>"

definition with_name_on_air :: "utf8_string \<Rightarrow> bool \<Rightarrow> AdvertisingData \<Rightarrow> AdvertisingData" where
  "with_name_on_air name complete ad = ad\<lparr>complete_name := Some name, name_is_shortened := \<not> complete\<rparr>"

definition with_service_uuid_16 :: "u16 \<Rightarrow> AdvertisingData \<Rightarrow> AdvertisingData" where
  "with_service_uuid_16 uuid ad = ad\<lparr>service_uuids_16 := service_uuids_16 ad @ [uuid]\<rparr>"

definition with_service_uuid_128 :: "bytes \<Rightarrow> AdvertisingData \<Rightarrow> AdvertisingData" where
  "with_service_uuid_128 uuid ad = ad\<lparr>service_uuids_128 := service_uuids_128 ad @ [uuid]\<rparr>"

definition with_service_data_16 :: "u16 \<Rightarrow> bytes \<Rightarrow> AdvertisingData \<Rightarrow> AdvertisingData" where
  "with_service_data_16 uuid data ad = ad\<lparr>ad_service_data_16 := ad_service_data_16 ad @ [(uuid, data)]\<rparr>"

definition with_resolvable_set_identifier :: "bytes \<Rightarrow> AdvertisingData \<Rightarrow> AdvertisingData" where
  "with_resolvable_set_identifier rsi ad = ad\<lparr>ad_resolvable_set_identifier := Some rsi\<rparr>"

definition with_manufacturer_data :: "u16 \<Rightarrow> bytes \<Rightarrow> AdvertisingData \<Rightarrow> AdvertisingData" where
  "with_manufacturer_data company_id data ad =
     ad\<lparr>manufacturer_data := Some (to_le_bytes company_id @ data)\<rparr>"

text \<open>One AD structure: the length octet keeps the low eight bits of the length.\<close>

definition ad_structure :: "u8 \<Rightarrow> bytes \<Rightarrow> bytes" where
  "ad_structure t v = of_nat (1 + length v) # t # v"

definition AdvertisingData_to_bytes :: "AdvertisingData \<Rightarrow> bytes" where
  "AdvertisingData_to_bytes ad =
     (case ad_flags ad of None \<Rightarrow> [] | Some f \<Rightarrow> ad_structure ad_FLAGS [f])
     @ (case complete_name ad of
          None \<Rightarrow> []
        | Some name \<Rightarrow>
            if concat name = [] then []
            else ad_structure (if name_is_shortened ad then ad_SHORTENED_LOCAL_NAME else ad_COMPLETE_LOCAL_NAME)
              (concat name))
     @ (if service_uuids_16 ad = [] then []
        else ad_structure ad_COMPLETE_16BIT_UUIDS (concat (map to_le_bytes (service_uuids_16 ad))))
     @ (if service_uuids_128 ad = [] then []
        else ad_structure ad_COMPLETE_128BIT_UUIDS (concat (service_uuids_128 ad)))
     @ concat (map (\<lambda>(uuid, data). ad_structure ad_SERVICE_DATA_16BIT (to_le_bytes uuid @ data))
         (ad_service_data_16 ad))
     @ (case ad_resolvable_set_identifier ad of
          None \<Rightarrow> [] | Some rsi \<Rightarrow> ad_structure ad_RESOLVABLE_SET_IDENTIFIER rsi)
     @ (case manufacturer_data ad of
          None \<Rightarrow> [] | Some mfg \<Rightarrow> ad_structure ad_MANUFACTURER_SPECIFIC_DATA mfg)"

section \<open>Fitting the legacy limit\<close>

text \<open>
  The trimming loop: \<open>bytes\<close> is the payload built last, and the name loses its last character until
  the payload fits or the name is empty.
\<close>

function fit_loop :: "(utf8_string \<Rightarrow> bool \<Rightarrow> bool \<Rightarrow> bytes) \<Rightarrow> utf8_string \<Rightarrow> bytes \<Rightarrow> bytes" where
  "fit_loop build trimmed bs =
     (if MAX_ADV_LEN < length bs \<and> trimmed \<noteq> []
      then fit_loop build (butlast trimmed) (build (butlast trimmed) False False)
      else bs)"
  by pat_completeness auto
termination
  by (relation "measure (\<lambda>(_, trimmed, _). length trimmed)") auto

declare fit_loop.simps [simp del]

definition fit_within_legacy_limit ::
  "utf8_string \<Rightarrow> (utf8_string \<Rightarrow> bool \<Rightarrow> bool \<Rightarrow> bytes) \<Rightarrow> bytes result" where
  "fit_within_legacy_limit name build =
     (let bs = build name True True;
          bs = (if MAX_ADV_LEN < length bs then build name True False else bs);
          bs = fit_loop build name bs
      in if MAX_ADV_LEN < length bs then
           Inl (InvalidParameter ''advertising data exceeds the legacy limit with nothing left to trim'')
         else Inr bs)"

definition build_adv_payload :: "utf8_string \<Rightarrow> u16 list \<Rightarrow> bytes result" where
  "build_adv_payload name service_uuids =
     fit_within_legacy_limit name (\<lambda>name complete keep_uuids.
       let ad = with_name_on_air name complete
             (with_flags (flags_LE_GENERAL_DISCOVERABLE OR flags_BR_EDR_NOT_SUPPORTED) AdvertisingData_new);
           ad = (if keep_uuids then fold with_service_uuid_16 service_uuids ad else ad)
       in AdvertisingData_to_bytes ad)"

definition build_adv_payload_with_extras ::
  "utf8_string \<Rightarrow> u16 list \<Rightarrow> AdvertisingData option \<Rightarrow> bytes result" where
  "build_adv_payload_with_extras name service_uuids extras =
     (case extras of
        None \<Rightarrow> build_adv_payload name service_uuids
      | Some extras \<Rightarrow>
          fit_within_legacy_limit name (\<lambda>name complete keep_uuids.
            let ad = with_flags (flags_LE_GENERAL_DISCOVERABLE OR flags_BR_EDR_NOT_SUPPORTED) AdvertisingData_new;
                ad = with_name_on_air name complete ad;
                ad = (if keep_uuids then fold with_service_uuid_16 service_uuids ad else ad);
                ad = fold (\<lambda>uuid ad. if uuid \<in> set (service_uuids_16 ad) then ad
                       else with_service_uuid_16 uuid ad) (service_uuids_16 extras) ad;
                ad = ad\<lparr>service_uuids_128 := service_uuids_128 extras,
                       ad_service_data_16 := ad_service_data_16 extras,
                       manufacturer_data := manufacturer_data extras,
                       ad_resolvable_set_identifier := ad_resolvable_set_identifier extras\<rparr>
            in AdvertisingData_to_bytes ad))"

section \<open>Scanning\<close>

text \<open>
  \<^verbatim>\<open>ad_structures\<close> from the current offset on: the iterator ends at the first structure that is
  empty or longer than the rest.
\<close>

function ad_structures :: "bytes \<Rightarrow> (u8 \<times> bytes) list" where
  "ad_structures data =
     (case data of
        len # t # rest \<Rightarrow>
          if len = 0 \<or> length rest < unat len - 1 then []
          else (t, take (unat len - 1) rest) # ad_structures (drop (unat len - 1) rest)
      | _ \<Rightarrow> [])"
  by pat_completeness auto
termination
  by (relation "measure length") auto

declare ad_structures.simps [simp del]

definition service_data_16 :: "bytes \<Rightarrow> u16 \<Rightarrow> bytes option" where
  "service_data_16 data uuid =
     map_option (\<lambda>(_, v). drop 2 v)
       (List.find (\<lambda>(t, v). t = ad_SERVICE_DATA_16BIT \<and> 2 \<le> length v \<and> from_le_bytes (v ! 0) (v ! 1) = uuid)
         (ad_structures data))"

definition resolvable_set_identifier :: "bytes \<Rightarrow> bytes option" where
  "resolvable_set_identifier data =
     map_option snd
       (List.find (\<lambda>(t, v). t = ad_RESOLVABLE_SET_IDENTIFIER \<and> length v = 6) (ad_structures data))"

section \<open>Encrypted Advertising Data\<close>

abbreviation (input) ENCRYPTED_ADVERTISING_DATA_AD_TYPE :: u8 where
  "ENCRYPTED_ADVERTISING_DATA_AD_TYPE \<equiv> 0x31"
abbreviation (input) KEY_MATERIAL_CHARACTERISTIC_UUID :: u16 where
  "KEY_MATERIAL_CHARACTERISTIC_UUID \<equiv> 0x2B88"
abbreviation (input) RANDOMIZER_SIZE :: nat where "RANDOMIZER_SIZE \<equiv> 5"
abbreviation (input) MIC_SIZE :: nat where "MIC_SIZE \<equiv> 4"
abbreviation (input) EAD_AAD :: bytes where "EAD_AAD \<equiv> [0xEA]"

record KeyMaterial =
  session_key :: bytes
  km_iv :: bytes

abbreviation (input) KeyMaterial_LENGTH :: nat where "KeyMaterial_LENGTH \<equiv> 24"

definition KeyMaterial_to_bytes :: "KeyMaterial \<Rightarrow> bytes" where
  "KeyMaterial_to_bytes km = session_key km @ km_iv km"

definition KeyMaterial_from_bytes :: "bytes \<Rightarrow> KeyMaterial option" where
  "KeyMaterial_from_bytes bs =
     (if length bs \<noteq> KeyMaterial_LENGTH then None
      else Some \<lparr>session_key = take 16 bs, km_iv = drop 16 bs\<rparr>)"

definition ead_nonce :: "bytes \<Rightarrow> bytes \<Rightarrow> bytes" where
  "ead_nonce randomizer iv = randomizer @ iv"

definition encrypt_ad :: "KeyMaterial \<Rightarrow> bytes \<Rightarrow> bytes \<Rightarrow> bytes option" where
  "encrypt_ad km randomizer plaintext_ad =
     (case ccm_encrypt (session_key km) (ead_nonce randomizer (km_iv km)) EAD_AAD plaintext_ad MIC_SIZE of
        None \<Rightarrow> None
      | Some c \<Rightarrow>
          let value_len = 1 + RANDOMIZER_SIZE + length c
          in Some (of_nat value_len # ENCRYPTED_ADVERTISING_DATA_AD_TYPE # randomizer @ c))"

definition decrypt_ad :: "KeyMaterial \<Rightarrow> bytes \<Rightarrow> bytes option option" where
  "decrypt_ad km ad_payload =
     (if length ad_payload < RANDOMIZER_SIZE + MIC_SIZE then Some None
      else ccm_decrypt (session_key km) (ead_nonce (take RANDOMIZER_SIZE ad_payload) (km_iv km)) EAD_AAD
        (drop RANDOMIZER_SIZE ad_payload) MIC_SIZE)"

section \<open>What a scanner reads\<close>

text \<open>The AD structures a builder stands for, in the order they are sent.\<close>

definition ad_list :: "AdvertisingData \<Rightarrow> (u8 \<times> bytes) list" where
  "ad_list ad =
     (case ad_flags ad of None \<Rightarrow> [] | Some f \<Rightarrow> [(ad_FLAGS, [f])])
     @ (case complete_name ad of
          None \<Rightarrow> []
        | Some name \<Rightarrow>
            if concat name = [] then []
            else [(if name_is_shortened ad then ad_SHORTENED_LOCAL_NAME else ad_COMPLETE_LOCAL_NAME,
              concat name)])
     @ (if service_uuids_16 ad = [] then []
        else [(ad_COMPLETE_16BIT_UUIDS, concat (map to_le_bytes (service_uuids_16 ad)))])
     @ (if service_uuids_128 ad = [] then []
        else [(ad_COMPLETE_128BIT_UUIDS, concat (service_uuids_128 ad))])
     @ map (\<lambda>(uuid, data). (ad_SERVICE_DATA_16BIT, to_le_bytes uuid @ data)) (ad_service_data_16 ad)
     @ (case ad_resolvable_set_identifier ad of
          None \<Rightarrow> [] | Some rsi \<Rightarrow> [(ad_RESOLVABLE_SET_IDENTIFIER, rsi)])
     @ (case manufacturer_data ad of
          None \<Rightarrow> [] | Some mfg \<Rightarrow> [(ad_MANUFACTURER_SPECIFIC_DATA, mfg)])"

lemma to_bytes_ad_list: "AdvertisingData_to_bytes ad = concat (map (\<lambda>(t, v). ad_structure t v) (ad_list ad))"
  by (simp add: AdvertisingData_to_bytes_def ad_list_def comp_def case_prod_unfold split: option.split)

lemma ad_structures_Nil [simp]: "ad_structures [] = []"
  by (simp add: ad_structures.simps)

lemma ad_structures_Cons:
  assumes "length v \<le> 254"
  shows "ad_structures (ad_structure t v @ rest) = (t, v) # ad_structures rest"
proof -
  have len: "unat (1 + of_nat (length v) :: u8) = Suc (length v)"
    using assms unat_of_nat_u8 [of "Suc (length v)"] by simp
  then have "(1 + of_nat (length v) :: u8) \<noteq> 0" by auto
  with len show ?thesis
    by (subst ad_structures.simps) (simp add: ad_structure_def)
qed

lemma ad_structures_concat:
  "\<forall>(t, v) \<in> set l. length v \<le> 254 \<Longrightarrow> ad_structures (concat (map (\<lambda>(t, v). ad_structure t v) l)) = l"
  by (induction l) (auto simp: ad_structures_Cons)

lemma ad_structure_in_payload:
  "(t, v) \<in> set l \<Longrightarrow> length v + 2 \<le> length (concat (map (\<lambda>(t, v). ad_structure t v) l))"
  by (induction l) (auto simp: ad_structure_def)

lemma scan_to_bytes:
  assumes "length (AdvertisingData_to_bytes ad) \<le> 255"
  shows "ad_structures (AdvertisingData_to_bytes ad) = ad_list ad"
  using assms ad_structures_concat [of "ad_list ad"] ad_structure_in_payload [of _ _ "ad_list ad"]
  by (fastforce simp: to_bytes_ad_list)

text \<open>A payload that fits the legacy limit reads back structure by structure: a scanner sees
  exactly the flags, name, service lists, service data, set identifier and manufacturer data the
  builder holds, in the order they were encoded.\<close>
theorem advertising_round_trip:
  assumes "length (AdvertisingData_to_bytes ad) \<le> MAX_ADV_LEN"
  shows "ad_structures (AdvertisingData_to_bytes ad) = ad_list ad"
  using assms by (intro scan_to_bytes) simp

theorem advertising_round_trip_witness:
  "ad_structures (AdvertisingData_to_bytes (with_service_data_16 0xFEAA [0x10, 0]
      (with_name [[0x41], [0xC3, 0xA9]] (with_flags 6 AdvertisingData_new))))
    = ad_list (with_service_data_16 0xFEAA [0x10, 0]
      (with_name [[0x41], [0xC3, 0xA9]] (with_flags 6 AdvertisingData_new)))"
  by (rule advertising_round_trip)
    (simp add: AdvertisingData_to_bytes_def with_service_data_16_def with_name_def with_flags_def
      AdvertisingData_new_def ad_structure_def)

section \<open>The legacy limit\<close>

text \<open>The trimming loop keeps the longest prefix of the name whose payload fits.\<close>

lemma fit_loop_result:
  assumes "MAX_ADV_LEN < length (build (take n name) b c)" "n \<le> length name"
  shows "(\<exists>k < n. fit_loop build (take n name) (build (take n name) b c) = build (take k name) False False
        \<and> length (build (take k name) False False) \<le> MAX_ADV_LEN
        \<and> (\<forall>j. k < j \<and> j < n \<longrightarrow> MAX_ADV_LEN < length (build (take j name) False False)))
    \<or> MAX_ADV_LEN < length (fit_loop build (take n name) (build (take n name) b c))
      \<and> (\<forall>j < n. MAX_ADV_LEN < length (build (take j name) False False))"
  using assms
proof (induction n arbitrary: b c)
  case 0
  then show ?case by (simp add: fit_loop.simps)
next
  case (Suc n)
  have step: "fit_loop build (take (Suc n) name) (build (take (Suc n) name) b c)
      = fit_loop build (take n name) (build (take n name) False False)"
    using Suc.prems by (subst fit_loop.simps) (auto simp: butlast_take take_eq_Nil)
  show ?case
  proof (cases "MAX_ADV_LEN < length (build (take n name) False False)")
    case True
    from Suc.IH [OF this] Suc.prems True show ?thesis
      unfolding step by (fastforce simp: less_Suc_eq)
  next
    case False
    then have "fit_loop build (take n name) (build (take n name) False False) = build (take n name) False False"
      by (simp add: fit_loop.simps)
    with False show ?thesis unfolding step by (intro disjI1 exI [of _ n]) auto
  qed
qed

lemma fit_loop_fits: "length bs \<le> MAX_ADV_LEN \<Longrightarrow> fit_loop build name bs = bs"
  by (simp add: fit_loop.simps)

lemma fit_cases:
  "case fit_within_legacy_limit name build of
     Inr bs \<Rightarrow> length bs \<le> MAX_ADV_LEN \<and>
       (bs = build name True True
        \<or> MAX_ADV_LEN < length (build name True True) \<and> bs = build name True False
        \<or> MAX_ADV_LEN < length (build name True True) \<and> MAX_ADV_LEN < length (build name True False)
          \<and> (\<exists>k < length name. bs = build (take k name) False False
              \<and> (\<forall>j. k < j \<and> j < length name \<longrightarrow> MAX_ADV_LEN < length (build (take j name) False False))))
   | Inl e \<Rightarrow> MAX_ADV_LEN < length (build name True True) \<and> MAX_ADV_LEN < length (build name True False)
       \<and> (\<forall>j < length name. MAX_ADV_LEN < length (build (take j name) False False))"
proof (cases "MAX_ADV_LEN < length (build name True True) \<and> MAX_ADV_LEN < length (build name True False)")
  case True
  with fit_loop_result [of build "length name" name True False] show ?thesis
    by (auto simp: fit_within_legacy_limit_def Let_def)
qed (auto simp: fit_within_legacy_limit_def Let_def fit_loop_fits not_less)

text \<open>C37: The fitter tries the full payload, then the payload without its optional part, then the
  payload of ever shorter prefixes of the name; it returns the first that fits in 31 octets, so no
  longer prefix of the name would have fitted, and fails exactly when none of them fits.\<close>
theorem fit_within_legacy_limit_correct:
  "case fit_within_legacy_limit name build of
     Inr bs \<Rightarrow> length bs \<le> MAX_ADV_LEN \<and>
       (bs = build name True True
        \<or> MAX_ADV_LEN < length (build name True True) \<and> bs = build name True False
        \<or> MAX_ADV_LEN < length (build name True True) \<and> MAX_ADV_LEN < length (build name True False)
          \<and> (\<exists>k < length name. bs = build (take k name) False False
              \<and> (\<forall>j. k < j \<and> j < length name \<longrightarrow> MAX_ADV_LEN < length (build (take j name) False False))))
   | Inl e \<Rightarrow> MAX_ADV_LEN < length (build name True True) \<and> MAX_ADV_LEN < length (build name True False)
       \<and> (\<forall>j < length name. MAX_ADV_LEN < length (build (take j name) False False))"
  by (rule fit_cases)

text \<open>Witness: a forty-character name over a payload of its own bytes is cut to 31 characters.\<close>
theorem fit_within_legacy_limit_correct_witness:
  "\<exists>bs. fit_within_legacy_limit (replicate 40 [0x41]) (\<lambda>n c k. concat n) = Inr bs \<and> length bs \<le> MAX_ADV_LEN"
proof -
  have "MAX_ADV_LEN < length (concat (take 0 (replicate 40 [0x41 :: u8]))) \<Longrightarrow> False" by simp
  then show ?thesis
    using fit_within_legacy_limit_correct [where name = "replicate 40 [0x41]" and build = "\<lambda>n c k. concat n"]
    by (auto split: sum.splits dest!: spec [of _ 0])
qed

lemma fold_service_uuid_16: "fold with_service_uuid_16 us ad = ad\<lparr>service_uuids_16 := service_uuids_16 ad @ us\<rparr>"
  by (induction us arbitrary: ad) (simp_all add: with_service_uuid_16_def)

lemma with_uuids_list:
  "ad_list (let ad = with_name_on_air name complete (with_flags f AdvertisingData_new)
            in if keep then fold with_service_uuid_16 us ad else ad) =
     [(ad_FLAGS, [f])]
     @ (if concat name = [] then []
        else [(if complete then ad_COMPLETE_LOCAL_NAME else ad_SHORTENED_LOCAL_NAME, concat name)])
     @ (if keep \<and> us \<noteq> [] then [(ad_COMPLETE_16BIT_UUIDS, concat (map to_le_bytes us))] else [])"
  by (simp add: fold_service_uuid_16 ad_list_def with_name_on_air_def with_flags_def AdvertisingData_new_def
      Let_def)

lemma build_adv_payload_total:
  "\<exists>bs. build_adv_payload name us = Inr bs \<and> length bs \<le> MAX_ADV_LEN
    \<and> (ad_FLAGS, [6]) \<in> set (ad_structures bs)
    \<and> (\<forall>v. (ad_COMPLETE_LOCAL_NAME, v) \<in> set (ad_structures bs) \<longrightarrow> v = concat name)
    \<and> (\<forall>v. (ad_SHORTENED_LOCAL_NAME, v) \<in> set (ad_structures bs) \<longrightarrow>
         (\<exists>k < length name. v = concat (take k name)))"
proof -
  define build where "build = (\<lambda>name complete keep_uuids.
       AdvertisingData_to_bytes (let ad = with_name_on_air name complete (with_flags 6 AdvertisingData_new)
        in if keep_uuids then fold with_service_uuid_16 us ad else ad))"
  have payload: "build_adv_payload name us = fit_within_legacy_limit name build"
    by (simp add: build_adv_payload_def build_def Let_def)
  have "length (build [] c False) = 3" for c
    using with_uuids_list [of "[]" c 6 False us]
    by (simp add: build_def to_bytes_ad_list ad_structure_def)
  then have "\<exists>bs. fit_within_legacy_limit name build = Inr bs"
    using fit_cases [where name = name and build = build] by (cases name) (auto split: sum.splits)
  then obtain bs where bs: "fit_within_legacy_limit name build = Inr bs" by blast
  have scan: "length (build n c k) \<le> MAX_ADV_LEN \<Longrightarrow> ad_structures (build n c k) =
     [(ad_FLAGS, [6])]
     @ (if concat n = [] then []
        else [(if c then ad_COMPLETE_LOCAL_NAME else ad_SHORTENED_LOCAL_NAME, concat n)])
     @ (if k \<and> us \<noteq> [] then [(ad_COMPLETE_16BIT_UUIDS, concat (map to_le_bytes us))] else [])" for n c k
    using with_uuids_list [of n c 6 k us] unfolding build_def by (simp add: scan_to_bytes)
  have "length bs \<le> MAX_ADV_LEN" and "bs = build name True True \<or> bs = build name True False
      \<or> (\<exists>k < length name. bs = build (take k name) False False)"
    using fit_cases [where name = name and build = build] bs by auto
  with scan bs show ?thesis unfolding payload by (auto split: if_splits)
qed

text \<open>An advertisement can always be built from a name and a list of services: it fits the legacy
  limit, starts with the discovery flags, and tells the truth about the name: a name structure
  marked complete carries the whole name, one marked shortened a proper prefix of whole
  characters.\<close>
theorem build_adv_payload_truthful:
  "\<exists>bs. build_adv_payload name us = Inr bs \<and> length bs \<le> MAX_ADV_LEN
    \<and> (ad_FLAGS, [6]) \<in> set (ad_structures bs)
    \<and> (\<forall>v. (ad_COMPLETE_LOCAL_NAME, v) \<in> set (ad_structures bs) \<longrightarrow> v = concat name)
    \<and> (\<forall>v. (ad_SHORTENED_LOCAL_NAME, v) \<in> set (ad_structures bs) \<longrightarrow>
         (\<exists>k < length name. v = concat (take k name)))"
  by (rule build_adv_payload_total)

text \<open>Witness: a device called A with one service.\<close>
theorem build_adv_payload_truthful_witness:
  "\<exists>bs. build_adv_payload [[0x41]] [0x180D] = Inr bs \<and> (ad_FLAGS, [6]) \<in> set (ad_structures bs)"
  using build_adv_payload_truthful [of "[[0x41]]" "[0x180D]"] by blast

section \<open>Encrypted Advertising Data\<close>

text \<open>C38: An Encrypted Data structure opens to a payload exactly when it is the encryption of that
  payload under the same key material and the randomizer it carries: decryption inverts encryption,
  and any other octets are rejected; neither operation panics on key material of the right size.\<close>
theorem decrypt_ad_iff_encrypt:
  assumes "length (session_key km) = 16" "length (km_iv km) = 8"
  shows "decrypt_ad km payload = Some (Some p) \<longleftrightarrow>
    (\<exists>r. length r = RANDOMIZER_SIZE \<and> map_option (drop 2) (encrypt_ad km r p) = Some payload)"
proof
  assume dec: "decrypt_ad km payload = Some (Some p)"
  then have "ccm_encrypt (session_key km) (take 5 payload @ km_iv km) EAD_AAD p MIC_SIZE = Some (drop 5 payload)"
    by (simp add: decrypt_ad_def ead_nonce_def ccm_accepts_iff [OF assms(1)] split: if_splits)
  with dec show "\<exists>r. length r = RANDOMIZER_SIZE \<and> map_option (drop 2) (encrypt_ad km r p) = Some payload"
    by (intro exI [of _ "take 5 payload"])
      (auto simp: decrypt_ad_def encrypt_ad_def ead_nonce_def Let_def split: if_splits)
next
  assume "\<exists>r. length r = RANDOMIZER_SIZE \<and> map_option (drop 2) (encrypt_ad km r p) = Some payload"
  then obtain r c where r: "length r = 5" "payload = r @ c"
      and c: "ccm_encrypt (session_key km) (r @ km_iv km) EAD_AAD p MIC_SIZE = Some c"
    by (auto simp: encrypt_ad_def ead_nonce_def Let_def split: option.splits)
  from c have "length c = length p + 4"
    using assms(1) by (auto simp: ccm_encrypt_def Let_def split: option.splits if_splits)
  with r c show "decrypt_ad km payload = Some (Some p)"
    by (simp add: decrypt_ad_def ead_nonce_def ccm_accepts_iff [OF assms(1)])
qed

theorem decrypt_ad_iff_encrypt_witness:
  "decrypt_ad \<lparr>session_key = replicate 16 1, km_iv = replicate 8 2\<rparr> [1, 2, 3, 4, 5, 9, 9, 9, 9] = Some (Some [])
    \<longleftrightarrow> (\<exists>r. length r = RANDOMIZER_SIZE
      \<and> map_option (drop 2) (encrypt_ad \<lparr>session_key = replicate 16 1, km_iv = replicate 8 2\<rparr> r [])
          = Some [1, 2, 3, 4, 5, 9, 9, 9, 9])"
  by (rule decrypt_ad_iff_encrypt) simp_all

end
