(* ===== verification/Iso_Packets.thy ===== *)
theory Iso_Packets
  imports Prelude
begin

text \<open>
  HCI Isochronous data packets (\<open>src/src/packets/iso.rs\<close>): the two headers with their layouts, the
  builder of a complete service data unit and its parser.
\<close>

section \<open>Headers\<close>

abbreviation (input) h4_HCI_ISO_DATA :: u8 where "h4_HCI_ISO_DATA \<equiv> 0x05"

abbreviation (input) iso_FIRST_FRAGMENT :: u8 where "iso_FIRST_FRAGMENT \<equiv> 0"
abbreviation (input) iso_CONTINUATION :: u8 where "iso_CONTINUATION \<equiv> 1"
abbreviation (input) iso_COMPLETE_SDU :: u8 where "iso_COMPLETE_SDU \<equiv> 2"
abbreviation (input) iso_LAST_FRAGMENT :: u8 where "iso_LAST_FRAGMENT \<equiv> 3"

record HciIsoHeader =
  iso_handle_and_flags :: u16
  iso_data_total_length :: u16

definition HciIsoHeader_as_bytes :: "HciIsoHeader \<Rightarrow> bytes" where
  "HciIsoHeader_as_bytes h = to_le_bytes (iso_handle_and_flags h) @ to_le_bytes (iso_data_total_length h)"

definition HciIsoHeader_of_bytes :: "bytes \<Rightarrow> HciIsoHeader" where
  "HciIsoHeader_of_bytes bs =
     \<lparr>iso_handle_and_flags = from_le_bytes (bs ! 0) (bs ! 1),
      iso_data_total_length = from_le_bytes (bs ! 2) (bs ! 3)\<rparr>"

interpretation iso_layout: wire_layout 4 "\<lambda>_. True" HciIsoHeader_as_bytes HciIsoHeader_of_bytes
  by unfold_locales
    (auto simp: HciIsoHeader_as_bytes_def HciIsoHeader_of_bytes_def to_le_bytes_def list_of_length)

definition HciIsoHeader_new :: "u16 \<Rightarrow> u16 \<Rightarrow> HciIsoHeader" where
  "HciIsoHeader_new handle data_total_length =
     \<lparr>iso_handle_and_flags = (handle AND 0x0FFF) OR push_bit 12 (ucast iso_COMPLETE_SDU),
      iso_data_total_length = data_total_length\<rparr>"

definition HciIsoHeader_handle :: "HciIsoHeader \<Rightarrow> u16" where
  "HciIsoHeader_handle h = iso_handle_and_flags h AND 0x0FFF"

definition HciIsoHeader_boundary :: "HciIsoHeader \<Rightarrow> u8" where
  "HciIsoHeader_boundary h = ucast (drop_bit 12 (iso_handle_and_flags h) AND 0x03)"

definition HciIsoHeader_has_timestamp :: "HciIsoHeader \<Rightarrow> bool" where
  "HciIsoHeader_has_timestamp h = (drop_bit 14 (iso_handle_and_flags h) AND 0x01 = 1)"

record IsoDataLoadHeader =
  load_packet_sequence_number :: u16
  load_sdu_length_and_status :: u16

definition IsoDataLoadHeader_as_bytes :: "IsoDataLoadHeader \<Rightarrow> bytes" where
  "IsoDataLoadHeader_as_bytes h =
     to_le_bytes (load_packet_sequence_number h) @ to_le_bytes (load_sdu_length_and_status h)"

definition IsoDataLoadHeader_of_bytes :: "bytes \<Rightarrow> IsoDataLoadHeader" where
  "IsoDataLoadHeader_of_bytes bs =
     \<lparr>load_packet_sequence_number = from_le_bytes (bs ! 0) (bs ! 1),
      load_sdu_length_and_status = from_le_bytes (bs ! 2) (bs ! 3)\<rparr>"

interpretation load_layout: wire_layout 4 "\<lambda>_. True" IsoDataLoadHeader_as_bytes IsoDataLoadHeader_of_bytes
  by unfold_locales
    (auto simp: IsoDataLoadHeader_as_bytes_def IsoDataLoadHeader_of_bytes_def to_le_bytes_def list_of_length)

definition IsoDataLoadHeader_new :: "u16 \<Rightarrow> u16 \<Rightarrow> IsoDataLoadHeader" where
  "IsoDataLoadHeader_new sequence_number sdu_length =
     \<lparr>load_packet_sequence_number = sequence_number,
      load_sdu_length_and_status = sdu_length AND 0x0FFF\<rparr>"

definition IsoDataLoadHeader_sdu_length :: "IsoDataLoadHeader \<Rightarrow> u16" where
  "IsoDataLoadHeader_sdu_length h = load_sdu_length_and_status h AND 0x0FFF"

definition IsoDataLoadHeader_status :: "IsoDataLoadHeader \<Rightarrow> u8" where
  "IsoDataLoadHeader_status h = ucast (drop_bit 12 (load_sdu_length_and_status h) AND 0x03)"

section \<open>Building and parsing\<close>

definition build_iso_packet :: "u16 \<Rightarrow> u16 \<Rightarrow> bytes \<Rightarrow> bytes" where
  "build_iso_packet handle sequence_number sdu =
     (let load = IsoDataLoadHeader_new sequence_number (of_nat (length sdu));
          header = HciIsoHeader_new handle (of_nat (4 + length sdu))
      in h4_HCI_ISO_DATA # HciIsoHeader_as_bytes header @ IsoDataLoadHeader_as_bytes load @ sdu)"

record IsoSdu =
  sdu_handle :: u16
  sdu_sequence_number :: u16
  sdu_payload :: bytes

definition parse_iso_packet :: "bytes \<Rightarrow> IsoSdu option" where
  "parse_iso_packet packet =
     (case packet of
        [] \<Rightarrow> None
      | h4 # rest \<Rightarrow>
          if h4 \<noteq> h4_HCI_ISO_DATA then None
          else case from_prefix 4 HciIsoHeader_of_bytes rest of
            None \<Rightarrow> None
          | Some (header, rest) \<Rightarrow>
              if HciIsoHeader_boundary header \<noteq> iso_COMPLETE_SDU
                 \<and> HciIsoHeader_boundary header \<noteq> iso_FIRST_FRAGMENT then None
              else case (if HciIsoHeader_has_timestamp header
                         then if length rest < 4 then None else Some (drop 4 rest)
                         else Some rest) of
                None \<Rightarrow> None
              | Some rest \<Rightarrow>
                  (case from_prefix 4 IsoDataLoadHeader_of_bytes rest of
                     None \<Rightarrow> None
                   | Some (load, payload) \<Rightarrow>
                       let len = unat (IsoDataLoadHeader_sdu_length load) in
                       if length payload < len then None
                       else Some \<lparr>sdu_handle = HciIsoHeader_handle header,
                         sdu_sequence_number = load_packet_sequence_number load,
                         sdu_payload = take len payload\<rparr>))"

lemma iso_flag_bits:
  fixes x :: u16
  shows "((h AND 0x0FFF) OR push_bit 12 x) AND 0x0FFF = h AND 0x0FFF"
    and "drop_bit 12 ((h AND 0x0FFF) OR push_bit 12 x) = take_bit 4 x"
proof -
  have mask: "(0x0FFF :: u16) = mask 12" by (simp add: mask_eq_exp_minus_1)
  show "((h AND 0x0FFF) OR push_bit 12 x) AND 0x0FFF = h AND 0x0FFF"
    unfolding mask by (rule bit_word_eqI) (auto simp: bit_simps)
  show "drop_bit 12 ((h AND 0x0FFF) OR push_bit 12 x) = take_bit 4 x"
    unfolding mask by (rule bit_word_eqI) (auto simp: bit_simps)
qed

lemma iso_header_fields [simp]:
  "HciIsoHeader_handle (HciIsoHeader_new h n) = h AND 0x0FFF"
  "HciIsoHeader_boundary (HciIsoHeader_new h n) = iso_COMPLETE_SDU"
  "HciIsoHeader_has_timestamp (HciIsoHeader_new h n) = False"
proof -
  have d: "drop_bit 12 ((h AND 0x0FFF) OR 0x2000) = 2"
    using iso_flag_bits(2) [of h 2] by (simp add: take_bit_eq_mod)
  have "drop_bit 14 ((h AND 0x0FFF) OR 0x2000) = drop_bit 2 (drop_bit 12 ((h AND 0x0FFF) OR 0x2000))"
    by (simp add: drop_bit_drop_bit)
  with d show "HciIsoHeader_boundary (HciIsoHeader_new h n) = iso_COMPLETE_SDU"
    "HciIsoHeader_has_timestamp (HciIsoHeader_new h n) = False"
    by (simp_all add: HciIsoHeader_boundary_def HciIsoHeader_has_timestamp_def HciIsoHeader_new_def)
  show "HciIsoHeader_handle (HciIsoHeader_new h n) = h AND 0x0FFF"
    using iso_flag_bits(1) [of h 2] by (simp add: HciIsoHeader_handle_def HciIsoHeader_new_def)
qed

lemma iso_length_mask: "unat (of_nat n AND 0x0FFF :: u16) = n mod 4096"
proof -
  have "(of_nat n AND 0x0FFF :: u16) = take_bit 12 (of_nat n)"
    by (simp add: take_bit_eq_mask mask_eq_exp_minus_1)
  then have "(of_nat n AND 0x0FFF :: u16) = of_nat (take_bit 12 n)"
    by (simp add: of_nat_take_bit)
  moreover have "n mod 4096 < 65536" using mod_less_divisor [of 4096 n] by linarith
  ultimately show ?thesis
    by (simp add: unat_of_nat take_bit_eq_mod)
qed

lemma load_fields [simp]:
  "load_packet_sequence_number (IsoDataLoadHeader_new q n) = q"
  "unat (IsoDataLoadHeader_sdu_length (IsoDataLoadHeader_new q (of_nat k))) = k mod 4096"
  by (simp_all add: IsoDataLoadHeader_new_def IsoDataLoadHeader_sdu_length_def iso_length_mask)

lemma parse_build_iso:
  "parse_iso_packet (build_iso_packet handle q sdu @ rest) =
     Some \<lparr>sdu_handle = handle AND 0x0FFF, sdu_sequence_number = q,
           sdu_payload = take (length sdu mod 4096) sdu\<rparr>"
  using mod_less_eq_dividend [of "length sdu" 4096]
  by (simp add: parse_iso_packet_def build_iso_packet_def Let_def iso_layout.prefix_enc load_layout.prefix_enc)

text \<open>A service data unit of at most 4095 octets travels unchanged: what the parser reads from a
  built packet is the low twelve bits of the handle, the sequence number and exactly the unit. A
  longer one is cut silently to its length modulo 4096, because the builder masks the length field
  and checks nothing.\<close>
theorem iso_packet_round_trip:
  "parse_iso_packet (build_iso_packet handle q sdu) =
     Some \<lparr>sdu_handle = handle AND 0x0FFF, sdu_sequence_number = q,
           sdu_payload = (if length sdu \<le> 4095 then sdu else take (length sdu mod 4096) sdu)\<rparr>"
  using parse_build_iso [of handle q sdu "[]"] by (simp add: mod_less)

text \<open>The parser takes the first fragment of a fragmented unit for a unit of its own, although its
  documentation says that fragments are rejected.\<close>
theorem first_fragment_is_accepted:
  "parse_iso_packet (h4_HCI_ISO_DATA
      # HciIsoHeader_as_bytes \<lparr>iso_handle_and_flags = 0x0042, iso_data_total_length = 6\<rparr>
      @ IsoDataLoadHeader_as_bytes (IsoDataLoadHeader_new 7 2) @ [0xAA, 0xBB]) =
    Some \<lparr>sdu_handle = 0x0042, sdu_sequence_number = 7, sdu_payload = [0xAA, 0xBB]\<rparr>"
  by (simp add: parse_iso_packet_def iso_layout.prefix_enc load_layout.prefix_enc HciIsoHeader_boundary_def
      HciIsoHeader_has_timestamp_def HciIsoHeader_handle_def IsoDataLoadHeader_new_def
      IsoDataLoadHeader_sdu_length_def Let_def)

end
