(* ===== verification/Smp_Safety.thy ===== *)
theory Smp_Safety
  imports Smp_Pairing
begin

text \<open>
  Safety of the pairing session under an arbitrary peer: the reachable sessions as an inductive
  predicate over every operation a caller can apply, and what holds of all of them. No packet makes
  the session panic, a failed session holds no secret it derived, a timed-out session sends nothing, and the link
  counts as encrypted only after a check value matched.
\<close>

section \<open>Reachable sessions\<close>

inductive session_reach :: "'s p256 \<Rightarrow> nonces \<Rightarrow> 's PairingSession \<Rightarrow> bool" for ec rnd where
  reach_new: "PairingSession_new ec gen rnd role config la lt pa pt = Some s \<Longrightarrow> session_reach ec rnd s"
| reach_start: "session_reach ec rnd s \<Longrightarrow> session_reach ec rnd (snd (session_start s))"
| reach_pdu: "session_reach ec rnd s \<Longrightarrow> session_step ec rnd pdu s = Some s' \<Longrightarrow> session_reach ec rnd s'"
| reach_poll: "session_reach ec rnd s \<Longrightarrow> session_reach ec rnd (snd (poll_pending s))"
| reach_tick: "session_reach ec rnd s \<Longrightarrow> session_reach ec rnd (snd (session_tick t s))"
| reach_link: "session_reach ec rnd s \<Longrightarrow> session_reach ec rnd (on_link_encrypted s)"

text \<open>The secrets a pairing derives, and the peer's confirm value they are checked against. Keys that the
  peer distributes (its LTK, IRK and CSRK) and the local keys to distribute are not among them.\<close>

definition no_derived_secrets :: "'s PairingSession \<Rightarrow> bool" where
  "no_derived_secrets s =
     (ps_tk s = replicate 16 0 \<and> ps_stk s = None \<and> ps_dh_key s = None \<and> ps_ltk s = None
      \<and> ps_ea s = None \<and> ps_eb s = None \<and> ps_peer_confirm s = None)"

definition smp_inv :: "'s PairingSession \<Rightarrow> bool" where
  "smp_inv s =
     ((ps_ea s = None \<longleftrightarrow> ps_eb s = None) \<and> (ps_failed s \<longrightarrow> no_derived_secrets s \<and> ps_phase s \<noteq> Complete)
      \<and> (ps_timed_out s \<longrightarrow> ps_failed s \<and> ps_pending s = []))"

lemma queue_simps [simp]:
  "ps_pending (queue p s) = ps_pending s @ [p]"
  "ps_ea (queue p s) = ps_ea s" "ps_eb (queue p s) = ps_eb s" "ps_failed (queue p s) = ps_failed s"
  "ps_timed_out (queue p s) = ps_timed_out s" "ps_phase (queue p s) = ps_phase s"
  "ps_role (queue p s) = ps_role s" "ps_dh_key (queue p s) = ps_dh_key s"
  "ps_peer_random (queue p s) = ps_peer_random s" "ps_is_encrypted (queue p s) = ps_is_encrypted s"
  "ps_peer_expected (queue p s) = ps_peer_expected s" "ps_sc (queue p s) = ps_sc s"
  "ps_peer_confirm (queue p s) = ps_peer_confirm s" "ps_complete (queue p s) = ps_complete s"
  by (simp_all add: queue_def)

lemma fail_inv: "\<not> ps_timed_out s \<Longrightarrow> smp_inv (fail r s)"
  by (simp add: fail_def stop_timer_def queue_def discard_key_material_def smp_inv_def no_derived_secrets_def)

text \<open>Key distribution only sends: it leaves alone what the invariant speaks about.\<close>

lemma distribute_keys_simps [simp]:
  "ps_ea (distribute_keys s) = ps_ea s" "ps_eb (distribute_keys s) = ps_eb s"
  "ps_failed (distribute_keys s) = ps_failed s" "ps_timed_out (distribute_keys s) = ps_timed_out s"
  "ps_phase (distribute_keys s) = ps_phase s" "ps_is_encrypted (distribute_keys s) = ps_is_encrypted s"
  "ps_peer_expected (distribute_keys s) = ps_peer_expected s" "ps_role (distribute_keys s) = ps_role s"
  by (simp_all add: distribute_keys_def Let_def split: prod.splits)

lemma on_peer_distribution_complete_simps [simp]:
  "ps_ea (on_peer_distribution_complete s) = ps_ea s" "ps_eb (on_peer_distribution_complete s) = ps_eb s"
  "ps_failed (on_peer_distribution_complete s) = ps_failed s"
  "ps_timed_out (on_peer_distribution_complete s) = ps_timed_out s"
  "ps_phase (on_peer_distribution_complete s) = ps_phase s"
  "ps_is_encrypted (on_peer_distribution_complete s) = ps_is_encrypted s"
  by (simp_all add: on_peer_distribution_complete_def stop_timer_def Let_def)

lemma on_encrypted_simps [simp]:
  "ps_ea (on_encrypted s) = ps_ea s" "ps_eb (on_encrypted s) = ps_eb s"
  "ps_failed (on_encrypted s) = ps_failed s" "ps_timed_out (on_encrypted s) = ps_timed_out s"
  "ps_is_encrypted (on_encrypted s) = True"
  by (simp_all add: on_encrypted_def Let_def)

section \<open>Every operation keeps the invariant\<close>

definition live :: "'s PairingSession \<Rightarrow> bool" where
  "live s = (\<not> ps_failed s \<and> \<not> ps_timed_out s \<and> (ps_ea s = None \<longleftrightarrow> ps_eb s = None))"

lemma smp_inv_fail [simp]: "\<not> ps_timed_out s \<Longrightarrow> smp_inv (fail r s)"
  by (rule fail_inv)

lemma ps_failed_fail [simp]: "ps_failed (fail r s) = True"
  by (simp add: fail_def stop_timer_def queue_def discard_key_material_def)

lemma smp_inv_not_failed [simp]:
  "\<not> ps_failed s \<Longrightarrow> \<not> ps_timed_out s \<Longrightarrow> smp_inv s \<longleftrightarrow> (ps_ea s = None \<longleftrightarrow> ps_eb s = None)"
  by (simp add: smp_inv_def)

lemma live_inv: "live s \<Longrightarrow> smp_inv s"
  by (simp add: live_def smp_inv_def)

lemma inv_live: "smp_inv s \<Longrightarrow> \<not> ps_failed s \<Longrightarrow> live s"
  by (auto simp: live_def smp_inv_def)

lemma live_not_timed_out: "live s \<Longrightarrow> \<not> ps_timed_out s"
  by (simp add: live_def)

lemma live_queue [simp]: "live (queue p s) = live s"
  by (simp add: live_def)

lemma live_on_encrypted [simp]: "live (on_encrypted s) = live s"
  by (simp add: live_def)

lemma live_check_distribution: "live s \<Longrightarrow> smp_inv (check_distribution op s)"
  by (auto simp: check_distribution_def Let_def live_def)

lemma on_pairing_failed_inv: "\<not> ps_timed_out s \<Longrightarrow> smp_inv (on_pairing_failed pdu s)"
  by (cases "length pdu = 2")
    (simp_all add: on_pairing_failed_def stop_timer_def discard_key_material_def smp_inv_def [of "_\<lparr>ps_timer_remaining := None\<rparr>"]
      no_derived_secrets_def)

lemma distribution_handlers_inv:
  assumes "live s"
  shows "smp_inv (on_encryption_info pdu s)" "smp_inv (on_master_identification pdu s)"
    "smp_inv (on_identity_info pdu s)" "smp_inv (on_identity_addr_info pdu s)"
    "smp_inv (on_signing_info pdu s)" "smp_inv (on_pairing_failed pdu s)"
  using assms
  by (auto simp: on_encryption_info_def on_master_identification_def on_identity_info_def
      on_identity_addr_info_def on_signing_info_def live_not_timed_out
      intro!: live_check_distribution split: option.splits)
    (auto simp: live_def on_pairing_failed_inv)

lemma live_send_confirm_legacy [simp]: "live (send_confirm_legacy rnd s) = live s"
  by (simp add: send_confirm_legacy_def draw_def Let_def live_def)

lemma on_pairing_request_inv:
  assumes "live s"
  shows "smp_inv (on_pairing_request pdu s)"
  using assms
  by (auto simp: on_pairing_request_def Let_def compute_peer_expected_def live_def
      split: option.splits)

lemma on_pairing_response_inv:
  assumes "live s"
  shows "smp_inv (on_pairing_response rnd pdu s)"
  using assms
  by (auto simp: on_pairing_response_def Let_def compute_peer_expected_def live_def
      send_confirm_legacy_def draw_def split: option.splits)

lemma on_pairing_confirm_inv:
  assumes "live s"
  shows "smp_inv (on_pairing_confirm rnd pdu s)"
  using assms
  by (auto simp: on_pairing_confirm_def Let_def draw_def live_def send_confirm_legacy_def
      split: option.splits)

lemma on_random_legacy_inv:
  assumes "live s"
  shows "smp_inv (on_random_legacy rnd r s)"
  using assms
  by (auto simp: on_random_legacy_def Let_def draw_def live_def
      split: option.splits prod.splits)

lemma on_random_sc_inv:
  assumes "live s" "ps_peer_random s \<noteq> None"
  shows "\<exists>s'. on_random_sc r s = Some s' \<and> smp_inv s'"
  using assms
  by (auto simp: on_random_sc_def finish_sc_random_exchange_def Let_def live_def
      split: option.splits prod.splits Role.splits)

lemma on_pairing_random_inv:
  assumes "live s"
  shows "\<exists>s'. on_pairing_random rnd pdu s = Some s' \<and> smp_inv s'"
proof -
  have "live (s\<lparr>ps_peer_random := Some v\<rparr>)" for v
    using assms by (simp add: live_def)
  with assms show ?thesis
    by (auto simp: on_pairing_random_def Let_def live_not_timed_out
        intro!: on_random_legacy_inv on_random_sc_inv split: option.splits)
qed

lemma on_public_key_inv:
  assumes "live s"
  shows "smp_inv (on_public_key ec rnd pdu s)"
  using assms
  by (auto simp: on_public_key_def Let_def draw_def live_def
      split: option.splits prod.splits Role.splits)

lemma on_dhkey_check_inv:
  assumes "live s"
  shows "\<exists>s'. on_dhkey_check pdu s = Some s' \<and> smp_inv s'"
proof -
  have "ps_ea s = Some v \<Longrightarrow> \<exists>w. ps_eb s = Some w" for v
    using assms by (auto simp: live_def)
  with assms show ?thesis
    by (auto simp: on_dhkey_check_def live_not_timed_out intro!: fail_inv live_inv
        split: option.splits if_splits)
qed

lemma session_step_inv:
  assumes "smp_inv s"
  shows "\<exists>s'. session_step ec rnd pdu s = Some s' \<and> smp_inv s'"
proof (cases "ps_failed s")
  case True
  with assms show ?thesis by (simp add: session_step_def)
next
  case False
  with assms have live: "live s" by (rule inv_live)
  then have "ps_ea s = None \<longleftrightarrow> ps_eb s = None" by (simp add: live_def)
  then show ?thesis
    using False live on_pairing_random_inv [OF live] on_dhkey_check_inv [OF live]
    by (auto simp: session_step_def Let_def live_not_timed_out live_inv
        intro!: distribution_handlers_inv on_pairing_request_inv on_pairing_response_inv
          on_pairing_confirm_inv on_public_key_inv)
qed

lemma session_new_inv:
  "PairingSession_new ec gen rnd role config la lt pa pt = Some s \<Longrightarrow> smp_inv s"
  by (auto simp: PairingSession_new_def Let_def smp_inv_def split: option.splits prod.splits if_splits)

lemma other_operations_inv:
  assumes "smp_inv s"
  shows "smp_inv (snd (session_start s))" "smp_inv (snd (poll_pending s))"
    "smp_inv (snd (session_tick t s))" "smp_inv (on_link_encrypted s)"
  using assms
  by (auto simp: session_start_def poll_pending_def session_tick_def on_link_encrypted_def Let_def
      smp_inv_def no_derived_secrets_def stop_timer_def discard_key_material_def split: list.splits option.splits)

lemma session_reach_inv: "session_reach ec rnd s \<Longrightarrow> smp_inv s"
proof (induction rule: session_reach.induct)
  case (reach_pdu s pdu s')
  with session_step_inv [of s ec rnd pdu] show ?case by auto
qed (auto intro: session_new_inv other_operations_inv)

text \<open>A concrete session: a trivial curve, constant nonces, the default configuration.\<close>

definition sample_curve :: "unit p256" where
  "sample_curve =
     \<lparr>secret_from_slice = (\<lambda>_. Some ()), public_point = (\<lambda>_. (replicate 32 1, replicate 32 2)),
      ecdh_shared = (\<lambda>_ _ _. Some (replicate 32 3))\<rparr>"

definition sample_pair :: "unit P256Keypair" where
  "sample_pair = \<lparr>kp_secret = (), kp_x_le = replicate 32 1, kp_y_le = replicate 32 2\<rparr>"

definition sample_session :: "Role \<Rightarrow> unit PairingSession" where
  "sample_session role =
     the (PairingSession_new sample_curve sample_pair (\<lambda>_ n. replicate n 0) role PairingConfig_default
       Address_ANY Random Address_ANY Random)"

lemma sample_session_new:
  "PairingSession_new sample_curve sample_pair (\<lambda>_ n. replicate n 0) role PairingConfig_default
     Address_ANY Random Address_ANY Random = Some (sample_session role)"
  by (simp add: sample_session_def PairingSession_new_def PairingConfig_default_def Let_def)

lemma sample_session_reach: "session_reach sample_curve (\<lambda>_ n. replicate n 0) (sample_session role)"
  by (rule reach_new [OF sample_session_new])

lemma sample_session_simps [simp]:
  "ps_failed (sample_session role) = False" "ps_timed_out (sample_session role) = False"
  "ps_is_encrypted (sample_session role) = False" "ps_role (sample_session role) = role"
  by (simp_all add: sample_session_def PairingSession_new_def PairingConfig_default_def Let_def)

text \<open>C20: No packet a peer sends, in whatever order and after whatever history of packets, ticks,
  polls and encryption events, makes the session panic, and the session it leaves is reachable
  again.\<close>
theorem pairing_never_panics:
  assumes "session_reach ec rnd s"
  shows "\<exists>reply s'. handle_pdu ec rnd pdu s = Some (reply, s') \<and> session_reach ec rnd s'"
proof -
  obtain s1 where step: "session_step ec rnd pdu s = Some s1"
    using session_step_inv [OF session_reach_inv [OF assms]] by blast
  from reach_poll [OF reach_pdu [OF assms step]] step show ?thesis
    by (cases "poll_pending s1") (simp add: handle_pdu_def)
qed

theorem pairing_never_panics_witness:
  "\<exists>reply s'. handle_pdu sample_curve (\<lambda>_ n. replicate n 0) [smp_PAIRING_DHKEY_CHECK] (sample_session Responder)
       = Some (reply, s') \<and> session_reach sample_curve (\<lambda>_ n. replicate n 0) s'"
  by (rule pairing_never_panics [OF sample_session_reach])

text \<open>C22: In every reachable session that has failed, by a rejected packet, a peer's refusal or the
  timer, no secret derived in the pairing is left: the temporary key is erased, and there is no
  short-term, long-term or Diffie-Hellman key, no check value and no confirm value of the peer; no
  link key can be read out, and a Secure Connections session has none to store in a bond. Later
  packets change nothing and are not answered, and after a timeout nothing is left to send. Keys the
  peer has distributed are not covered: \<open>failed_session_keeps_peer_key\<close>.\<close>
theorem failed_session_is_inert:
  assumes "session_reach ec rnd s" "ps_failed s"
  shows "no_derived_secrets s \<and> session_ltk s = None \<and> (ps_sc s \<longrightarrow> keys_ltk (pairing_keys s) = None)
    \<and> handle_pdu ec rnd pdu s = Some (poll_pending s) \<and> session_step ec rnd pdu s = Some s
    \<and> (ps_timed_out s \<longrightarrow> ps_pending s = [])"
  using session_reach_inv [OF assms(1)] assms(2)
  by (auto simp: smp_inv_def session_step_def handle_pdu_def session_ltk_def no_derived_secrets_def pairing_keys_def
      PairingKeys_default_def Let_def split: option.split)

theorem failed_session_is_inert_witness:
  "let s = snd (poll_pending (the (session_step sample_curve (\<lambda>_ n. replicate n 0) [] (sample_session Responder))))
   in no_derived_secrets s \<and> session_ltk s = None \<and> (ps_sc s \<longrightarrow> keys_ltk (pairing_keys s) = None)
     \<and> handle_pdu sample_curve (\<lambda>_ n. replicate n 0) [smp_PAIRING_REQUEST] s = Some (poll_pending s)
     \<and> session_step sample_curve (\<lambda>_ n. replicate n 0) [smp_PAIRING_REQUEST] s = Some s
     \<and> (ps_timed_out s \<longrightarrow> ps_pending s = [])"
proof -
  have step: "session_step sample_curve (\<lambda>_ n. replicate n 0) [] (sample_session Responder)
      = Some (fail smp_error_INVALID_PARAMETERS (sample_session Responder))"
    by (simp add: session_step_def)
  have "ps_failed (snd (poll_pending (fail smp_error_INVALID_PARAMETERS (sample_session Responder))))"
    by (simp add: poll_pending_def split: list.split)
  then show ?thesis
    unfolding Let_def step option.sel
    by (rule failed_session_is_inert [OF reach_poll [OF reach_pdu [OF sample_session_reach step]]])
qed

text \<open>An Encryption Information that comes before the link is encrypted fails the session, and the key
  it carries stays in it.\<close>

lemma failed_session_keeps_peer_key:
  "\<exists>s. session_step sample_curve (\<lambda>_ n. replicate n 0) (smp_ENCRYPTION_INFO # replicate 16 7) (sample_session Responder) = Some s
     \<and> session_reach sample_curve (\<lambda>_ n. replicate n 0) s \<and> ps_failed s \<and> ps_peer_ltk s = Some (replicate 16 7)"
proof -
  have step: "session_step sample_curve (\<lambda>_ n. replicate n 0) (smp_ENCRYPTION_INFO # replicate 16 7) (sample_session Responder)
      = Some (fail smp_error_UNSPECIFIED_REASON ((sample_session Responder)\<lparr>ps_peer_ltk := Some (replicate 16 7)\<rparr>))"
    by (simp add: session_step_def on_encryption_info_def parse_16_def check_distribution_def)
  have "ps_peer_ltk (fail r s) = ps_peer_ltk s" for r and s :: "unit PairingSession"
    by (simp add: fail_def stop_timer_def queue_def discard_key_material_def)
  then show ?thesis using step reach_pdu [OF sample_session_reach step] by simp
qed

section \<open>Encryption needs a matching check value\<close>

lemma encrypted_fail [simp]: "ps_is_encrypted (fail r s) = ps_is_encrypted s"
  by (simp add: fail_def stop_timer_def queue_def discard_key_material_def)

lemma encrypted_check_distribution [simp]: "ps_is_encrypted (check_distribution op s) = ps_is_encrypted s"
  by (simp add: check_distribution_def Let_def)

lemma encrypted_handlers [simp]:
  "ps_is_encrypted (on_encryption_info pdu s) = ps_is_encrypted s"
  "ps_is_encrypted (on_master_identification pdu s) = ps_is_encrypted s"
  "ps_is_encrypted (on_identity_info pdu s) = ps_is_encrypted s"
  "ps_is_encrypted (on_identity_addr_info pdu s) = ps_is_encrypted s"
  "ps_is_encrypted (on_signing_info pdu s) = ps_is_encrypted s"
  "ps_is_encrypted (on_pairing_failed pdu s) = ps_is_encrypted s"
  "ps_is_encrypted (on_pairing_request pdu s) = ps_is_encrypted s"
  "ps_is_encrypted (on_pairing_response rnd pdu s) = ps_is_encrypted s"
  "ps_is_encrypted (on_pairing_confirm rnd pdu s) = ps_is_encrypted s"
  "ps_is_encrypted (on_public_key ec rnd pdu s) = ps_is_encrypted s"
  by (simp_all add: on_encryption_info_def on_master_identification_def on_identity_info_def
      on_identity_addr_info_def on_signing_info_def on_pairing_failed_def on_pairing_request_def
      on_pairing_response_def on_pairing_confirm_def on_public_key_def stop_timer_def
      discard_key_material_def compute_peer_expected_def send_confirm_legacy_def draw_def Let_def
      split: option.splits prod.splits Role.splits)

lemma encrypted_on_random_sc:
  "on_random_sc r s = Some s' \<Longrightarrow> ps_is_encrypted s' = ps_is_encrypted s"
  by (auto simp: on_random_sc_def finish_sc_random_exchange_def Let_def
      split: option.splits prod.splits Role.splits if_splits)

lemma parse_16_Some: "parse_16 pdu op = Some v \<longleftrightarrow> pdu = op # v \<and> length v = 16"
  by (cases pdu) (auto simp: parse_16_def)

text \<open>C21: A packet turns an unencrypted session into an encrypted one only in two ways: a DHKey Check
  that carries exactly the check value this side computed for the peer, or, in a legacy pairing, a
  random value that opens the confirm value the peer sent before.\<close>
theorem encryption_needs_matching_check:
  assumes "session_step ec rnd pdu s = Some s'" "\<not> ps_is_encrypted s" "ps_is_encrypted s'"
  shows "(\<exists>v. pdu = smp_PAIRING_DHKEY_CHECK # v
        \<and> Some v = (if ps_role s = Initiator then ps_eb s else ps_ea s))
    \<or> (\<exists>r. pdu = smp_PAIRING_RANDOM # r \<and> \<not> ps_sc s
        \<and> ps_peer_confirm s = Some (smp_c1 (ps_tk s) r (ps_preq s) (ps_pres s) (ps_iat s) (ps_rat s)
             (ps_ia s) (ps_ra s)))"
proof -
  have "on_pairing_random rnd pdu s = Some s' \<or> on_dhkey_check pdu s = Some s'"
    using assms by (auto simp: session_step_def Let_def split: if_splits)
  then show ?thesis
  proof
    assume step: "on_pairing_random rnd pdu s = Some s'"
    then obtain r where r: "pdu = smp_PAIRING_RANDOM # r" "length r = 16"
      using assms(2,3) by (auto simp: on_pairing_random_def parse_16_Some split: option.splits)
    then have "parse_16 pdu smp_PAIRING_RANDOM = Some r" by (simp add: parse_16_Some)
    with step assms(2,3) r(1) show ?thesis
      by (auto simp: on_pairing_random_def on_random_legacy_def Let_def draw_def
          dest!: encrypted_on_random_sc split: option.splits if_splits prod.splits)
  next
    assume "on_dhkey_check pdu s = Some s'"
    with assms(2,3) show ?thesis
      by (auto simp: on_dhkey_check_def parse_16_Some split: option.splits if_splits)
  qed
qed

theorem encryption_needs_matching_check_witness:
  "let v = replicate 16 5; s = (sample_session Responder)\<lparr>ps_ea := Some v, ps_eb := Some v\<rparr>;
       pdu = smp_PAIRING_DHKEY_CHECK # v
   in ps_is_encrypted (the (session_step sample_curve (\<lambda>_ n. replicate n 0) pdu s))
     \<and> ((\<exists>v. pdu = smp_PAIRING_DHKEY_CHECK # v
          \<and> Some v = (if ps_role s = Initiator then ps_eb s else ps_ea s))
      \<or> (\<exists>r. pdu = smp_PAIRING_RANDOM # r \<and> \<not> ps_sc s
          \<and> ps_peer_confirm s = Some (smp_c1 (ps_tk s) r (ps_preq s) (ps_pres s) (ps_iat s) (ps_rat s)
               (ps_ia s) (ps_ra s))))"
proof -
  let ?s = "(sample_session Responder)\<lparr>ps_ea := Some (replicate 16 5), ps_eb := Some (replicate 16 5)\<rparr>"
  have step: "session_step sample_curve (\<lambda>_ n. replicate n 0) (smp_PAIRING_DHKEY_CHECK # replicate 16 5) ?s
      = Some (on_encrypted (queue (build_16 smp_PAIRING_DHKEY_CHECK (replicate 16 5)) ?s))"
    by (simp add: session_step_def on_dhkey_check_def parse_16_def)
  show ?thesis
    unfolding Let_def step option.sel
    by (rule conjI, simp, rule encryption_needs_matching_check [OF step]) simp_all
qed

section \<open>Parameters\<close>

text \<open>A Pairing Request or Response is accepted exactly when it has seven octets and every field is
  in its defined range, so that the negotiated key size is between 7 and 16 octets.\<close>
theorem parse_pairing_parameters_iff:
  "parse_pairing_parameters pdu = Some p \<longleftrightarrow>
     pdu = SmpPairingPacket_as_bytes p \<and> spp_io_capability p \<le> io_KEYBOARD_DISPLAY
     \<and> spp_oob_data_flag p \<le> OOB_DATA_PRESENT \<and> spp_auth_req p AND AUTH_REQ_RESERVED = 0
     \<and> MIN_ENCRYPTION_KEY_SIZE \<le> spp_max_encryption_key_size p
     \<and> spp_max_encryption_key_size p \<le> MAX_ENCRYPTION_KEY_SIZE"
proof (cases "length pdu = 7")
  case True
  define q where "q = SmpPairingPacket_of_bytes pdu"
  have q: "SmpPairingPacket_parse pdu = Some (q, [])"
    using True by (simp add: SmpPairingPacket_parse_def from_prefix_def q_def)
  moreover from q have "pdu = SmpPairingPacket_as_bytes q"
    using spp_layout.prefix_Some_iff [of pdu q "[]"] by (simp add: SmpPairingPacket_parse_def)
  ultimately have q: "SmpPairingPacket_parse pdu = Some (q, [])" "pdu = SmpPairingPacket_as_bytes q"
    by simp_all
  with True show ?thesis
    by (auto simp: parse_pairing_parameters_def not_less spp_layout.enc_inject)
next
  case False
  then show ?thesis by (auto simp: parse_pairing_parameters_def spp_layout.length_enc)
qed

section \<open>The timer\<close>

fun ticks :: "real list \<Rightarrow> 's PairingSession \<Rightarrow> 's PairingSession" where
  "ticks [] s = s"
| "ticks (t # ts) s = ticks ts (snd (session_tick t s))"

lemma ticks_stopped:
  "ps_timer_remaining s = None \<Longrightarrow> ps_timed_out (ticks ts s) = ps_timed_out s
     \<and> session_ltk (ticks ts s) = session_ltk s"
  by (induction ts arbitrary: s) (auto simp: session_tick_def Let_def session_ltk_def)

lemma ticks_running:
  assumes "ps_timer_remaining s = Some r" "0 < r" "ps_last_tick s = Some t" "\<not> ps_timed_out s"
    and "sorted (t # ts)"
  shows "ps_timed_out (ticks ts s) \<longleftrightarrow> r \<le> last (t # ts) - t"
  using assms
proof (induction ts arbitrary: s r t)
  case (Cons u ts)
  show ?case
  proof (cases "r \<le> u - t")
    case True
    with Cons.prems have "snd (session_tick u s) = (discard_key_material ((stop_timer (s\<lparr>ps_last_tick := Some u\<rparr>))
        \<lparr>ps_timed_out := True, ps_phase := Failed, ps_failed := True\<rparr>))\<lparr>ps_pending := []\<rparr>"
      by (auto simp: session_tick_def Let_def)
    moreover have "u \<le> last (u # ts)" using Cons.prems(5) by (auto simp: last_in_set)
    ultimately show ?thesis
      using True ticks_stopped [of "snd (session_tick u s)" ts]
      by (auto simp: discard_key_material_def stop_timer_def)
  next
    case False
    with Cons.prems have step: "snd (session_tick u s)
        = s\<lparr>ps_last_tick := Some u, ps_timer_remaining := Some (r - (u - t))\<rparr>"
      by (auto simp: session_tick_def Let_def)
    with Cons.IH [of "snd (session_tick u s)" "r - (u - t)" u] Cons.prems False show ?thesis
      by (auto split: if_splits)
  qed
qed simp

text \<open>Left alone, a session whose timer was last restarted at its latest tick times out exactly
  when the clock has advanced 30 seconds or more, however that time is cut into ticks; a stopped
  timer never expires, and its session keeps its key.\<close>
theorem smp_timer_expires_after_30s:
  assumes "ps_last_tick s = Some t" "\<not> ps_timed_out s" "sorted (t # ts)"
  shows "(ps_timer_remaining s = Some SMP_TIMEOUT_SECONDS \<longrightarrow>
      (ps_timed_out (ticks ts s) \<longleftrightarrow> 30 \<le> last (t # ts) - t))
    \<and> (ps_timer_remaining s = None \<longrightarrow>
      \<not> ps_timed_out (ticks ts s) \<and> session_ltk (ticks ts s) = session_ltk s)"
  using ticks_running [of s 30 t ts] ticks_stopped [of s ts] assms by auto

theorem smp_timer_expires_after_30s_witness:
  "let s = (sample_session Initiator)\<lparr>ps_last_tick := Some 0, ps_timer_remaining := Some 30\<rparr>
   in (ps_timer_remaining s = Some SMP_TIMEOUT_SECONDS \<longrightarrow>
        (ps_timed_out (ticks [10, 30] s) \<longleftrightarrow> 30 \<le> last [0, 10, 30] - (0 :: real)))
      \<and> (ps_timer_remaining s = None \<longrightarrow>
        \<not> ps_timed_out (ticks [10, 30] s) \<and> session_ltk (ticks [10, 30] s) = session_ltk s)"
  unfolding Let_def by (rule smp_timer_expires_after_30s) simp_all

end
