(* ===== verification/Virtual_Device.thy ===== *)
theory Virtual_Device
  imports Bond_Store Gatt_Database L2cap_Frame Advertising Iso_Packets Smp_Safety
begin

text \<open>
  The virtual device (\<open>src/src/device/virtual_device.rs\<close>, with \<open>connection.rs\<close> and \<open>observer.rs\<close>):
  connection life cycle, subscriptions and their bonding records, SMP dispatch, notifications and the
  audio queue. The connections, a \<^verbatim>\<open>HashMap\<close>, are a partial function; where the code takes the first
  element of an unordered iteration, the choice is the parameter \<open>pick\<close>. An observer cannot change the
  device, so an installed observer is the log of the calls it received. The bond store is the in-memory
  one. New pairing sessions take their key pair and random values from the parameters \<open>gen\<close> and \<open>rnd\<close>.
\<close>

section \<open>State\<close>

datatype ConnectionRole = Central | Peripheral

record PrepareWriteChunk =
  chunk_handle :: u16
  chunk_offset :: u16
  chunk_data :: bytes

record 's ConnectionState =
  conn_handle :: u16
  conn_peer_address :: Address
  conn_role :: ConnectionRole
  conn_mtu :: u16
  conn_prepare_write_queue :: "PrepareWriteChunk list"
  conn_pending_indication :: bool
  conn_pairing_session :: "'s PairingSession option"
  conn_is_encrypted :: bool
  conn_ltk :: "bytes option"
  conn_peer_address_type :: AddressType

definition ConnectionState_new_with_role ::
  "u16 \<Rightarrow> Address \<Rightarrow> u16 \<Rightarrow> ConnectionRole \<Rightarrow> 's ConnectionState" where
  "ConnectionState_new_with_role handle peer_address mtu role =
     \<lparr>conn_handle = handle, conn_peer_address = peer_address, conn_role = role, conn_mtu = mtu,
      conn_prepare_write_queue = [], conn_pending_indication = False, conn_pairing_session = None,
      conn_is_encrypted = False, conn_ltk = None, conn_peer_address_type = Public\<rparr>"

definition ConnectionState_new :: "u16 \<Rightarrow> Address \<Rightarrow> u16 \<Rightarrow> 's ConnectionState" where
  "ConnectionState_new handle peer_address mtu =
     ConnectionState_new_with_role handle peer_address mtu Peripheral"

datatype SubscriptionReason = ReasonWrite | ReasonDisconnect | ReasonBondRestore

text \<open>The calls of \<^verbatim>\<open>AttServerObserver\<close>.\<close>

datatype AttServerObserver =
    on_characteristic_read u16 u16 u16
  | on_characteristic_write u16 u16 bytes bool
  | on_connection_state_changed u16 Address bool
  | on_mtu_changed u16 u16
  | on_subscription_changed u16 u16 bool bool bool bool SubscriptionReason
  | on_notification_sent u16 u16 bool

record ('h, 's) VirtualDevice =
  vd_name :: utf8_string
  vd_address :: Address
  vd_address_type :: AddressType
  vd_gatt_db :: "'h GattDatabase"
  vd_advertising_data :: "AdvertisingData option"
  vd_is_advertising :: bool
  vd_connections :: "u16 \<rightharpoonup> 's ConnectionState"
  vd_default_mtu :: u16
  vd_observer :: "AttServerObserver list option"
  vd_bond_store :: "MemoryBondStore option"
  vd_defer_key_distribution :: bool
  vd_connectable :: bool
  vd_audio_rx :: "bytes list"
  vd_audio_tx_sequence :: u16
  vd_audio_tx_pending :: "bytes list"
  vd_cis_handle :: "u16 option"
  vd_next_wake :: "real option"

definition VirtualDevice_new :: "utf8_string \<Rightarrow> Address \<Rightarrow> AddressType \<Rightarrow> ('h, 's) VirtualDevice" where
  "VirtualDevice_new name address address_type =
     \<lparr>vd_name = name, vd_address = address, vd_address_type = address_type,
      vd_gatt_db = GattDatabase_new, vd_advertising_data = None, vd_is_advertising = False,
      vd_connections = Map.empty, vd_default_mtu = 23, vd_observer = None, vd_bond_store = None,
      vd_defer_key_distribution = False, vd_connectable = True, vd_audio_rx = [],
      vd_audio_tx_sequence = 0, vd_audio_tx_pending = [], vd_cis_handle = None, vd_next_wake = None\<rparr>"

definition VirtualDevice_clone :: "('h, 's) VirtualDevice \<Rightarrow> ('h, 's) VirtualDevice" where
  "VirtualDevice_clone d =
     d\<lparr>vd_gatt_db := GattDatabase_clone (vd_gatt_db d), vd_observer := None, vd_bond_store := None\<rparr>"

definition bond_key_address :: "'s ConnectionState \<Rightarrow> Address" where
  "bond_key_address conn =
     (case conn_pairing_session conn of
        Some s \<Rightarrow> (case ps_peer_identity_address s of
            Some (_, addr) \<Rightarrow> addr
          | None \<Rightarrow> conn_peer_address conn)
      | None \<Rightarrow> conn_peer_address conn)"

text \<open>A call to the observer, if one is installed; an update of one connection, if it exists.\<close>

definition observe :: "AttServerObserver \<Rightarrow> ('h, 's) VirtualDevice \<Rightarrow> ('h, 's) VirtualDevice" where
  "observe ev d = d\<lparr>vd_observer := map_option (\<lambda>log. log @ [ev]) (vd_observer d)\<rparr>"

definition modify_connection ::
  "u16 \<Rightarrow> ('s ConnectionState \<Rightarrow> 's ConnectionState) \<Rightarrow> ('h, 's) VirtualDevice \<Rightarrow> ('h, 's) VirtualDevice" where
  "modify_connection handle f d =
     d\<lparr>vd_connections := (vd_connections d)(handle := map_option f (vd_connections d handle))\<rparr>"

section \<open>Subscriptions\<close>

definition cccd_value :: "('h, 's) VirtualDevice \<Rightarrow> u16 \<Rightarrow> u16 option" where
  "cccd_value d handle =
     (case bt_get (attributes (vd_gatt_db d)) handle of
        None \<Rightarrow> None
      | Some attr \<Rightarrow>
          if attr_uuid attr \<noteq> Uuid_CCCD then None
          else Some (from_le_bytes
            (case attr_value attr of [] \<Rightarrow> 0 | b # _ \<Rightarrow> b)
            (case attr_value attr of _ # b # _ \<Rightarrow> b | _ \<Rightarrow> 0)))"

definition subscribed_cccds :: "('h, 's) VirtualDevice \<Rightarrow> (u16 \<times> u16) list" where
  "subscribed_cccds d =
     filter (\<lambda>(_, v). v \<noteq> 0)
       (List.map_filter (\<lambda>h. map_option (\<lambda>v. (h, v)) (cccd_value d h))
         (map fst (attributes (vd_gatt_db d))))"

abbreviation (input) CCCD_NOTIFY :: u16 where "CCCD_NOTIFY \<equiv> 0x0001"
abbreviation (input) CCCD_INDICATE :: u16 where "CCCD_INDICATE \<equiv> 0x0002"

definition notify_subscription ::
  "u16 \<Rightarrow> u16 \<Rightarrow> u16 \<Rightarrow> u16 \<Rightarrow> SubscriptionReason \<Rightarrow> ('h, 's) VirtualDevice \<Rightarrow> ('h, 's) VirtualDevice" where
  "notify_subscription connection_handle cccd_handle prev cur reason d =
     (if prev = cur then d
      else observe (on_subscription_changed connection_handle cccd_handle
        (prev AND CCCD_NOTIFY \<noteq> 0) (cur AND CCCD_NOTIFY \<noteq> 0)
        (prev AND CCCD_INDICATE \<noteq> 0) (cur AND CCCD_INDICATE \<noteq> 0) reason) d)"

definition on_cccd_written :: "u16 \<Rightarrow> u16 \<Rightarrow> u16 \<Rightarrow> ('h, 's) VirtualDevice \<Rightarrow> ('h, 's) VirtualDevice" where
  "on_cccd_written connection_handle cccd_handle prev d =
     (let cur = (case cccd_value d cccd_handle of Some v \<Rightarrow> v | None \<Rightarrow> prev);
          d = notify_subscription connection_handle cccd_handle prev cur ReasonWrite d
      in case vd_connections d connection_handle of
           None \<Rightarrow> d
         | Some conn \<Rightarrow>
             let peer = bond_key_address conn in
             (case vd_bond_store d of
                None \<Rightarrow> d
              | Some store \<Rightarrow>
                  if is_bonded store peer
                  then d\<lparr>vd_bond_store := Some (store_cccd peer cccd_handle cur store)\<rparr>
                  else d))"

fun restore_loop :: "u16 \<Rightarrow> (u16 \<times> u16) list \<Rightarrow> ('h, 's) VirtualDevice \<Rightarrow> ('h, 's) VirtualDevice" where
  "restore_loop handle [] d = d"
| "restore_loop handle ((cccd_handle, v) # rest) d =
     (let prev = (case cccd_value d cccd_handle of Some p \<Rightarrow> p | None \<Rightarrow> 0);
          (res, db) = set_value (vd_gatt_db d) cccd_handle (to_le_bytes v);
          d = d\<lparr>vd_gatt_db := db\<rparr>;
          d = (case res of
                 Inr _ \<Rightarrow> notify_subscription handle cccd_handle prev v ReasonBondRestore d
               | Inl _ \<Rightarrow> d)
      in restore_loop handle rest d)"

definition restore_bonded_subscriptions ::
  "u16 \<Rightarrow> Address \<Rightarrow> ('h, 's) VirtualDevice \<Rightarrow> ('h, 's) VirtualDevice" where
  "restore_bonded_subscriptions handle peer_address d =
     (case vd_bond_store d of
        Some store \<Rightarrow>
          if is_bonded store peer_address then restore_loop handle (load_cccds store peer_address) d else d
      | None \<Rightarrow> d)"

definition maybe_record_bond :: "u16 \<Rightarrow> ('h, 's) VirtualDevice \<Rightarrow> ('h, 's) VirtualDevice" where
  "maybe_record_bond connection_handle d =
     (case vd_connections d connection_handle of
        None \<Rightarrow> d
      | Some conn \<Rightarrow>
     (case conn_pairing_session conn of
        None \<Rightarrow> d
      | Some session \<Rightarrow>
          if \<not> ps_complete session \<or> \<not> ps_bonding session then d
          else
            let peer = bond_key_address conn;
                security = \<lparr>bs_keys = pairing_keys session, bs_secure_connections = ps_sc session,
                  bs_authenticated = is_authenticated session, bs_key_size = encryption_key_size session\<rparr>;
                subscribed = subscribed_cccds d
            in case vd_bond_store d of
                 None \<Rightarrow> d
               | Some store \<Rightarrow>
                   d\<lparr>vd_bond_store := Some (fold (\<lambda>(h, v). store_cccd peer h v) subscribed
                       (store_security peer security store))\<rparr>))"

section \<open>Connection life cycle\<close>

definition on_connected_with_role ::
  "u16 \<Rightarrow> Address \<Rightarrow> ConnectionRole \<Rightarrow> ('h, 's) VirtualDevice \<Rightarrow> ('h, 's) VirtualDevice" where
  "on_connected_with_role handle peer_address role d =
     (let d = d\<lparr>vd_connections := (vd_connections d)(handle \<mapsto>
            ConnectionState_new_with_role handle peer_address (vd_default_mtu d) role)\<rparr>;
          d = (if role = Peripheral then d\<lparr>vd_is_advertising := False\<rparr> else d);
          d = observe (on_connection_state_changed handle peer_address True) d
      in restore_bonded_subscriptions handle peer_address d)"

definition on_connected :: "u16 \<Rightarrow> Address \<Rightarrow> ('h, 's) VirtualDevice \<Rightarrow> ('h, 's) VirtualDevice" where
  "on_connected handle peer_address d = on_connected_with_role handle peer_address Peripheral d"

definition set_peer_address_type :: "u16 \<Rightarrow> AddressType \<Rightarrow> ('h, 's) VirtualDevice \<Rightarrow> ('h, 's) VirtualDevice" where
  "set_peer_address_type handle t d = modify_connection handle (\<lambda>c. c\<lparr>conn_peer_address_type := t\<rparr>) d"

definition on_encryption_changed :: "u16 \<Rightarrow> bool \<Rightarrow> ('h, 's) VirtualDevice \<Rightarrow> ('h, 's) VirtualDevice" where
  "on_encryption_changed handle enabled d =
     maybe_record_bond handle (modify_connection handle (\<lambda>c.
       let c = c\<lparr>conn_is_encrypted := enabled\<rparr>
       in if enabled
          then c\<lparr>conn_pairing_session := map_option on_link_encrypted (conn_pairing_session c)\<rparr>
          else c) d)"

definition connection_by_address ::
  "('s ConnectionState set \<Rightarrow> 's ConnectionState option) \<Rightarrow> Address \<Rightarrow> ('h, 's) VirtualDevice
   \<Rightarrow> 's ConnectionState option" where
  "connection_by_address pick peer_address d =
     pick {conn \<in> ran (vd_connections d). conn_peer_address conn = peer_address}"

fun unsubscribe_loop :: "u16 \<Rightarrow> (u16 \<times> u16) list \<Rightarrow> ('h, 's) VirtualDevice \<Rightarrow> ('h, 's) VirtualDevice" where
  "unsubscribe_loop handle [] d = d"
| "unsubscribe_loop handle ((cccd_handle, prev) # rest) d =
     unsubscribe_loop handle rest
       (notify_subscription handle cccd_handle prev 0 ReasonDisconnect
         (d\<lparr>vd_gatt_db := snd (set_value (vd_gatt_db d) cccd_handle [0x00, 0x00])\<rparr>))"

definition on_disconnected :: "u16 \<Rightarrow> ('h, 's) VirtualDevice \<Rightarrow> ('h, 's) VirtualDevice" where
  "on_disconnected handle d =
     (let removed = vd_connections d handle;
          d = d\<lparr>vd_connections := (vd_connections d)(handle := None)\<rparr>;
          d = (if removed \<noteq> None then unsubscribe_loop handle (subscribed_cccds d) d else d)
      in observe (on_connection_state_changed handle
           (case removed of Some c \<Rightarrow> conn_peer_address c | None \<Rightarrow> Address_ANY) False) d)"

section \<open>Audio\<close>

definition take_audio :: "('h, 's) VirtualDevice \<Rightarrow> bytes list \<times> ('h, 's) VirtualDevice" where
  "take_audio d = (vd_audio_rx d, d\<lparr>vd_audio_rx := []\<rparr>)"

abbreviation (input) MAX_QUEUED_SDUS :: nat where "MAX_QUEUED_SDUS \<equiv> 256"

definition on_iso_sdu :: "bytes \<Rightarrow> ('h, 's) VirtualDevice \<Rightarrow> ('h, 's) VirtualDevice" where
  "on_iso_sdu payload d =
     (let q = (if MAX_QUEUED_SDUS \<le> length (vd_audio_rx d) then tl (vd_audio_rx d) else vd_audio_rx d)
      in d\<lparr>vd_audio_rx := q @ [payload]\<rparr>)"

definition audio_handle :: "(u16 set \<Rightarrow> u16 option) \<Rightarrow> ('h, 's) VirtualDevice \<Rightarrow> u16 option" where
  "audio_handle pick d =
     (case vd_cis_handle d of Some h \<Rightarrow> Some h | None \<Rightarrow> pick (dom (vd_connections d)))"

definition build_audio_packet ::
  "u16 \<Rightarrow> bytes \<Rightarrow> ('h, 's) VirtualDevice \<Rightarrow> bytes option \<times> ('h, 's) VirtualDevice" where
  "build_audio_packet handle sdu d =
     (if vd_cis_handle d \<noteq> Some handle \<and> vd_connections d handle = None then (None, d)
      else (Some (build_iso_packet handle (vd_audio_tx_sequence d) sdu),
            d\<lparr>vd_audio_tx_sequence := vd_audio_tx_sequence d + 1\<rparr>))"

section \<open>Pairing\<close>

text \<open>The link state mirrored from the session after a step, and the two calls that make a session.\<close>

definition mirror_session :: "'s PairingSession \<Rightarrow> 's ConnectionState \<Rightarrow> 's ConnectionState" where
  "mirror_session session conn =
     conn\<lparr>conn_pairing_session := Some session, conn_is_encrypted := ps_is_encrypted session,
          conn_ltk := session_ltk session\<rparr>"

definition process_smp_packet ::
  "'s p256 \<Rightarrow> 's P256Keypair \<Rightarrow> nonces \<Rightarrow> u16 \<Rightarrow> bytes \<Rightarrow> ('h, 's) VirtualDevice
   \<Rightarrow> (bytes option result \<times> ('h, 's) VirtualDevice) option" where
  "process_smp_packet ec gen rnd connection_handle pdu d =
     (case vd_connections d connection_handle of
        None \<Rightarrow> Some (Inl (DeviceError ''Connection not found''), d)
      | Some conn \<Rightarrow>
          if conn_pairing_session conn = None \<and> \<not> (pdu \<noteq> [] \<and> pdu ! 0 = smp_PAIRING_REQUEST)
          then Some (Inr None, d)
          else case (case conn_pairing_session conn of
                 Some session \<Rightarrow> Some session
               | None \<Rightarrow> PairingSession_new ec gen rnd Responder
                   (PairingConfig_default\<lparr>pc_defer_key_distribution := vd_defer_key_distribution d\<rparr>)
                   (vd_address d) (vd_address_type d) (conn_peer_address conn) (conn_peer_address_type conn)) of
            None \<Rightarrow> None
          | Some session \<Rightarrow>
              (case handle_pdu ec rnd pdu session of
                 None \<Rightarrow> None
               | Some (reply, session) \<Rightarrow>
                   Some (Inr reply, maybe_record_bond connection_handle
                     (modify_connection connection_handle (mirror_session session) d))))"

definition start_pairing_with_config ::
  "'s p256 \<Rightarrow> 's P256Keypair \<Rightarrow> nonces \<Rightarrow> u16 \<Rightarrow> PairingConfig \<Rightarrow> ('h, 's) VirtualDevice
   \<Rightarrow> (bytes result \<times> ('h, 's) VirtualDevice) option" where
  "start_pairing_with_config ec gen rnd connection_handle config d =
     (case vd_connections d connection_handle of
        None \<Rightarrow> Some (Inl (DeviceError ''Connection not found''), d)
      | Some conn \<Rightarrow>
          if (case conn_pairing_session conn of Some s \<Rightarrow> ps_timed_out s | None \<Rightarrow> False)
          then Some (Inl (DeviceError
            ''Connection: the Security Manager timed out; a new pairing needs a new physical link''), d)
          else case PairingSession_new ec gen rnd Initiator config (vd_address d) (vd_address_type d)
              (conn_peer_address conn) (conn_peer_address_type conn) of
            None \<Rightarrow> None
          | Some session \<Rightarrow>
              (case session_start session of
                 (request, session) \<Rightarrow>
                   Some (Inr (L2capHeader_serialize cid_SMP request),
                     modify_connection connection_handle (\<lambda>c. c\<lparr>conn_pairing_session := Some session\<rparr>) d)))"

definition start_pairing ::
  "'s p256 \<Rightarrow> 's P256Keypair \<Rightarrow> nonces \<Rightarrow> u16 \<Rightarrow> ('h, 's) VirtualDevice
   \<Rightarrow> (bytes result \<times> ('h, 's) VirtualDevice) option" where
  "start_pairing ec gen rnd connection_handle d =
     start_pairing_with_config ec gen rnd connection_handle PairingConfig_default d"

definition tick_connection :: "real \<Rightarrow> 's ConnectionState \<Rightarrow> 's ConnectionState" where
  "tick_connection t_seconds conn =
     (case conn_pairing_session conn of
        None \<Rightarrow> conn
      | Some session \<Rightarrow>
          (case session_tick t_seconds session of
             (expired, session) \<Rightarrow>
               let conn = conn\<lparr>conn_pairing_session := Some session\<rparr>
               in if expired then conn\<lparr>conn_is_encrypted := False, conn_ltk := None\<rparr> else conn))"

definition tick_smp :: "real \<Rightarrow> ('h, 's) VirtualDevice \<Rightarrow> ('h, 's) VirtualDevice" where
  "tick_smp t_seconds d =
     d\<lparr>vd_connections := (\<lambda>h. map_option (tick_connection t_seconds) (vd_connections d h))\<rparr>"

definition poll_smp_pdu :: "u16 \<Rightarrow> ('h, 's) VirtualDevice \<Rightarrow> bytes option \<times> ('h, 's) VirtualDevice" where
  "poll_smp_pdu connection_handle d =
     (case vd_connections d connection_handle of
        None \<Rightarrow> (None, d)
      | Some conn \<Rightarrow>
     (case conn_pairing_session conn of
        None \<Rightarrow> (None, d)
      | Some session \<Rightarrow>
     (case poll_pending session of
        (None, session) \<Rightarrow>
          (None, modify_connection connection_handle (\<lambda>c. c\<lparr>conn_pairing_session := Some session\<rparr>) d)
      | (Some pdu, session) \<Rightarrow>
          (Some (L2capHeader_serialize cid_SMP pdu), maybe_record_bond connection_handle
            (modify_connection connection_handle (mirror_session session) d)))))"

section \<open>Notifications and indications\<close>

definition create_notification_for ::
  "u16 \<Rightarrow> u16 \<Rightarrow> bytes \<Rightarrow> ('h, 's) VirtualDevice \<Rightarrow> bytes \<times> ('h, 's) VirtualDevice" where
  "create_notification_for connection_handle handle v d =
     (let pdu = AttHandleValueHeader_as_bytes (AttHandleValueHeader_new opcode_HANDLE_VALUE_NTF handle) @ v
      in (L2capHeader_serialize cid_ATT pdu, observe (on_notification_sent connection_handle handle False) d))"

definition create_notification ::
  "u16 \<Rightarrow> bytes \<Rightarrow> ('h, 's) VirtualDevice \<Rightarrow> bytes \<times> ('h, 's) VirtualDevice" where
  "create_notification handle v d = create_notification_for 0x0000 handle v d"

definition create_indication ::
  "u16 \<Rightarrow> u16 \<Rightarrow> bytes \<Rightarrow> ('h, 's) VirtualDevice \<Rightarrow> bytes result \<times> ('h, 's) VirtualDevice" where
  "create_indication connection_handle handle v d =
     (case vd_connections d connection_handle of
        None \<Rightarrow> (Inl (DeviceError ''Connection not found''), d)
      | Some conn \<Rightarrow>
          if conn_pending_indication conn
          then (Inl (DeviceError ''Indication already in flight, waiting for confirmation''), d)
          else
            let d = modify_connection connection_handle (\<lambda>c. c\<lparr>conn_pending_indication := True\<rparr>) d;
                pdu = AttHandleValueHeader_as_bytes (AttHandleValueHeader_new opcode_HANDLE_VALUE_IND handle) @ v
            in (Inr (L2capHeader_serialize cid_ATT pdu),
                observe (on_notification_sent connection_handle handle True) d))"

end
