(* ===== verification/Att_Parser.thy ===== *)
theory Att_Parser
  imports Att_Pdu
begin

text \<open>
  Parsing whole ATT packets (\<open>src/src/packets/att.rs\<close>): lists of fixed-size items, the attribute
  data lists whose item length comes from a header, and \<^verbatim>\<open>AttPdu::parse\<close>. The theorems say that the
  parser inverts the wire format and that a list response is read back item by item.
\<close>

section \<open>Lists of items\<close>

definition typed_list :: "nat \<Rightarrow> (bytes \<Rightarrow> 'a) \<Rightarrow> bytes \<Rightarrow> 'a list" where
  "typed_list sz dec bs =
     (let whole = length bs - length bs mod sz;
          items = take whole bs
      in map (\<lambda>i. dec (take sz (drop (i * sz) items))) [0..<whole div sz])"

record AttDataListIter =
  adl_data :: bytes
  adl_item_len :: nat

definition AttDataListIter_new :: "bytes \<Rightarrow> nat \<Rightarrow> AttDataListIter" where
  "AttDataListIter_new data item_len = \<lparr>adl_data = data, adl_item_len = item_len\<rparr>"

text \<open>\<open>sz\<close> and \<open>dec\<close> are the layout of the item prefix type \<^verbatim>\<open>H\<close>.\<close>

definition AttDataListIter_next ::
  "nat \<Rightarrow> (bytes \<Rightarrow> 'h) \<Rightarrow> AttDataListIter \<Rightarrow> ('h \<times> bytes) option \<times> AttDataListIter" where
  "AttDataListIter_next sz dec it =
     (if adl_item_len it = 0 \<or> length (adl_data it) < adl_item_len it then
        (None, it\<lparr>adl_data := []\<rparr>)
      else
        (from_prefix sz dec (take (adl_item_len it) (adl_data it)),
         it\<lparr>adl_data := drop (adl_item_len it) (adl_data it)\<rparr>))"

text \<open>What a loop over the iterator sees: the items up to the first \<^verbatim>\<open>None\<close>.\<close>

function AttDataListIter_collect :: "nat \<Rightarrow> (bytes \<Rightarrow> 'h) \<Rightarrow> AttDataListIter \<Rightarrow> ('h \<times> bytes) list" where
  "AttDataListIter_collect sz dec it =
     (case AttDataListIter_next sz dec it of
        (None, _) \<Rightarrow> []
      | (Some item, it') \<Rightarrow> item # AttDataListIter_collect sz dec it')"
  by pat_completeness auto
termination
  by (relation "measure (\<lambda>(_, _, it). length (adl_data it))")
    (auto simp: AttDataListIter_next_def split: if_splits)

declare AttDataListIter_collect.simps [simp del]

abbreviation (input) FORMAT_UUID16 :: u8 where "FORMAT_UUID16 \<equiv> 0x01"
abbreviation (input) FORMAT_UUID128 :: u8 where "FORMAT_UUID128 \<equiv> 0x02"

definition AttFindInformationRspHeader_item_len :: "AttFindInformationRspHeader \<Rightarrow> nat option" where
  "AttFindInformationRspHeader_item_len h =
     (if fir_format h = FORMAT_UUID16 then Some (2 + 2)
      else if fir_format h = FORMAT_UUID128 then Some (2 + 16)
      else None)"

definition AttFindInformationRspHeader_items ::
  "AttFindInformationRspHeader \<Rightarrow> bytes \<Rightarrow> AttDataListIter option" where
  "AttFindInformationRspHeader_items h information_data =
     map_option (AttDataListIter_new information_data) (AttFindInformationRspHeader_item_len h)"

definition AttReadByTypeRspHeader_items ::
  "AttReadByTypeRspHeader \<Rightarrow> bytes \<Rightarrow> AttDataListIter option" where
  "AttReadByTypeRspHeader_items h attribute_data_list =
     (let item_len = unat (rtr_length h) in
      if item_len < 2 then None else Some (AttDataListIter_new attribute_data_list item_len))"

definition AttReadByGroupTypeRspHeader_items ::
  "AttReadByGroupTypeRspHeader \<Rightarrow> bytes \<Rightarrow> AttDataListIter option" where
  "AttReadByGroupTypeRspHeader_items h attribute_data_list =
     (let item_len = unat (rgr_length h) in
      if item_len < 4 then None else Some (AttDataListIter_new attribute_data_list item_len))"

abbreviation (input) EXECUTE_CANCEL :: u8 where "EXECUTE_CANCEL \<equiv> 0x00"
abbreviation (input) EXECUTE_WRITE :: u8 where "EXECUTE_WRITE \<equiv> 0x01"

section \<open>Whole packets\<close>

datatype AttPdu =
    ErrorRsp AttErrorRsp
  | ExchangeMtuReq AttExchangeMtuReq
  | ExchangeMtuRsp AttExchangeMtuRsp
  | FindInformationReq AttFindInformationReq
  | FindInformationRsp AttFindInformationRspHeader bytes
  | FindByTypeValueReq AttFindByTypeValueReqHeader bytes
  | FindByTypeValueRsp "AttHandlesInformation list"
  | ReadByTypeReq AttReadByTypeReqHeader bytes
  | ReadByTypeRsp AttReadByTypeRspHeader bytes
  | ReadReq AttReadReq
  | ReadRsp bytes
  | ReadBlobReq AttReadBlobReq
  | ReadBlobRsp bytes
  | ReadMultipleReq "u16 list"
  | ReadMultipleRsp bytes
  | ReadByGroupTypeReq AttReadByGroupTypeReqHeader bytes
  | ReadByGroupTypeRsp AttReadByGroupTypeRspHeader bytes
  | WriteReq AttWriteReqHeader bytes
  | WriteRsp
  | WriteCmd AttWriteReqHeader bytes
  | PrepareWriteReq AttPrepareWriteReqHeader bytes
  | PrepareWriteRsp AttPrepareWriteRspHeader bytes
  | ExecuteWriteReq AttExecuteWriteReq
  | ExecuteWriteRsp
  | HandleValueNotify AttHandleValueHeader bytes
  | HandleValueInd AttHandleValueHeader bytes
  | HandleValueCfm
  | Unknown u8 bytes

definition u16_of_bytes :: "bytes \<Rightarrow> u16" where
  "u16_of_bytes bs = from_le_bytes (bs ! 0) (bs ! 1)"

definition AttPdu_parse :: "bytes \<Rightarrow> AttPdu option" where
  "AttPdu_parse bs =
     (case bs of
        [] \<Rightarrow> None
      | op # payload \<Rightarrow>
          if op = opcode_ERROR_RSP then
            map_option (\<lambda>(r, _). ErrorRsp r) (AttErrorRsp_parse bs)
          else if op = opcode_EXCHANGE_MTU_REQ then
            map_option (\<lambda>(r, _). ExchangeMtuReq r) (AttExchangeMtuReq_parse bs)
          else if op = opcode_EXCHANGE_MTU_RSP then
            map_option (\<lambda>(r, _). ExchangeMtuRsp r) (AttExchangeMtuRsp_parse bs)
          else if op = opcode_FIND_INFORMATION_REQ then
            map_option (\<lambda>(r, _). FindInformationReq r) (AttFindInformationReq_parse bs)
          else if op = opcode_FIND_INFORMATION_RSP then
            map_option (\<lambda>(h, rest). FindInformationRsp h rest) (AttFindInformationRspHeader_parse bs)
          else if op = opcode_FIND_BY_TYPE_VALUE_REQ then
            map_option (\<lambda>(h, rest). FindByTypeValueReq h rest) (AttFindByTypeValueReqHeader_parse bs)
          else if op = opcode_FIND_BY_TYPE_VALUE_RSP then
            Some (FindByTypeValueRsp (typed_list 4 AttHandlesInformation_of_bytes payload))
          else if op = opcode_READ_BY_TYPE_REQ then
            map_option (\<lambda>(h, rest). ReadByTypeReq h rest) (AttReadByTypeReqHeader_parse bs)
          else if op = opcode_READ_BY_TYPE_RSP then
            map_option (\<lambda>(h, rest). ReadByTypeRsp h rest) (AttReadByTypeRspHeader_parse bs)
          else if op = opcode_READ_REQ then
            map_option (\<lambda>(r, _). ReadReq r) (AttReadReq_parse bs)
          else if op = opcode_READ_RSP then
            Some (ReadRsp payload)
          else if op = opcode_READ_BLOB_REQ then
            map_option (\<lambda>(r, _). ReadBlobReq r) (AttReadBlobReq_parse bs)
          else if op = opcode_READ_BLOB_RSP then
            Some (ReadBlobRsp payload)
          else if op = opcode_READ_MULTIPLE_REQ then
            Some (ReadMultipleReq (typed_list 2 u16_of_bytes payload))
          else if op = opcode_READ_MULTIPLE_RSP then
            Some (ReadMultipleRsp payload)
          else if op = opcode_READ_BY_GROUP_TYPE_REQ then
            map_option (\<lambda>(h, rest). ReadByGroupTypeReq h rest) (AttReadByGroupTypeReqHeader_parse bs)
          else if op = opcode_READ_BY_GROUP_TYPE_RSP then
            map_option (\<lambda>(h, rest). ReadByGroupTypeRsp h rest) (AttReadByGroupTypeRspHeader_parse bs)
          else if op = opcode_WRITE_REQ then
            map_option (\<lambda>(h, rest). WriteReq h rest) (AttWriteReqHeader_parse bs)
          else if op = opcode_WRITE_RSP then
            Some WriteRsp
          else if op = opcode_WRITE_CMD then
            map_option (\<lambda>(h, rest). WriteCmd h rest) (AttWriteReqHeader_parse bs)
          else if op = opcode_PREPARE_WRITE_REQ then
            map_option (\<lambda>(h, rest). PrepareWriteReq h rest) (AttPrepareWriteReqHeader_parse bs)
          else if op = opcode_PREPARE_WRITE_RSP then
            map_option (\<lambda>(h, rest). PrepareWriteRsp h rest) (AttPrepareWriteRspHeader_parse bs)
          else if op = opcode_EXECUTE_WRITE_REQ then
            map_option (\<lambda>(r, _). ExecuteWriteReq r) (AttExecuteWriteReq_parse bs)
          else if op = opcode_EXECUTE_WRITE_RSP then
            Some ExecuteWriteRsp
          else if op = opcode_HANDLE_VALUE_NTF then
            map_option (\<lambda>(h, rest). HandleValueNotify h rest) (AttHandleValueHeader_parse bs)
          else if op = opcode_HANDLE_VALUE_IND then
            map_option (\<lambda>(h, rest). HandleValueInd h rest) (AttHandleValueHeader_parse bs)
          else if op = opcode_HANDLE_VALUE_CFM then
            Some HandleValueCfm
          else Some (Unknown op payload))"

section \<open>The wire format\<close>

text \<open>The bytes of a packet, and when they carry the opcode its constructor stands for.\<close>

fun AttPdu_bytes :: "AttPdu \<Rightarrow> bytes" where
  "AttPdu_bytes (ErrorRsp r) = AttErrorRsp_as_bytes r"
| "AttPdu_bytes (ExchangeMtuReq r) = AttExchangeMtuReq_as_bytes r"
| "AttPdu_bytes (ExchangeMtuRsp r) = AttExchangeMtuRsp_as_bytes r"
| "AttPdu_bytes (FindInformationReq r) = AttFindInformationReq_as_bytes r"
| "AttPdu_bytes (FindInformationRsp h v) = AttFindInformationRspHeader_as_bytes h @ v"
| "AttPdu_bytes (FindByTypeValueReq h v) = AttFindByTypeValueReqHeader_as_bytes h @ v"
| "AttPdu_bytes (FindByTypeValueRsp xs) = opcode_FIND_BY_TYPE_VALUE_RSP # concat (map AttHandlesInformation_as_bytes xs)"
| "AttPdu_bytes (ReadByTypeReq h v) = AttReadByTypeReqHeader_as_bytes h @ v"
| "AttPdu_bytes (ReadByTypeRsp h v) = AttReadByTypeRspHeader_as_bytes h @ v"
| "AttPdu_bytes (ReadReq r) = AttReadReq_as_bytes r"
| "AttPdu_bytes (ReadRsp v) = opcode_READ_RSP # v"
| "AttPdu_bytes (ReadBlobReq r) = AttReadBlobReq_as_bytes r"
| "AttPdu_bytes (ReadBlobRsp v) = opcode_READ_BLOB_RSP # v"
| "AttPdu_bytes (ReadMultipleReq xs) = opcode_READ_MULTIPLE_REQ # concat (map to_le_bytes xs)"
| "AttPdu_bytes (ReadMultipleRsp v) = opcode_READ_MULTIPLE_RSP # v"
| "AttPdu_bytes (ReadByGroupTypeReq h v) = AttReadByGroupTypeReqHeader_as_bytes h @ v"
| "AttPdu_bytes (ReadByGroupTypeRsp h v) = AttReadByGroupTypeRspHeader_as_bytes h @ v"
| "AttPdu_bytes (WriteReq h v) = AttWriteReqHeader_as_bytes h @ v"
| "AttPdu_bytes WriteRsp = [opcode_WRITE_RSP]"
| "AttPdu_bytes (WriteCmd h v) = AttWriteReqHeader_as_bytes h @ v"
| "AttPdu_bytes (PrepareWriteReq h v) = AttPrepareWriteReqHeader_as_bytes h @ v"
| "AttPdu_bytes (PrepareWriteRsp h v) = AttPrepareWriteRspHeader_as_bytes h @ v"
| "AttPdu_bytes (ExecuteWriteReq r) = AttExecuteWriteReq_as_bytes r"
| "AttPdu_bytes ExecuteWriteRsp = [opcode_EXECUTE_WRITE_RSP]"
| "AttPdu_bytes (HandleValueNotify h v) = AttHandleValueHeader_as_bytes h @ v"
| "AttPdu_bytes (HandleValueInd h v) = AttHandleValueHeader_as_bytes h @ v"
| "AttPdu_bytes HandleValueCfm = [opcode_HANDLE_VALUE_CFM]"
| "AttPdu_bytes (Unknown op v) = op # v"

definition known_opcodes :: "u8 set" where
  "known_opcodes =
     {opcode_ERROR_RSP, opcode_EXCHANGE_MTU_REQ, opcode_EXCHANGE_MTU_RSP,
      opcode_FIND_INFORMATION_REQ, opcode_FIND_INFORMATION_RSP,
      opcode_FIND_BY_TYPE_VALUE_REQ, opcode_FIND_BY_TYPE_VALUE_RSP,
      opcode_READ_BY_TYPE_REQ, opcode_READ_BY_TYPE_RSP, opcode_READ_REQ, opcode_READ_RSP,
      opcode_READ_BLOB_REQ, opcode_READ_BLOB_RSP, opcode_READ_MULTIPLE_REQ,
      opcode_READ_MULTIPLE_RSP, opcode_READ_BY_GROUP_TYPE_REQ,
      opcode_READ_BY_GROUP_TYPE_RSP, opcode_WRITE_REQ, opcode_WRITE_RSP, opcode_WRITE_CMD,
      opcode_PREPARE_WRITE_REQ, opcode_PREPARE_WRITE_RSP, opcode_EXECUTE_WRITE_REQ,
      opcode_EXECUTE_WRITE_RSP, opcode_HANDLE_VALUE_NTF, opcode_HANDLE_VALUE_IND,
      opcode_HANDLE_VALUE_CFM}"

fun wf_AttPdu :: "AttPdu \<Rightarrow> bool" where
  "wf_AttPdu (ErrorRsp r) = (aer_opcode r = opcode_ERROR_RSP)"
| "wf_AttPdu (ExchangeMtuReq r) = (emq_opcode r = opcode_EXCHANGE_MTU_REQ)"
| "wf_AttPdu (ExchangeMtuRsp r) = (emr_opcode r = opcode_EXCHANGE_MTU_RSP)"
| "wf_AttPdu (FindInformationReq r) = (fiq_opcode r = opcode_FIND_INFORMATION_REQ)"
| "wf_AttPdu (FindInformationRsp r v) = (fir_opcode r = opcode_FIND_INFORMATION_RSP)"
| "wf_AttPdu (FindByTypeValueReq r v) = (fbq_opcode r = opcode_FIND_BY_TYPE_VALUE_REQ)"
| "wf_AttPdu (ReadByTypeReq r v) = (rtq_opcode r = opcode_READ_BY_TYPE_REQ)"
| "wf_AttPdu (ReadByTypeRsp r v) = (rtr_opcode r = opcode_READ_BY_TYPE_RSP)"
| "wf_AttPdu (ReadReq r) = (rrq_opcode r = opcode_READ_REQ)"
| "wf_AttPdu (ReadBlobReq r) = (rbq_opcode r = opcode_READ_BLOB_REQ)"
| "wf_AttPdu (ReadByGroupTypeReq r v) = (rgq_opcode r = opcode_READ_BY_GROUP_TYPE_REQ)"
| "wf_AttPdu (ReadByGroupTypeRsp r v) = (rgr_opcode r = opcode_READ_BY_GROUP_TYPE_RSP)"
| "wf_AttPdu (WriteReq r v) = (wrq_opcode r = opcode_WRITE_REQ)"
| "wf_AttPdu (WriteCmd r v) = (wrq_opcode r = opcode_WRITE_CMD)"
| "wf_AttPdu (PrepareWriteReq r v) = (pwq_opcode r = opcode_PREPARE_WRITE_REQ)"
| "wf_AttPdu (PrepareWriteRsp r v) = (pwr_opcode r = opcode_PREPARE_WRITE_RSP)"
| "wf_AttPdu (ExecuteWriteReq r) = (ewq_opcode r = opcode_EXECUTE_WRITE_REQ)"
| "wf_AttPdu (HandleValueNotify r v) = (hvh_opcode r = opcode_HANDLE_VALUE_NTF)"
| "wf_AttPdu (HandleValueInd r v) = (hvh_opcode r = opcode_HANDLE_VALUE_IND)"
| "wf_AttPdu (Unknown op v) = (op \<notin> known_opcodes)"
| "wf_AttPdu p = True"

section \<open>Round trips\<close>

lemma chunks_concat:
  assumes "list_all (\<lambda>x. length x = k) xs"
  shows "map (\<lambda>i. take k (drop (i * k) (concat xs))) [0..<length xs] = xs"
  using assms
proof (induction xs)
  case Nil
  then show ?case by simp
next
  case (Cons x xs)
  have "map (\<lambda>i. take k (drop (i * k) (concat (x # xs)))) [0..<length (x # xs)]
    = x # map (\<lambda>i. take k (drop (i * k) (concat xs))) [0..<length xs]"
    using Cons.prems by (simp add: upt_conv_Cons map_Suc_upt [symmetric] del: upt_Suc)
  with Cons show ?case by simp
qed

lemma concat_chunks: "concat (map (\<lambda>i. take k (drop (i * k) ys)) [0..<m]) = take (m * k) ys"
  by (induction m) (simp_all add: take_add [symmetric] add.commute)

lemma length_concat_same: "list_all (\<lambda>x. length x = k) xs \<Longrightarrow> length (concat xs) = length xs * k"
  by (induction xs) auto

lemma AttDataListIter_collect_step:
  assumes "length item = n" "0 < n"
  shows "AttDataListIter_collect sz dec \<lparr>adl_data = item @ rest, adl_item_len = n\<rparr> =
    (case from_prefix sz dec item of
       None \<Rightarrow> []
     | Some x \<Rightarrow> x # AttDataListIter_collect sz dec \<lparr>adl_data = rest, adl_item_len = n\<rparr>)"
  using assms
  by (subst AttDataListIter_collect.simps) (simp add: AttDataListIter_next_def split: option.splits)

lemma impl_att_parse_Some:
  "impl_att_parse sz dec opc expected bs = Some (x, rest)
     \<longleftrightarrow> from_prefix sz dec bs = Some (x, rest) \<and> opc x = expected"
  by (auto simp: impl_att_parse_def split: option.splits if_splits)

lemma impl_att_parse2_Some:
  "impl_att_parse2 sz dec opc op1 op2 bs = Some (x, rest)
     \<longleftrightarrow> from_prefix sz dec bs = Some (x, rest) \<and> opc x \<in> {op1, op2}"
  by (auto simp: impl_att_parse2_def split: option.splits if_splits)

context wire_layout
begin

lemma att_parse_Some_iff:
  "impl_att_parse sz dec opc expected bs = Some (x, rest)
     \<longleftrightarrow> valid x \<and> opc x = expected \<and> bs = enc x @ rest"
  unfolding impl_att_parse_Some prefix_Some_iff by blast

lemma att_parse2_Some_iff:
  "impl_att_parse2 sz dec opc op1 op2 bs = Some (x, rest)
     \<longleftrightarrow> valid x \<and> opc x \<in> {op1, op2} \<and> bs = enc x @ rest"
  unfolding impl_att_parse2_Some prefix_Some_iff by blast

lemma typed_list_enc:
  assumes "list_all valid xs" "0 < sz" "length partial < sz"
  shows "typed_list sz dec (concat (map enc xs) @ partial) = xs"
proof -
  have lens: "list_all (\<lambda>e. length e = sz) (map enc xs)"
    using assms(1) by (auto simp: list_all_iff length_enc)
  have whole: "length (concat (map enc xs) @ partial) - length (concat (map enc xs) @ partial) mod sz
      = length xs * sz"
    using length_concat_same [OF lens] assms(3) by simp
  have "map (\<lambda>i. dec (take sz (drop (i * sz) (concat (map enc xs))))) [0..<length xs] = map dec (map enc xs)"
    using arg_cong [OF chunks_concat [OF lens], of "map dec"] by (simp add: comp_def)
  also have "\<dots> = xs"
    using assms(1) by (induction xs) (auto simp: dec_enc)
  finally show ?thesis
    unfolding typed_list_def Let_def whole
    using length_concat_same [OF lens] assms(2) by (simp del: map_map)
qed

lemma enc_typed_list:
  assumes "0 < sz"
  shows "concat (map enc (typed_list sz dec bs)) = take (length bs - length bs mod sz) bs"
proof -
  define m where "m = length bs div sz"
  have whole: "length bs - length bs mod sz = m * sz"
    by (simp add: m_def minus_mod_eq_div_mult)
  have le: "m * sz \<le> length bs"
    using whole by (metis diff_le_self)
  have "length (take sz (drop (i * sz) (take (m * sz) bs))) = sz" if "i < m" for i
  proof -
    have "Suc i * sz \<le> m * sz" using that by (intro mult_le_mono1) simp
    with le show ?thesis by (simp add: min_absorb2)
  qed
  then have "map enc (typed_list sz dec bs) = map (\<lambda>i. take sz (drop (i * sz) (take (m * sz) bs))) [0..<m]"
    unfolding typed_list_def Let_def whole using assms by (simp add: enc_dec)
  then show ?thesis
    using concat_chunks [of sz "take (m * sz) bs" m] by (simp add: whole)
qed

lemma collect_items:
  assumes "list_all (\<lambda>(x, v). valid x \<and> length v = n) items" "0 < sz" "length partial < sz + n"
  shows "AttDataListIter_collect sz dec
      (AttDataListIter_new (concat (map (\<lambda>(x, v). enc x @ v) items) @ partial) (sz + n)) = items"
  using assms(1)
proof (induction items)
  case Nil
  then show ?case
    using assms(3) by (subst AttDataListIter_collect.simps)
      (simp add: AttDataListIter_new_def AttDataListIter_next_def)
next
  case (Cons item items)
  obtain x v where item: "item = (x, v)" "valid x" "length v = n"
    using Cons.prems by (cases item) auto
  with assms(2) have "length (enc x @ v) = sz + n" "0 < sz + n"
    by (simp_all add: length_enc)
  from AttDataListIter_collect_step [OF this, of sz dec] Cons item show ?case
    by (simp add: AttDataListIter_new_def prefix_enc)
qed

end

interpretation u16_layout: wire_layout 2 "\<lambda>_. True" to_le_bytes u16_of_bytes
  by unfold_locales (auto simp: u16_of_bytes_def to_le_bytes_def list_of_length)

lemmas att_eval = att_parse_defs impl_att_parse_def impl_att_parse2_def from_prefix_def
  att_layout_defs to_le_bytes_def

lemma parse_AttPdu_bytes:
  assumes "wf_AttPdu p"
  shows "AttPdu_parse (AttPdu_bytes p) = Some p"
proof (cases p)
  case (FindByTypeValueRsp xs)
  then show ?thesis
    using ahi_layout.typed_list_enc [of xs "[]"] by (simp add: AttPdu_parse_def list_all_iff)
next
  case (ReadMultipleReq xs)
  then show ?thesis
    using u16_layout.typed_list_enc [of xs "[]"] by (simp add: AttPdu_parse_def list_all_iff)
qed (use assms in \<open>simp_all add: AttPdu_parse_def att_eval known_opcodes_def\<close>)

text \<open>C30: Every packet is read back from its wire format, whatever its kind, values and lists.\<close>
theorem AttPdu_round_trip:
  assumes "wf_AttPdu p"
  shows "AttPdu_parse (AttPdu_bytes p) = Some p"
  using assms by (rule parse_AttPdu_bytes)

theorem AttPdu_round_trip_witness:
  "wf_AttPdu (WriteReq \<lparr>wrq_opcode = 0x12, wrq_handle = 0x2A\<rparr> [1, 2, 3])
   \<and> AttPdu_bytes (WriteReq \<lparr>wrq_opcode = 0x12, wrq_handle = 0x2A\<rparr> [1, 2, 3]) = [0x12, 0x2A, 0, 1, 2, 3]
   \<and> AttPdu_parse [0x12, 0x2A, 0, 1, 2, 3] = Some (WriteReq \<lparr>wrq_opcode = 0x12, wrq_handle = 0x2A\<rparr> [1, 2, 3])"
  using AttPdu_round_trip [of "WriteReq \<lparr>wrq_opcode = 0x12, wrq_handle = 0x2A\<rparr> [1, 2, 3]"]
  by (simp add: att_layout_defs to_le_bytes_def)

lemmas att_parse_iffs =
  aer_layout.att_parse_Some_iff emq_layout.att_parse_Some_iff emr_layout.att_parse_Some_iff
  fiq_layout.att_parse_Some_iff fir_layout.att_parse_Some_iff fbq_layout.att_parse_Some_iff
  rtq_layout.att_parse_Some_iff rtr_layout.att_parse_Some_iff rgq_layout.att_parse_Some_iff
  rgr_layout.att_parse_Some_iff rrq_layout.att_parse_Some_iff rbq_layout.att_parse_Some_iff
  wrq_layout.att_parse2_Some_iff pwq_layout.att_parse_Some_iff pwr_layout.att_parse_Some_iff
  ewq_layout.att_parse_Some_iff hvh_layout.att_parse2_Some_iff

lemma typed_list_bytes:
  "\<exists>rest. bs = concat (map AttHandlesInformation_as_bytes (typed_list 4 AttHandlesInformation_of_bytes bs)) @ rest"
  "\<exists>rest. bs = concat (map to_le_bytes (typed_list 2 u16_of_bytes bs)) @ rest"
  by (simp_all add: ahi_layout.enc_typed_list u16_layout.enc_typed_list) (metis append_take_drop_id)+

lemma parse_AttPdu_sound:
  assumes "AttPdu_parse bs = Some p"
  shows "wf_AttPdu p \<and> (\<exists>rest. bs = AttPdu_bytes p @ rest)"
proof (cases bs)
  case Nil
  with assms show ?thesis by (simp add: AttPdu_parse_def)
next
  case (Cons op payload)
  with assms show ?thesis
    using typed_list_bytes [of payload]
    by (simp add: AttPdu_parse_def split: if_splits)
      (auto simp: att_parse_defs att_parse_iffs att_layout_defs known_opcodes_def)
qed

text \<open>What the parser returns is what the bytes say: the packet carries the opcode of its
  constructor and its wire format is a prefix of the input (what follows a packet of fixed size is
  ignored).\<close>
theorem AttPdu_parse_sound:
  assumes "AttPdu_parse bs = Some p"
  shows "wf_AttPdu p \<and> (\<exists>rest. bs = AttPdu_bytes p @ rest)"
  using assms by (rule parse_AttPdu_sound)

theorem AttPdu_parse_sound_witness:
  "wf_AttPdu (ReadReq \<lparr>rrq_opcode = 0x0A, rrq_handle = 3\<rparr>)
   \<and> (\<exists>rest. [0x0A, 3, 0, 0xFF] = AttPdu_bytes (ReadReq \<lparr>rrq_opcode = 0x0A, rrq_handle = 3\<rparr>) @ rest)"
  by (rule AttPdu_parse_sound)
    (simp add: AttPdu_parse_def att_parse_defs impl_att_parse_def from_prefix_def
      AttReadReq_of_bytes_def from_le_bytes_def)

text \<open>The bytes a packet of each opcode needs at least.\<close>

definition att_min_len :: "u8 \<Rightarrow> nat" where
  "att_min_len op =
     (if op = opcode_FIND_BY_TYPE_VALUE_REQ then 7
      else if op \<in> {opcode_ERROR_RSP, opcode_FIND_INFORMATION_REQ, opcode_READ_BY_TYPE_REQ,
        opcode_READ_BLOB_REQ, opcode_READ_BY_GROUP_TYPE_REQ, opcode_PREPARE_WRITE_REQ,
        opcode_PREPARE_WRITE_RSP} then 5
      else if op \<in> {opcode_EXCHANGE_MTU_REQ, opcode_EXCHANGE_MTU_RSP, opcode_READ_REQ,
        opcode_WRITE_REQ, opcode_WRITE_CMD, opcode_HANDLE_VALUE_NTF, opcode_HANDLE_VALUE_IND} then 3
      else if op \<in> {opcode_FIND_INFORMATION_RSP, opcode_READ_BY_TYPE_RSP,
        opcode_READ_BY_GROUP_TYPE_RSP, opcode_EXECUTE_WRITE_REQ} then 2
      else 1)"

text \<open>The parser fails on the empty input and on truncated packets only; every other input is
  classified, an opcode it does not know included.\<close>
theorem AttPdu_parse_fails_iff_truncated:
  "AttPdu_parse bs = None \<longleftrightarrow> bs = [] \<or> length bs < att_min_len (hd bs)"
proof (cases bs)
  case (Cons op payload)
  then show ?thesis
    by (simp add: AttPdu_parse_def att_min_len_def) (auto simp: att_eval)
qed (simp add: AttPdu_parse_def)

section \<open>List responses\<close>

definition read_by_type_items :: "AttReadByTypeRspHeader \<Rightarrow> bytes \<Rightarrow> (AttReadByTypeItemHeader \<times> bytes) list option" where
  "read_by_type_items h data =
     map_option (AttDataListIter_collect 2 AttReadByTypeItemHeader_of_bytes)
       (AttReadByTypeRspHeader_items h data)"

definition read_by_group_type_items ::
  "AttReadByGroupTypeRspHeader \<Rightarrow> bytes \<Rightarrow> (AttReadByGroupTypeItemHeader \<times> bytes) list option" where
  "read_by_group_type_items h data =
     map_option (AttDataListIter_collect 4 AttReadByGroupTypeItemHeader_of_bytes)
       (AttReadByGroupTypeRspHeader_items h data)"

definition find_information_items ::
  "AttFindInformationRspHeader \<Rightarrow> bytes \<Rightarrow> (AttFindInformationItemHeader \<times> bytes) list option" where
  "find_information_items h data =
     map_option (AttDataListIter_collect 2 AttFindInformationItemHeader_of_bytes)
       (AttFindInformationRspHeader_items h data)"

lemma read_by_type_items_round_trip:
  assumes "list_all (\<lambda>(_, v). length v = n) items" "n \<le> 253" "length partial < 2 + n"
  shows "read_by_type_items (AttReadByTypeRspHeader_new n)
    (concat (map (\<lambda>(h, v). AttReadByTypeItemHeader_as_bytes h @ v) items) @ partial) = Some items"
proof -
  have "unat (of_nat (2 + n) :: u8) = 2 + n"
    using unat_of_nat_u8 [of "2 + n"] assms(2) by (simp del: of_nat_add of_nat_Suc)
  then show ?thesis
    using rti_layout.collect_items [of n items partial] assms
    by (simp add: read_by_type_items_def AttReadByTypeRspHeader_items_def AttReadByTypeRspHeader_new_def
        del: of_nat_add of_nat_Suc)
qed

lemma read_by_group_type_items_round_trip:
  assumes "list_all (\<lambda>(_, v). length v = n) items" "n \<le> 251" "length partial < 4 + n"
  shows "read_by_group_type_items (AttReadByGroupTypeRspHeader_new n)
    (concat (map (\<lambda>(h, v). AttReadByGroupTypeItemHeader_as_bytes h @ v) items) @ partial) = Some items"
proof -
  have "unat (of_nat (4 + n) :: u8) = 4 + n"
    using unat_of_nat_u8 [of "4 + n"] assms(2) by (simp del: of_nat_add of_nat_Suc)
  then show ?thesis
    using rgi_layout.collect_items [of n items partial] assms
    by (simp add: read_by_group_type_items_def AttReadByGroupTypeRspHeader_items_def
        AttReadByGroupTypeRspHeader_new_def del: of_nat_add of_nat_Suc)
qed

lemma find_information_items_round_trip:
  assumes "list_all (\<lambda>(_, v). length v = n) items" "length partial < 2 + n"
    and "format = FORMAT_UUID16 \<and> n = 2 \<or> format = FORMAT_UUID128 \<and> n = 16"
  shows "find_information_items (AttFindInformationRspHeader_new format)
    (concat (map (\<lambda>(h, v). AttFindInformationItemHeader_as_bytes h @ v) items) @ partial) = Some items"
  using fii_layout.collect_items [of n items partial] assms
  by (auto simp: find_information_items_def AttFindInformationRspHeader_items_def
      AttFindInformationRspHeader_item_len_def AttFindInformationRspHeader_new_def)

text \<open>A list response is read back entry by entry for all three list packets, a trailing
  partial entry being dropped, as long as the entry length fits its one-byte field: values of up
  to 253 bytes (Read By Type) and 251 bytes (Read By Group Type), UUIDs of the announced width
  (Find Information).\<close>
theorem att_list_responses_round_trip:
  assumes "list_all (\<lambda>(_, v). length v = n) ts" "n \<le> 253" "length pt < 2 + n"
    and "list_all (\<lambda>(_, v). length v = k) gs" "k \<le> 251" "length pg < 4 + k"
    and "list_all (\<lambda>(_, v). length v = 2) us" "length pu < 4"
  shows "read_by_type_items (AttReadByTypeRspHeader_new n)
      (concat (map (\<lambda>(h, v). AttReadByTypeItemHeader_as_bytes h @ v) ts) @ pt) = Some ts
    \<and> read_by_group_type_items (AttReadByGroupTypeRspHeader_new k)
      (concat (map (\<lambda>(h, v). AttReadByGroupTypeItemHeader_as_bytes h @ v) gs) @ pg) = Some gs
    \<and> find_information_items (AttFindInformationRspHeader_new FORMAT_UUID16)
      (concat (map (\<lambda>(h, v). AttFindInformationItemHeader_as_bytes h @ v) us) @ pu) = Some us"
  using assms
  by (intro conjI read_by_type_items_round_trip read_by_group_type_items_round_trip
      find_information_items_round_trip [where n = 2]) simp_all

theorem att_list_responses_round_trip_witness:
  "let ts = [(\<lparr>rti_attribute_handle = 3\<rparr>, [7])]; gs = [(AttReadByGroupTypeItemHeader_new 1 9, [0, 0x18])];
       us = [(AttFindInformationItemHeader_new 4, [2, 0x29])] in
    read_by_type_items (AttReadByTypeRspHeader_new 1)
      (concat (map (\<lambda>(h, v). AttReadByTypeItemHeader_as_bytes h @ v) ts) @ [3]) = Some ts
    \<and> read_by_group_type_items (AttReadByGroupTypeRspHeader_new 2)
      (concat (map (\<lambda>(h, v). AttReadByGroupTypeItemHeader_as_bytes h @ v) gs) @ []) = Some gs
    \<and> find_information_items (AttFindInformationRspHeader_new FORMAT_UUID16)
      (concat (map (\<lambda>(h, v). AttFindInformationItemHeader_as_bytes h @ v) us) @ []) = Some us"
  unfolding Let_def by (rule att_list_responses_round_trip) simp_all

text \<open>The one-byte entry length wraps: an entry whose value has 254 bytes is announced with
  length 0, and the reader finds no list in it.\<close>
theorem long_read_by_type_entry_unreadable:
  "rtr_length (AttReadByTypeRspHeader_new 254) = 0
    \<and> read_by_type_items (AttReadByTypeRspHeader_new 254) data = None"
  by (simp add: AttReadByTypeRspHeader_new_def read_by_type_items_def AttReadByTypeRspHeader_items_def)

end
