(* ===== verification/Att_Server.thy ===== *)
theory Att_Server
  imports Virtual_Device Att_Parser
begin

text \<open>
  The ATT server (\<open>src/src/device/att_server.rs\<close>) and the L2CAP dispatch of the device
  (\<open>process_l2cap_packet\<close> in \<open>src/src/device/virtual_device.rs\<close>). The parameter \<open>ow\<close> is what the write
  handlers installed in the database do. \<open>None\<close> is a panic: the only one is the handle overflow of
  \<^verbatim>\<open>group_end_handle\<close>.
\<close>

section \<open>Request handlers\<close>

definition att_error :: "u8 \<Rightarrow> u16 \<Rightarrow> u8 \<Rightarrow> bytes" where
  "att_error req_opcode handle code = AttErrorRsp_as_bytes (AttErrorRsp_new req_opcode handle code)"

definition att_exchange_mtu ::
  "u16 \<Rightarrow> AttExchangeMtuReq \<Rightarrow> ('h, 's) VirtualDevice \<Rightarrow> bytes option \<times> ('h, 's) VirtualDevice" where
  "att_exchange_mtu connection_handle req d =
     (let client_rx_mtu = emq_client_rx_mtu req;
          server_rx_mtu = 512;
          negotiated_mtu = max (min client_rx_mtu server_rx_mtu) 23;
          d = modify_connection connection_handle (\<lambda>c. c\<lparr>conn_mtu := negotiated_mtu\<rparr>) d;
          d = observe (on_mtu_changed connection_handle negotiated_mtu) d
      in (Some (AttExchangeMtuRsp_as_bytes (AttExchangeMtuRsp_new server_rx_mtu)), d))"

definition att_find_information :: "AttFindInformationReq \<Rightarrow> ('h, 's) VirtualDevice \<Rightarrow> bytes" where
  "att_find_information req d =
     (let start_handle = fiq_start_handle req;
          end_handle = fiq_end_handle req;
          info = find_information (vd_gatt_db d) start_handle end_handle
      in case info of
           [] \<Rightarrow> att_error opcode_FIND_INFORMATION_REQ start_handle error_ATTRIBUTE_NOT_FOUND
         | (_, uuid0) # _ \<Rightarrow>
             let format = (if Uuid_len uuid0 = 2 then FORMAT_UUID16 else FORMAT_UUID128);
                 header = AttFindInformationRspHeader_new format
             in AttFindInformationRspHeader_as_bytes header
               @ concat (map (\<lambda>(handle, uuid).
                     AttFindInformationItemHeader_as_bytes (AttFindInformationItemHeader_new handle)
                     @ Uuid_to_att_bytes uuid)
                   (filter (\<lambda>(_, uuid). AttFindInformationRspHeader_item_len header = Some (2 + Uuid_len uuid))
                     info)))"

definition att_read ::
  "u16 \<Rightarrow> AttReadReq \<Rightarrow> ('h, 's) VirtualDevice \<Rightarrow> bytes option \<times> ('h, 's) VirtualDevice" where
  "att_read connection_handle req d =
     (let handle = rrq_handle req;
          d = observe (on_characteristic_read connection_handle handle 0) d
      in case GattDatabase_read (vd_gatt_db d) handle 0 of
           Inr val \<Rightarrow> (Some (opcode_READ_RSP # val), d)
         | Inl code \<Rightarrow> (Some (att_error opcode_READ_REQ handle code), d))"

definition att_read_blob ::
  "u16 \<Rightarrow> AttReadBlobReq \<Rightarrow> ('h, 's) VirtualDevice \<Rightarrow> bytes option \<times> ('h, 's) VirtualDevice" where
  "att_read_blob connection_handle req d =
     (let handle = rbq_handle req;
          offset = rbq_offset req;
          d = observe (on_characteristic_read connection_handle handle offset) d
      in case GattDatabase_read (vd_gatt_db d) handle (unat offset) of
           Inr val \<Rightarrow> (Some (opcode_READ_BLOB_RSP # val), d)
         | Inl code \<Rightarrow> (Some (att_error opcode_READ_BLOB_REQ handle code), d))"

text \<open>The part the two kinds of write share: the observer call, the write, and the CCCD bookkeeping.\<close>

definition att_write_attribute ::
  "'h on_write \<Rightarrow> u16 \<Rightarrow> u16 \<Rightarrow> bytes \<Rightarrow> bool \<Rightarrow> ('h, 's) VirtualDevice
   \<Rightarrow> (u8 + unit) \<times> ('h, 's) VirtualDevice" where
  "att_write_attribute ow connection_handle handle v response_needed d =
     (let d = observe (on_characteristic_write connection_handle handle v response_needed) d;
          cccd_prev = cccd_value d handle;
          (res, db) = GattDatabase_write ow (vd_gatt_db d) handle v;
          d = d\<lparr>vd_gatt_db := db\<rparr>
      in case (res, cccd_prev) of
           (Inr _, Some prev) \<Rightarrow> (res, on_cccd_written connection_handle handle prev d)
         | _ \<Rightarrow> (res, d))"

definition att_write_req ::
  "'h on_write \<Rightarrow> u16 \<Rightarrow> AttWriteReqHeader \<Rightarrow> bytes \<Rightarrow> ('h, 's) VirtualDevice
   \<Rightarrow> bytes option \<times> ('h, 's) VirtualDevice" where
  "att_write_req ow connection_handle header v d =
     (let handle = wrq_handle header in
      case att_write_attribute ow connection_handle handle v True d of
        (Inr _, d) \<Rightarrow> (Some [opcode_WRITE_RSP], d)
      | (Inl code, d) \<Rightarrow> (Some (att_error opcode_WRITE_REQ handle code), d))"

definition att_write_cmd ::
  "'h on_write \<Rightarrow> u16 \<Rightarrow> AttWriteReqHeader \<Rightarrow> bytes \<Rightarrow> ('h, 's) VirtualDevice
   \<Rightarrow> bytes option \<times> ('h, 's) VirtualDevice" where
  "att_write_cmd ow connection_handle header v d =
     (None, snd (att_write_attribute ow connection_handle (wrq_handle header) v False d))"

definition att_prepare_write ::
  "u16 \<Rightarrow> AttPrepareWriteReqHeader \<Rightarrow> bytes \<Rightarrow> ('h, 's) VirtualDevice
   \<Rightarrow> bytes option \<times> ('h, 's) VirtualDevice" where
  "att_prepare_write connection_handle header part_value d =
     (let handle = pwq_handle header;
          offset = pwq_offset header;
          d = modify_connection connection_handle (\<lambda>c. c\<lparr>conn_prepare_write_queue :=
                conn_prepare_write_queue c
                @ [\<lparr>chunk_handle = handle, chunk_offset = offset, chunk_data = part_value\<rparr>]\<rparr>) d
      in (Some (AttPrepareWriteRspHeader_as_bytes (AttPrepareWriteRspHeader_new handle offset) @ part_value), d))"

fun write_chunks :: "PrepareWriteChunk list \<Rightarrow> 'h GattDatabase \<Rightarrow> 'h GattDatabase" where
  "write_chunks [] db = db"
| "write_chunks (c # cs) db =
     write_chunks cs (snd (write_offset db (chunk_handle c) (unat (chunk_offset c)) (chunk_data c)))"

definition att_execute_write ::
  "u16 \<Rightarrow> AttExecuteWriteReq \<Rightarrow> ('h, 's) VirtualDevice \<Rightarrow> bytes option \<times> ('h, 's) VirtualDevice" where
  "att_execute_write connection_handle req d =
     (let d' = (case vd_connections d connection_handle of
            None \<Rightarrow> d
          | Some conn \<Rightarrow>
              let d = modify_connection connection_handle (\<lambda>c. c\<lparr>conn_prepare_write_queue := []\<rparr>) d
              in if ewq_flags req = 0x01
                 then d\<lparr>vd_gatt_db := write_chunks (conn_prepare_write_queue conn) (vd_gatt_db d)\<rparr>
                 else d)
      in (Some [opcode_EXECUTE_WRITE_RSP], d'))"

fun group_entries :: "'h GattDatabase \<Rightarrow> nat \<Rightarrow> (u16 \<times> bytes) list \<Rightarrow> bytes option" where
  "group_entries db value_len [] = Some []"
| "group_entries db value_len ((handle, v) # rest) =
     (if length v \<noteq> value_len then Some []
      else case group_end_handle db handle of
        None \<Rightarrow> None
      | Some e \<Rightarrow>
          map_option (\<lambda>bs. AttReadByGroupTypeItemHeader_as_bytes (AttReadByGroupTypeItemHeader_new handle e) @ v @ bs)
            (group_entries db value_len rest))"

definition att_read_by_group_type ::
  "AttReadByGroupTypeReqHeader \<Rightarrow> bytes \<Rightarrow> ('h, 's) VirtualDevice \<Rightarrow> bytes option" where
  "att_read_by_group_type header group_type_bytes d =
     (let start_handle = rgq_start_handle header;
          end_handle = rgq_end_handle header;
          err = att_error opcode_READ_BY_GROUP_TYPE_REQ start_handle
      in if start_handle = 0 \<or> end_handle < start_handle then Some (err error_INVALID_HANDLE)
         else case Uuid_from_bytes group_type_bytes of
           None \<Rightarrow> Some (err error_INVALID_PDU)
         | Some uuid \<Rightarrow>
             (case read_by_type (vd_gatt_db d) start_handle end_handle uuid of
                [] \<Rightarrow> Some (err error_ATTRIBUTE_NOT_FOUND)
              | (h, v) # rest \<Rightarrow>
                  map_option (\<lambda>bs. AttReadByGroupTypeRspHeader_as_bytes (AttReadByGroupTypeRspHeader_new (length v)) @ bs)
                    (group_entries (vd_gatt_db d) (length v) ((h, v) # rest))))"

definition att_read_by_type ::
  "AttReadByTypeReqHeader \<Rightarrow> bytes \<Rightarrow> ('h, 's) VirtualDevice \<Rightarrow> bytes" where
  "att_read_by_type header uuid_bytes d =
     (let start_handle = rtq_start_handle header;
          end_handle = rtq_end_handle header;
          err = att_error opcode_READ_BY_TYPE_REQ start_handle
      in if start_handle = 0 \<or> end_handle < start_handle then err error_INVALID_HANDLE
         else case Uuid_from_bytes uuid_bytes of
           None \<Rightarrow> err error_INVALID_PDU
         | Some uuid \<Rightarrow>
             (case read_by_type (vd_gatt_db d) start_handle end_handle uuid of
                [] \<Rightarrow> err error_ATTRIBUTE_NOT_FOUND
              | (h, v) # rest \<Rightarrow>
                  AttReadByTypeRspHeader_as_bytes (AttReadByTypeRspHeader_new (length v))
                  @ concat (map (\<lambda>(handle, value).
                        AttReadByTypeItemHeader_as_bytes (AttReadByTypeItemHeader_new handle) @ value)
                      (takeWhile (\<lambda>(_, value). length value = length v) ((h, v) # rest)))))"

section \<open>Dispatch\<close>

definition process_att_packet ::
  "'h on_write \<Rightarrow> u16 \<Rightarrow> bytes \<Rightarrow> ('h, 's) VirtualDevice
   \<Rightarrow> (bytes option result \<times> ('h, 's) VirtualDevice) option" where
  "process_att_packet ow connection_handle att_pdu d =
     (case AttPdu_parse att_pdu of
        None \<Rightarrow> Some (Inr (Some (att_error (if att_pdu \<noteq> [] then att_pdu ! 0 else 0) 0x0000 error_INVALID_PDU)), d)
      | Some parsed \<Rightarrow>
          (case parsed of
             ExchangeMtuReq req \<Rightarrow> Some (apfst Inr (att_exchange_mtu connection_handle req d))
           | FindInformationReq req \<Rightarrow> Some (Inr (Some (att_find_information req d)), d)
           | ReadReq req \<Rightarrow> Some (apfst Inr (att_read connection_handle req d))
           | ReadBlobReq req \<Rightarrow> Some (apfst Inr (att_read_blob connection_handle req d))
           | WriteReq header v \<Rightarrow> Some (apfst Inr (att_write_req ow connection_handle header v d))
           | WriteCmd header v \<Rightarrow> Some (apfst Inr (att_write_cmd ow connection_handle header v d))
           | PrepareWriteReq header v \<Rightarrow> Some (apfst Inr (att_prepare_write connection_handle header v d))
           | ExecuteWriteReq req \<Rightarrow> Some (apfst Inr (att_execute_write connection_handle req d))
           | HandleValueCfm \<Rightarrow>
               Some (Inr None, modify_connection connection_handle (\<lambda>c. c\<lparr>conn_pending_indication := False\<rparr>) d)
           | ReadByGroupTypeReq header group_type_bytes \<Rightarrow>
               map_option (\<lambda>resp. (Inr (Some resp), d)) (att_read_by_group_type header group_type_bytes d)
           | ReadByTypeReq header uuid_bytes \<Rightarrow> Some (Inr (Some (att_read_by_type header uuid_bytes d)), d)
           | _ \<Rightarrow> Some (Inr (Some (att_error (att_pdu ! 0) 0x0000 error_REQUEST_NOT_SUPPORTED)), d)))"

definition process_l2cap_packet ::
  "'s p256 \<Rightarrow> 's P256Keypair \<Rightarrow> nonces \<Rightarrow> 'h on_write \<Rightarrow> u16 \<Rightarrow> bytes \<Rightarrow> ('h, 's) VirtualDevice
   \<Rightarrow> (bytes option result \<times> ('h, 's) VirtualDevice) option" where
  "process_l2cap_packet ec gen rnd ow connection_handle raw_l2cap d =
     (case L2capHeader_parse raw_l2cap of
        None \<Rightarrow> Some (Inl (PacketParseError ''Invalid L2CAP frame''), d)
      | Some (header, payload) \<Rightarrow>
          if l2cap_cid header = cid_ATT then
            map_option (apfst (map_sum id (map_option (L2capHeader_serialize cid_ATT))))
              (process_att_packet ow connection_handle payload d)
          else if l2cap_cid header = cid_SMP then
            map_option (apfst (map_sum id (map_option (L2capHeader_serialize cid_SMP))))
              (process_smp_packet ec gen rnd connection_handle payload d)
          else Some (Inr None, d))"

section \<open>Every packet is answered\<close>

definition is_att_error :: "u8 \<Rightarrow> bytes \<Rightarrow> bool" where
  "is_att_error op r = (\<exists>h c. r = att_error op h c)"

lemma is_att_errorI [simp]: "is_att_error op (att_error op h c)"
  by (auto simp: is_att_error_def)

lemma group_end_handle_total:
  "gatt_inv db \<Longrightarrow> bt_get (attributes db) h = Some a \<Longrightarrow> group_end_handle db h \<noteq> None"
  using gatt_inv_get [of db h a] leD [OF u16_le_max [of "next_handle db"]]
  by (auto simp: group_end_handle_def)

lemma read_by_type_get:
  "gatt_inv db \<Longrightarrow> (k, v) \<in> set (read_by_type db s e u) \<Longrightarrow>
    \<exists>a. bt_get (attributes db) k = Some a \<and> attr_uuid a = u \<and> attr_value a = v"
  using bt.entries_get [of "attributes db" k]
  by (auto simp: read_by_type_def bt_range_def gatt_inv_def split: if_splits)

lemma group_entries_total:
  "\<forall>(k, v) \<in> set xs. group_end_handle db k \<noteq> None \<Longrightarrow> \<exists>bs. group_entries db n xs = Some bs"
  by (induction xs) auto

lemma att_read_by_group_type_total:
  assumes "gatt_inv (vd_gatt_db d)"
  shows "\<exists>r. att_read_by_group_type header u d = Some r \<and>
    (is_att_error opcode_READ_BY_GROUP_TYPE_REQ r \<or> hd r = opcode_READ_BY_GROUP_TYPE_RSP)"
proof -
  let ?db = "vd_gatt_db d"
  have "\<exists>bs. group_entries ?db n (read_by_type ?db s e uuid) = Some bs" for n s e uuid
    using read_by_type_get [OF assms, of _ _ s e uuid] group_end_handle_total [OF assms]
    by (intro group_entries_total) fastforce
  note entries = this
  show ?thesis
  proof (cases "rgq_start_handle header = 0 \<or> rgq_end_handle header < rgq_start_handle header
      \<or> Uuid_from_bytes u = None")
    case False
    then obtain uuid where u: "Uuid_from_bytes u = Some uuid" by blast
    show ?thesis
    proof (cases "read_by_type ?db (rgq_start_handle header) (rgq_end_handle header) uuid")
      case Nil
      with False u show ?thesis by (simp add: att_read_by_group_type_def Let_def)
    next
      case (Cons hv rest)
      obtain bs where "group_entries ?db (length (snd hv)) (hv # rest) = Some bs"
        using entries [of "length (snd hv)" "rgq_start_handle header" "rgq_end_handle header" uuid] Cons
        by auto
      with False u Cons show ?thesis
        by (cases hv) (simp add: att_read_by_group_type_def Let_def AttReadByGroupTypeRspHeader_as_bytes_def
            AttReadByGroupTypeRspHeader_new_def)
    qed
  qed (auto simp: att_read_by_group_type_def Let_def)
qed

text \<open>What the server has to say to each PDU: nothing to a Write Command or a confirmation; to a request it
  serves one answer, an error response naming the request's opcode or the response opcode that belongs to
  the request; an error response \<open>REQUEST_NOT_SUPPORTED\<close> to every other PDU, and \<open>INVALID_PDU\<close> to bytes
  that are none.\<close>

definition is_silent :: "AttPdu \<Rightarrow> bool" where
  "is_silent p = (case p of WriteCmd _ _ \<Rightarrow> True | HandleValueCfm \<Rightarrow> True | _ \<Rightarrow> False)"

definition served_requests :: "u8 list" where
  "served_requests = [opcode_EXCHANGE_MTU_REQ, opcode_FIND_INFORMATION_REQ, opcode_READ_BY_TYPE_REQ, opcode_READ_REQ,
     opcode_READ_BLOB_REQ, opcode_READ_BY_GROUP_TYPE_REQ, opcode_WRITE_REQ, opcode_PREPARE_WRITE_REQ,
     opcode_EXECUTE_WRITE_REQ]"

definition answers :: "bytes \<Rightarrow> bytes option \<Rightarrow> bool" where
  "answers pdu reply =
     (case AttPdu_parse pdu of
        None \<Rightarrow> reply = Some (att_error (if pdu = [] then 0 else hd pdu) 0 error_INVALID_PDU)
      | Some p \<Rightarrow>
          if is_silent p then reply = None
          else if hd pdu \<in> set served_requests
          then \<exists>r. reply = Some r \<and> (is_att_error (hd pdu) r \<or> hd r = hd pdu + 1)
          else reply = Some (att_error (hd pdu) 0 error_REQUEST_NOT_SUPPORTED))"

lemma hd_responses:
  "hd (att_find_information req d) = opcode_FIND_INFORMATION_RSP
     \<or> is_att_error opcode_FIND_INFORMATION_REQ (att_find_information req d)"
  "hd (att_read_by_type header u d) = opcode_READ_BY_TYPE_RSP
     \<or> is_att_error opcode_READ_BY_TYPE_REQ (att_read_by_type header u d)"
  by (auto simp: att_find_information_def att_read_by_type_def Let_def AttFindInformationRspHeader_as_bytes_def
      AttFindInformationRspHeader_new_def AttReadByTypeRspHeader_as_bytes_def AttReadByTypeRspHeader_new_def
      split: list.split option.split)

lemma att_server_answers_aux:
  assumes "gatt_inv (vd_gatt_db d)"
  shows "\<exists>reply d'. process_att_packet ow ch pdu d = Some (Inr reply, d') \<and> answers pdu reply"
proof (cases "AttPdu_parse pdu")
  case None
  then show ?thesis by (cases pdu) (auto simp: process_att_packet_def answers_def)
next
  case (Some p)
  then obtain rest where wf: "wf_AttPdu p" and pdu: "pdu = AttPdu_bytes p @ rest"
    using parse_AttPdu_sound by blast
  show ?thesis
  proof (cases p)
    case (ReadByGroupTypeReq header u)
    then have "hd pdu = opcode_READ_BY_GROUP_TYPE_REQ" "pdu \<noteq> []"
      using wf by (auto simp: pdu AttReadByGroupTypeReqHeader_as_bytes_def)
    with Some ReadByGroupTypeReq att_read_by_group_type_total [OF assms, of header u] show ?thesis
      by (auto simp: process_att_packet_def answers_def is_silent_def served_requests_def)
  next
    case (FindInformationReq req)
    then have "hd pdu = opcode_FIND_INFORMATION_REQ" "pdu \<noteq> []"
      using wf by (auto simp: pdu AttFindInformationReq_as_bytes_def)
    with Some FindInformationReq hd_responses(1) [of req d] show ?thesis
      by (auto simp: process_att_packet_def answers_def is_silent_def served_requests_def)
  next
    case (ReadByTypeReq header u)
    then have "hd pdu = opcode_READ_BY_TYPE_REQ" "pdu \<noteq> []"
      using wf by (auto simp: pdu AttReadByTypeReqHeader_as_bytes_def)
    with Some ReadByTypeReq hd_responses(2) [of header u d] show ?thesis
      by (auto simp: process_att_packet_def answers_def is_silent_def served_requests_def)
  qed (use Some wf pdu in \<open>auto simp: process_att_packet_def answers_def is_silent_def served_requests_def att_layout_defs Let_def
        att_exchange_mtu_def AttExchangeMtuRsp_new_def att_read_def att_read_blob_def att_write_req_def
        att_write_cmd_def att_prepare_write_def AttPrepareWriteRspHeader_new_def att_execute_write_def
        hd_conv_nth nth_append split: sum.splits prod.splits\<close>)
qed

text \<open>C34: Whatever bytes arrive on the ATT channel, the server neither panics nor fails. A well-formed
  Write Command and a confirmation are consumed silently; a request the server serves gets exactly
  one answer, an Error Response that names its opcode or the response that belongs to it; any other
  PDU (responses and notifications included) is refused as not supported, and bytes that are no PDU
  (truncated or unknown commands included) as an invalid PDU, by an Error Response naming their
  first octet.\<close>
theorem att_server_answers:
  assumes "gatt_inv (vd_gatt_db d)"
  shows "\<exists>reply d'. process_att_packet ow ch pdu d = Some (Inr reply, d') \<and> answers pdu reply"
  using assms by (rule att_server_answers_aux)

text \<open>A device that serves the sample database, with one connection.\<close>

definition sample_device :: "(nat, unit) VirtualDevice" where
  "sample_device =
     (VirtualDevice_new [[0x73], [0x31]] Address_ANY Public)
       \<lparr>vd_gatt_db := sample_db,
        vd_connections := [0x40 \<mapsto> ConnectionState_new 0x40 Address_ANY 23]\<rparr>"

lemma sample_device_simps [simp]:
  "vd_gatt_db sample_device = sample_db"
  "vd_connections sample_device = [0x40 \<mapsto> ConnectionState_new 0x40 Address_ANY 23]"
  "vd_observer sample_device = None" "vd_bond_store sample_device = None"
  by (simp_all add: sample_device_def VirtualDevice_new_def)

theorem att_server_answers_witness:
  "\<exists>reply d'. process_att_packet counting_handler 0x40 [0x10, 1, 0, 0xFF, 0xFF, 0, 0x28] sample_device
      = Some (Inr reply, d') \<and> answers [0x10, 1, 0, 0xFF, 0xFF, 0, 0x28] reply"
  by (rule att_server_answers) (simp add: gatt_inv_sample_db)

section \<open>Long writes\<close>

fun att_run ::
  "'h on_write \<Rightarrow> u16 \<Rightarrow> bytes list \<Rightarrow> ('h, 's) VirtualDevice
   \<Rightarrow> (bytes option list \<times> ('h, 's) VirtualDevice) option" where
  "att_run ow ch [] d = Some ([], d)"
| "att_run ow ch (pdu # pdus) d =
     (case process_att_packet ow ch pdu d of
        Some (Inr reply, d) \<Rightarrow> map_option (apfst (\<lambda>rs. reply # rs)) (att_run ow ch pdus d)
      | _ \<Rightarrow> None)"

text \<open>The packets of a long write: one Prepare Write per part at consecutive offsets, then Execute.\<close>

fun prepare_pdus :: "u16 \<Rightarrow> nat \<Rightarrow> bytes list \<Rightarrow> AttPdu list" where
  "prepare_pdus h off [] = []"
| "prepare_pdus h off (p # ps) =
     PrepareWriteReq (AttPrepareWriteReqHeader_new h (of_nat off)) p # prepare_pdus h (off + length p) ps"

fun part_chunks :: "u16 \<Rightarrow> nat \<Rightarrow> bytes list \<Rightarrow> PrepareWriteChunk list" where
  "part_chunks h off [] = []"
| "part_chunks h off (p # ps) =
     \<lparr>chunk_handle = h, chunk_offset = of_nat off, chunk_data = p\<rparr> # part_chunks h (off + length p) ps"

abbreviation execute_pdu :: "u8 \<Rightarrow> AttPdu" where
  "execute_pdu flags \<equiv> ExecuteWriteReq (AttExecuteWriteReq_new flags)"

lemma att_run_append:
  "att_run ow ch (xs @ ys) d = (case att_run ow ch xs d of None \<Rightarrow> None
     | Some (rs, d') \<Rightarrow> map_option (apfst (\<lambda>rs'. rs @ rs')) (att_run ow ch ys d'))"
  by (induction xs arbitrary: d)
    (auto simp: option.map_comp comp_def apfst_def map_prod_def prod.case_distrib option.map_id
      split: option.split sum.split prod.split)

lemma modify_connection_simps [simp]:
  "vd_gatt_db (modify_connection h f d) = vd_gatt_db d"
  "vd_connections (modify_connection h f d) = (vd_connections d)(h := map_option f (vd_connections d h))"
  "vd_bond_store (modify_connection h f d) = vd_bond_store d"
  "vd_observer (modify_connection h f d) = vd_observer d"
  by (simp_all add: modify_connection_def)

lemma prepare_run:
  assumes "vd_connections d ch = Some c"
  shows "att_run ow ch (map AttPdu_bytes (prepare_pdus h off ps)) d = Some
     (map (\<lambda>k. Some (AttPrepareWriteRspHeader_as_bytes (AttPrepareWriteRspHeader_new h (chunk_offset k)) @ chunk_data k))
        (part_chunks h off ps),
      modify_connection ch (\<lambda>c. c\<lparr>conn_prepare_write_queue := conn_prepare_write_queue c @ part_chunks h off ps\<rparr>) d)"
  using assms
proof (induction ps arbitrary: off d c)
  case Nil
  then show ?case by (simp add: modify_connection_def fun_upd_idem)
next
  case (Cons p ps)
  let ?k = "\<lparr>chunk_handle = h, chunk_offset = of_nat off, chunk_data = p\<rparr>"
  let ?d = "modify_connection ch (\<lambda>c. c\<lparr>conn_prepare_write_queue := conn_prepare_write_queue c @ [?k]\<rparr>) d"
  let ?req = "PrepareWriteReq (AttPrepareWriteReqHeader_new h (of_nat off)) p"
  have "AttPdu_parse (AttPdu_bytes ?req) = Some ?req"
    by (rule parse_AttPdu_bytes) (simp add: AttPrepareWriteReqHeader_new_def)
  then have step: "process_att_packet ow ch (AttPdu_bytes ?req) d = Some (Inr (Some
      (AttPrepareWriteRspHeader_as_bytes (AttPrepareWriteRspHeader_new h (of_nat off)) @ p)), ?d)"
    by (simp add: process_att_packet_def att_prepare_write_def AttPrepareWriteReqHeader_new_def Let_def
        del: AttPdu_bytes.simps)
  from Cons.prems have "vd_connections ?d ch \<noteq> None" by simp
  then obtain c' where "vd_connections ?d ch = Some c'" by blast
  from Cons.IH [OF this, of "off + length p"] step show ?case
    by (simp add: modify_connection_def Cons.prems comp_def del: AttPdu_bytes.simps)
qed

lemma write_chunks_parts:
  "off + length (concat ps) < 65536 \<Longrightarrow> write_chunks (part_chunks h off ps) db = write_parts db h off ps"
proof (induction ps arbitrary: off db)
  case (Cons p ps)
  then have "unat (of_nat off :: u16) = off" by (simp add: unat_of_nat_u16)
  with Cons show ?case by simp
qed simp

lemma write_parts_overwrite:
  assumes "ps \<noteq> []" "bt_get (attributes db) h = Some a" "perm_write (attr_permissions a)"
  shows "bt_get (attributes (write_parts db h off ps)) =
    (bt_get (attributes db))(h \<mapsto> a\<lparr>attr_value := overwrite_at off (concat ps) (attr_value a)\<rparr>)"
proof -
  from assms(1) obtain p qs where "ps = p # qs" by (cases ps) auto
  with assms(2,3) write_parts_get [of db h off p qs] show ?thesis by (simp add: write_offset_get)
qed

lemma execute_run:
  assumes "vd_connections d ch = Some c"
  shows "att_run ow ch [AttPdu_bytes (execute_pdu flags)] d = Some ([Some [opcode_EXECUTE_WRITE_RSP]],
    (modify_connection ch (\<lambda>c. c\<lparr>conn_prepare_write_queue := []\<rparr>) d)
      \<lparr>vd_gatt_db := if flags = 1 then write_chunks (conn_prepare_write_queue c) (vd_gatt_db d) else vd_gatt_db d\<rparr>)"
proof -
  have "AttPdu_parse (AttPdu_bytes (execute_pdu flags)) = Some (execute_pdu flags)"
    by (rule parse_AttPdu_bytes) (simp add: AttExecuteWriteReq_new_def)
  with assms show ?thesis
    by (simp add: process_att_packet_def att_execute_write_def AttExecuteWriteReq_new_def Let_def
        del: AttPdu_bytes.simps)
qed

text \<open>C35: A client's long write to a writable attribute without a write handler, cut into Prepare
  Write requests at consecutive offsets however it likes and committed by Execute Write, is one write
  of the whole value at the first offset: the attribute ends up with that value over its old one, no
  other attribute changes, and the queue is empty. Cancelled, it changes nothing but the queue. (With
  a handler attached the queued write bypasses it, against the documentation:
  \<open>queued_write_bypasses_handler\<close>.)\<close>
theorem long_write_is_one_write:
  assumes "vd_connections d ch = Some c" "conn_prepare_write_queue c = []"
    and "ps \<noteq> []" "off + length (concat ps) < 65536"
    and "bt_get (attributes (vd_gatt_db d)) h = Some a" "perm_write (attr_permissions a)" "attr_handler a = None"
  shows "\<exists>rs d'. att_run ow ch (map AttPdu_bytes (prepare_pdus h off ps @ [execute_pdu flags])) d = Some (rs, d')
    \<and> map_option conn_prepare_write_queue (vd_connections d' ch) = Some []
    \<and> bt_get (attributes (vd_gatt_db d')) = (if flags = 1
        then (bt_get (attributes (vd_gatt_db d)))
          (h \<mapsto> a\<lparr>attr_value := overwrite_at off (concat ps) (attr_value a)\<rparr>)
        else bt_get (attributes (vd_gatt_db d)))"
proof -
  let ?d1 = "modify_connection ch
    (\<lambda>c. c\<lparr>conn_prepare_write_queue := conn_prepare_write_queue c @ part_chunks h off ps\<rparr>) d"
  have "vd_connections ?d1 ch = Some (c\<lparr>conn_prepare_write_queue := part_chunks h off ps\<rparr>)"
    using assms(1,2) by simp
  from execute_run [OF this, of ow flags] prepare_run [OF assms(1), of ow h off ps]
  show ?thesis
    using assms by (simp add: att_run_append write_chunks_parts write_parts_overwrite
        del: AttPdu_bytes.simps)
qed

theorem long_write_is_one_write_witness:
  "\<exists>rs d' a. att_run counting_handler 0x40 (map AttPdu_bytes (prepare_pdus 3 1 [[5], [6, 7]] @ [execute_pdu 1]))
      sample_device = Some (rs, d')
    \<and> map_option conn_prepare_write_queue (vd_connections d' 0x40) = Some []
    \<and> bt_get (attributes (vd_gatt_db d')) = (if (1 :: u8) = 1
        then (bt_get (attributes sample_db)) (3 \<mapsto> a\<lparr>attr_value := overwrite_at 1 (concat [[5], [6, 7]]) (attr_value a)\<rparr>)
        else bt_get (attributes sample_db))"
proof -
  let ?a = "the (bt_get (attributes sample_db) 3)"
  have "bt_get (attributes sample_db) 3 = Some ?a" "perm_write (attr_permissions ?a)" "attr_handler ?a = None"
    by (simp_all add: sample_db_def bt_get_def permissions_default_def)
  then show ?thesis
    using long_write_is_one_write [where d = sample_device and ch = "0x40" and h = 3 and ps = "[[5], [6, 7]]"
        and off = 1 and ow = counting_handler and flags = 1 and a = ?a and c = "ConnectionState_new 0x40 Address_ANY 23"]
    by (simp add: ConnectionState_new_def ConnectionState_new_with_role_def del: AttPdu_bytes.simps) metis
qed

section \<open>Connections and requests\<close>

lemma observe_simps [simp]:
  "vd_gatt_db (observe ev d) = vd_gatt_db d" "vd_connections (observe ev d) = vd_connections d"
  "vd_bond_store (observe ev d) = vd_bond_store d"
  by (simp_all add: observe_def)

lemma notify_subscription_simps [simp]:
  "vd_gatt_db (notify_subscription h k p c r d) = vd_gatt_db d"
  "vd_connections (notify_subscription h k p c r d) = vd_connections d"
  "vd_bond_store (notify_subscription h k p c r d) = vd_bond_store d"
  by (simp_all add: notify_subscription_def)

lemma on_cccd_written_simps [simp]:
  "vd_gatt_db (on_cccd_written h k p d) = vd_gatt_db d"
  "vd_connections (on_cccd_written h k p d) = vd_connections d"
  by (simp_all add: on_cccd_written_def Let_def split: option.split)

lemma att_write_attribute_simps [simp]:
  "vd_connections (snd (att_write_attribute ow ch h v b d)) = vd_connections d"
  "vd_gatt_db (snd (att_write_attribute ow ch h v b d)) = snd (GattDatabase_write ow (vd_gatt_db d) h v)"
  "fst (att_write_attribute ow ch h v b d) = fst (GattDatabase_write ow (vd_gatt_db d) h v)"
  by (simp_all add: att_write_attribute_def Let_def split: prod.split sum.split option.split)

lemma att_write_req_simps [simp]:
  "vd_connections (snd (att_write_req ow ch header v d)) = vd_connections d"
  "vd_gatt_db (snd (att_write_req ow ch header v d)) = snd (GattDatabase_write ow (vd_gatt_db d) (wrq_handle header) v)"
  using att_write_attribute_simps [of ow ch "wrq_handle header" v True d]
  by (auto simp: att_write_req_def Let_def simp del: att_write_attribute_simps split: prod.split sum.split)

lemma att_write_reqD:
  assumes "att_write_req ow ch header v d = (x, d')"
  shows "vd_connections d' = vd_connections d"
    and "vd_gatt_db d' = snd (GattDatabase_write ow (vd_gatt_db d) (wrq_handle header) v)"
  using att_write_req_simps [of ow ch header v d] by (simp_all add: assms)

text \<open>What a request can do to a connection: set its transfer unit, extend or empty its queue, or
  clear its indication flag on a confirmation.\<close>

lemma process_att_connection:
  assumes "process_att_packet ow ch pdu d = Some (res, d')"
  shows "k \<noteq> ch \<Longrightarrow> vd_connections d' k = vd_connections d k"
    and "map_option (\<lambda>c. (conn_pairing_session c, conn_is_encrypted c, conn_ltk c, conn_handle c)) (vd_connections d' k)
      = map_option (\<lambda>c. (conn_pairing_session c, conn_is_encrypted c, conn_ltk c, conn_handle c)) (vd_connections d k)"
    and "vd_connections d ch = Some c \<Longrightarrow> \<exists>c'. vd_connections d' ch = Some c'
      \<and> conn_pending_indication c' = (conn_pending_indication c \<and> AttPdu_parse pdu \<noteq> Some HandleValueCfm)"
    and "vd_connections d ch = Some c \<Longrightarrow> \<exists>c'. vd_connections d' ch = Some c'
      \<and> (conn_mtu c' = conn_mtu c \<or> 23 \<le> conn_mtu c' \<and> conn_mtu c' \<le> 512)"
  using assms
  by (auto simp: process_att_packet_def att_exchange_mtu_def att_read_def att_read_blob_def
      att_write_cmd_def att_prepare_write_def att_execute_write_def Let_def option.map_comp comp_def apfst_def map_prod_def
      min_def max_def dest!: att_write_reqD(1)
      split: option.splits AttPdu.splits sum.splits prod.splits if_splits)

section \<open>Indications\<close>

text \<open>At most one indication is in flight per connection: one is sent exactly when the connection
  exists and none is pending; from then on every further attempt is refused, whatever packets
  arrive, until the peer's confirmation, which alone clears the flag.\<close>
theorem indication_flow_control:
  assumes "vd_connections d ch = Some c" "process_att_packet ow ch pdu d = Some (res, d')"
  shows "((\<exists>frame d''. create_indication ch h v d = (Inr frame, d'')) \<longleftrightarrow> \<not> conn_pending_indication c)
    \<and> map_option conn_pending_indication (vd_connections (snd (create_indication ch h v d)) ch) = Some True
    \<and> ((\<exists>frame d''. create_indication ch h v d' = (Inr frame, d'')) \<longleftrightarrow>
      \<not> conn_pending_indication c \<or> AttPdu_parse pdu = Some HandleValueCfm)"
  using assms process_att_connection(3) [OF assms(2) assms(1)]
  by (auto simp: create_indication_def Let_def)

theorem indication_flow_control_witness:
  "let c = (ConnectionState_new 0x40 Address_ANY 23 :: unit ConnectionState)\<lparr>conn_pending_indication := True\<rparr>;
       d = sample_device\<lparr>vd_connections := [0x40 \<mapsto> c]\<rparr>;
       d' = modify_connection 0x40 (\<lambda>c. c\<lparr>conn_pending_indication := False\<rparr>) d
   in ((\<exists>frame d''. create_indication 0x40 3 [1] d = (Inr frame, d'')) \<longleftrightarrow> \<not> conn_pending_indication c)
    \<and> map_option conn_pending_indication (vd_connections (snd (create_indication 0x40 3 [1] d)) 0x40) = Some True
    \<and> ((\<exists>frame d''. create_indication 0x40 3 [1] d' = (Inr frame, d'')) \<longleftrightarrow>
      \<not> conn_pending_indication c \<or> AttPdu_parse [opcode_HANDLE_VALUE_CFM] = Some HandleValueCfm)"
  unfolding Let_def
  by (rule indication_flow_control [where ow = counting_handler and res = "Inr None"])
    (simp_all add: process_att_packet_def AttPdu_parse_def)

section \<open>What the server does not check\<close>

text \<open>The security flags of an attribute are never consulted: whatever the attribute demands, a
  read of a readable attribute over a link that is neither encrypted nor authenticated returns its
  value.\<close>
theorem link_security_is_not_enforced:
  assumes "bt_get (attributes (vd_gatt_db d)) h = Some a" "perm_read (attr_permissions a)"
    and "perm_encrypt_read (attr_permissions a)" "perm_read_auth (attr_permissions a)"
    and "vd_connections d ch = Some c" "\<not> conn_is_encrypted c"
  shows "\<exists>d'. process_att_packet ow ch (AttPdu_bytes (ReadReq \<lparr>rrq_opcode = opcode_READ_REQ, rrq_handle = h\<rparr>)) d
    = Some (Inr (Some (opcode_READ_RSP # attr_value a)), d')"
proof -
  let ?req = "ReadReq \<lparr>rrq_opcode = opcode_READ_REQ, rrq_handle = h\<rparr>"
  have "AttPdu_parse (AttPdu_bytes ?req) = Some ?req" by (rule parse_AttPdu_bytes) simp
  with assms(1,2) show ?thesis
    by (simp add: process_att_packet_def att_read_def Let_def GattDatabase_read_def del: AttPdu_bytes.simps)
qed

definition secured_attribute :: "nat Attribute" where
  "secured_attribute =
     \<lparr>attr_handle = 3, attr_uuid = Uuid16 0x2A37, attr_value = [0, 80], attr_permissions =
        \<lparr>perm_read = True, perm_write = False, perm_read_auth = True, perm_write_auth = True,
         perm_encrypt_read = True, perm_encrypt_write = True\<rparr>, attr_handler = None\<rparr>"

theorem link_security_is_not_enforced_witness:
  "\<exists>d'. process_att_packet counting_handler 0x40
      (AttPdu_bytes (ReadReq \<lparr>rrq_opcode = opcode_READ_REQ, rrq_handle = 3\<rparr>))
      (sample_device\<lparr>vd_gatt_db := insert_attribute sample_db 3 secured_attribute\<rparr>)
    = Some (Inr (Some (opcode_READ_RSP # attr_value secured_attribute)), d')"
proof (rule link_security_is_not_enforced)
  show "bt_get (attributes (vd_gatt_db (sample_device
      \<lparr>vd_gatt_db := insert_attribute sample_db 3 secured_attribute\<rparr>))) 3 = Some secured_attribute"
    by (simp add: insert_attribute_def sample_db_def bt_get_def)
  show "vd_connections (sample_device\<lparr>vd_gatt_db := insert_attribute sample_db 3 secured_attribute\<rparr>) 0x40
      = Some (ConnectionState_new 0x40 Address_ANY 23)"
    by simp
qed (simp_all add: secured_attribute_def ConnectionState_new_def ConnectionState_new_with_role_def)

text \<open>A queued write does not go through the attribute's handler: on an attribute whose handler
  refuses every value, a Write Request is refused and leaves the value alone, while the same value
  sent by Prepare and Execute Write is stored and acknowledged.\<close>
theorem queued_write_bypasses_handler:
  assumes "vd_connections d ch = Some c" "conn_prepare_write_queue c = []" "length v < 65536"
    and "bt_get (attributes (vd_gatt_db d)) h = Some a" "perm_write (attr_permissions a)"
    and "attr_handler a = Some x" "\<And>x db v. ow x db v = (Inl error_VALUE_NOT_ALLOWED, x, db)"
  shows "(\<exists>d'. process_att_packet ow ch (AttPdu_bytes (WriteReq (AttWriteReqHeader_new opcode_WRITE_REQ h) v)) d
        = Some (Inr (Some (att_error opcode_WRITE_REQ h error_VALUE_NOT_ALLOWED)), d')
        \<and> GattDatabase_value (vd_gatt_db d') h = Some (attr_value a))
    \<and> (\<exists>rs d'. att_run ow ch (map AttPdu_bytes (prepare_pdus h 0 [v] @ [execute_pdu 1])) d
        = Some (rs @ [Some [opcode_EXECUTE_WRITE_RSP]], d')
        \<and> GattDatabase_value (vd_gatt_db d') h = Some (overwrite_at 0 v (attr_value a)))"
proof
  let ?req = "WriteReq (AttWriteReqHeader_new opcode_WRITE_REQ h) v"
  have parse: "AttPdu_parse (AttPdu_bytes ?req) = Some ?req"
    by (rule parse_AttPdu_bytes) (simp add: AttWriteReqHeader_new_def)
  obtain db' where w: "GattDatabase_write ow (vd_gatt_db d) h v = (Inl error_VALUE_NOT_ALLOWED, db')"
      "GattDatabase_value db' h = Some (attr_value a)"
    using assms(4-7) by (auto simp: GattDatabase_write_def check_write_permitted_def GattDatabase_value_def)
  have "\<exists>d'. att_write_req ow ch (AttWriteReqHeader_new opcode_WRITE_REQ h) v d
      = (Some (att_error opcode_WRITE_REQ h error_VALUE_NOT_ALLOWED), d') \<and> vd_gatt_db d' = db'"
    using w(1) by (simp add: att_write_req_def att_write_attribute_def Let_def AttWriteReqHeader_new_def)
  with parse w(2) show "\<exists>d'. process_att_packet ow ch (AttPdu_bytes ?req) d
        = Some (Inr (Some (att_error opcode_WRITE_REQ h error_VALUE_NOT_ALLOWED)), d')
        \<and> GattDatabase_value (vd_gatt_db d') h = Some (attr_value a)"
    by (auto simp: process_att_packet_def simp del: AttPdu_bytes.simps)
next
  let ?d1 = "modify_connection ch
    (\<lambda>c. c\<lparr>conn_prepare_write_queue := conn_prepare_write_queue c @ part_chunks h 0 [v]\<rparr>) d"
  have "vd_connections ?d1 ch = Some (c\<lparr>conn_prepare_write_queue := part_chunks h 0 [v]\<rparr>)"
    using assms(1,2) by simp
  from execute_run [OF this, of ow 1] prepare_run [OF assms(1), of ow h 0 "[v]"]
  show "\<exists>rs d'. att_run ow ch (map AttPdu_bytes (prepare_pdus h 0 [v] @ [execute_pdu 1])) d
        = Some (rs @ [Some [opcode_EXECUTE_WRITE_RSP]], d')
        \<and> GattDatabase_value (vd_gatt_db d') h = Some (overwrite_at 0 v (attr_value a))"
    using assms(4,5) by (simp add: att_run_append del: AttPdu_bytes.simps att_run.simps prepare_pdus.simps)
      (simp add: write_offset_get GattDatabase_value_def)
qed

theorem queued_write_bypasses_handler_witness:
  "let ow = (\<lambda>x db v. (Inl error_VALUE_NOT_ALLOWED, x, db)) :: nat on_write;
       a = (the (bt_get (attributes sample_db) 3))\<lparr>attr_handler := Some 0\<rparr>;
       d = sample_device\<lparr>vd_gatt_db := insert_attribute sample_db 3 a\<rparr>
   in (\<exists>d'. process_att_packet ow 0x40 (AttPdu_bytes (WriteReq (AttWriteReqHeader_new opcode_WRITE_REQ 3) [9])) d
        = Some (Inr (Some (att_error opcode_WRITE_REQ 3 error_VALUE_NOT_ALLOWED)), d')
        \<and> GattDatabase_value (vd_gatt_db d') 3 = Some (attr_value a))
    \<and> (\<exists>rs d'. att_run ow 0x40 (map AttPdu_bytes (prepare_pdus 3 0 [[9]] @ [execute_pdu 1])) d
        = Some (rs @ [Some [opcode_EXECUTE_WRITE_RSP]], d')
        \<and> GattDatabase_value (vd_gatt_db d') 3 = Some (overwrite_at 0 [9] (attr_value a)))"
  unfolding Let_def
proof (rule queued_write_bypasses_handler)
  show "vd_connections (sample_device\<lparr>vd_gatt_db := db\<rparr>) 0x40 = Some (ConnectionState_new 0x40 Address_ANY 23)" for db
    by simp
  show "bt_get (attributes (vd_gatt_db (sample_device\<lparr>vd_gatt_db := insert_attribute sample_db 3 a\<rparr>))) 3 = Some a" for a
    by (simp add: insert_attribute_def sample_db_def bt_get_def)
qed (simp_all add: sample_db_def bt_get_def permissions_default_def ConnectionState_new_def
    ConnectionState_new_with_role_def)

end
