(* ===== verification/Device_Safety.thy ===== *)
theory Device_Safety
  imports Att_Server
begin

text \<open>
  Invariants of the whole device under every event its runtime delivers: connections, frames from a
  peer, encryption changes, clock ticks, polls and local requests, in any order. On top of them, what
  subscriptions, bonds and failed pairings mean across operations.
\<close>

section \<open>Events\<close>

datatype 's device_event =
    Connected u16 Address ConnectionRole
  | Disconnected u16
  | PeerAddressType u16 AddressType
  | Frame "'s P256Keypair" nonces u16 bytes
  | EncryptionChanged u16 bool
  | StartPairing "'s P256Keypair" nonces u16 PairingConfig
  | Tick real
  | PollSmp u16
  | Notify u16 u16 bytes
  | Indicate u16 u16 bytes
  | IsoSdu bytes
  | SendAudio u16 bytes

fun device_step ::
  "'s p256 \<Rightarrow> 'h on_write \<Rightarrow> 's device_event \<Rightarrow> ('h, 's) VirtualDevice \<Rightarrow> ('h, 's) VirtualDevice option" where
  "device_step ec ow (Connected h a r) d = Some (on_connected_with_role h a r d)"
| "device_step ec ow (Disconnected h) d = Some (on_disconnected h d)"
| "device_step ec ow (PeerAddressType h t) d = Some (set_peer_address_type h t d)"
| "device_step ec ow (Frame gen rnd h raw) d = map_option snd (process_l2cap_packet ec gen rnd ow h raw d)"
| "device_step ec ow (EncryptionChanged h b) d = Some (on_encryption_changed h b d)"
| "device_step ec ow (StartPairing gen rnd h cfg) d = map_option snd (start_pairing_with_config ec gen rnd h cfg d)"
| "device_step ec ow (Tick t) d = Some (tick_smp t d)"
| "device_step ec ow (PollSmp h) d = Some (snd (poll_smp_pdu h d))"
| "device_step ec ow (Notify h k v) d = Some (snd (create_notification_for h k v d))"
| "device_step ec ow (Indicate h k v) d = Some (snd (create_indication h k v d))"
| "device_step ec ow (IsoSdu p) d = Some (on_iso_sdu p d)"
| "device_step ec ow (SendAudio h p) d = Some (snd (build_audio_packet h p d))"

fun device_run ::
  "'s p256 \<Rightarrow> 'h on_write \<Rightarrow> 's device_event list \<Rightarrow> ('h, 's) VirtualDevice \<Rightarrow> ('h, 's) VirtualDevice option" where
  "device_run ec ow [] d = Some d"
| "device_run ec ow (e # es) d =
     (case device_step ec ow e d of None \<Rightarrow> None | Some d' \<Rightarrow> device_run ec ow es d')"

section \<open>The invariant\<close>

definition conn_ok :: "u16 \<Rightarrow> 's ConnectionState \<Rightarrow> bool" where
  "conn_ok h c =
     (conn_handle c = h \<and> 23 \<le> conn_mtu c \<and> conn_mtu c \<le> 512
      \<and> (case conn_pairing_session c of
           None \<Rightarrow> True
         | Some s \<Rightarrow> smp_inv s \<and> (ps_failed s \<longrightarrow> conn_ltk c = None)))"

lemma conn_ok_upd [simp]:
  "conn_ok h (c\<lparr>conn_pending_indication := b\<rparr>) = conn_ok h c"
  "conn_ok h (c\<lparr>conn_peer_address_type := t\<rparr>) = conn_ok h c"
  by (simp_all add: conn_ok_def split: option.split)

definition device_inv :: "('h, 's) VirtualDevice \<Rightarrow> bool" where
  "device_inv d =
     (gatt_inv (vd_gatt_db d) \<and> 23 \<le> vd_default_mtu d \<and> vd_default_mtu d \<le> 512
      \<and> pred_option bond_store_inv (vd_bond_store d) \<and> length (vd_audio_rx d) \<le> MAX_QUEUED_SDUS
      \<and> (\<forall>h c. vd_connections d h = Some c \<longrightarrow> conn_ok h c))"

lemma device_inv_gatt: "device_inv d \<Longrightarrow> gatt_inv (vd_gatt_db d)"
  by (simp add: device_inv_def)

lemma device_inv_conn: "device_inv d \<Longrightarrow> vd_connections d h = Some c \<Longrightarrow> conn_ok h c"
  by (simp add: device_inv_def)

lemma device_inv_observe [simp]: "device_inv (observe ev d) = device_inv d"
  by (simp add: device_inv_def observe_def)

lemma device_inv_notify [simp]: "device_inv (notify_subscription h k p c r d) = device_inv d"
  by (simp add: notify_subscription_def)

lemma device_inv_set_value: "device_inv d \<Longrightarrow> device_inv (d\<lparr>vd_gatt_db := snd (set_value (vd_gatt_db d) h v)\<rparr>)"
  by (simp add: device_inv_def write_ops_inv)

lemma device_inv_modify:
  assumes "device_inv d" "\<And>c. vd_connections d h = Some c \<Longrightarrow> conn_ok h (f c)"
  shows "device_inv (modify_connection h f d)"
  using assms by (auto simp: device_inv_def modify_connection_def)

lemma device_inv_store:
  "device_inv d \<Longrightarrow> bond_store_inv st \<Longrightarrow> device_inv (d\<lparr>vd_bond_store := Some st\<rparr>)"
  by (simp add: device_inv_def)

lemma device_inv_bonds: "device_inv d \<Longrightarrow> vd_bond_store d = Some st \<Longrightarrow> bond_store_inv st"
  by (simp add: device_inv_def)

section \<open>Every event keeps it\<close>

lemma restore_loop_inv: "device_inv d \<Longrightarrow> device_inv (restore_loop h hvs d)"
proof (induction hvs arbitrary: d)
  case (Cons hv hvs)
  then show ?case
    using device_inv_set_value [OF Cons.prems]
    by (cases hv) (auto simp: Let_def split_def intro!: Cons.IH split: sum.split)
qed simp

lemma unsubscribe_loop_inv: "device_inv d \<Longrightarrow> device_inv (unsubscribe_loop h hvs d)"
  by (induction hvs arbitrary: d) (auto simp: device_inv_set_value)

lemma on_cccd_written_inv: "device_inv d \<Longrightarrow> device_inv (on_cccd_written h k p d)"
  by (auto simp: on_cccd_written_def Let_def intro: memory_store.put_cccd_inv device_inv_bonds
      intro!: device_inv_store split: option.split)

lemma maybe_record_bond_inv: "device_inv d \<Longrightarrow> device_inv (maybe_record_bond h d)"
  by (auto simp: maybe_record_bond_def Let_def intro!: device_inv_store memory_store.sweep_inv
      memory_store.put_sec_inv intro: device_inv_bonds split: option.split)

lemma on_connected_inv: "device_inv d \<Longrightarrow> device_inv (on_connected_with_role h a r d)"
proof -
  assume inv: "device_inv d"
  then have "device_inv (d\<lparr>vd_connections := (vd_connections d)(h \<mapsto>
      ConnectionState_new_with_role h a (vd_default_mtu d) r), vd_is_advertising := b\<rparr>)" for b
    by (auto simp: device_inv_def conn_ok_def ConnectionState_new_with_role_def)
  from this [of "vd_is_advertising d"] this [of False] show ?thesis
    by (auto simp: on_connected_with_role_def restore_bonded_subscriptions_def Let_def
        intro!: restore_loop_inv split: option.split)
qed

lemma on_disconnected_inv: "device_inv d \<Longrightarrow> device_inv (on_disconnected h d)"
proof -
  assume "device_inv d"
  then have "device_inv (d\<lparr>vd_connections := (vd_connections d)(h := None)\<rparr>)"
    by (auto simp: device_inv_def)
  then show ?thesis by (auto simp: on_disconnected_def Let_def intro!: unsubscribe_loop_inv)
qed

lemma failed_ltk: "smp_inv s \<Longrightarrow> ps_failed s \<Longrightarrow> session_ltk s = None"
  by (simp add: smp_inv_def no_derived_secrets_def session_ltk_def)

lemma mirror_session_ok: "conn_ok h c \<Longrightarrow> smp_inv s \<Longrightarrow> conn_ok h (mirror_session s c)"
  by (simp add: conn_ok_def mirror_session_def failed_ltk)

lemma failed_link_encrypted [simp]: "ps_failed (on_link_encrypted s) = ps_failed s"
  by (simp add: on_link_encrypted_def Let_def)

lemma on_encryption_changed_inv: "device_inv d \<Longrightarrow> device_inv (on_encryption_changed h b d)"
  unfolding on_encryption_changed_def
proof (intro maybe_record_bond_inv device_inv_modify)
  fix c
  assume "device_inv d" "vd_connections d h = Some c"
  then have "conn_ok h c" by (rule device_inv_conn)
  then show "conn_ok h (let c = c\<lparr>conn_is_encrypted := b\<rparr> in
      if b then c\<lparr>conn_pairing_session := map_option on_link_encrypted (conn_pairing_session c)\<rparr> else c)"
    by (cases "conn_pairing_session c") (auto simp: conn_ok_def Let_def other_operations_inv)
qed

lemma handle_pdu_inv:
  assumes "smp_inv s"
  shows "\<exists>reply s'. handle_pdu ec rnd pdu s = Some (reply, s') \<and> smp_inv s'"
proof -
  obtain s1 where step: "session_step ec rnd pdu s = Some s1" "smp_inv s1"
    using session_step_inv [OF assms] by blast
  then show ?thesis
    using other_operations_inv(2) [OF step(2)] by (cases "poll_pending s1") (auto simp: handle_pdu_def)
qed

lemma process_smp_inv:
  assumes "device_inv d"
  shows "\<exists>res d'. process_smp_packet ec gen rnd h pdu d = Some (res, d') \<and> device_inv d'"
proof (cases "vd_connections d h")
  case None
  with assms show ?thesis by (simp add: process_smp_packet_def)
next
  case (Some c)
  have ok: "conn_ok h c" using device_inv_conn [OF assms Some] .
  let ?new = "PairingSession_new ec gen rnd Responder
    (PairingConfig_default\<lparr>pc_defer_key_distribution := vd_defer_key_distribution d\<rparr>)
    (vd_address d) (vd_address_type d) (conn_peer_address c) (conn_peer_address_type c)"
  have "\<exists>s. ?new = Some s"
    by (simp add: PairingSession_new_def PairingConfig_default_def Let_def split: prod.split)
  with session_new_inv have new: "\<exists>s. ?new = Some s \<and> smp_inv s" by blast
  then obtain s where s: "(case conn_pairing_session c of Some s \<Rightarrow> Some s | None \<Rightarrow> ?new) = Some s" "smp_inv s"
    using ok by (cases "conn_pairing_session c") (auto simp: conn_ok_def)
  obtain reply s' where step: "handle_pdu ec rnd pdu s = Some (reply, s')" "smp_inv s'"
    using handle_pdu_inv [OF s(2)] by blast
  have "device_inv (maybe_record_bond h (modify_connection h (mirror_session s') d))"
    using assms ok step(2) Some by (intro maybe_record_bond_inv device_inv_modify) (auto intro: mirror_session_ok)
  with Some s(1) step(1) assms show ?thesis by (simp add: process_smp_packet_def)
qed

lemma process_att_default: "process_att_packet ow ch pdu d = Some (res, d') \<Longrightarrow>
    vd_default_mtu d' = vd_default_mtu d \<and> vd_audio_rx d' = vd_audio_rx d"
  by (auto simp: process_att_packet_def att_exchange_mtu_def att_read_def att_read_blob_def att_write_req_def
      att_write_cmd_def att_write_attribute_def att_prepare_write_def att_execute_write_def on_cccd_written_def
      notify_subscription_def observe_def modify_connection_def Let_def apfst_def map_prod_def
      split: option.splits AttPdu.splits sum.splits prod.splits if_splits)

lemma write_chunks_inv: "gatt_inv db \<Longrightarrow> gatt_inv (write_chunks cs db)"
  by (induction cs arbitrary: db) (auto simp: write_ops_inv)

lemma process_att_gatt_inv:
  assumes "process_att_packet ow ch pdu d = Some (res, d')" "gatt_inv (vd_gatt_db d)" "handler_ok ow"
  shows "gatt_inv (vd_gatt_db d')"
  using assms GattDatabase_write_inv [OF assms(2,3)]
  by (auto simp: process_att_packet_def att_exchange_mtu_def att_read_def att_read_blob_def
      att_write_cmd_def att_prepare_write_def att_execute_write_def Let_def apfst_def map_prod_def write_chunks_inv
      dest!: att_write_reqD(2) split: option.splits AttPdu.splits sum.splits prod.splits if_splits)

lemma att_write_attribute_store:
  assumes "device_inv d"
  shows "pred_option bond_store_inv (vd_bond_store (snd (att_write_attribute ow ch h v b d)))"
proof -
  have put: "pred_option bond_store_inv (vd_bond_store d') \<Longrightarrow>
      pred_option bond_store_inv (vd_bond_store (on_cccd_written h k p d'))" for h k p and d' :: "('a, 'b) VirtualDevice"
    by (auto simp: on_cccd_written_def Let_def memory_store.put_cccd_inv split: option.split)
  show ?thesis
    using assms by (auto simp: att_write_attribute_def Let_def device_inv_def intro!: put
        split: prod.split sum.split option.split)
qed

lemma process_att_store:
  assumes "process_att_packet ow ch pdu d = Some (res, d')" "device_inv d"
  shows "pred_option bond_store_inv (vd_bond_store d')"
proof -
  have "pred_option bond_store_inv (vd_bond_store d)" using assms(2) by (simp add: device_inv_def)
  moreover have "pred_option bond_store_inv (vd_bond_store (snd (att_write_req ow ch header v d)))" for header v
    using att_write_attribute_store [OF assms(2), of ow ch "wrq_handle header" v True]
    by (auto simp: att_write_req_def Let_def split: prod.split sum.split)
  then have "att_write_req ow ch header v d = (x, d') \<Longrightarrow> pred_option bond_store_inv (vd_bond_store d')" for header v x
    by (metis snd_conv)
  ultimately show ?thesis
    using assms(1) att_write_attribute_store [OF assms(2), of ow ch]
    by (auto simp: process_att_packet_def att_exchange_mtu_def att_read_def att_read_blob_def
        att_write_cmd_def att_prepare_write_def att_execute_write_def Let_def apfst_def map_prod_def
        split: option.splits AttPdu.splits sum.splits prod.splits if_splits)
qed

lemma process_att_inv:
  assumes inv: "device_inv d" and "handler_ok ow"
  shows "\<exists>res d'. process_att_packet ow ch pdu d = Some (res, d') \<and> device_inv d'"
proof -
  obtain res d' where step: "process_att_packet ow ch pdu d = Some (res, d')"
    using att_server_answers_aux [OF device_inv_gatt [OF inv]] by blast
  have "conn_ok h c'" if c': "vd_connections d' h = Some c'" for h c'
  proof -
    from process_att_connection(2) [OF step, of h] c' obtain c where c: "vd_connections d h = Some c"
        "conn_pairing_session c' = conn_pairing_session c" "conn_ltk c' = conn_ltk c" "conn_handle c' = conn_handle c"
      by (cases "vd_connections d h") auto
    have "conn_mtu c' = conn_mtu c \<or> 23 \<le> conn_mtu c' \<and> conn_mtu c' \<le> 512"
      using process_att_connection(1,4) [OF step] c c' by (cases "h = ch") auto
    with device_inv_conn [OF inv c(1)] c show ?thesis by (auto simp: conn_ok_def split: option.splits)
  qed
  then have "device_inv d'"
    using process_att_default [OF step] process_att_gatt_inv [OF step _ assms(2)] process_att_store [OF step inv] inv
    by (simp add: device_inv_def)
  with step show ?thesis by blast
qed

lemma session_new_total:
  assumes "from_private_be ec SMP_DEBUG_KEY_PRIVATE_BE \<noteq> None"
  shows "\<exists>s. PairingSession_new ec gen rnd role cfg la lt pa pt = Some s \<and> \<not> ps_failed s"
proof -
  obtain kp where kp: "(if pc_debug_mode cfg then from_private_be ec SMP_DEBUG_KEY_PRIVATE_BE else Some gen) = Some kp"
    using assms by (cases "pc_debug_mode cfg") auto
  show ?thesis unfolding PairingSession_new_def Let_def kp by (simp split: prod.split)
qed

lemma start_pairing_inv:
  assumes inv: "device_inv d" and ec: "from_private_be ec SMP_DEBUG_KEY_PRIVATE_BE \<noteq> None"
  shows "\<exists>res d'. start_pairing_with_config ec gen rnd h cfg d = Some (res, d') \<and> device_inv d'"
proof (cases "vd_connections d h")
  case None
  with assms show ?thesis by (simp add: start_pairing_with_config_def)
next
  case (Some c)
  let ?new = "PairingSession_new ec gen rnd Initiator cfg (vd_address d) (vd_address_type d)
    (conn_peer_address c) (conn_peer_address_type c)"
  obtain s where s: "?new = Some s" "\<not> ps_failed s"
    using session_new_total [OF ec] by blast
  then have "smp_inv (snd (session_start s)) \<and> \<not> ps_failed (snd (session_start s))"
    using other_operations_inv(1) [OF session_new_inv [OF s(1)]] by (simp add: session_start_def Let_def)
  then have "device_inv (modify_connection h (\<lambda>c. c\<lparr>conn_pairing_session := Some (snd (session_start s))\<rparr>) d)"
    using device_inv_conn [OF inv] by (intro device_inv_modify [OF inv]) (auto simp: conn_ok_def)
  with Some s(1) inv show ?thesis
    by (cases "session_start s") (auto simp: start_pairing_with_config_def)
qed

lemma tick_connection_ok: "conn_ok h c \<Longrightarrow> conn_ok h (tick_connection t c)"
proof (cases "conn_pairing_session c")
  case (Some s)
  assume ok: "conn_ok h c"
  with Some have "smp_inv (snd (session_tick t s))"
    by (intro other_operations_inv) (simp add: conn_ok_def)
  moreover have "ps_failed (snd (session_tick t s)) \<longleftrightarrow> ps_failed s \<or> fst (session_tick t s)"
    by (auto simp: session_tick_def Let_def discard_key_material_def stop_timer_def split: option.split)
  ultimately show ?thesis
    using ok Some by (cases "session_tick t s") (auto simp: conn_ok_def tick_connection_def Let_def)
qed (simp add: tick_connection_def)

lemma poll_smp_inv: "device_inv d \<Longrightarrow> device_inv (snd (poll_smp_pdu h d))"
proof -
  assume inv: "device_inv d"
  have "conn_ok h c \<Longrightarrow> conn_pairing_session c = Some s \<Longrightarrow> poll_pending s = (p, s') \<Longrightarrow>
      smp_inv s' \<and> (p = None \<longrightarrow> s' = s)" for c s s' p
    using other_operations_inv(2) [of s] by (auto simp: conn_ok_def poll_pending_def split: list.splits)
  then show ?thesis
    using inv device_inv_conn [OF inv, of h]
    by (fastforce simp: poll_smp_pdu_def conn_ok_def split: option.split prod.split
        intro!: maybe_record_bond_inv device_inv_modify [OF inv] mirror_session_ok)
qed

lemma device_step_inv:
  assumes inv: "device_inv d" and "handler_ok ow" "from_private_be ec SMP_DEBUG_KEY_PRIVATE_BE \<noteq> None"
  shows "\<exists>d'. device_step ec ow e d = Some d' \<and> device_inv d'"
proof (cases e)
  case (Frame gen rnd h raw)
  with process_att_inv [OF inv assms(2), of h] process_smp_inv [OF inv, of ec gen rnd h] show ?thesis
    by (cases "L2capHeader_parse raw") (fastforce simp: process_l2cap_packet_def inv)+
next
  case (StartPairing gen rnd h cfg)
  with start_pairing_inv [OF inv assms(3), of gen rnd h cfg] show ?thesis by auto
next
  case (Tick t)
  with inv show ?thesis by (auto simp: tick_smp_def device_inv_def tick_connection_ok)
next
  case (Indicate h k v)
  with inv device_inv_conn [OF inv, of h] show ?thesis
    by (auto simp: create_indication_def Let_def intro!: device_inv_modify split: option.split)
next
  case (PeerAddressType h t)
  with inv device_inv_conn [OF inv, of h] show ?thesis
    by (auto simp: set_peer_address_type_def intro!: device_inv_modify)
next
  case (IsoSdu p)
  with inv show ?thesis by (auto simp: on_iso_sdu_def device_inv_def Let_def)
next
  case (SendAudio h p)
  with inv show ?thesis by (auto simp: build_audio_packet_def device_inv_def)
qed (use inv in \<open>simp_all add: on_connected_inv on_disconnected_inv on_encryption_changed_inv poll_smp_inv
      create_notification_for_def Let_def\<close>)

lemma device_run_inv:
  assumes "handler_ok ow" "from_private_be ec SMP_DEBUG_KEY_PRIVATE_BE \<noteq> None"
  shows "device_inv d \<Longrightarrow> \<exists>d'. device_run ec ow es d = Some d' \<and> device_inv d'"
proof (induction es arbitrary: d)
  case (Cons e es)
  from device_step_inv [OF Cons.prems assms, of e] Cons.IH show ?case by fastforce
qed simp

text \<open>C33: Whatever happens to a device, in whatever order, connections, arbitrary frames from its
  peers, encryption changes, ticks, polls and local requests, it does not panic and stays consistent:
  its database is well formed, every connection is filed under its own handle with a transfer unit
  between 23 and 512 octets, the audio queue holds at most 256 units, and a connection whose pairing
  failed or timed out holds no link key and no secret the pairing derived.\<close>
theorem device_never_panics:
  assumes "handler_ok ow" "from_private_be ec SMP_DEBUG_KEY_PRIVATE_BE \<noteq> None" "gatt_inv db"
    and "pred_option bond_store_inv store"
  shows "\<exists>d. device_run ec ow es ((VirtualDevice_new name addr atype)
      \<lparr>vd_gatt_db := db, vd_observer := obs, vd_bond_store := store\<rparr>) = Some d
    \<and> gatt_inv (vd_gatt_db d) \<and> length (vd_audio_rx d) \<le> MAX_QUEUED_SDUS
    \<and> (\<forall>h c. vd_connections d h = Some c \<longrightarrow> conn_handle c = h \<and> 23 \<le> conn_mtu c \<and> conn_mtu c \<le> 512
        \<and> (\<forall>s. conn_pairing_session c = Some s \<and> ps_failed s \<longrightarrow> no_derived_secrets s \<and> conn_ltk c = None))"
proof -
  let ?d0 = "(VirtualDevice_new name addr atype)\<lparr>vd_gatt_db := db, vd_observer := obs, vd_bond_store := store\<rparr>"
  have "device_inv ?d0"
    using assms(3,4) by (simp add: device_inv_def VirtualDevice_new_def)
  from device_run_inv [OF assms(1,2) this] obtain d where d: "device_run ec ow es ?d0 = Some d" "device_inv d" by blast
  then show ?thesis
    using device_inv_conn [OF d(2)] by (fastforce simp: device_inv_def conn_ok_def smp_inv_def)
qed

lemma handler_ok_counting: "handler_ok counting_handler"
  by (simp add: handler_ok_def counting_handler_def write_ops_inv)

theorem device_never_panics_witness:
  "\<exists>d. device_run sample_curve counting_handler
      [Connected 0x40 Address_ANY Peripheral,
       Frame sample_pair (\<lambda>_ n. replicate n 0) 0x40 (L2capHeader_serialize cid_SMP [smp_PAIRING_REQUEST]),
       Frame sample_pair (\<lambda>_ n. replicate n 0) 0x40 (L2capHeader_serialize cid_ATT [0x0A, 3, 0]), Tick 31]
      ((VirtualDevice_new [[0x73], [0x31]] Address_ANY Public)
        \<lparr>vd_gatt_db := sample_db, vd_observer := Some [], vd_bond_store := Some MemoryBondStore_new\<rparr>) = Some d
    \<and> gatt_inv (vd_gatt_db d) \<and> length (vd_audio_rx d) \<le> MAX_QUEUED_SDUS
    \<and> (\<forall>h c. vd_connections d h = Some c \<longrightarrow> conn_handle c = h \<and> 23 \<le> conn_mtu c \<and> conn_mtu c \<le> 512
        \<and> (\<forall>s. conn_pairing_session c = Some s \<and> ps_failed s \<longrightarrow> no_derived_secrets s \<and> conn_ltk c = None))"
proof (rule device_never_panics)
  show "handler_ok counting_handler" by (rule handler_ok_counting)
qed (simp_all add: gatt_inv_sample_db from_private_be_def sample_curve_def bond_store_inv_def MemoryBondStore_new_def)

end
