(* ===== verification/Subscriptions.thy ===== *)
theory Subscriptions
  imports Device_Safety
begin

text \<open>
  What the subscription records of a device mean across operations: a disconnect ends the peer's
  subscriptions and reports each, a completed bonding stores them, and the same peer finds them again
  when it reconnects. Last, what a failed pairing means for a peer that tries again.
\<close>

section \<open>Reading and setting descriptors\<close>

lemma cccd_value_cong:
  "bt_get (attributes (vd_gatt_db d)) k = bt_get (attributes (vd_gatt_db d')) k \<Longrightarrow> cccd_value d k = cccd_value d' k"
  by (simp add: cccd_value_def)

lemma cccd_value_device [simp]:
  "cccd_value (observe ev d) = cccd_value d"
  "cccd_value (notify_subscription h k p c r d) = cccd_value d"
  "cccd_value (d\<lparr>vd_connections := cs\<rparr>) = cccd_value d"
  "cccd_value (d\<lparr>vd_is_advertising := b\<rparr>) = cccd_value d"
  "cccd_value (d\<lparr>vd_bond_store := st\<rparr>) = cccd_value d"
  by (auto intro!: ext cccd_value_cong)

lemma set_value_get:
  "bt_get (attributes (snd (set_value db k v))) =
     (bt_get (attributes db))(k := map_option (\<lambda>a. a\<lparr>attr_value := v\<rparr>) (bt_get (attributes db) k))"
  by (auto simp: set_value_def fun_eq_iff split: option.split)

lemma cccd_value_set_value [simp]:
  "cccd_value (d\<lparr>vd_gatt_db := snd (set_value (vd_gatt_db d) k (to_le_bytes v))\<rparr>) j =
     (if j = k then map_option (\<lambda>_. v) (cccd_value d k) else cccd_value d j)"
  by (auto simp: cccd_value_def set_value_get to_le_bytes_def split: option.split)

lemma cccd_value_clear [simp]:
  "cccd_value (d\<lparr>vd_gatt_db := snd (set_value (vd_gatt_db d) k [0, 0])\<rparr>) j =
     (if j = k then map_option (\<lambda>_. 0) (cccd_value d k) else cccd_value d j)"
  using cccd_value_set_value [of d k 0 j] by (simp add: to_le_bytes_def)

lemma map_filter_keys: "map fst (List.map_filter (\<lambda>h. map_option (\<lambda>v. (h, v)) (f h)) hs) = filter (\<lambda>h. f h \<noteq> None) hs"
  by (induction hs) (auto simp: List.map_filter_def)

lemma filter_fst_distinct: "distinct (map fst xs) \<Longrightarrow> distinct (map fst (filter P xs))"
  by (induction xs) auto

lemma subscribed_cccds_mem:
  assumes "gatt_inv (vd_gatt_db d)"
  shows "(k, v) \<in> set (subscribed_cccds d) \<longleftrightarrow> cccd_value d k = Some v \<and> v \<noteq> 0"
proof -
  have "cccd_value d k = Some v \<Longrightarrow> k \<in> fst ` set (attributes (vd_gatt_db d))"
    using bt.get_None_iff [of "attributes (vd_gatt_db d)" k] assms
    by (auto simp: cccd_value_def gatt_inv_def split: option.splits)
  then show ?thesis
    by (force simp: subscribed_cccds_def List.map_filter_def)
qed

lemma subscribed_cccds_distinct:
  "gatt_inv (vd_gatt_db d) \<Longrightarrow> distinct (map fst (subscribed_cccds d))"
  unfolding subscribed_cccds_def
  by (intro filter_fst_distinct) (simp add: map_filter_keys gatt_inv_def bt_inv_def strict_sorted_iff)

lemma map_of_subscribed:
  assumes "gatt_inv (vd_gatt_db d)"
  shows "map_of (subscribed_cccds d) k = (case cccd_value d k of Some v \<Rightarrow> if v = 0 then None else Some v | None \<Rightarrow> None)"
proof (cases "map_of (subscribed_cccds d) k")
  case None
  then have "(k, v) \<notin> set (subscribed_cccds d)" for v
    by (simp add: map_of_eq_None_iff) (metis fst_conv image_eqI)
  with None subscribed_cccds_mem [OF assms, of k] show ?thesis by (auto split: option.split)
next
  case (Some v)
  with subscribed_cccds_mem [OF assms, of k v] show ?thesis by (auto dest: map_of_SomeD)
qed

lemma unsubscribe_loop_cccd:
  "cccd_value (unsubscribe_loop h hvs d) k =
     (if k \<in> fst ` set hvs then map_option (\<lambda>_. 0) (cccd_value d k) else cccd_value d k)"
proof (induction hvs arbitrary: d)
  case (Cons hv hvs)
  then show ?case by (cases hv) (simp add: option.map_comp comp_def)
qed simp

lemma restore_loop_cccd:
  "distinct (map fst hvs) \<Longrightarrow> cccd_value (restore_loop h hvs d) k =
     map_option (\<lambda>old. case map_of hvs k of Some v \<Rightarrow> v | None \<Rightarrow> old) (cccd_value d k)"
proof (induction hvs arbitrary: d)
  case (Cons hv hvs)
  obtain j v where hv: "hv = (j, v)" by (cases hv)
  have "cccd_value (restore_loop h (hv # hvs) d) k = map_option
      (\<lambda>old. case map_of hvs k of Some v \<Rightarrow> v | None \<Rightarrow> old)
      (cccd_value (d\<lparr>vd_gatt_db := snd (set_value (vd_gatt_db d) j (to_le_bytes v))\<rparr>) k)"
    using Cons by (auto simp: hv Let_def split_def split: sum.split)
  moreover have "k = j \<Longrightarrow> map_of hvs k = None" using Cons.prems by (simp add: hv map_of_eq_None_iff)
  ultimately show ?case by (auto simp: hv option.map_comp comp_def)
qed (simp add: option.map_ident)

section \<open>Disconnecting\<close>

lemma unsubscribe_loop_device [simp]:
  "vd_connections (unsubscribe_loop h hvs d) = vd_connections d"
  "vd_bond_store (unsubscribe_loop h hvs d) = vd_bond_store d"
  "next_handle (vd_gatt_db (unsubscribe_loop h hvs d)) = next_handle (vd_gatt_db d)"
  by (induction hvs arbitrary: d) (auto simp: set_value_def split: option.split)

lemma unsubscribe_loop_value:
  "k \<notin> fst ` set hvs \<Longrightarrow> GattDatabase_value (vd_gatt_db (unsubscribe_loop h hvs d)) k = GattDatabase_value (vd_gatt_db d) k"
  by (induction hvs arbitrary: d) (auto simp: GattDatabase_value_def set_value_get)

lemma unsubscribe_loop_events:
  assumes "\<forall>(k, v) \<in> set hvs. v \<noteq> 0"
  shows "vd_observer (unsubscribe_loop h hvs d) = map_option (\<lambda>log. log @ map (\<lambda>(k, v).
      on_subscription_changed h k (v AND CCCD_NOTIFY \<noteq> 0) False (v AND CCCD_INDICATE \<noteq> 0) False ReasonDisconnect) hvs)
      (vd_observer d)"
  using assms
  by (induction hvs arbitrary: d)
    (auto simp: notify_subscription_def observe_def option.map_comp comp_def option.map_ident)

text \<open>C36: When a connected peer disconnects, every subscription ends and nothing else in the database
  changes; the observer is told of each ended subscription once, in handle order, and then of the
  disconnection.\<close>
theorem disconnect_ends_subscriptions:
  assumes "gatt_inv (vd_gatt_db d)" "vd_connections d h = Some c"
  defines "d' \<equiv> on_disconnected h d"
  shows "subscribed_cccds d' = [] \<and> vd_connections d' = (vd_connections d)(h := None)
    \<and> (\<forall>k. k \<notin> fst ` set (subscribed_cccds d) \<longrightarrow>
         GattDatabase_value (vd_gatt_db d') k = GattDatabase_value (vd_gatt_db d) k)
    \<and> vd_observer d' = map_option (\<lambda>log. log @ map (\<lambda>(k, v).
         on_subscription_changed h k (v AND CCCD_NOTIFY \<noteq> 0) False (v AND CCCD_INDICATE \<noteq> 0) False ReasonDisconnect)
           (subscribed_cccds d) @ [on_connection_state_changed h (conn_peer_address c) False]) (vd_observer d)"
proof -
  let ?d1 = "d\<lparr>vd_connections := (vd_connections d)(h := None)\<rparr>"
  let ?d2 = "unsubscribe_loop h (subscribed_cccds ?d1) ?d1"
  have same: "subscribed_cccds ?d1 = subscribed_cccds d" by (simp add: subscribed_cccds_def)
  have d': "d' = observe (on_connection_state_changed h (conn_peer_address c) False) ?d2"
    using assms(2) by (simp add: d'_def on_disconnected_def Let_def)
  have nz: "\<forall>(k, v) \<in> set (subscribed_cccds d). v \<noteq> 0" by (auto simp: subscribed_cccds_def)
  have "cccd_value d' k \<noteq> Some v \<or> v = 0" for k v
  proof (cases "k \<in> fst ` set (subscribed_cccds d)")
    case False
    then have "(k, v) \<notin> set (subscribed_cccds d)" by force
    with False subscribed_cccds_mem [OF assms(1), of k v] show ?thesis
      unfolding d' by (simp add: unsubscribe_loop_cccd same)
  qed (auto simp: d' unsubscribe_loop_cccd same)
  then have "subscribed_cccds d' = []"
    by (force simp: subscribed_cccds_def filter_empty_conv List.map_filter_def)
  moreover have "vd_observer d' = map_option (\<lambda>log. log @ [on_connection_state_changed h (conn_peer_address c) False])
      (vd_observer ?d2)"
    unfolding d' by (simp add: observe_def)
  ultimately show ?thesis
    using unsubscribe_loop_events [OF nz, of h ?d1]
    by (simp add: d' same unsubscribe_loop_value option.map_comp comp_def)
qed

text \<open>The sample database with a descriptor that has notifications on.\<close>

definition subscribed_db :: "nat GattDatabase" where
  "subscribed_db = snd (set_value (snd (the (add_cccd sample_db))) 5 [1, 0])"

lemma subscribed_db_inv: "gatt_inv subscribed_db"
proof -
  obtain h db where "add_cccd sample_db = Some (h, db)" "gatt_inv db"
    using add_attribute_succeeds [OF gatt_inv_sample_db, of 1 "Uuid_from_u16 CLIENT_CHARACTERISTIC_CONFIGURATION"
        permissions_default "[0, 0]"]
    by (auto simp: add_cccd_as_attribute sample_db_def)
  then show ?thesis by (simp add: subscribed_db_def write_ops_inv)
qed

lemma subscribed_db_cccd: "cccd_value (sample_device\<lparr>vd_gatt_db := subscribed_db\<rparr>) 5 = Some 1"
  by (simp add: cccd_value_def subscribed_db_def set_value_get add_cccd_def allocate_handle_def sample_db_def
      insert_attribute_def bt_get_def Uuid_from_u16_def from_le_bytes_def)

theorem disconnect_ends_subscriptions_witness:
  "let d = sample_device\<lparr>vd_gatt_db := subscribed_db, vd_observer := Some []\<rparr>;
       c = ConnectionState_new 0x40 Address_ANY 23 :: unit ConnectionState;
       d' = on_disconnected 0x40 d
   in subscribed_cccds d' = [] \<and> vd_connections d' = (vd_connections d)(0x40 := None)
    \<and> (\<forall>k. k \<notin> fst ` set (subscribed_cccds d) \<longrightarrow>
         GattDatabase_value (vd_gatt_db d') k = GattDatabase_value (vd_gatt_db d) k)
    \<and> vd_observer d' = map_option (\<lambda>log. log @ map (\<lambda>(k, v).
         on_subscription_changed 0x40 k (v AND CCCD_NOTIFY \<noteq> 0) False (v AND CCCD_INDICATE \<noteq> 0) False ReasonDisconnect)
           (subscribed_cccds d) @ [on_connection_state_changed 0x40 (conn_peer_address c) False]) (vd_observer d)"
  unfolding Let_def
  by (rule disconnect_ends_subscriptions) (simp_all add: subscribed_db_inv)

section \<open>Reconnecting\<close>

text \<open>A bonded peer's subscriptions survive a reconnection: when the pairing of a connection is
  complete and bonding, the peer keeps its identity address, and the records the store already has
  for it match the descriptors, then after the bond is recorded, the peer disconnects and connects
  again, every descriptor reads as before.\<close>
theorem subscriptions_survive_reconnect:
  assumes "gatt_inv (vd_gatt_db d)" "vd_bond_store d = Some st" "bond_store_inv st"
    and "vd_connections d h = Some c" "conn_pairing_session c = Some s" "ps_complete s" "ps_bonding s"
    and "bond_key_address c = p" "\<forall>(k, v) \<in> set (load_cccds st p). cccd_value d k = Some v"
  shows "cccd_value (on_connected_with_role h' p role (on_disconnected h (maybe_record_bond h d))) k = cccd_value d k"
proof -
  define sec where "sec = \<lparr>bs_keys = pairing_keys s, bs_secure_connections = ps_sc s,
    bs_authenticated = is_authenticated s, bs_key_size = encryption_key_size s\<rparr>"
  define st1 where "st1 = fold (\<lambda>(h, v). store_cccd p h v) (subscribed_cccds d) (store_security p sec st)"
  have recd: "maybe_record_bond h d = d\<lparr>vd_bond_store := Some st1\<rparr>"
    using assms by (simp add: maybe_record_bond_def Let_def st1_def sec_def)
  have inv1: "bond_store_inv (store_security p sec st)" by (rule memory_store.put_sec_inv [OF assms(3)])
  then have inv: "bond_store_inv st1" unfolding st1_def by (rule memory_store.sweep_inv)
  have nz: "\<forall>(k, v) \<in> set (subscribed_cccds d). v \<noteq> 0" by (auto simp: subscribed_cccds_def)
  have loaded: "map_of (load_cccds st1 p) = map_of (load_cccds st p) ++ map_of (subscribed_cccds d)"
    unfolding st1_def memory_store.sweep_cccds [OF inv1 subscribed_cccds_distinct [OF assms(1)] nz]
    by (simp add: memory_store.cccds_put_sec)
  have bonded: "is_bonded st1 p"
    by (simp add: is_bonded_def st1_def memory_store.bonded_after_record)
  define d2 where "d2 = on_disconnected h (maybe_record_bond h d)"
  have store2: "vd_bond_store d2 = Some st1"
    by (simp add: d2_def recd on_disconnected_def Let_def)
  have same: "subscribed_cccds (d\<lparr>vd_bond_store := st', vd_connections := cs\<rparr>) = subscribed_cccds d" for st' cs
    by (simp add: subscribed_cccds_def)
  have cleared: "cccd_value d2 k = map_option (\<lambda>_. 0) (cccd_value d k)"
    using assms(4) subscribed_cccds_mem [OF assms(1), of k]
    by (cases "cccd_value d k") (force simp: d2_def recd on_disconnected_def Let_def unsubscribe_loop_cccd same)+
  have "cccd_value (on_connected_with_role h' p role d2) k =
      map_option (\<lambda>old. case map_of (load_cccds st1 p) k of Some v \<Rightarrow> v | None \<Rightarrow> old) (cccd_value d2 k)"
    using bonded store2
    by (simp add: on_connected_with_role_def restore_bonded_subscriptions_def Let_def restore_loop_cccd
        memory_store.cccds_distinct [OF inv])
  also have "\<dots> = cccd_value d k"
  proof (cases "cccd_value d k")
    case (Some v)
    have "map_of (load_cccds st p) k = Some w \<Longrightarrow> w = v" for w
      using assms(9) Some by (auto dest!: map_of_SomeD)
    then show ?thesis
      using Some by (auto simp: cleared loaded map_add_def map_of_subscribed [OF assms(1)] split: option.split)
  qed (simp add: cleared)
  finally show ?thesis by (simp add: d2_def)
qed

definition bonded_connection :: "unit ConnectionState" where
  "bonded_connection = (ConnectionState_new 0x40 Address_ANY 23)
     \<lparr>conn_pairing_session := Some ((sample_session Responder)\<lparr>ps_complete := True\<rparr>)\<rparr>"

theorem subscriptions_survive_reconnect_witness:
  "let d = sample_device\<lparr>vd_gatt_db := subscribed_db,
         vd_connections := [0x40 \<mapsto> bonded_connection], vd_bond_store := Some MemoryBondStore_new\<rparr>
   in cccd_value d 5 = Some 1 \<and> cccd_value (on_connected_with_role 0x41 Address_ANY Peripheral
        (on_disconnected 0x40 (maybe_record_bond 0x40 d))) 5 = cccd_value d 5"
  unfolding Let_def
proof (rule conjI, simp add: subscribed_db_cccd, rule subscriptions_survive_reconnect)
  have "ps_bonding (sample_session Responder)" "ps_peer_identity_address (sample_session Responder) = None"
    by (simp_all add: sample_session_def PairingSession_new_def PairingConfig_default_def Let_def)
  then show "ps_bonding ((sample_session Responder)\<lparr>ps_complete := True\<rparr>)"
    "bond_key_address bonded_connection = Address_ANY"
    by (simp_all add: bond_key_address_def bonded_connection_def ConnectionState_new_def
        ConnectionState_new_with_role_def)
  show "conn_pairing_session bonded_connection = Some ((sample_session Responder)\<lparr>ps_complete := True\<rparr>)"
    by (simp add: bonded_connection_def)
  show "bond_store_inv MemoryBondStore_new"
    by (simp add: bond_store_inv_def MemoryBondStore_new_def)
  have "load_cccds MemoryBondStore_new Address_ANY = []"
    by (simp add: load_cccds_def MemoryBondStore_new_def)
  then show "\<forall>(k, v) \<in> set (load_cccds MemoryBondStore_new Address_ANY). cccd_value (sample_device
      \<lparr>vd_gatt_db := subscribed_db, vd_connections := [0x40 \<mapsto> bonded_connection],
       vd_bond_store := Some MemoryBondStore_new\<rparr>) k = Some v"
    by simp
qed (simp_all add: subscribed_db_inv)

section \<open>Pairing again after a failure\<close>

lemma maybe_record_bond_connections [simp]: "vd_connections (maybe_record_bond h d) = vd_connections d"
  by (simp add: maybe_record_bond_def Let_def split: option.split)

text \<open>A responder whose pairing has failed never pairs again on that connection: every later SMP
  packet, a fresh Pairing Request included, is dropped without an answer and without any change,
  although the initiator side treats an ordinary failure as restartable.\<close>
theorem failed_pairing_is_not_restartable:
  assumes "vd_connections d h = Some c" "conn_pairing_session c = Some s" "ps_failed s" "smp_inv s"
    and "ps_pending s = []"
  shows "\<exists>d'. process_smp_packet ec gen rnd h pdu d = Some (Inr None, d')
    \<and> (\<exists>c'. vd_connections d' h = Some c' \<and> conn_pairing_session c' = Some s \<and> conn_ltk c' = None)"
proof -
  have "handle_pdu ec rnd pdu s = Some (None, s)"
    using assms(3,5) by (simp add: handle_pdu_def session_step_def poll_pending_def)
  then show ?thesis
    using assms(1-4) by (simp add: process_smp_packet_def mirror_session_def failed_ltk)
qed

theorem failed_pairing_is_not_restartable_witness:
  "let s = snd (poll_pending (fail smp_error_INVALID_PARAMETERS (sample_session Responder)));
       c = (ConnectionState_new 0x40 Address_ANY 23 :: unit ConnectionState)\<lparr>conn_pairing_session := Some s\<rparr>
   in \<exists>d'. process_smp_packet sample_curve sample_pair (\<lambda>_ n. replicate n 0) 0x40 [smp_PAIRING_REQUEST, 3, 0, 9, 16, 3, 3]
      (sample_device\<lparr>vd_connections := [0x40 \<mapsto> c]\<rparr>) = Some (Inr None, d')
    \<and> (\<exists>c'. vd_connections d' 0x40 = Some c' \<and> conn_pairing_session c' = Some s \<and> conn_ltk c' = None)"
proof -
  let ?f = "fail smp_error_INVALID_PARAMETERS (sample_session Responder)"
  have pending: "ps_pending ?f = [[smp_PAIRING_FAILED, smp_error_INVALID_PARAMETERS]]"
    by (simp add: fail_def stop_timer_def discard_key_material_def sample_session_def PairingSession_new_def
        PairingConfig_default_def Let_def)
  have "ps_failed (snd (poll_pending ?f))" "smp_inv (snd (poll_pending ?f))" "ps_pending (snd (poll_pending ?f)) = []"
    using pending by (simp_all add: poll_pending_def other_operations_inv(2) [unfolded poll_pending_def])
      (simp add: fail_def stop_timer_def queue_def discard_key_material_def smp_inv_def no_derived_secrets_def)
  then show ?thesis unfolding Let_def
    by (intro failed_pairing_is_not_restartable [where c = "(ConnectionState_new 0x40 Address_ANY 23)
        \<lparr>conn_pairing_session := Some (snd (poll_pending ?f))\<rparr>"]) simp_all
qed

end
