(* ===== verification/Gatt_Client.thy ===== *)
theory Gatt_Client
  imports Att_Parser Gatt_Database L2cap_Frame
begin

text \<open>
  The GATT client engine (\<open>src/src/client/gatt_client.rs\<close>): requests it builds and responses it
  parses into the services, characteristics and descriptors of a peer.
\<close>

section \<open>What a client knows of its peer\<close>

record DiscoveredDescriptor =
  desc_handle :: u16
  desc_uuid :: Uuid

record DiscoveredCharacteristic =
  dc_declaration_handle :: u16
  dc_value_handle :: u16
  dc_properties :: u8
  dc_uuid :: Uuid
  dc_descriptors :: "DiscoveredDescriptor list"

record DiscoveredService =
  ds_start_handle :: u16
  ds_end_handle :: u16
  ds_uuid :: Uuid
  ds_characteristics :: "DiscoveredCharacteristic list"

record GattClient =
  gc_connection_handle :: u16
  gc_peer_address :: Address
  gc_mtu :: u16
  gc_services :: "DiscoveredService list"

section \<open>Requests\<close>

definition create_range_request :: "u8 \<Rightarrow> u16 \<Rightarrow> u16 \<Rightarrow> u16 \<Rightarrow> bytes" where
  "create_range_request opcode start_handle end_handle uuid_16 =
     L2capHeader_serialize cid_ATT
       (AttReadByTypeReqHeader_as_bytes
          \<lparr>rtq_opcode = opcode, rtq_start_handle = start_handle, rtq_end_handle = end_handle\<rparr>
        @ to_le_bytes uuid_16)"

definition GattClient_new :: "u16 \<Rightarrow> Address \<Rightarrow> GattClient" where
  "GattClient_new connection_handle peer_address =
     \<lparr>gc_connection_handle = connection_handle, gc_peer_address = peer_address, gc_mtu = 23, gc_services = []\<rparr>"

definition create_exchange_mtu_request :: "u16 \<Rightarrow> bytes" where
  "create_exchange_mtu_request client_mtu =
     L2capHeader_serialize cid_ATT (AttExchangeMtuReq_as_bytes (AttExchangeMtuReq_new client_mtu))"

definition on_exchange_mtu_response :: "u16 \<Rightarrow> u16 \<Rightarrow> GattClient \<Rightarrow> GattClient" where
  "on_exchange_mtu_response server_mtu client_mtu c = c\<lparr>gc_mtu := max (min server_mtu client_mtu) 23\<rparr>"

definition create_discover_services_request :: "u16 \<Rightarrow> u16 \<Rightarrow> bytes" where
  "create_discover_services_request start_handle end_handle =
     create_range_request opcode_READ_BY_GROUP_TYPE_REQ start_handle end_handle 0x2800"

definition create_discover_characteristics_request :: "u16 \<Rightarrow> u16 \<Rightarrow> bytes" where
  "create_discover_characteristics_request start_handle end_handle =
     create_range_request opcode_READ_BY_TYPE_REQ start_handle end_handle 0x2803"

definition create_read_request :: "u16 \<Rightarrow> bytes" where
  "create_read_request handle =
     L2capHeader_serialize cid_ATT (AttReadReq_as_bytes \<lparr>rrq_opcode = opcode_READ_REQ, rrq_handle = handle\<rparr>)"

definition create_read_blob_request :: "u16 \<Rightarrow> u16 \<Rightarrow> bytes" where
  "create_read_blob_request handle offset =
     L2capHeader_serialize cid_ATT (AttReadBlobReq_as_bytes (AttReadBlobReq_new handle offset))"

definition create_write_pdu :: "u8 \<Rightarrow> u16 \<Rightarrow> bytes \<Rightarrow> bytes" where
  "create_write_pdu opcode handle v =
     L2capHeader_serialize cid_ATT (AttWriteReqHeader_as_bytes (AttWriteReqHeader_new opcode handle) @ v)"

definition create_write_request :: "u16 \<Rightarrow> bytes \<Rightarrow> bytes" where
  "create_write_request handle v = create_write_pdu opcode_WRITE_REQ handle v"

definition create_write_command :: "u16 \<Rightarrow> bytes \<Rightarrow> bytes" where
  "create_write_command handle v = create_write_pdu opcode_WRITE_CMD handle v"

section \<open>Responses\<close>

fun discovered_services :: "(AttReadByGroupTypeItemHeader \<times> bytes) list \<Rightarrow> DiscoveredService list" where
  "discovered_services [] = []"
| "discovered_services ((entry, uuid_bytes) # rest) =
     (case Uuid_from_bytes uuid_bytes of
        None \<Rightarrow> discovered_services rest
      | Some uuid \<Rightarrow>
          \<lparr>ds_start_handle = rgi_attribute_handle entry, ds_end_handle = rgi_end_group_handle entry,
           ds_uuid = uuid, ds_characteristics = []\<rparr> # discovered_services rest)"

definition on_discover_services_response :: "bytes \<Rightarrow> GattClient \<Rightarrow> unit result \<times> GattClient" where
  "on_discover_services_response payload c =
     (case AttReadByGroupTypeRspHeader_parse payload of
        None \<Rightarrow> (Inl (PacketParseError ''Invalid ReadByGroupType response''), c)
      | Some (header, attribute_data_list) \<Rightarrow>
     (case AttReadByGroupTypeRspHeader_items header attribute_data_list of
        None \<Rightarrow> (Inl (PacketParseError ''Invalid item length in service rsp''), c)
      | Some items \<Rightarrow>
          (Inr (), c\<lparr>gc_services := gc_services c
             @ discovered_services (AttDataListIter_collect 4 AttReadByGroupTypeItemHeader_of_bytes items)\<rparr>)))"

fun discovered_characteristics :: "(AttReadByTypeItemHeader \<times> bytes) list \<Rightarrow> DiscoveredCharacteristic list" where
  "discovered_characteristics [] = []"
| "discovered_characteristics ((entry, v) # rest) =
     (case from_prefix 3 CharacteristicDecl_of_bytes v of
        None \<Rightarrow> discovered_characteristics rest
      | Some (decl, uuid_bytes) \<Rightarrow>
     (case Uuid_from_bytes uuid_bytes of
        None \<Rightarrow> discovered_characteristics rest
      | Some uuid \<Rightarrow>
          \<lparr>dc_declaration_handle = rti_attribute_handle entry, dc_value_handle = cd_value_handle decl,
           dc_properties = cd_properties decl, dc_uuid = uuid, dc_descriptors = []\<rparr>
          # discovered_characteristics rest))"

text \<open>The characteristics go to the first service with the UUID the caller names.\<close>

fun push_characteristics ::
  "Uuid \<Rightarrow> DiscoveredCharacteristic list \<Rightarrow> DiscoveredService list \<Rightarrow> DiscoveredService list option" where
  "push_characteristics uuid cs [] = None"
| "push_characteristics uuid cs (s # ss) =
     (if ds_uuid s = uuid then Some (s\<lparr>ds_characteristics := ds_characteristics s @ cs\<rparr> # ss)
      else map_option ((#) s) (push_characteristics uuid cs ss))"

definition on_discover_characteristics_response :: "Uuid \<Rightarrow> bytes \<Rightarrow> GattClient \<Rightarrow> (unit result \<times> GattClient) option" where
  "on_discover_characteristics_response service_uuid payload c =
     (case AttReadByTypeRspHeader_parse payload of
        None \<Rightarrow> Some (Inl (PacketParseError ''Invalid ReadByType response''), c)
      | Some (header, attribute_data_list) \<Rightarrow>
          if unat (rtr_length header) < 2 + 3
          then Some (Inl (PacketParseError ''Invalid item length in char rsp''), c)
          else (case AttReadByTypeRspHeader_items header attribute_data_list of
             None \<Rightarrow> None
           | Some items \<Rightarrow>
               (case push_characteristics service_uuid
                   (discovered_characteristics (AttDataListIter_collect 2 AttReadByTypeItemHeader_of_bytes items))
                   (gc_services c) of
                  None \<Rightarrow> Some (Inl (Gatt ''Service not discovered''), c)
                | Some services \<Rightarrow> Some (Inr (), c\<lparr>gc_services := services\<rparr>))))"

fun find_in_services :: "Uuid \<Rightarrow> DiscoveredService list \<Rightarrow> DiscoveredCharacteristic option" where
  "find_in_services uuid [] = None"
| "find_in_services uuid (s # ss) =
     (case List.find (\<lambda>ch. dc_uuid ch = uuid) (ds_characteristics s) of
        Some ch \<Rightarrow> Some ch
      | None \<Rightarrow> find_in_services uuid ss)"

definition find_characteristic :: "GattClient \<Rightarrow> Uuid \<Rightarrow> DiscoveredCharacteristic option" where
  "find_characteristic c uuid = find_in_services uuid (gc_services c)"

definition parse_error_response :: "bytes \<Rightarrow> AttErrorRsp option" where
  "parse_error_response payload =
     (if length payload < 5 \<or> payload ! 0 \<noteq> opcode_ERROR_RSP then None
      else map_option fst (AttErrorRsp_parse payload))"

section \<open>Reading responses back\<close>

text \<open>No response makes the client panic: the list walk that is unwrapped has been checked.\<close>

lemma on_discover_characteristics_total:
  "\<exists>r. on_discover_characteristics_response uuid payload c = Some r"
  by (auto simp: on_discover_characteristics_response_def AttReadByTypeRspHeader_items_def Let_def
      split: option.splits)

lemma on_discover_characteristics_cases:
  assumes "on_discover_characteristics_response uuid payload c = Some (res, c')"
  shows "c' = c \<or> (\<exists>cs ss. push_characteristics uuid cs (gc_services c) = Some ss \<and> c' = c\<lparr>gc_services := ss\<rparr>)"
proof (rule disjCI)
  assume none: "\<nexists>cs ss. push_characteristics uuid cs (gc_services c) = Some ss \<and> c' = c\<lparr>gc_services := ss\<rparr>"
  show "c' = c"
  proof (cases "AttReadByTypeRspHeader_parse payload")
    case (Some x)
    obtain header xs where x: "x = (header, xs)" by fastforce
    show ?thesis
      using assms none Some x
      by (auto simp: on_discover_characteristics_response_def split: option.splits if_splits)
  qed (use assms in \<open>simp add: on_discover_characteristics_response_def\<close>)
qed

text \<open>A response built from service groups is read back as those services.\<close>

lemma discovered_services_map:
  "list_all (\<lambda>(_, _, u). wf_Uuid u) gs \<Longrightarrow>
    discovered_services (map (\<lambda>(h, e, u). (AttReadByGroupTypeItemHeader_new h e, Uuid_to_att_bytes u)) gs) =
      map (\<lambda>(h, e, u). \<lparr>ds_start_handle = h, ds_end_handle = e, ds_uuid = u, ds_characteristics = []\<rparr>) gs"
  by (induction gs) (auto simp: Uuid_from_to_att_bytes AttReadByGroupTypeItemHeader_new_def)

lemma services_response:
  assumes "list_all (\<lambda>(_, _, u). wf_Uuid u \<and> Uuid_len u = n) gs" "n \<le> 251"
  defines "rsp \<equiv> AttReadByGroupTypeRspHeader_as_bytes (AttReadByGroupTypeRspHeader_new n)
    @ concat (map (\<lambda>(h, e, u). AttReadByGroupTypeItemHeader_as_bytes (AttReadByGroupTypeItemHeader_new h e)
        @ Uuid_to_att_bytes u) gs)"
  shows "on_discover_services_response rsp c = (Inr (), c\<lparr>gc_services := gc_services c @
    map (\<lambda>(h, e, u). \<lparr>ds_start_handle = h, ds_end_handle = e, ds_uuid = u, ds_characteristics = []\<rparr>) gs\<rparr>)"
proof -
  let ?items = "map (\<lambda>(h, e, u). (AttReadByGroupTypeItemHeader_new h e, Uuid_to_att_bytes u)) gs"
  have parse: "AttReadByGroupTypeRspHeader_parse rsp = Some (AttReadByGroupTypeRspHeader_new n,
      concat (map (\<lambda>(h, v). AttReadByGroupTypeItemHeader_as_bytes h @ v) ?items))"
    unfolding rgr_layout.att_parse_Some_iff AttReadByGroupTypeRspHeader_parse_def
    by (simp add: rsp_def AttReadByGroupTypeRspHeader_new_def comp_def case_prod_beta)
      (intro arg_cong [where f = concat] map_cong; simp add: case_prod_beta)
  have "list_all (\<lambda>(_, v). length v = n) ?items"
    using assms(1) by (auto simp: list_all_iff Uuid_att_bytes_length)
  from read_by_group_type_items_round_trip [OF this assms(2), of "[]"]
  have "map_option (AttDataListIter_collect 4 AttReadByGroupTypeItemHeader_of_bytes)
      (AttReadByGroupTypeRspHeader_items (AttReadByGroupTypeRspHeader_new n)
        (concat (map (\<lambda>(h, v). AttReadByGroupTypeItemHeader_as_bytes h @ v) ?items))) = Some ?items"
    by (simp add: read_by_group_type_items_def)
  moreover have "list_all (\<lambda>(_, _, u). wf_Uuid u) gs"
    using assms(1) by (auto simp: list_all_iff)
  ultimately show ?thesis
    using parse discovered_services_map [of gs]
    by (auto simp: on_discover_services_response_def)
qed

end
