(* ===== verification/Hci_Events.thy ===== *)
theory Hci_Events
  imports Prelude
begin

text \<open>
  HCI events (\<open>src/src/packets/hci_events.rs\<close>): event codes, the fixed structures with their wire
  layouts, the walk over the reports of an LE Advertising Report, and the parser from an H4 packet
  to a typed event.
\<close>

section \<open>Codes\<close>

abbreviation (input) h4_HCI_COMMAND :: u8 where "h4_HCI_COMMAND \<equiv> 0x01"
abbreviation (input) h4_HCI_ACL_DATA :: u8 where "h4_HCI_ACL_DATA \<equiv> 0x02"
abbreviation (input) h4_HCI_SCO_DATA :: u8 where "h4_HCI_SCO_DATA \<equiv> 0x03"
abbreviation (input) h4_HCI_EVENT :: u8 where "h4_HCI_EVENT \<equiv> 0x04"

abbreviation (input) event_CONNECTION_COMPLETE :: u8 where "event_CONNECTION_COMPLETE \<equiv> 0x03"
abbreviation (input) event_CONNECTION_REQUEST :: u8 where "event_CONNECTION_REQUEST \<equiv> 0x04"
abbreviation (input) event_DISCONNECTION_COMPLETE :: u8 where "event_DISCONNECTION_COMPLETE \<equiv> 0x05"
abbreviation (input) event_ENCRYPTION_CHANGE :: u8 where "event_ENCRYPTION_CHANGE \<equiv> 0x08"
abbreviation (input) event_COMMAND_COMPLETE :: u8 where "event_COMMAND_COMPLETE \<equiv> 0x0E"
abbreviation (input) event_COMMAND_STATUS :: u8 where "event_COMMAND_STATUS \<equiv> 0x0F"
abbreviation (input) event_SYNCHRONOUS_CONNECTION_COMPLETE :: u8 where "event_SYNCHRONOUS_CONNECTION_COMPLETE \<equiv> 0x2C"
abbreviation (input) event_LE_META :: u8 where "event_LE_META \<equiv> 0x3E"

abbreviation (input) le_CONNECTION_COMPLETE :: u8 where "le_CONNECTION_COMPLETE \<equiv> 0x01"
abbreviation (input) le_ADVERTISING_REPORT :: u8 where "le_ADVERTISING_REPORT \<equiv> 0x02"
abbreviation (input) le_LONG_TERM_KEY_REQUEST :: u8 where "le_LONG_TERM_KEY_REQUEST \<equiv> 0x05"
abbreviation (input) le_ENHANCED_CONNECTION_COMPLETE :: u8 where "le_ENHANCED_CONNECTION_COMPLETE \<equiv> 0x0A"
abbreviation (input) le_CIS_ESTABLISHED :: u8 where "le_CIS_ESTABLISHED \<equiv> 0x19"
abbreviation (input) le_CIS_REQUEST :: u8 where "le_CIS_REQUEST \<equiv> 0x1A"

section \<open>Structures\<close>

record HciEventHeader =
  evh_code :: u8
  evh_parameter_total_length :: u8

record LeConnectionCompletePrefix =
  lcc_subevent_code :: u8
  lcc_status :: u8
  lcc_connection_handle :: u16
  lcc_role :: u8
  lcc_peer_address_type :: u8
  lcc_peer_address :: bytes

record LeLongTermKeyRequest =
  ltkr_subevent_code :: u8
  ltkr_connection_handle :: u16
  ltkr_random_number :: bytes
  ltkr_encrypted_diversifier :: u16

record EncryptionChange =
  enc_status :: u8
  enc_connection_handle :: u16
  enc_encryption_enabled :: u8

record DisconnectionComplete =
  dcc_status :: u8
  dcc_connection_handle :: u16
  dcc_reason :: u8

record ConnectionRequest =
  crq_bd_addr :: bytes
  crq_class_of_device :: bytes
  crq_link_type :: u8

record ConnectionComplete =
  ccp_status :: u8
  ccp_connection_handle :: u16
  ccp_bd_addr :: bytes
  ccp_link_type :: u8
  ccp_encryption_enabled :: u8

record SynchronousConnectionComplete =
  scc_status :: u8
  scc_connection_handle :: u16
  scc_bd_addr :: bytes
  scc_link_type :: u8
  scc_transmission_interval :: u8
  scc_retransmission_window :: u8
  scc_rx_packet_length :: u16
  scc_tx_packet_length :: u16
  scc_air_mode :: u8

record LeCisRequest =
  cisr_subevent_code :: u8
  cisr_acl_connection_handle :: u16
  cisr_cis_connection_handle :: u16
  cisr_cig_id :: u8
  cisr_cis_id :: u8

record LeCisEstablishedPrefix =
  cise_subevent_code :: u8
  cise_status :: u8
  cise_cis_connection_handle :: u16

record CommandCompletePrefix =
  cmc_num_hci_command_packets :: u8
  cmc_command_opcode :: u16

record LeAdvertisingReportHeader =
  larh_event_type :: u8
  larh_address_type :: u8
  larh_address :: bytes
  larh_data_length :: u8

definition HciEventHeader_as_bytes :: "HciEventHeader \<Rightarrow> bytes" where
  "HciEventHeader_as_bytes h =
     [evh_code h] @ [evh_parameter_total_length h]"

definition HciEventHeader_of_bytes :: "bytes \<Rightarrow> HciEventHeader" where
  "HciEventHeader_of_bytes bs =
     \<lparr>evh_code = bs ! 0, evh_parameter_total_length = bs ! 1\<rparr>"

definition LeConnectionCompletePrefix_as_bytes :: "LeConnectionCompletePrefix \<Rightarrow> bytes" where
  "LeConnectionCompletePrefix_as_bytes h =
     [lcc_subevent_code h] @ [lcc_status h] @ to_le_bytes (lcc_connection_handle h) @
     [lcc_role h] @ [lcc_peer_address_type h] @ lcc_peer_address h"

definition LeConnectionCompletePrefix_of_bytes :: "bytes \<Rightarrow> LeConnectionCompletePrefix" where
  "LeConnectionCompletePrefix_of_bytes bs =
     \<lparr>lcc_subevent_code = bs ! 0, lcc_status = bs ! 1,
      lcc_connection_handle = from_le_bytes (bs ! 2) (bs ! 3), lcc_role = bs ! 4,
      lcc_peer_address_type = bs ! 5, lcc_peer_address = take 6 (drop 6 bs)\<rparr>"

definition LeLongTermKeyRequest_as_bytes :: "LeLongTermKeyRequest \<Rightarrow> bytes" where
  "LeLongTermKeyRequest_as_bytes h =
     [ltkr_subevent_code h] @ to_le_bytes (ltkr_connection_handle h) @ ltkr_random_number h @
     to_le_bytes (ltkr_encrypted_diversifier h)"

definition LeLongTermKeyRequest_of_bytes :: "bytes \<Rightarrow> LeLongTermKeyRequest" where
  "LeLongTermKeyRequest_of_bytes bs =
     \<lparr>ltkr_subevent_code = bs ! 0, ltkr_connection_handle = from_le_bytes (bs ! 1) (bs ! 2),
      ltkr_random_number = take 8 (drop 3 bs),
      ltkr_encrypted_diversifier = from_le_bytes (bs ! 11) (bs ! 12)\<rparr>"

definition EncryptionChange_as_bytes :: "EncryptionChange \<Rightarrow> bytes" where
  "EncryptionChange_as_bytes h =
     [enc_status h] @ to_le_bytes (enc_connection_handle h) @ [enc_encryption_enabled h]"

definition EncryptionChange_of_bytes :: "bytes \<Rightarrow> EncryptionChange" where
  "EncryptionChange_of_bytes bs =
     \<lparr>enc_status = bs ! 0, enc_connection_handle = from_le_bytes (bs ! 1) (bs ! 2),
      enc_encryption_enabled = bs ! 3\<rparr>"

definition DisconnectionComplete_as_bytes :: "DisconnectionComplete \<Rightarrow> bytes" where
  "DisconnectionComplete_as_bytes h =
     [dcc_status h] @ to_le_bytes (dcc_connection_handle h) @ [dcc_reason h]"

definition DisconnectionComplete_of_bytes :: "bytes \<Rightarrow> DisconnectionComplete" where
  "DisconnectionComplete_of_bytes bs =
     \<lparr>dcc_status = bs ! 0, dcc_connection_handle = from_le_bytes (bs ! 1) (bs ! 2),
      dcc_reason = bs ! 3\<rparr>"

definition ConnectionRequest_as_bytes :: "ConnectionRequest \<Rightarrow> bytes" where
  "ConnectionRequest_as_bytes h =
     crq_bd_addr h @ crq_class_of_device h @ [crq_link_type h]"

definition ConnectionRequest_of_bytes :: "bytes \<Rightarrow> ConnectionRequest" where
  "ConnectionRequest_of_bytes bs =
     \<lparr>crq_bd_addr = take 6 (drop 0 bs), crq_class_of_device = take 3 (drop 6 bs),
      crq_link_type = bs ! 9\<rparr>"

definition ConnectionComplete_as_bytes :: "ConnectionComplete \<Rightarrow> bytes" where
  "ConnectionComplete_as_bytes h =
     [ccp_status h] @ to_le_bytes (ccp_connection_handle h) @ ccp_bd_addr h @
     [ccp_link_type h] @ [ccp_encryption_enabled h]"

definition ConnectionComplete_of_bytes :: "bytes \<Rightarrow> ConnectionComplete" where
  "ConnectionComplete_of_bytes bs =
     \<lparr>ccp_status = bs ! 0, ccp_connection_handle = from_le_bytes (bs ! 1) (bs ! 2),
      ccp_bd_addr = take 6 (drop 3 bs), ccp_link_type = bs ! 9,
      ccp_encryption_enabled = bs ! 10\<rparr>"

definition SynchronousConnectionComplete_as_bytes :: "SynchronousConnectionComplete \<Rightarrow> bytes" where
  "SynchronousConnectionComplete_as_bytes h =
     [scc_status h] @ to_le_bytes (scc_connection_handle h) @ scc_bd_addr h @
     [scc_link_type h] @ [scc_transmission_interval h] @ [scc_retransmission_window h] @
     to_le_bytes (scc_rx_packet_length h) @ to_le_bytes (scc_tx_packet_length h) @
     [scc_air_mode h]"

definition SynchronousConnectionComplete_of_bytes :: "bytes \<Rightarrow> SynchronousConnectionComplete" where
  "SynchronousConnectionComplete_of_bytes bs =
     \<lparr>scc_status = bs ! 0, scc_connection_handle = from_le_bytes (bs ! 1) (bs ! 2),
      scc_bd_addr = take 6 (drop 3 bs), scc_link_type = bs ! 9,
      scc_transmission_interval = bs ! 10, scc_retransmission_window = bs ! 11,
      scc_rx_packet_length = from_le_bytes (bs ! 12) (bs ! 13),
      scc_tx_packet_length = from_le_bytes (bs ! 14) (bs ! 15), scc_air_mode = bs ! 16\<rparr>"

definition LeCisRequest_as_bytes :: "LeCisRequest \<Rightarrow> bytes" where
  "LeCisRequest_as_bytes h =
     [cisr_subevent_code h] @ to_le_bytes (cisr_acl_connection_handle h) @
     to_le_bytes (cisr_cis_connection_handle h) @ [cisr_cig_id h] @ [cisr_cis_id h]"

definition LeCisRequest_of_bytes :: "bytes \<Rightarrow> LeCisRequest" where
  "LeCisRequest_of_bytes bs =
     \<lparr>cisr_subevent_code = bs ! 0,
      cisr_acl_connection_handle = from_le_bytes (bs ! 1) (bs ! 2),
      cisr_cis_connection_handle = from_le_bytes (bs ! 3) (bs ! 4), cisr_cig_id = bs ! 5,
      cisr_cis_id = bs ! 6\<rparr>"

definition LeCisEstablishedPrefix_as_bytes :: "LeCisEstablishedPrefix \<Rightarrow> bytes" where
  "LeCisEstablishedPrefix_as_bytes h =
     [cise_subevent_code h] @ [cise_status h] @ to_le_bytes (cise_cis_connection_handle h)"

definition LeCisEstablishedPrefix_of_bytes :: "bytes \<Rightarrow> LeCisEstablishedPrefix" where
  "LeCisEstablishedPrefix_of_bytes bs =
     \<lparr>cise_subevent_code = bs ! 0, cise_status = bs ! 1,
      cise_cis_connection_handle = from_le_bytes (bs ! 2) (bs ! 3)\<rparr>"

definition CommandCompletePrefix_as_bytes :: "CommandCompletePrefix \<Rightarrow> bytes" where
  "CommandCompletePrefix_as_bytes h =
     [cmc_num_hci_command_packets h] @ to_le_bytes (cmc_command_opcode h)"

definition CommandCompletePrefix_of_bytes :: "bytes \<Rightarrow> CommandCompletePrefix" where
  "CommandCompletePrefix_of_bytes bs =
     \<lparr>cmc_num_hci_command_packets = bs ! 0,
      cmc_command_opcode = from_le_bytes (bs ! 1) (bs ! 2)\<rparr>"

definition LeAdvertisingReportHeader_as_bytes :: "LeAdvertisingReportHeader \<Rightarrow> bytes" where
  "LeAdvertisingReportHeader_as_bytes h =
     [larh_event_type h] @ [larh_address_type h] @ larh_address h @ [larh_data_length h]"

definition LeAdvertisingReportHeader_of_bytes :: "bytes \<Rightarrow> LeAdvertisingReportHeader" where
  "LeAdvertisingReportHeader_of_bytes bs =
     \<lparr>larh_event_type = bs ! 0, larh_address_type = bs ! 1,
      larh_address = take 6 (drop 2 bs), larh_data_length = bs ! 8\<rparr>"

lemmas event_layout_defs =
  HciEventHeader_as_bytes_def HciEventHeader_of_bytes_def
  LeConnectionCompletePrefix_as_bytes_def LeConnectionCompletePrefix_of_bytes_def
  LeLongTermKeyRequest_as_bytes_def LeLongTermKeyRequest_of_bytes_def
  EncryptionChange_as_bytes_def EncryptionChange_of_bytes_def DisconnectionComplete_as_bytes_def
  DisconnectionComplete_of_bytes_def ConnectionRequest_as_bytes_def
  ConnectionRequest_of_bytes_def ConnectionComplete_as_bytes_def ConnectionComplete_of_bytes_def
  SynchronousConnectionComplete_as_bytes_def SynchronousConnectionComplete_of_bytes_def
  LeCisRequest_as_bytes_def LeCisRequest_of_bytes_def LeCisEstablishedPrefix_as_bytes_def
  LeCisEstablishedPrefix_of_bytes_def CommandCompletePrefix_as_bytes_def
  CommandCompletePrefix_of_bytes_def LeAdvertisingReportHeader_as_bytes_def
  LeAdvertisingReportHeader_of_bytes_def

interpretation evh_layout: wire_layout 2 "\<lambda>_. True"
  HciEventHeader_as_bytes HciEventHeader_of_bytes
  by unfold_locales (auto simp: event_layout_defs to_le_bytes_def list_of_length)

interpretation lcc_layout: wire_layout 12 "\<lambda>h. length (lcc_peer_address h) = 6"
  LeConnectionCompletePrefix_as_bytes LeConnectionCompletePrefix_of_bytes
  by unfold_locales (auto simp: event_layout_defs to_le_bytes_def list_of_length)

interpretation ltkr_layout: wire_layout 13 "\<lambda>h. length (ltkr_random_number h) = 8"
  LeLongTermKeyRequest_as_bytes LeLongTermKeyRequest_of_bytes
  by unfold_locales (auto simp: event_layout_defs to_le_bytes_def list_of_length)

interpretation enc_layout: wire_layout 4 "\<lambda>_. True"
  EncryptionChange_as_bytes EncryptionChange_of_bytes
  by unfold_locales (auto simp: event_layout_defs to_le_bytes_def list_of_length)

interpretation dcc_layout: wire_layout 4 "\<lambda>_. True"
  DisconnectionComplete_as_bytes DisconnectionComplete_of_bytes
  by unfold_locales (auto simp: event_layout_defs to_le_bytes_def list_of_length)

interpretation crq_layout: wire_layout 10 "\<lambda>h. length (crq_bd_addr h) = 6 \<and> length (crq_class_of_device h) = 3"
  ConnectionRequest_as_bytes ConnectionRequest_of_bytes
  by unfold_locales (auto simp: event_layout_defs to_le_bytes_def list_of_length)

interpretation ccp_layout: wire_layout 11 "\<lambda>h. length (ccp_bd_addr h) = 6"
  ConnectionComplete_as_bytes ConnectionComplete_of_bytes
  by unfold_locales (auto simp: event_layout_defs to_le_bytes_def list_of_length)

interpretation scc_layout: wire_layout 17 "\<lambda>h. length (scc_bd_addr h) = 6"
  SynchronousConnectionComplete_as_bytes SynchronousConnectionComplete_of_bytes
  by unfold_locales (auto simp: event_layout_defs to_le_bytes_def list_of_length)

interpretation cisr_layout: wire_layout 7 "\<lambda>_. True"
  LeCisRequest_as_bytes LeCisRequest_of_bytes
  by unfold_locales (auto simp: event_layout_defs to_le_bytes_def list_of_length)

interpretation cise_layout: wire_layout 4 "\<lambda>_. True"
  LeCisEstablishedPrefix_as_bytes LeCisEstablishedPrefix_of_bytes
  by unfold_locales (auto simp: event_layout_defs to_le_bytes_def list_of_length)

interpretation cmc_layout: wire_layout 3 "\<lambda>_. True"
  CommandCompletePrefix_as_bytes CommandCompletePrefix_of_bytes
  by unfold_locales (auto simp: event_layout_defs to_le_bytes_def list_of_length)

interpretation larh_layout: wire_layout 9 "\<lambda>h. length (larh_address h) = 6"
  LeAdvertisingReportHeader_as_bytes LeAdvertisingReportHeader_of_bytes
  by unfold_locales (auto simp: event_layout_defs to_le_bytes_def list_of_length)

section \<open>Advertising reports\<close>

definition is_connectable :: "LeAdvertisingReportHeader \<Rightarrow> bool" where
  "is_connectable h = (larh_event_type h \<le> 0x01)"

definition is_scan_response :: "LeAdvertisingReportHeader \<Rightarrow> bool" where
  "is_scan_response h = (larh_event_type h = 0x04)"

text \<open>\<^verbatim>\<open>as i8\<close> keeps the bits of the byte; the strength is kept as an 8-bit word read signed.\<close>

record AdvertisingReport =
  report_header :: LeAdvertisingReportHeader
  report_data :: bytes
  report_rssi :: "8 word"

fun advertising_reports_loop :: "nat \<Rightarrow> bytes \<Rightarrow> AdvertisingReport list" where
  "advertising_reports_loop 0 rest = []"
| "advertising_reports_loop (Suc n) rest =
     (case from_prefix 9 LeAdvertisingReportHeader_of_bytes rest of
        None \<Rightarrow> []
      | Some (header, after) \<Rightarrow>
          let data_len = unat (larh_data_length header) in
          if length after < data_len + 1 then []
          else \<lparr>report_header = header, report_data = take data_len after, report_rssi = after ! data_len\<rparr>
            # advertising_reports_loop n (drop (data_len + 1) after))"

definition advertising_reports :: "bytes \<Rightarrow> AdvertisingReport list" where
  "advertising_reports parameters =
     (case parameters of
        _ # count # rest \<Rightarrow> advertising_reports_loop (unat count) rest
      | _ \<Rightarrow> [])"

section \<open>Events\<close>

datatype HciEvent =
    LeConnectionComplete LeConnectionCompletePrefix
  | LeLongTermKeyRequestEvent LeLongTermKeyRequest
  | EncryptionChangeEvent EncryptionChange
  | DisconnectionCompleteEvent DisconnectionComplete
  | LeCisRequestEvent LeCisRequest
  | LeCisEstablished LeCisEstablishedPrefix
  | ConnectionRequestEvent ConnectionRequest
  | ConnectionCompleteEvent ConnectionComplete
  | SynchronousConnectionCompleteEvent SynchronousConnectionComplete
  | CommandComplete CommandCompletePrefix bytes
  | OtherEvent u8 bytes

definition HciEvent_from_parameters :: "u8 \<Rightarrow> bytes \<Rightarrow> HciEvent option" where
  "HciEvent_from_parameters code parameters =
     (if code = event_LE_META then
        (case parameters of
           [] \<Rightarrow> Some (OtherEvent code parameters)
         | sub # _ \<Rightarrow>
             if sub = le_CONNECTION_COMPLETE \<or> sub = le_ENHANCED_CONNECTION_COMPLETE then
               map_option (LeConnectionComplete \<circ> fst) (from_prefix 12 LeConnectionCompletePrefix_of_bytes parameters)
             else if sub = le_LONG_TERM_KEY_REQUEST then
               map_option (LeLongTermKeyRequestEvent \<circ> fst) (from_prefix 13 LeLongTermKeyRequest_of_bytes parameters)
             else if sub = le_CIS_REQUEST then
               map_option (LeCisRequestEvent \<circ> fst) (from_prefix 7 LeCisRequest_of_bytes parameters)
             else if sub = le_CIS_ESTABLISHED then
               map_option (LeCisEstablished \<circ> fst) (from_prefix 4 LeCisEstablishedPrefix_of_bytes parameters)
             else Some (OtherEvent code parameters))
      else if code = event_COMMAND_COMPLETE then
        map_option (\<lambda>(h, return_parameters). CommandComplete h return_parameters)
          (from_prefix 3 CommandCompletePrefix_of_bytes parameters)
      else if code = event_ENCRYPTION_CHANGE then
        map_option (EncryptionChangeEvent \<circ> fst) (from_prefix 4 EncryptionChange_of_bytes parameters)
      else if code = event_DISCONNECTION_COMPLETE then
        map_option (DisconnectionCompleteEvent \<circ> fst) (from_prefix 4 DisconnectionComplete_of_bytes parameters)
      else if code = event_CONNECTION_REQUEST then
        map_option (ConnectionRequestEvent \<circ> fst) (from_prefix 10 ConnectionRequest_of_bytes parameters)
      else if code = event_CONNECTION_COMPLETE then
        map_option (ConnectionCompleteEvent \<circ> fst) (from_prefix 11 ConnectionComplete_of_bytes parameters)
      else if code = event_SYNCHRONOUS_CONNECTION_COMPLETE then
        map_option (SynchronousConnectionCompleteEvent \<circ> fst)
          (from_prefix 17 SynchronousConnectionComplete_of_bytes parameters)
      else Some (OtherEvent code parameters))"

definition HciEvent_parse_h4 :: "bytes \<Rightarrow> HciEvent option" where
  "HciEvent_parse_h4 packet =
     (case packet of
        [] \<Rightarrow> None
      | h4_type # rest \<Rightarrow>
          if h4_type \<noteq> h4_HCI_EVENT then None
          else case from_prefix 2 HciEventHeader_of_bytes rest of
            None \<Rightarrow> None
          | Some (header, parameters) \<Rightarrow>
              let len = min (unat (evh_parameter_total_length header)) (length parameters)
              in HciEvent_from_parameters (evh_code header) (take len parameters))"

section \<open>Round trips\<close>

text \<open>The wire form of a report, and of an event packet.\<close>

definition AdvertisingReport_bytes :: "AdvertisingReport \<Rightarrow> bytes" where
  "AdvertisingReport_bytes r = LeAdvertisingReportHeader_as_bytes (report_header r) @ report_data r @ [report_rssi r]"

definition wf_AdvertisingReport :: "AdvertisingReport \<Rightarrow> bool" where
  "wf_AdvertisingReport r =
     (length (larh_address (report_header r)) = 6
      \<and> length (report_data r) = unat (larh_data_length (report_header r)))"

definition event_packet :: "u8 \<Rightarrow> bytes \<Rightarrow> bytes" where
  "event_packet code parameters =
     h4_HCI_EVENT # HciEventHeader_as_bytes \<lparr>evh_code = code, evh_parameter_total_length = of_nat (length parameters)\<rparr>
     @ parameters"

lemma advertising_reports_loop_bytes:
  "\<forall>r \<in> set rs. wf_AdvertisingReport r \<Longrightarrow>
     advertising_reports_loop (length rs) (concat (map AdvertisingReport_bytes rs) @ tail) = rs"
proof (induction rs)
  case (Cons r rs)
  have "from_prefix 9 LeAdvertisingReportHeader_of_bytes (concat (map AdvertisingReport_bytes (r # rs)) @ tail)
    = Some (report_header r, report_data r @ [report_rssi r] @ concat (map AdvertisingReport_bytes rs) @ tail)"
    using Cons.prems larh_layout.prefix_enc [of "report_header r"]
    by (simp add: AdvertisingReport_bytes_def wf_AdvertisingReport_def)
  with Cons show ?case
    by (cases r) (simp add: wf_AdvertisingReport_def Let_def nth_append)
qed simp

text \<open>A report event cut short anywhere yields a prefix of the reports it carried: nothing is misread
  past the cut.\<close>

lemma advertising_reports_loop_prefix:
  "\<exists>k. advertising_reports_loop n (take m bs) = take k (advertising_reports_loop n bs)"
proof (induction n arbitrary: m bs)
  case (Suc n)
  show ?case
  proof (cases "from_prefix 9 LeAdvertisingReportHeader_of_bytes (take m bs)")
    case None
    then show ?thesis by (intro exI [of _ 0]) simp
  next
    case (Some x)
    obtain header rest where x: "x = (header, rest)" by (cases x)
    with Some have full: "from_prefix 9 LeAdvertisingReportHeader_of_bytes bs = Some (header, drop 9 bs)"
      and rest: "rest = take (m - 9) (drop 9 bs)"
      by (auto simp: from_prefix_def drop_take min_def split: if_splits)
    show ?thesis
    proof (cases "length rest < unat (larh_data_length header) + 1")
      case True
      with Some x show ?thesis by (intro exI [of _ 0]) simp
    next
      case False
      let ?d = "unat (larh_data_length header)"
      from False rest have len: "?d + 1 \<le> m - 9" "?d + 1 \<le> length (drop 9 bs)" by auto
      obtain k where "advertising_reports_loop n (take (m - 9 - (?d + 1)) (drop (?d + 1) (drop 9 bs)))
          = take k (advertising_reports_loop n (drop (?d + 1) (drop 9 bs)))"
        using Suc.IH by blast
      with Some x full rest len False show ?thesis
        by (intro exI [of _ "Suc k"]) (simp add: Let_def drop_take min_def del: drop_drop)
    qed
  qed
qed simp

text \<open>An LE Advertising Report event is read back report by report, each with its address, data
  and signal strength, up to the 255 a report count can name; and of an event cut short anywhere
  after the count only a prefix of the reports is returned.\<close>
theorem advertising_reports_round_trip:
  assumes "\<forall>r \<in> set rs. wf_AdvertisingReport r" "length rs < 256"
  shows "advertising_reports ([sub, of_nat (length rs)] @ concat (map AdvertisingReport_bytes rs) @ tail) = rs
    \<and> (\<exists>k. advertising_reports ([sub, of_nat (length rs)] @ take m (concat (map AdvertisingReport_bytes rs))) = take k rs)"
proof -
  have n: "unat (of_nat (length rs) :: u8) = length rs"
    using assms(2) by (simp add: unat_of_nat_u8)
  moreover have "advertising_reports_loop (length rs) (concat (map AdvertisingReport_bytes rs)) = rs"
    using advertising_reports_loop_bytes [OF assms(1), of "[]"] by simp
  ultimately show ?thesis
    using advertising_reports_loop_bytes [OF assms(1), of tail]
      advertising_reports_loop_prefix [of "length rs" m "concat (map AdvertisingReport_bytes rs)"]
    by (simp add: advertising_reports_def)
qed

theorem advertising_reports_round_trip_witness:
  "let r = \<lparr>report_header = \<lparr>larh_event_type = 0, larh_address_type = 1, larh_address = [1, 2, 3, 4, 5, 6],
         larh_data_length = 2\<rparr>, report_data = [1, 6], report_rssi = 0xC4\<rparr>
   in advertising_reports ([2, of_nat (length [r])] @ concat (map AdvertisingReport_bytes [r]) @ []) = [r]
    \<and> (\<exists>k. advertising_reports ([2, of_nat (length [r])] @ take 11 (concat (map AdvertisingReport_bytes [r]))) = take k [r])"
  unfolding Let_def
  by (rule advertising_reports_round_trip) (simp_all add: wf_AdvertisingReport_def)

lemma parse_event_packet:
  assumes "length parameters < 256"
  shows "HciEvent_parse_h4 (event_packet code parameters @ padding) = HciEvent_from_parameters code parameters"
proof -
  have "unat (of_nat (length parameters) :: u8) = length parameters"
    using assms by (simp add: unat_of_nat_u8)
  then show ?thesis
    by (simp add: HciEvent_parse_h4_def event_packet_def evh_layout.prefix_enc Let_def)
qed

end
