(* ===== verification/Le_Host.thy ===== *)
theory Le_Host
  imports Hci_Events Subscriptions Acl_Reassembler
begin

text \<open>
  The LE host (\<open>src/src/device/host.rs\<close>): the layer between a device and its controller. Packets come
  in as H4 bytes and go out as H4 bytes; the state is the ACL reassembler, the event mask, the current
  connection and the isochronous stream. Panics of the device are \<open>None\<close>.
\<close>

section \<open>Commands\<close>

abbreviation (input) op_RESET :: bytes where "op_RESET \<equiv> [0x03, 0x0C]"
abbreviation (input) op_SET_EVENT_MASK :: bytes where "op_SET_EVENT_MASK \<equiv> [0x01, 0x0C]"
abbreviation (input) op_LE_SET_EVENT_MASK :: bytes where "op_LE_SET_EVENT_MASK \<equiv> [0x01, 0x20]"
abbreviation (input) op_LE_SET_ADVERTISING_PARAMETERS :: bytes where
  "op_LE_SET_ADVERTISING_PARAMETERS \<equiv> [0x06, 0x20]"
abbreviation (input) op_LE_SET_RANDOM_ADDRESS :: bytes where "op_LE_SET_RANDOM_ADDRESS \<equiv> [0x05, 0x20]"
abbreviation (input) op_LE_SET_ADVERTISING_DATA :: bytes where "op_LE_SET_ADVERTISING_DATA \<equiv> [0x08, 0x20]"
abbreviation (input) op_LE_SET_SCAN_RESPONSE_DATA :: bytes where "op_LE_SET_SCAN_RESPONSE_DATA \<equiv> [0x09, 0x20]"
abbreviation (input) op_LE_SET_ADVERTISING_ENABLE :: bytes where "op_LE_SET_ADVERTISING_ENABLE \<equiv> [0x0A, 0x20]"
abbreviation (input) op_LE_LTK_REQUEST_REPLY :: bytes where "op_LE_LTK_REQUEST_REPLY \<equiv> [0x1A, 0x20]"
abbreviation (input) op_LE_LTK_REQUEST_NEGATIVE_REPLY :: bytes where
  "op_LE_LTK_REQUEST_NEGATIVE_REPLY \<equiv> [0x1B, 0x20]"
abbreviation (input) op_LE_ACCEPT_CIS_REQUEST :: bytes where "op_LE_ACCEPT_CIS_REQUEST \<equiv> [0x66, 0x20]"
abbreviation (input) op_LE_SETUP_ISO_DATA_PATH :: bytes where "op_LE_SETUP_ISO_DATA_PATH \<equiv> [0x6E, 0x20]"
abbreviation (input) op_LE_SET_HOST_FEATURE :: bytes where "op_LE_SET_HOST_FEATURE \<equiv> [0x74, 0x20]"

abbreviation (input) CONNECTED_ISOCHRONOUS_STREAM :: u8 where "CONNECTED_ISOCHRONOUS_STREAM \<equiv> 32"
abbreviation (input) iso_path_OUTPUT :: u8 where "iso_path_OUTPUT \<equiv> 0x01"
abbreviation (input) iso_path_HCI :: u8 where "iso_path_HCI \<equiv> 0x00"
abbreviation (input) ADV_IND :: u8 where "ADV_IND \<equiv> 0x00"
abbreviation (input) ADV_NONCONN_IND :: u8 where "ADV_NONCONN_IND \<equiv> 0x03"

definition LE_ACL_DATA_LEN :: nat where "LE_ACL_DATA_LEN = 27"

definition command :: "bytes \<Rightarrow> bytes \<Rightarrow> bytes" where
  "command opcode params = h4_HCI_COMMAND # opcode @ [of_nat (length params)] @ params"

text \<open>\<^verbatim>\<open>resize(32, 0)\<close> pads a short block and cuts a long one.\<close>

definition adv_data_param :: "bytes \<Rightarrow> bytes" where
  "adv_data_param payload =
     (let param = of_nat (length payload) # payload
      in take 32 param @ replicate (32 - length param) 0x00)"

text \<open>\<^verbatim>\<open>slice::chunks\<close>.\<close>

function chunks :: "nat \<Rightarrow> 'a list \<Rightarrow> 'a list list" where
  "chunks n xs = (if n = 0 \<or> xs = [] then [] else take n xs # chunks n (drop n xs))"
  by pat_completeness auto
termination by (relation "measure (length \<circ> snd)") auto

declare chunks.simps [simp del]

fun acl_packets_loop :: "u16 \<Rightarrow> bool \<Rightarrow> bytes list \<Rightarrow> bytes list" where
  "acl_packets_loop handle is_first [] = []"
| "acl_packets_loop handle is_first (chunk # rest) =
     (let boundary = (if is_first then FirstNonFlushable else Continuing);
          header = HciAclHeader_new handle boundary (of_nat (length chunk))
      in (h4_HCI_ACL_DATA # HciAclHeader_as_bytes header @ chunk) # acl_packets_loop handle False rest)"

definition acl_packets_with_len :: "u16 \<Rightarrow> bytes \<Rightarrow> nat \<Rightarrow> bytes list" where
  "acl_packets_with_len handle l2cap max_len =
     (let max_len = max max_len LE_ACL_DATA_LEN in acl_packets_loop handle True (chunks max_len l2cap))"

definition acl_packets :: "u16 \<Rightarrow> bytes \<Rightarrow> bytes list" where
  "acl_packets handle l2cap = acl_packets_with_len handle l2cap LE_ACL_DATA_LEN"

definition EVENT_MASK_ALL :: bytes where
  "EVENT_MASK_ALL = [0xFF, 0xFF, 0xFF, 0xFF, 0xFF, 0xFF, 0xFF, 0x3F]"

definition LE_EVENT_MASK_ALL :: bytes where "LE_EVENT_MASK_ALL = replicate 8 0xFF"

definition LE_EVENT_MASK_CORE_4_0 :: bytes where "LE_EVENT_MASK_CORE_4_0 = [0x1F, 0, 0, 0, 0, 0, 0, 0]"

definition init_commands_with_masks :: "bytes \<Rightarrow> bytes \<Rightarrow> bytes list" where
  "init_commands_with_masks event_mask le_event_mask =
     [command op_RESET [], command op_SET_EVENT_MASK event_mask, command op_LE_SET_EVENT_MASK le_event_mask,
      command op_LE_SET_HOST_FEATURE [CONNECTED_ISOCHRONOUS_STREAM, 0x01]]"

definition init_commands :: "bytes list" where
  "init_commands = init_commands_with_masks EVENT_MASK_ALL LE_EVENT_MASK_ALL"

section \<open>The host\<close>

record LeHost =
  host_reassembler :: AclReassembler
  host_le_event_mask :: "bytes option"
  host_connection :: "(u16 \<times> Address) option"
  host_cis_handle :: "u16 option"

definition LeHost_new :: LeHost where
  "LeHost_new = \<lparr>host_reassembler = AclReassembler_new, host_le_event_mask = None, host_connection = None,
     host_cis_handle = None\<rparr>"

definition set_le_event_mask :: "bytes \<Rightarrow> LeHost \<Rightarrow> LeHost" where
  "set_le_event_mask m host = host\<lparr>host_le_event_mask := Some m\<rparr>"

definition le_event_mask :: "LeHost \<Rightarrow> bytes" where
  "le_event_mask host = (case host_le_event_mask host of Some m \<Rightarrow> m | None \<Rightarrow> LE_EVENT_MASK_ALL)"

definition clear_connection :: "LeHost \<Rightarrow> LeHost" where
  "clear_connection host = host\<lparr>host_connection := None, host_cis_handle := None\<rparr>"

definition start_advertising :: "LeHost \<Rightarrow> ('h, 's) VirtualDevice \<Rightarrow> u16 list \<Rightarrow> bytes list result" where
  "start_advertising host d service_uuids =
     (let random_address = vd_address_type d = Random;
          commands = init_commands_with_masks EVENT_MASK_ALL (le_event_mask host)
            @ (if random_address then [command op_LE_SET_RANDOM_ADDRESS (Address_as_slice (vd_address d))] else []);
          advertising_type = (if vd_connectable d then ADV_IND else ADV_NONCONN_IND);
          commands = commands @ [command op_LE_SET_ADVERTISING_PARAMETERS
            [0xA0, 0x00, 0xA0, 0x00, advertising_type, (if random_address then 1 else 0), 0x00, 0x00, 0x00,
             0x00, 0x00, 0x00, 0x00, 0x07, 0x00]]
      in case build_adv_payload_with_extras (vd_name d) service_uuids (vd_advertising_data d) of
           Inl e \<Rightarrow> Inl e
         | Inr payload \<Rightarrow>
             let commands = commands @ [command op_LE_SET_ADVERTISING_DATA (adv_data_param payload)];
                 commands = (if vd_connectable d
                   then commands @ [command op_LE_SET_SCAN_RESPONSE_DATA
                     (adv_data_param (AdvertisingData_to_bytes (with_name (vd_name d) AdvertisingData_new)))]
                   else commands)
             in Inr (commands @ [command op_LE_SET_ADVERTISING_ENABLE [0x01]]))"

section \<open>Draining the pairing queue\<close>

definition smp_queue :: "u16 \<Rightarrow> ('h, 's) VirtualDevice \<Rightarrow> bytes list" where
  "smp_queue h d =
     (case vd_connections d h of
        None \<Rightarrow> []
      | Some c \<Rightarrow> (case conn_pairing_session c of None \<Rightarrow> [] | Some s \<Rightarrow> ps_pending s))"

lemma poll_smp_queue:
  assumes "poll_smp_pdu h d = (Some pdu, d')"
  shows "\<exists>p. pdu = L2capHeader_serialize cid_SMP p \<and> smp_queue h d = p # smp_queue h d'"
  using assms
  by (auto simp: poll_smp_pdu_def smp_queue_def poll_pending_def mirror_session_def modify_connection_def Let_def
      split: option.splits list.splits)

function drain_smp :: "u16 \<Rightarrow> ('h, 's) VirtualDevice \<Rightarrow> bytes list \<times> ('h, 's) VirtualDevice" where
  "drain_smp handle d =
     (case poll_smp_pdu handle d of
        (None, d) \<Rightarrow> ([], d)
      | (Some pdu, d) \<Rightarrow>
          (let (out, d) = drain_smp handle d in (acl_packets handle pdu @ out, d)))"
  by pat_completeness auto
termination
  by (relation "measure (\<lambda>(h, d). length (smp_queue h d))") (auto dest!: sym [of "(Some _, _)"] poll_smp_queue)

declare drain_smp.simps [simp del]

section \<open>Packets from the controller\<close>

definition handle_event :: "bytes \<Rightarrow> LeHost \<Rightarrow> ('h, 's) VirtualDevice \<Rightarrow> bytes list \<times> LeHost \<times> ('h, 's) VirtualDevice" where
  "handle_event packet host d =
     (case HciEvent_parse_h4 packet of
        None \<Rightarrow> ([], host, d)
      | Some event \<Rightarrow>
          (case event of
             LeConnectionComplete e \<Rightarrow>
               if lcc_status e = 0x00 then
                 let handle = lcc_connection_handle e AND 0x0FFF;
                     peer = Address_new (lcc_peer_address e);
                     peer_type = (if lcc_peer_address_type e = 0x01 \<or> lcc_peer_address_type e = 0x03
                       then Random else Public);
                     d = on_connected handle peer d;
                     d = set_peer_address_type handle peer_type d
                 in ([], host\<lparr>host_connection := Some (handle, peer)\<rparr>, d)
               else ([], host, d)
           | LeLongTermKeyRequestEvent e \<Rightarrow>
               let handle = ltkr_connection_handle e AND 0x0FFF
               in (case Option.bind (vd_connections d handle) conn_ltk of
                     Some key \<Rightarrow> ([command op_LE_LTK_REQUEST_REPLY (to_le_bytes handle @ key)], host, d)
                   | None \<Rightarrow> ([command op_LE_LTK_REQUEST_NEGATIVE_REPLY (to_le_bytes handle)], host, d))
           | EncryptionChangeEvent e \<Rightarrow>
               if enc_status e = 0x00 then
                 let handle = enc_connection_handle e AND 0x0FFF;
                     d = on_encryption_changed handle (enc_encryption_enabled e \<noteq> 0) d;
                     (out, d) = drain_smp handle d
                 in (out, host, d)
               else ([], host, d)
           | LeCisRequestEvent e \<Rightarrow>
               ([command op_LE_ACCEPT_CIS_REQUEST (to_le_bytes (cisr_cis_connection_handle e))], host, d)
           | LeCisEstablished e \<Rightarrow>
               if cise_status e = 0x00 then
                 let handle = cise_cis_connection_handle e
                 in ([command op_LE_SETUP_ISO_DATA_PATH (to_le_bytes handle @ [iso_path_OUTPUT, iso_path_HCI]
                        @ [0x03, 0x00, 0x00, 0x00, 0x00] @ [0x00, 0x00, 0x00] @ [0x00])],
                     host\<lparr>host_cis_handle := Some handle\<rparr>, d\<lparr>vd_cis_handle := Some handle\<rparr>)
               else ([], host, d)
           | DisconnectionCompleteEvent e \<Rightarrow>
               let handle = dcc_connection_handle e AND 0x0FFF
               in ([command op_LE_SET_ADVERTISING_ENABLE [0x01]],
                   host\<lparr>host_reassembler := on_disconnected_handle (host_reassembler host) handle,
                        host_connection := None\<rparr>,
                   on_disconnected handle d)
           | _ \<Rightarrow> ([], host, d)))"

definition handle_acl ::
  "'s p256 \<Rightarrow> 's P256Keypair \<Rightarrow> nonces \<Rightarrow> 'h on_write \<Rightarrow> bytes \<Rightarrow> LeHost \<Rightarrow> ('h, 's) VirtualDevice
   \<Rightarrow> (bytes list result \<times> LeHost \<times> ('h, 's) VirtualDevice) option" where
  "handle_acl ec gen rnd ow packet host d =
     (case HciAclHeader_parse (tl packet) of
        None \<Rightarrow> Some (Inl (PacketParseError ''Invalid ACL header''), host, d)
      | Some (header, payload) \<Rightarrow>
          let handle = HciAclHeader_handle header;
              is_first = HciAclHeader_is_first_fragment header;
              (res, r) = push_fragment (host_reassembler host) handle is_first payload;
              host = host\<lparr>host_reassembler := r\<rparr>
          in (case res of
                Inl e \<Rightarrow> Some (Inl e, host, d)
              | Inr None \<Rightarrow> Some (Inr [], host, d)
              | Inr (Some frame) \<Rightarrow>
                  (case process_l2cap_packet ec gen rnd ow handle frame d of
                     None \<Rightarrow> None
                   | Some (Inl e, d) \<Rightarrow> Some (Inl e, host, d)
                   | Some (Inr rsp, d) \<Rightarrow>
                       let out = (case rsp of Some l2cap \<Rightarrow> acl_packets handle l2cap | None \<Rightarrow> []);
                           (more_out, d) = drain_smp handle d
                       in Some (Inr (out @ more_out), host, d))))"

definition handle_packet ::
  "'s p256 \<Rightarrow> 's P256Keypair \<Rightarrow> nonces \<Rightarrow> 'h on_write \<Rightarrow> bytes \<Rightarrow> LeHost \<Rightarrow> ('h, 's) VirtualDevice
   \<Rightarrow> (bytes list result \<times> LeHost \<times> ('h, 's) VirtualDevice) option" where
  "handle_packet ec gen rnd ow packet host d =
     (case packet of
        [] \<Rightarrow> Some (Inr [], host, d)
      | t # _ \<Rightarrow>
          if t = h4_HCI_EVENT then (let (out, host, d) = handle_event packet host d in Some (Inr out, host, d))
          else if t = h4_HCI_ACL_DATA then handle_acl ec gen rnd ow packet host d
          else if t = h4_HCI_ISO_DATA then
            Some (Inr [], host, case parse_iso_packet packet of Some sdu \<Rightarrow> on_iso_sdu (sdu_payload sdu) d | None \<Rightarrow> d)
          else Some (Inr [], host, d))"

section \<open>Fragmentation\<close>

text \<open>What a receiver does with the packets of a peer's host: parse each header and hand the fragment
  to its reassembler.\<close>

fun receive_acl :: "AclReassembler \<Rightarrow> bytes list \<Rightarrow> bytes option result list \<times> AclReassembler" where
  "receive_acl r [] = ([], r)"
| "receive_acl r (packet # rest) =
     (case HciAclHeader_parse (tl packet) of
        None \<Rightarrow> receive_acl r rest
      | Some (header, payload) \<Rightarrow>
          let (out, r') = push_fragment r (HciAclHeader_handle header) (HciAclHeader_is_first_fragment header) payload;
              (outs, r'') = receive_acl r' rest
          in (out # outs, r''))"

lemma parse_acl_header:
  assumes "length chunk < 65536" "handle AND 0x0FFF = handle"
  shows "\<exists>h. HciAclHeader_parse (HciAclHeader_as_bytes (HciAclHeader_new handle pb (of_nat (length chunk))) @ chunk)
      = Some (h, chunk) \<and> HciAclHeader_handle h = handle \<and> HciAclHeader_packet_boundary h = pb"
  using assms HciAclHeader_fields_round_trip [of handle pb "of_nat (length chunk)"]
  by (simp add: HciAclHeader_parse_def acl_layout.prefix_enc Let_def unat_of_nat_u16 HciAclHeader_new_def)

text \<open>The fragments of one frame as a reassembler sees them.\<close>

definition fragments :: "u16 \<Rightarrow> bool \<Rightarrow> bytes list \<Rightarrow> (u16 \<times> bool \<times> bytes) list" where
  "fragments h first cs = (case cs of [] \<Rightarrow> [] | c # cs' \<Rightarrow> (h, first, c) # map (\<lambda>x. (h, False, x)) cs')"

lemma fragments_simps [simp]:
  "fragments h first [] = []"
  "fragments h first (c # cs) = (h, first, c) # fragments h False cs"
  by (simp_all add: fragments_def split: list.split)

lemma receive_acl_feed:
  assumes "\<forall>c \<in> set cs. length c < 65536" "handle AND 0x0FFF = handle"
  shows "receive_acl r (acl_packets_loop handle first cs) =
     (case feed r (fragments handle first cs) of
        (outs, r') \<Rightarrow> (map snd outs, r'))"
  using assms(1)
proof (induction cs arbitrary: r first)
  case (Cons c cs)
  let ?pb = "if first then FirstNonFlushable else Continuing"
  obtain h where h: "HciAclHeader_parse (HciAclHeader_as_bytes (HciAclHeader_new handle ?pb (of_nat (length c))) @ c)
      = Some (h, c)" "HciAclHeader_handle h = handle" "HciAclHeader_packet_boundary h = ?pb"
    using parse_acl_header [of c handle ?pb] Cons.prems assms(2) by auto
  then have "HciAclHeader_is_first_fragment h = first"
    by (simp add: HciAclHeader_is_first_fragment_def)
  with h Cons show ?case
    by (cases cs) (simp_all add: Let_def case_prod_beta del: receive_acl.simps(2) acl_packets_loop.simps(2)
        add: receive_acl.simps(2) [of _ "_ # _"] acl_packets_loop.simps(2) [of _ _ c])
qed simp

lemma chunks_Nil [simp]: "chunks n [] = []"
  by (simp add: chunks.simps)

lemma chunks_step: "0 < n \<Longrightarrow> xs \<noteq> [] \<Longrightarrow> chunks n xs = take n xs # chunks n (drop n xs)"
  by (simp add: chunks.simps [of n xs])

lemma concat_chunks_id: "0 < n \<Longrightarrow> concat (chunks n xs) = xs"
proof (induction n xs rule: chunks.induct)
  case (1 n xs)
  then show ?case by (cases "xs = []") (simp_all add: chunks_step)
qed

lemma chunks_bound: "0 < n \<Longrightarrow> c \<in> set (chunks n xs) \<Longrightarrow> length c \<le> n"
proof (induction n xs rule: chunks.induct)
  case (1 n xs)
  then show ?case by (cases "xs = []") (auto simp: chunks_step)
qed

lemma chunks_last_needed: "0 < n \<Longrightarrow> xs \<noteq> [] \<Longrightarrow> length (concat (butlast (chunks n xs))) < length xs"
proof (induction n xs rule: chunks.induct)
  case (1 n xs)
  show ?case
  proof (cases "drop n xs = []")
    case True
    with 1 show ?thesis by (simp add: chunks_step)
  next
    case False
    with 1 have "length (concat (butlast (chunks n (drop n xs)))) < length (drop n xs)" by simp
    moreover have "chunks n (drop n xs) \<noteq> []"
      using False 1 chunks_step [of n "drop n xs"] by simp
    ultimately show ?thesis
      using 1 False by (simp add: chunks_step [of n xs])
  qed
qed

lemma frame_fragments:
  assumes "length payload < 65536" "max_len < 65536" "buffers r h = None"
    and cs_def: "cs = chunks (max max_len LE_ACL_DATA_LEN) (L2capHeader_serialize cid payload)"
  shows "\<exists>n r'. cs \<noteq> [] \<and> (\<forall>c \<in> set cs. length c < 65536)
    \<and> map snd (fst (feed r (fragments h True cs))) = replicate n (Inr None) @ [Inr (Some (L2capHeader_serialize cid payload))]
    \<and> snd (feed r (fragments h True cs)) = r' \<and> buffers r' h = None"
proof -
  let ?frame = "L2capHeader_serialize cid payload" and ?n = "max max_len LE_ACL_DATA_LEN"
  have n: "27 \<le> ?n" "?n < 65536" using assms(2) by (simp_all add: LE_ACL_DATA_LEN_def)
  have len: "length ?frame = 4 + length payload"
    by (simp add: L2capHeader_serialize_def L2capHeader_as_bytes_def)
  then have ne: "?frame \<noteq> []" by (metis add_is_0 list.size(3) zero_neq_numeral)
  obtain f fs where cs: "cs = f # fs" "f = take ?n ?frame"
    using chunks_step [of ?n ?frame] n ne by (auto simp: cs_def)
  have "4 \<le> length f" using cs(2) len n by simp
  moreover have "concat (f # fs) = ?frame"
    using concat_chunks_id [of ?n ?frame] n cs(1) by (simp add: cs_def)
  moreover have "length (concat (butlast (f # fs))) < length ?frame"
    using chunks_last_needed [of ?n ?frame] n ne cs(1) by (simp add: cs_def)
  ultimately have "map snd (fst (feed r (fragments h True cs)))
        = replicate (length fs) (Inr None) @ [Inr (Some ?frame)] \<and> buffers (snd (feed r (fragments h True cs))) h = None"
    using feed_fragments [OF assms(3)] serialized_frame_length [OF assms(1) refl] cs(1)
    unfolding fragments_def by simp
  moreover have "\<forall>c \<in> set cs. length c < 65536"
    using chunks_bound [of ?n _ ?frame] n by (fastforce simp: cs_def)
  ultimately show ?thesis using cs(1) by blast
qed

lemma receive_acl_packets:
  assumes "length payload < 65536" "max_len < 65536" "handle AND 0x0FFF = handle" "buffers r handle = None"
  shows "let (outs, r') = receive_acl r (acl_packets_with_len handle (L2capHeader_serialize cid payload) max_len) in
     (\<exists>n. outs = replicate n (Inr None) @ [Inr (Some (L2capHeader_serialize cid payload))]) \<and> buffers r' handle = None"
  using frame_fragments [OF assms(1,2,4) refl, of cid] receive_acl_feed [of _ handle r True] assms(3)
  by (fastforce simp: acl_packets_with_len_def Let_def case_prod_beta)

text \<open>C9: The packets a host cuts an L2CAP frame into, at whatever length the controller accepts, come
  out of the peer's reassembler as exactly that frame: every packet but the last is answered with
  "not yet", the last with the frame, and nothing stays behind.\<close>
theorem acl_packets_reassemble:
  assumes "length payload < 65536" "max_len < 65536" "handle AND 0x0FFF = handle" "buffers r handle = None"
  shows "let (outs, r') = receive_acl r (acl_packets_with_len handle (L2capHeader_serialize cid payload) max_len) in
     (\<exists>n. outs = replicate n (Inr None) @ [Inr (Some (L2capHeader_serialize cid payload))]) \<and> buffers r' handle = None"
  using assms by (rule receive_acl_packets)

theorem acl_packets_reassemble_witness:
  "let (outs, r') = receive_acl AclReassembler_new
       (acl_packets_with_len 0x40 (L2capHeader_serialize cid_SMP (replicate 65 0xAB)) 27) in
     (\<exists>n. outs = replicate n (Inr None) @ [Inr (Some (L2capHeader_serialize cid_SMP (replicate 65 0xAB)))])
     \<and> buffers r' 0x40 = None"
  by (rule acl_packets_reassemble) (simp_all add: AclReassembler_new_def)

section \<open>The pairing queue\<close>

lemma drain_smp_spec:
  "drain_smp h d = (out, d') \<Longrightarrow>
     out = concat (map (\<lambda>p. acl_packets h (L2capHeader_serialize cid_SMP p)) (smp_queue h d)) \<and> smp_queue h d' = []"
proof (induction h d arbitrary: out rule: drain_smp.induct)
  case (1 h d)
  show ?case
  proof (cases "poll_smp_pdu h d")
    case (Pair r d1)
    show ?thesis
    proof (cases r)
      case None
      with Pair "1.prems" have "smp_queue h d = [] \<and> smp_queue h d' = [] \<and> out = []"
        by (auto simp: drain_smp.simps [of h d] poll_smp_pdu_def smp_queue_def poll_pending_def modify_connection_def
            split: option.splits list.splits)
      then show ?thesis by simp
    next
      case (Some pdu)
      with Pair obtain p where p: "pdu = L2capHeader_serialize cid_SMP p" "smp_queue h d = p # smp_queue h d1"
        using poll_smp_queue [of h d pdu d1] by auto
      obtain out1 where "drain_smp h d1 = (out1, d')" "out = acl_packets h pdu @ out1"
        using "1.prems" Pair Some by (auto simp: drain_smp.simps [of h d] split: prod.splits)
      with "1.IH" [OF Pair [symmetric] Some] p show ?thesis by simp
    qed
  qed
qed

lemma drain_smp_inv: "device_inv d \<Longrightarrow> device_inv (snd (drain_smp h d))"
proof (induction h d rule: drain_smp.induct)
  case (1 h d)
  have "device_inv (snd (poll_smp_pdu h d))" using "1.prems" by (rule poll_smp_inv)
  with 1 show ?case
    by (subst drain_smp.simps) (auto split: prod.splits option.splits)
qed

section \<open>Safety\<close>

lemma device_inv_cis [simp]: "device_inv (d\<lparr>vd_cis_handle := x\<rparr>) = device_inv d"
  by (simp add: device_inv_def)

lemma handle_event_inv:
  assumes "device_inv d" "reassembler_inv (host_reassembler host)" "handle_event packet host d = (out, host', d')"
  shows "device_inv d' \<and> reassembler_inv (host_reassembler host')"
proof -
  have "device_inv (set_peer_address_type h t (on_connected h a d))" for h t a
    using on_connected_inv [OF assms(1), of h a Peripheral]
      device_inv_conn [OF on_connected_inv [OF assms(1), of h a Peripheral], of h]
    by (auto simp: on_connected_def set_peer_address_type_def intro!: device_inv_modify)
  moreover have "drain_smp h (on_encryption_changed h b d) = (out, d') \<Longrightarrow> device_inv d'" for h b
    using drain_smp_inv [OF on_encryption_changed_inv [OF assms(1), of h b], of h] by simp
  moreover have "device_inv (on_disconnected h d)" for h by (rule on_disconnected_inv [OF assms(1)])
  ultimately show ?thesis
    using assms reassembler_inv_on_disconnected [OF assms(2)]
    by (auto simp: handle_event_def Let_def split: option.splits HciEvent.splits if_splits prod.splits)
qed

lemma handle_acl_inv:
  assumes "device_inv d" "reassembler_inv (host_reassembler host)" "handler_ok ow"
    and "from_private_be ec SMP_DEBUG_KEY_PRIVATE_BE \<noteq> None"
  shows "\<exists>res host' d'. handle_acl ec gen rnd ow packet host d = Some (res, host', d')
    \<and> device_inv d' \<and> reassembler_inv (host_reassembler host')"
proof (cases "HciAclHeader_parse (tl packet)")
  case (Some hp)
  obtain header payload where hp: "hp = (header, payload)" by (cases hp)
  let ?h = "HciAclHeader_handle header"
  obtain res r where push: "push_fragment (host_reassembler host) ?h (HciAclHeader_is_first_fragment header) payload = (res, r)"
    by (cases "push_fragment (host_reassembler host) ?h (HciAclHeader_is_first_fragment header) payload")
  with push_fragment_inv [OF assms(2), of ?h "HciAclHeader_is_first_fragment header" payload]
  have r: "reassembler_inv r" by simp
  have frame: "\<exists>res d1. process_l2cap_packet ec gen rnd ow ?h frame d = Some (res, d1) \<and> device_inv d1" for frame
    using device_step_inv [OF assms(1,3,4), of "Frame gen rnd ?h frame"] by auto
  show ?thesis
  proof (cases "\<exists>frame. res = Inr (Some frame)")
    case True
    then obtain frame where res: "res = Inr (Some frame)" by blast
    obtain rsp d1 where "process_l2cap_packet ec gen rnd ow ?h frame d = Some (rsp, d1)" "device_inv d1"
      using frame by blast
    with Some hp push res r drain_smp_inv [of d1 ?h] show ?thesis
      by (cases rsp) (auto simp: handle_acl_def Let_def split: prod.splits)
  next
    case False
    with Some hp push r assms(1) show ?thesis
      by (cases res) (auto simp: handle_acl_def Let_def split: option.splits)
  qed
qed (use assms in \<open>simp add: handle_acl_def\<close>)

lemma handle_packet_inv:
  assumes "device_inv d" "reassembler_inv (host_reassembler host)" "handler_ok ow"
    and "from_private_be ec SMP_DEBUG_KEY_PRIVATE_BE \<noteq> None"
  shows "\<exists>res host' d'. handle_packet ec gen rnd ow packet host d = Some (res, host', d')
    \<and> device_inv d' \<and> reassembler_inv (host_reassembler host')"
proof -
  have "device_inv (on_iso_sdu p d)" for p
    using assms(1) by (auto simp: on_iso_sdu_def device_inv_def Let_def)
  then show ?thesis
    using handle_acl_inv [OF assms, of gen rnd packet] handle_event_inv [OF assms(1,2), of packet] assms(1,2)
    by (cases packet) (auto simp: handle_packet_def split: prod.splits option.splits)
qed

text \<open>A run of the host: packets of every kind, each with the randomness the pairing code draws while
  it is handled.\<close>

fun host_run ::
  "'s p256 \<Rightarrow> 'h on_write \<Rightarrow> ('s P256Keypair \<times> nonces \<times> bytes) list \<Rightarrow> LeHost \<Rightarrow> ('h, 's) VirtualDevice
   \<Rightarrow> (LeHost \<times> ('h, 's) VirtualDevice) option" where
  "host_run ec ow [] host d = Some (host, d)"
| "host_run ec ow ((gen, rnd, packet) # ps) host d =
     (case handle_packet ec gen rnd ow packet host d of
        None \<Rightarrow> None
      | Some (_, host', d') \<Rightarrow> host_run ec ow ps host' d')"

lemma host_run_inv:
  assumes "handler_ok ow" "from_private_be ec SMP_DEBUG_KEY_PRIVATE_BE \<noteq> None"
  shows "device_inv d \<Longrightarrow> reassembler_inv (host_reassembler host) \<Longrightarrow>
    \<exists>host' d'. host_run ec ow ps host d = Some (host', d') \<and> device_inv d' \<and> reassembler_inv (host_reassembler host')"
proof (induction ps arbitrary: host d)
  case (Cons p ps)
  obtain gen rnd packet where p: "p = (gen, rnd, packet)" by (cases p)
  from handle_packet_inv [OF Cons.prems assms, of gen rnd packet] Cons.IH show ?case
    by (fastforce simp: p)
qed simp

text \<open>C4: Whatever bytes a controller delivers, events, ACL fragments of any peer, isochronous data or
  garbage, in whatever order, the host with its device handles every packet without a panic, keeps the
  reassembly buffers and the device consistent, and never hands the controller a key of a pairing that
  failed: a Long Term Key Request for such a connection gets the negative reply.\<close>
theorem host_never_panics:
  assumes "handler_ok ow" "from_private_be ec SMP_DEBUG_KEY_PRIVATE_BE \<noteq> None" "gatt_inv db"
    and "pred_option bond_store_inv store"
  shows "\<exists>host d. host_run ec ow ps LeHost_new ((VirtualDevice_new name addr atype)
      \<lparr>vd_gatt_db := db, vd_observer := obs, vd_bond_store := store\<rparr>) = Some (host, d)
    \<and> device_inv d \<and> reassembler_inv (host_reassembler host)
    \<and> (\<forall>h c s k. h AND 0x0FFF = h \<and> vd_connections d h = Some c \<and> conn_pairing_session c = Some s \<and> ps_failed s
        \<and> length k = 10 \<longrightarrow>
        fst (handle_event (event_packet event_LE_META (le_LONG_TERM_KEY_REQUEST # to_le_bytes h @ k)) host d)
          = [command op_LE_LTK_REQUEST_NEGATIVE_REPLY (to_le_bytes h)])"
proof -
  let ?d0 = "(VirtualDevice_new name addr atype)\<lparr>vd_gatt_db := db, vd_observer := obs, vd_bond_store := store\<rparr>"
  have "device_inv ?d0"
    using assms(3,4) by (simp add: device_inv_def VirtualDevice_new_def)
  then obtain host d where run: "host_run ec ow ps LeHost_new ?d0 = Some (host, d)" "device_inv d"
      "reassembler_inv (host_reassembler host)"
    using host_run_inv [OF assms(1,2), of ?d0 LeHost_new ps] reassembler_inv_new by (auto simp: LeHost_new_def)
  have "fst (handle_event (event_packet event_LE_META (le_LONG_TERM_KEY_REQUEST # to_le_bytes h @ k)) host d)
      = [command op_LE_LTK_REQUEST_NEGATIVE_REPLY (to_le_bytes h)]"
    if h: "h AND 0x0FFF = h" "vd_connections d h = Some c" "conn_pairing_session c = Some s" "ps_failed s" "length k = 10"
    for h c s k
  proof -
    have "conn_ltk c = None" using device_inv_conn [OF run(2) h(2)] h(3,4) by (simp add: conn_ok_def)
    moreover have "HciEvent_parse_h4 (event_packet event_LE_META (le_LONG_TERM_KEY_REQUEST # to_le_bytes h @ k))
        = Some (LeLongTermKeyRequestEvent (LeLongTermKeyRequest_of_bytes (le_LONG_TERM_KEY_REQUEST # to_le_bytes h @ k)))"
      using parse_event_packet [of "le_LONG_TERM_KEY_REQUEST # to_le_bytes h @ k" event_LE_META "[]"] h(5)
      by (simp add: HciEvent_from_parameters_def from_prefix_def)
    ultimately show ?thesis
      using h by (simp add: handle_event_def Let_def LeLongTermKeyRequest_of_bytes_def to_le_bytes_def)
  qed
  with run show ?thesis by blast
qed

theorem host_never_panics_witness:
  "\<exists>host d. host_run sample_curve counting_handler
      [(sample_pair, \<lambda>_ n. replicate n 0, event_packet event_LE_META
          ([le_CONNECTION_COMPLETE, 0, 0x40, 0, 1, 1] @ [0x11, 0x22, 0x33, 0x44, 0x55, 0x66])),
       (sample_pair, \<lambda>_ n. replicate n 0, [h4_HCI_ACL_DATA, 0x40, 0x00])] LeHost_new
      ((VirtualDevice_new [] Address_ANY Public)\<lparr>vd_gatt_db := sample_db, vd_observer := None, vd_bond_store := None\<rparr>)
      = Some (host, d) \<and> device_inv d \<and> reassembler_inv (host_reassembler host)"
proof -
  have "from_private_be sample_curve SMP_DEBUG_KEY_PRIVATE_BE \<noteq> None"
    by (simp add: from_private_be_def sample_curve_def)
  from host_never_panics [OF handler_ok_counting this gatt_inv_sample_db, where store = None
      and ps = "[(sample_pair, \<lambda>_ n. replicate n 0, event_packet event_LE_META
          ([le_CONNECTION_COMPLETE, 0, 0x40, 0, 1, 1] @ [0x11, 0x22, 0x33, 0x44, 0x55, 0x66])),
       (sample_pair, \<lambda>_ n. replicate n 0, [h4_HCI_ACL_DATA, 0x40, 0x00])]" and name = "[]" and addr = Address_ANY and atype = Public and obs = None]
  show ?thesis by auto
qed

section \<open>What the host gets wrong\<close>

text \<open>The scan response carries the device's whole name whatever its length: from thirty bytes of
  name on, the parameter block announces more than its 31 data bytes, and the name is cut in the
  middle of its structure. The advertising data of the same device fits.\<close>
theorem scan_response_overflows:
  assumes "30 \<le> length (concat (vd_name d))" "length (concat (vd_name d)) < 254" "vd_connectable d"
    and "vd_advertising_data d = None"
  shows "\<exists>cmds params. start_advertising host d uuids = Inr cmds
    \<and> command op_LE_SET_SCAN_RESPONSE_DATA params \<in> set cmds
    \<and> unat (params ! 0) = 2 + length (concat (vd_name d)) \<and> 31 < unat (params ! 0) \<and> length params = 32
    \<and> ad_structures (tl params) = []"
proof -
  let ?name = "concat (vd_name d)"
  let ?ad = "AdvertisingData_to_bytes (with_name (vd_name d) AdvertisingData_new)"
  have ne: "?name \<noteq> []" using assms(1) by (cases ?name) auto
  have ad: "?ad = of_nat (1 + length ?name) # ad_COMPLETE_LOCAL_NAME # ?name"
    using ne by (simp add: AdvertisingData_to_bytes_def with_name_def AdvertisingData_new_def ad_structure_def
        del: concat_eq_Nil_conv)
  obtain payload where payload: "build_adv_payload_with_extras (vd_name d) uuids (vd_advertising_data d) = Inr payload"
    using build_adv_payload_total [of "vd_name d" uuids] assms(4)
    by (auto simp: build_adv_payload_with_extras_def)
  let ?params = "adv_data_param ?ad"
  have len: "unat (of_nat (2 + length ?name) :: u8) = 2 + length ?name"
      "unat (of_nat (1 + length ?name) :: u8) = 1 + length ?name"
    using assms(2) unat_of_nat_u8 [of "2 + length ?name"] unat_of_nat_u8 [of "1 + length ?name"] by simp_all
  have params: "?params = of_nat (2 + length ?name) # of_nat (1 + length ?name) # ad_COMPLETE_LOCAL_NAME # take 29 ?name"
    using assms(1) by (simp add: adv_data_param_def ad Let_def)
  have "ad_structures (tl ?params) = []"
    using assms(1) len(2) by (subst ad_structures.simps) (simp add: params del: of_nat_Suc)
  moreover have "unat (?params ! 0) = 2 + length ?name" "length ?params = 32"
    using len(1) assms(1) by (simp_all add: params del: of_nat_Suc)
  moreover have "31 < 2 + length ?name" using assms(1) by simp
  moreover have "\<exists>cmds. start_advertising host d uuids = Inr cmds
      \<and> command op_LE_SET_SCAN_RESPONSE_DATA ?params \<in> set cmds"
    using payload assms(3) by (simp add: start_advertising_def Let_def)
  ultimately show ?thesis by metis
qed

theorem scan_response_overflows_witness:
  "let d = VirtualDevice_new (replicate 40 [0x41]) Address_ANY Public :: (nat, unit) VirtualDevice in
    \<exists>cmds params. start_advertising LeHost_new d [0x180D] = Inr cmds
    \<and> command op_LE_SET_SCAN_RESPONSE_DATA params \<in> set cmds
    \<and> unat (params ! 0) = 2 + length (concat (vd_name d)) \<and> 31 < unat (params ! 0) \<and> length params = 32
    \<and> ad_structures (tl params) = []"
  unfolding Let_def
  by (rule scan_response_overflows) (simp_all add: VirtualDevice_new_def length_concat sum_list_replicate)

text \<open>The end of any link makes the host forget its connection: after the Disconnection Complete of an
  isochronous stream the device is still connected to its peer, but the host has no connection any
  more, while the handle of the stream that ended is still recorded as the established one.\<close>

lemma stream_end_forgets_connection:
  assumes "host_connection host = Some (h, peer)" "vd_connections d h = Some c" "host_cis_handle host = Some stream"
    and "stream AND 0x0FFF = stream" "stream \<noteq> h"
  defines "r \<equiv> handle_event (event_packet event_DISCONNECTION_COMPLETE ([0] @ to_le_bytes stream @ [0x13])) host d"
  shows "host_connection (fst (snd r)) = None \<and> vd_connections (snd (snd r)) h = Some c
    \<and> host_cis_handle (fst (snd r)) = Some stream"
proof -
  have "HciEvent_parse_h4 (event_packet event_DISCONNECTION_COMPLETE ([0] @ to_le_bytes stream @ [0x13]))
      = Some (DisconnectionCompleteEvent \<lparr>dcc_status = 0, dcc_connection_handle = stream, dcc_reason = 0x13\<rparr>)"
    using parse_event_packet [of "[0] @ to_le_bytes stream @ [0x13]" event_DISCONNECTION_COMPLETE "[]"]
    by (simp add: HciEvent_from_parameters_def from_prefix_def DisconnectionComplete_of_bytes_def to_le_bytes_def)
  then show ?thesis
    using assms(1-5) by (simp add: r_def handle_event_def Let_def on_disconnected_def)
qed

end
