(* ===== verification/Le_Central.thy ===== *)
theory Le_Central
  imports Gatt_Client Le_Host
begin

text \<open>
  The LE central host (\<open>src/src/device/central.rs\<close>): controller bring-up, scanning, connecting, MTU
  exchange, service and characteristic discovery, then queued reads, writes and subscriptions. The
  packets a method pushes to its \<^verbatim>\<open>out\<close> vector are returned beside the new state; \<open>None\<close> is a panic
  (an index into the discovered services). Of the maps of values and subscriptions only lookups are
  used, so they are a map and a set; text interpolated into a failure reason is dropped.
\<close>

section \<open>Constants\<close>

abbreviation (input) LE_CREATE_CONNECTION :: bytes where "LE_CREATE_CONNECTION \<equiv> [0x0D, 0x20]"
abbreviation (input) LE_SET_SCAN_PARAMETERS :: bytes where "LE_SET_SCAN_PARAMETERS \<equiv> [0x0B, 0x20]"
abbreviation (input) LE_SET_SCAN_ENABLE :: bytes where "LE_SET_SCAN_ENABLE \<equiv> [0x0C, 0x20]"
abbreviation (input) LE_SET_RANDOM_ADDRESS :: bytes where "LE_SET_RANDOM_ADDRESS \<equiv> [0x05, 0x20]"
abbreviation (input) CENTRAL_RANDOM_ADDRESS :: bytes where
  "CENTRAL_RANDOM_ADDRESS \<equiv> [0xC1, 0x00, 0x00, 0xC0, 0xDE, 0xF0]"
abbreviation (input) DISCONNECT :: bytes where "DISCONNECT \<equiv> [0x06, 0x04]"
abbreviation (input) REASON_REMOTE_USER_TERMINATED :: u8 where "REASON_REMOTE_USER_TERMINATED \<equiv> 0x13"
abbreviation (input) CLIENT_MTU :: u16 where "CLIENT_MTU \<equiv> 517"
abbreviation (input) SIGNED_WRITE_CMD :: u8 where "SIGNED_WRITE_CMD \<equiv> 0xD2"

definition is_peer_request :: "u8 \<Rightarrow> bool" where
  "is_peer_request op =
     (op = opcode_EXCHANGE_MTU_REQ \<or> op = opcode_FIND_INFORMATION_REQ \<or> op = opcode_FIND_BY_TYPE_VALUE_REQ
      \<or> op = opcode_READ_BY_TYPE_REQ \<or> op = opcode_READ_REQ \<or> op = opcode_READ_BLOB_REQ
      \<or> op = opcode_READ_MULTIPLE_REQ \<or> op = opcode_READ_BY_GROUP_TYPE_REQ \<or> op = opcode_WRITE_REQ
      \<or> op = opcode_PREPARE_WRITE_REQ \<or> op = opcode_EXECUTE_WRITE_REQ)"

section \<open>State\<close>

datatype CentralPhase =
    PhaseIdle
  | PhaseInitializing
  | PhaseScanning
  | PhaseConnecting
  | PhaseExchangingMtu
  | PhaseDiscoveringServices
  | PhaseDiscoveringCharacteristics nat
  | PhaseReady
  | PhaseDisconnected

fun CentralPhase_label :: "CentralPhase \<Rightarrow> string" where
  "CentralPhase_label PhaseIdle = ''idle''"
| "CentralPhase_label PhaseInitializing = ''initializing''"
| "CentralPhase_label PhaseScanning = ''scanning for the peer''"
| "CentralPhase_label PhaseConnecting = ''connecting''"
| "CentralPhase_label PhaseExchangingMtu = ''exchanging MTU''"
| "CentralPhase_label PhaseDiscoveringServices = ''discovering services''"
| "CentralPhase_label (PhaseDiscoveringCharacteristics _) = ''discovering characteristics''"
| "CentralPhase_label PhaseReady = ''ready''"
| "CentralPhase_label PhaseDisconnected = ''disconnected''"

datatype CentralEvent =
    ConnectionStateChange Address bool u8
  | MtuChanged u16
  | ServicesDiscovered nat
  | CharacteristicRead Uuid u16 bytes u8
  | CharacteristicWrite Uuid u16 u8
  | CharacteristicChanged Uuid u16 bytes
  | SubscriptionChanged Uuid u16 bool u8
  | OperationFailed Uuid string string

datatype Target = TargetUuid Uuid | TargetHandle u16

datatype Op =
    OpRead Target
  | OpWrite Target bytes bool
  | OpSubscribe Target bool
  | OpDiscoverDescriptors Target bool

record LeCentral =
  ce_acl_data_len :: nat
  ce_target :: Address
  ce_client :: GattClient
  ce_reassembler :: AclReassembler
  ce_phase :: CentralPhase
  ce_pending :: "Op list"
  ce_in_flight :: "(Op \<times> u16) option"
  ce_values :: "u16 \<rightharpoonup> bytes"
  ce_subscribed :: "u16 set"
  ce_events :: "CentralEvent list"
  ce_peer_address_type :: "u8 option"
  ce_le_event_mask :: "bytes option"

definition LeCentral_new :: LeCentral where
  "LeCentral_new =
     \<lparr>ce_acl_data_len = LE_ACL_DATA_LEN, ce_target = Address_from_be_bytes (replicate 6 0),
      ce_client = GattClient_new 0 (Address_from_be_bytes (replicate 6 0)),
      ce_reassembler = AclReassembler_new, ce_phase = PhaseIdle, ce_pending = [], ce_in_flight = None,
      ce_values = Map.empty, ce_subscribed = {}, ce_events = [], ce_peer_address_type = None,
      ce_le_event_mask = None\<rparr>"

definition raise_event :: "CentralEvent \<Rightarrow> LeCentral \<Rightarrow> LeCentral" where
  "raise_event e c = c\<lparr>ce_events := ce_events c @ [e]\<rparr>"

text \<open>Sending an L2CAP frame on a connection handle.\<close>

definition send_frame :: "LeCentral \<Rightarrow> u16 \<Rightarrow> bytes \<Rightarrow> bytes list" where
  "send_frame c handle pdu = acl_packets_with_len handle pdu (ce_acl_data_len c)"

section \<open>Connecting and disconnecting\<close>

definition begin_connect :: "Address \<Rightarrow> u8 option \<Rightarrow> LeCentral \<Rightarrow> bytes list \<times> LeCentral" where
  "begin_connect target address_type c =
     (init_commands_with_masks EVENT_MASK_ALL
        (case ce_le_event_mask c of Some m \<Rightarrow> m | None \<Rightarrow> LE_EVENT_MASK_ALL)
      @ [command LE_SET_RANDOM_ADDRESS CENTRAL_RANDOM_ADDRESS],
      c\<lparr>ce_target := target, ce_client := GattClient_new 0 target, ce_peer_address_type := address_type,
        ce_phase := PhaseInitializing\<rparr>)"

definition connect :: "Address \<Rightarrow> LeCentral \<Rightarrow> bytes list \<times> LeCentral" where
  "connect target c = begin_connect target None c"

definition connect_with_type :: "Address \<Rightarrow> u8 \<Rightarrow> LeCentral \<Rightarrow> bytes list \<times> LeCentral" where
  "connect_with_type target address_type c = begin_connect target (Some address_type) c"

definition central_set_le_event_mask :: "bytes \<Rightarrow> LeCentral \<Rightarrow> LeCentral" where
  "central_set_le_event_mask m c = c\<lparr>ce_le_event_mask := Some m\<rparr>"

definition scan_commands :: "bytes list" where
  "scan_commands =
     [command LE_SET_SCAN_PARAMETERS [0x00, 0x10, 0x00, 0x10, 0x00, 0x00, 0x00],
      command LE_SET_SCAN_ENABLE [0x01, 0x00]]"

definition central_disconnect :: "LeCentral \<Rightarrow> bytes list" where
  "central_disconnect c =
     (let handle = gc_connection_handle (ce_client c) in
      if handle = 0 then []
      else [command DISCONNECT (to_le_bytes handle @ [REASON_REMOTE_USER_TERMINATED])])"

definition set_acl_data_len :: "nat \<Rightarrow> LeCentral \<Rightarrow> LeCentral" where
  "set_acl_data_len len c = c\<lparr>ce_acl_data_len := max len LE_ACL_DATA_LEN\<rparr>"

section \<open>Views\<close>

definition is_ready :: "LeCentral \<Rightarrow> bool" where
  "is_ready c = (ce_phase c = PhaseReady)"

definition is_idle :: "LeCentral \<Rightarrow> bool" where
  "is_idle c = (ce_pending c = [] \<and> ce_in_flight c = None)"

definition central_value_handle :: "LeCentral \<Rightarrow> Uuid \<Rightarrow> u16 option" where
  "central_value_handle c uuid = map_option dc_value_handle (find_characteristic (ce_client c) uuid)"

definition central_value :: "LeCentral \<Rightarrow> Uuid \<Rightarrow> bytes option" where
  "central_value c uuid = Option.bind (central_value_handle c uuid) (ce_values c)"

definition central_value_at :: "LeCentral \<Rightarrow> u16 \<Rightarrow> bytes option" where
  "central_value_at c handle = ce_values c handle"

definition is_subscribed :: "LeCentral \<Rightarrow> Uuid \<Rightarrow> bool" where
  "is_subscribed c uuid =
     (case central_value_handle c uuid of None \<Rightarrow> False | Some h \<Rightarrow> h \<in> ce_subscribed c)"

definition is_subscribed_at :: "LeCentral \<Rightarrow> u16 \<Rightarrow> bool" where
  "is_subscribed_at c handle = (handle \<in> ce_subscribed c)"

definition enqueue :: "Op \<Rightarrow> LeCentral \<Rightarrow> LeCentral" where
  "enqueue op c = c\<lparr>ce_pending := ce_pending c @ [op]\<rparr>"

definition queue_read :: "Uuid \<Rightarrow> LeCentral \<Rightarrow> LeCentral" where
  "queue_read uuid = enqueue (OpRead (TargetUuid uuid))"

definition queue_write :: "Uuid \<Rightarrow> bytes \<Rightarrow> bool \<Rightarrow> LeCentral \<Rightarrow> LeCentral" where
  "queue_write uuid v with_response = enqueue (OpWrite (TargetUuid uuid) v with_response)"

definition queue_subscribe :: "Uuid \<Rightarrow> bool \<Rightarrow> LeCentral \<Rightarrow> LeCentral" where
  "queue_subscribe uuid enable = enqueue (OpDiscoverDescriptors (TargetUuid uuid) enable)"

definition queue_read_at :: "u16 \<Rightarrow> LeCentral \<Rightarrow> LeCentral" where
  "queue_read_at handle = enqueue (OpRead (TargetHandle handle))"

definition queue_subscribe_at :: "u16 \<Rightarrow> bool \<Rightarrow> LeCentral \<Rightarrow> LeCentral" where
  "queue_subscribe_at handle enable = enqueue (OpDiscoverDescriptors (TargetHandle handle) enable)"

definition take_events :: "LeCentral \<Rightarrow> CentralEvent list \<times> LeCentral" where
  "take_events c = (ce_events c, c\<lparr>ce_events := []\<rparr>)"

section \<open>Starting operations\<close>

definition all_characteristics :: "LeCentral \<Rightarrow> DiscoveredCharacteristic list" where
  "all_characteristics c = concat (map ds_characteristics (gc_services (ce_client c)))"

fun resolve :: "LeCentral \<Rightarrow> Target \<Rightarrow> DiscoveredCharacteristic option" where
  "resolve c (TargetUuid uuid) = find_characteristic (ce_client c) uuid"
| "resolve c (TargetHandle handle) = List.find (\<lambda>ch. dc_value_handle ch = handle) (all_characteristics c)"

definition central_fail :: "Target \<Rightarrow> string \<Rightarrow> string \<Rightarrow> LeCentral \<Rightarrow> LeCentral" where
  "central_fail target operation reason c =
     (let uuid = (case (resolve c target, target) of
            (Some ch, _) \<Rightarrow> dc_uuid ch
          | (None, TargetUuid uuid) \<Rightarrow> uuid
          | (None, TargetHandle _) \<Rightarrow> Uuid_from_u16 0)
      in raise_event (OperationFailed uuid operation reason) c)"

fun target_matches :: "Target \<Rightarrow> DiscoveredCharacteristic \<Rightarrow> bool" where
  "target_matches (TargetUuid uuid) ch = (dc_uuid ch = uuid)"
| "target_matches (TargetHandle handle) ch = (dc_value_handle ch = handle)"

definition saturating_pred :: "u16 \<Rightarrow> u16" where
  "saturating_pred w = (if w = 0 then 0 else w - 1)"

definition saturating_succ :: "u16 \<Rightarrow> u16" where
  "saturating_succ w = (if w = 0xFFFF then w else w + 1)"

fun range_in_service :: "Target \<Rightarrow> u16 \<Rightarrow> DiscoveredCharacteristic list \<Rightarrow> (u16 \<times> u16) option" where
  "range_in_service target service_end [] = None"
| "range_in_service target service_end (ch # rest) =
     (if target_matches target ch
      then Some (saturating_succ (dc_value_handle ch),
        case rest of [] \<Rightarrow> service_end | next # _ \<Rightarrow> saturating_pred (dc_declaration_handle next))
      else range_in_service target service_end rest)"

fun range_in_services :: "Target \<Rightarrow> DiscoveredService list \<Rightarrow> (u16 \<times> u16) option" where
  "range_in_services target [] = None"
| "range_in_services target (s # ss) =
     (case range_in_service target (ds_end_handle s) (ds_characteristics s) of
        Some r \<Rightarrow> Some r
      | None \<Rightarrow> range_in_services target ss)"

definition descriptor_range :: "LeCentral \<Rightarrow> Target \<Rightarrow> (u16 \<times> u16) option" where
  "descriptor_range c target = range_in_services target (gc_services (ce_client c))"

definition find_information_request :: "u16 \<Rightarrow> u16 \<Rightarrow> bytes" where
  "find_information_request start_h end_h =
     L2capHeader_serialize cid_ATT (AttFindInformationReq_as_bytes (AttFindInformationReq_new start_h end_h))"

datatype Started = InFlight | Complete

definition sub_operation :: "bool \<Rightarrow> string" where
  "sub_operation enable = (if enable then ''subscribe'' else ''unsubscribe'')"

definition start_subscribe :: "Target \<Rightarrow> bool \<Rightarrow> LeCentral \<Rightarrow> bytes list \<times> Started \<times> LeCentral" where
  "start_subscribe target enable c =
     (let handle = gc_connection_handle (ce_client c) in
      case resolve c target of
        None \<Rightarrow> ([], Complete, central_fail target (sub_operation enable) ''no such characteristic on this peer'' c)
      | Some ch \<Rightarrow>
     (case List.find (\<lambda>d. desc_uuid d = Uuid_CCCD) (dc_descriptors ch) of
        None \<Rightarrow> ([], Complete, central_fail target (sub_operation enable)
            ''characteristic has no Client Characteristic Configuration descriptor'' c)
      | Some d \<Rightarrow>
          let bits = (if \<not> enable then 0x0000
                else if dc_properties ch AND 0x20 \<noteq> 0 \<and> dc_properties ch AND 0x10 = 0 then 0x0002 else 0x0001);
              pdu = create_write_request (desc_handle d) (to_le_bytes bits)
          in (send_frame c handle pdu, InFlight,
              c\<lparr>ce_in_flight := Some (OpSubscribe target enable, dc_value_handle ch)\<rparr>)))"

fun start :: "Op \<Rightarrow> LeCentral \<Rightarrow> bytes list \<times> Started \<times> LeCentral" where
  "start (OpRead target) c =
     (case resolve c target of
        None \<Rightarrow> ([], Complete, central_fail target ''read'' ''no such characteristic on this peer'' c)
      | Some ch \<Rightarrow>
          (send_frame c (gc_connection_handle (ce_client c)) (create_read_request (dc_value_handle ch)), InFlight,
           c\<lparr>ce_in_flight := Some (OpRead target, dc_value_handle ch)\<rparr>))"
| "start (OpWrite target v with_response) c =
     (case resolve c target of
        None \<Rightarrow> ([], Complete, central_fail target ''write'' ''no such characteristic on this peer'' c)
      | Some ch \<Rightarrow>
          let handle = gc_connection_handle (ce_client c);
              value_handle = dc_value_handle ch
          in if with_response then
               (send_frame c handle (create_write_request value_handle v), InFlight,
                c\<lparr>ce_in_flight := Some (OpWrite target v with_response, value_handle)\<rparr>)
             else
               (send_frame c handle (create_write_command value_handle v), Complete,
                raise_event (CharacteristicWrite (dc_uuid ch) value_handle 0) c))"
| "start (OpDiscoverDescriptors target enable) c =
     (case descriptor_range c target of
        None \<Rightarrow> ([], Complete, central_fail target (sub_operation enable) ''no such characteristic on this peer'' c)
      | Some (start_h, end_h) \<Rightarrow>
          if (case resolve c target of None \<Rightarrow> False | Some ch \<Rightarrow> dc_descriptors ch \<noteq> []) then
            start_subscribe target enable c
          else if end_h < start_h then
            ([], Complete, central_fail target (sub_operation enable) ''characteristic has no descriptors'' c)
          else
            (send_frame c (gc_connection_handle (ce_client c)) (find_information_request start_h end_h), InFlight,
             c\<lparr>ce_in_flight := Some (OpDiscoverDescriptors target enable, start_h)\<rparr>))"
| "start (OpSubscribe target enable) c = start_subscribe target enable c"

text \<open>The loop of \<^verbatim>\<open>pump\<close> over the pending operations.\<close>

fun pump_loop :: "Op list \<Rightarrow> LeCentral \<Rightarrow> bytes list \<times> LeCentral" where
  "pump_loop [] c = ([], c)"
| "pump_loop (op # ops) c =
     (if ce_in_flight c \<noteq> None then ([], c)
      else
        let (out, _, c) = start op (c\<lparr>ce_pending := ops\<rparr>);
            (out', c) = pump_loop ops c
        in (out @ out', c))"

definition pump :: "LeCentral \<Rightarrow> bytes list \<times> LeCentral" where
  "pump c = (if ce_phase c \<noteq> PhaseReady then ([], c) else pump_loop (ce_pending c) c)"

section \<open>Discovery\<close>

definition create_connection_params :: "LeCentral \<Rightarrow> bytes" where
  "create_connection_params c =
     to_le_bytes 0x0060 @ to_le_bytes 0x0060 @ [0x00]
     @ [case ce_peer_address_type c of Some t \<Rightarrow> t | None \<Rightarrow> 0x00]
     @ rev (Address_to_be_bytes (ce_target c)) @ [0x01]
     @ to_le_bytes 0x0018 @ to_le_bytes 0x0028 @ to_le_bytes 0x0000 @ to_le_bytes 0x0190
     @ to_le_bytes 0x0000 @ to_le_bytes 0x0000"

definition finish_initializing :: "LeCentral \<Rightarrow> bytes list \<times> LeCentral" where
  "finish_initializing c =
     (case ce_peer_address_type c of
        Some _ \<Rightarrow>
          let c = c\<lparr>ce_phase := PhaseConnecting\<rparr>
          in ([command LE_CREATE_CONNECTION (create_connection_params c)], c)
      | None \<Rightarrow> (scan_commands, c\<lparr>ce_phase := PhaseScanning\<rparr>))"

definition last_init_opcode :: u16 where
  "last_init_opcode = (let l = List.last init_commands in from_le_bytes (l ! 1) (l ! 2))"

definition finish_discovery :: "LeCentral \<Rightarrow> LeCentral" where
  "finish_discovery c =
     raise_event (ServicesDiscovered (length (gc_services (ce_client c)))) (c\<lparr>ce_phase := PhaseReady\<rparr>)"

definition discover_characteristics_for :: "nat \<Rightarrow> LeCentral \<Rightarrow> bytes list option" where
  "discover_characteristics_for i c =
     (if length (gc_services (ce_client c)) \<le> i then None
      else let s = gc_services (ce_client c) ! i
        in Some (send_frame c (gc_connection_handle (ce_client c))
             (create_discover_characteristics_request (ds_start_handle s) (ds_end_handle s))))"

definition start_characteristic_discovery :: "LeCentral \<Rightarrow> (bytes list \<times> LeCentral) option" where
  "start_characteristic_discovery c =
     (if gc_services (ce_client c) = [] then Some ([], finish_discovery c)
      else let c = c\<lparr>ce_phase := PhaseDiscoveringCharacteristics 0\<rparr>
        in map_option (\<lambda>out. (out, c)) (discover_characteristics_for 0 c))"

definition next_characteristic_service :: "nat \<Rightarrow> LeCentral \<Rightarrow> (bytes list \<times> LeCentral) option" where
  "next_characteristic_service i c =
     (let next_i = i + 1 in
      if next_i < length (gc_services (ce_client c)) then
        let c = c\<lparr>ce_phase := PhaseDiscoveringCharacteristics next_i\<rparr>
        in map_option (\<lambda>out. (out, c)) (discover_characteristics_for next_i c)
      else Some ([], finish_discovery c))"

definition uuid_for_handle :: "LeCentral \<Rightarrow> u16 \<Rightarrow> Uuid option" where
  "uuid_for_handle c handle =
     map_option dc_uuid (List.find (\<lambda>ch. dc_value_handle ch = handle) (all_characteristics c))"

section \<open>Completing operations\<close>

fun set_descriptors_chars ::
  "Target \<Rightarrow> DiscoveredDescriptor list \<Rightarrow> DiscoveredCharacteristic list \<Rightarrow> DiscoveredCharacteristic list option" where
  "set_descriptors_chars target found [] = None"
| "set_descriptors_chars target found (ch # rest) =
     (if target_matches target ch then Some (ch\<lparr>dc_descriptors := found\<rparr> # rest)
      else map_option ((#) ch) (set_descriptors_chars target found rest))"

fun set_descriptors :: "Target \<Rightarrow> DiscoveredDescriptor list \<Rightarrow> DiscoveredService list \<Rightarrow> DiscoveredService list" where
  "set_descriptors target found [] = []"
| "set_descriptors target found (s # ss) =
     (case set_descriptors_chars target found (ds_characteristics s) of
        Some chs \<Rightarrow> s\<lparr>ds_characteristics := chs\<rparr> # ss
      | None \<Rightarrow> s # set_descriptors target found ss)"

fun found_descriptors :: "(AttFindInformationItemHeader \<times> bytes) list \<Rightarrow> DiscoveredDescriptor list" where
  "found_descriptors [] = []"
| "found_descriptors ((entry, uuid_bytes) # rest) =
     (case Uuid_from_bytes uuid_bytes of
        None \<Rightarrow> found_descriptors rest
      | Some u \<Rightarrow> \<lparr>desc_handle = fii_attribute_handle entry, desc_uuid = u\<rparr> # found_descriptors rest)"

definition record_descriptors :: "Target \<Rightarrow> bytes \<Rightarrow> LeCentral \<Rightarrow> LeCentral" where
  "record_descriptors target att c =
     (case AttFindInformationRspHeader_parse att of
        None \<Rightarrow> c
      | Some (header, information_data) \<Rightarrow>
     (case AttFindInformationRspHeader_items header information_data of
        None \<Rightarrow> c
      | Some items \<Rightarrow>
          let found = found_descriptors (AttDataListIter_collect 2 AttFindInformationItemHeader_of_bytes items)
          in c\<lparr>ce_client := (ce_client c)\<lparr>gc_services :=
               set_descriptors target found (gc_services (ce_client c))\<rparr>\<rparr>))"

fun uuid_of :: "LeCentral \<Rightarrow> Target \<Rightarrow> Uuid" where
  "uuid_of c (TargetUuid uuid) = uuid"
| "uuid_of c (TargetHandle handle) =
     (case uuid_for_handle c handle of Some u \<Rightarrow> u | None \<Rightarrow> Uuid_from_u16 0)"

definition complete_operation :: "bytes \<Rightarrow> bool \<Rightarrow> LeCentral \<Rightarrow> bytes list \<times> LeCentral" where
  "complete_operation att is_error c =
     (let op = (case att of [] \<Rightarrow> 0 | b # _ \<Rightarrow> b) in
      case ce_in_flight c of
        None \<Rightarrow> ([], c)
      | Some (pending, attribute_handle) \<Rightarrow>
          let c = c\<lparr>ce_in_flight := None\<rparr>;
              status = (if is_error then (if 4 < length att then att ! 4 else 0xFF) else 0)
          in (case pending of
                OpRead target \<Rightarrow>
                  let uuid = uuid_of c target;
                      v = (if \<not> is_error \<and> op = opcode_READ_RSP then tl att else []);
                      c = (if v \<noteq> [] \<or> \<not> is_error
                        then c\<lparr>ce_values := (ce_values c)(attribute_handle \<mapsto> v)\<rparr> else c)
                  in ([], raise_event (CharacteristicRead uuid attribute_handle v status) c)
              | OpWrite target _ _ \<Rightarrow>
                  ([], raise_event (CharacteristicWrite (uuid_of c target) attribute_handle status) c)
              | OpSubscribe target enable \<Rightarrow>
                  let uuid = uuid_of c target;
                      c = (if is_error then c
                        else c\<lparr>ce_subscribed := (if enable then insert attribute_handle (ce_subscribed c)
                            else ce_subscribed c - {attribute_handle})\<rparr>)
                  in ([], raise_event (SubscriptionChanged uuid attribute_handle (enable \<and> \<not> is_error) status) c)
              | OpDiscoverDescriptors target enable \<Rightarrow>
                  let c = (if \<not> is_error \<and> op = opcode_FIND_INFORMATION_RSP
                        then record_descriptors target att c else c);
                      (out, _, c) = start (OpSubscribe target enable) c
                  in (out, c)))"

section \<open>Dispatch\<close>

definition dispatch_att :: "bytes \<Rightarrow> LeCentral \<Rightarrow> (bytes list \<times> LeCentral) option" where
  "dispatch_att att c =
     (let handle = gc_connection_handle (ce_client c) in
      case att of
        [] \<Rightarrow> Some ([], c)
      | op # _ \<Rightarrow>
          let is_error = (op = opcode_ERROR_RSP) in
          if (op = opcode_HANDLE_VALUE_NTF \<or> op = opcode_HANDLE_VALUE_IND) \<and> 3 \<le> length att then
            let value_handle = from_le_bytes (att ! 1) (att ! 2);
                v = drop 3 att;
                c = c\<lparr>ce_values := (ce_values c)(value_handle \<mapsto> v)\<rparr>;
                uuid = (case uuid_for_handle c value_handle of Some u \<Rightarrow> u | None \<Rightarrow> Uuid16 0);
                c = raise_event (CharacteristicChanged uuid value_handle v) c
            in Some (if op = opcode_HANDLE_VALUE_IND
                 then send_frame c handle (L2capHeader_serialize cid_ATT [opcode_HANDLE_VALUE_CFM]) else [], c)
          else if is_peer_request op then
            Some (send_frame c handle (L2capHeader_serialize cid_ATT
              [opcode_ERROR_RSP, op, 0x00, 0x00, error_REQUEST_NOT_SUPPORTED]), c)
          else if op = opcode_WRITE_CMD \<or> op = SIGNED_WRITE_CMD then Some ([], c)
          else (case ce_phase c of
             PhaseExchangingMtu \<Rightarrow>
               let c = (if op = opcode_EXCHANGE_MTU_RSP \<and> 3 \<le> length att
                     then c\<lparr>ce_client := on_exchange_mtu_response (from_le_bytes (att ! 1) (att ! 2)) CLIENT_MTU (ce_client c)\<rparr>
                     else c);
                   c = raise_event (MtuChanged (gc_mtu (ce_client c))) c;
                   c = c\<lparr>ce_phase := PhaseDiscoveringServices\<rparr>
               in Some (send_frame c handle (create_discover_services_request 0x0001 0xFFFF), c)
           | PhaseDiscoveringServices \<Rightarrow>
               if is_error then start_characteristic_discovery c
               else if op = opcode_READ_BY_GROUP_TYPE_RSP then
                 let c = c\<lparr>ce_client := snd (on_discover_services_response att (ce_client c))\<rparr>;
                     last_end = (if gc_services (ce_client c) = [] then 0xFFFF
                       else ds_end_handle (List.last (gc_services (ce_client c))))
                 in if last_end < 0xFFFF
                    then Some (send_frame c handle (create_discover_services_request (last_end + 1) 0xFFFF), c)
                    else start_characteristic_discovery c
               else Some ([], c)
           | PhaseDiscoveringCharacteristics i \<Rightarrow>
               if is_error then next_characteristic_service i c
               else if op = opcode_READ_BY_TYPE_RSP then
                 if length (gc_services (ce_client c)) \<le> i then None
                 else
                   (case on_discover_characteristics_response (ds_uuid (gc_services (ce_client c) ! i)) att (ce_client c) of
                      None \<Rightarrow> None
                    | Some (_, client) \<Rightarrow>
                        let c = c\<lparr>ce_client := client\<rparr>;
                            s = gc_services client ! i;
                            end_h = ds_end_handle s;
                            last_h = (if ds_characteristics s = [] then ds_start_handle s
                              else dc_value_handle (List.last (ds_characteristics s)))
                        in if last_h < end_h
                           then Some (send_frame c handle (create_discover_characteristics_request (last_h + 1) end_h), c)
                           else next_characteristic_service i c)
               else Some ([], c)
           | PhaseReady \<Rightarrow> Some (complete_operation att is_error c)
           | _ \<Rightarrow> Some ([], c)))"

definition on_event :: "bytes \<Rightarrow> LeCentral \<Rightarrow> bytes list \<times> LeCentral" where
  "on_event packet c =
     (case HciEvent_parse_h4 packet of
        None \<Rightarrow> ([], c)
      | Some event \<Rightarrow>
          (case event of
             CommandComplete header _ \<Rightarrow>
               if ce_phase c = PhaseInitializing \<and> cmc_command_opcode header = last_init_opcode
               then finish_initializing c else ([], c)
           | OtherEvent code parameters \<Rightarrow>
               if ce_phase c = PhaseInitializing \<and> code = event_COMMAND_STATUS
                 \<and> 4 \<le> length parameters \<and> take 2 (drop 2 parameters) = to_le_bytes last_init_opcode
               then finish_initializing c
               else if ce_phase c = PhaseScanning \<and> code = event_LE_META
                 \<and> parameters \<noteq> [] \<and> hd parameters = le_ADVERTISING_REPORT
               then
                 (let wire = rev (Address_to_be_bytes (ce_target c)) in
                  case List.find (\<lambda>r. larh_address (report_header r) = wire) (advertising_reports parameters) of
                    None \<Rightarrow> ([], c)
                  | Some report \<Rightarrow>
                      let c = c\<lparr>ce_peer_address_type := Some (larh_address_type (report_header report)),
                            ce_phase := PhaseConnecting\<rparr>
                      in ([command LE_SET_SCAN_ENABLE [0x00, 0x00],
                           command LE_CREATE_CONNECTION (create_connection_params c)], c))
               else ([], c)
           | LeConnectionComplete e \<Rightarrow>
               if lcc_status e \<noteq> 0x00 then
                 ([], raise_event (ConnectionStateChange (ce_target c) False (lcc_status e))
                    (c\<lparr>ce_phase := PhaseDisconnected\<rparr>))
               else
                 let handle = lcc_connection_handle e AND 0x0FFF;
                     c = raise_event (ConnectionStateChange (ce_target c) True 0)
                       (c\<lparr>ce_client := GattClient_new handle (ce_target c), ce_phase := PhaseExchangingMtu\<rparr>)
                 in (send_frame c handle (create_exchange_mtu_request CLIENT_MTU), c)
           | DisconnectionCompleteEvent e \<Rightarrow>
               ([], raise_event (ConnectionStateChange (ce_target c) False (dcc_reason e))
                  (c\<lparr>ce_phase := PhaseDisconnected,
                     ce_client := (ce_client c)\<lparr>gc_connection_handle := 0\<rparr>,
                     ce_in_flight := None, ce_subscribed := {}\<rparr>))
           | _ \<Rightarrow> ([], c)))"

definition on_acl :: "bytes \<Rightarrow> LeCentral \<Rightarrow> (bytes list \<times> LeCentral) option" where
  "on_acl packet c =
     (case HciAclHeader_parse (tl packet) of
        None \<Rightarrow> Some ([], c)
      | Some (header, payload) \<Rightarrow>
          let (res, r) = push_fragment (ce_reassembler c) (HciAclHeader_handle header)
                (HciAclHeader_is_first_fragment header) payload;
              c = c\<lparr>ce_reassembler := r\<rparr>
          in (case res of
                Inr (Some frame) \<Rightarrow>
                  (case L2capHeader_parse frame of
                     Some (_, att) \<Rightarrow> dispatch_att att c
                   | None \<Rightarrow> Some ([], c))
              | _ \<Rightarrow> Some ([], c)))"

definition on_packet :: "bytes \<Rightarrow> LeCentral \<Rightarrow> (bytes list \<times> LeCentral) option" where
  "on_packet packet c =
     (case (case packet of
              [] \<Rightarrow> Some ([], c)
            | t # _ \<Rightarrow>
                if t = h4_HCI_EVENT then Some (on_event packet c)
                else if t = h4_HCI_ACL_DATA then on_acl packet c
                else Some ([], c)) of
        None \<Rightarrow> None
      | Some (out, c) \<Rightarrow> let (out', c) = pump c in Some (out @ out', c))"

end
