(* ===== verification/Gatt_Link.thy ===== *)
theory Gatt_Link
  imports Le_Central
begin

text \<open>
  A central and a peripheral joined by their controllers: the packets one host hands to its
  controller arrive at the other. A round carries what the central has sent to the peripheral's host
  and its answers back. The theorems compose the client engine, both hosts, fragmentation,
  reassembly, the ATT server and the database.
\<close>

section \<open>The link\<close>

fun deliver_to_host ::
  "'s p256 \<Rightarrow> 's P256Keypair \<Rightarrow> nonces \<Rightarrow> 'h on_write \<Rightarrow> bytes list \<Rightarrow> LeHost \<Rightarrow> ('h, 's) VirtualDevice
   \<Rightarrow> (bytes list \<times> LeHost \<times> ('h, 's) VirtualDevice) option" where
  "deliver_to_host ec gen rnd ow [] host d = Some ([], host, d)"
| "deliver_to_host ec gen rnd ow (p # ps) host d =
     (case handle_packet ec gen rnd ow p host d of
        None \<Rightarrow> None
      | Some (res, host, d) \<Rightarrow>
          map_option (\<lambda>(out, x). ((case res of Inr o1 \<Rightarrow> o1 | Inl _ \<Rightarrow> []) @ out, x))
            (deliver_to_host ec gen rnd ow ps host d))"

fun deliver_to_central :: "bytes list \<Rightarrow> LeCentral \<Rightarrow> (bytes list \<times> LeCentral) option" where
  "deliver_to_central [] c = Some ([], c)"
| "deliver_to_central (p # ps) c =
     (case on_packet p c of
        None \<Rightarrow> None
      | Some (o1, c) \<Rightarrow> map_option (\<lambda>(out, c). (o1 @ out, c)) (deliver_to_central ps c))"

text \<open>The packets under way from the central, and both ends.\<close>

type_synonym ('h, 's) link = "bytes list \<times> LeCentral \<times> LeHost \<times> ('h, 's) VirtualDevice"

definition link_round ::
  "'s p256 \<Rightarrow> 's P256Keypair \<Rightarrow> nonces \<Rightarrow> 'h on_write \<Rightarrow> ('h, 's) link \<Rightarrow> ('h, 's) link option" where
  "link_round ec gen rnd ow l =
     (case l of (ps, c, host, d) \<Rightarrow>
        (case deliver_to_host ec gen rnd ow ps host d of
           None \<Rightarrow> None
         | Some (rs, host, d) \<Rightarrow>
             map_option (\<lambda>(ps, c). (ps, c, host, d)) (deliver_to_central rs c)))"

fun link_rounds ::
  "'s p256 \<Rightarrow> 's P256Keypair \<Rightarrow> nonces \<Rightarrow> 'h on_write \<Rightarrow> nat \<Rightarrow> ('h, 's) link \<Rightarrow> ('h, 's) link option" where
  "link_rounds ec gen rnd ow 0 l = Some l"
| "link_rounds ec gen rnd ow (Suc n) l =
     Option.bind (link_round ec gen rnd ow l) (link_rounds ec gen rnd ow n)"

lemma link_rounds_add:
  "link_rounds ec gen rnd ow (m + n) l =
     Option.bind (link_rounds ec gen rnd ow m l) (link_rounds ec gen rnd ow n)"
  by (induction m arbitrary: l) (auto split: Option.bind_split)

section \<open>A frame crosses the link\<close>

lemma h4_ne [simp]: "h4_HCI_ACL_DATA \<noteq> h4_HCI_EVENT" "h4_HCI_ACL_DATA \<noteq> h4_HCI_ISO_DATA"
  by simp_all

lemma acl_chunk:
  assumes "length c < 65536" "h AND 0x0FFF = h"
  obtains hdr where "HciAclHeader_parse (HciAclHeader_as_bytes (HciAclHeader_new h
      (if first then FirstNonFlushable else Continuing) (of_nat (length c))) @ c) = Some (hdr, c)"
    "HciAclHeader_handle hdr = h" "HciAclHeader_is_first_fragment hdr = first"
  using parse_acl_header [OF assms, of "if first then FirstNonFlushable else Continuing"]
  by (auto simp: HciAclHeader_is_first_fragment_def split: if_splits)

text \<open>What the host does with the packets of one frame: nothing until the last, then one L2CAP packet.\<close>

lemma deliver_frame_to_host:
  assumes "\<forall>c \<in> set cs. length c < 65536" "h AND 0x0FFF = h"
    and "map snd (fst (feed (host_reassembler host) (fragments h first cs))) = replicate n (Inr None) @ [Inr (Some frame)]"
    and "snd (feed (host_reassembler host) (fragments h first cs)) = r'"
    and "process_l2cap_packet ec gen rnd ow h frame d = Some (Inr rsp, d')" "smp_queue h d' = []"
  shows "\<exists>d''. deliver_to_host ec gen rnd ow (acl_packets_loop h first cs) host d
      = Some ((case rsp of Some l2cap \<Rightarrow> acl_packets h l2cap | None \<Rightarrow> []), host\<lparr>host_reassembler := r'\<rparr>, d'')
    \<and> drain_smp h d' = ([], d'')"
  using assms(1,3,4)
proof (induction cs arbitrary: first host n)
  case (Cons c cs)
  obtain hdr where hdr: "HciAclHeader_parse (HciAclHeader_as_bytes (HciAclHeader_new h
      (if first then FirstNonFlushable else Continuing) (of_nat (length c))) @ c) = Some (hdr, c)"
    "HciAclHeader_handle hdr = h" "HciAclHeader_is_first_fragment hdr = first"
    using acl_chunk [of c h first] Cons.prems(1) assms(2) by auto
  obtain res r where push: "push_fragment (host_reassembler host) h first c = (res, r)"
    by (cases "push_fragment (host_reassembler host) h first c")
  obtain d'' where drain: "drain_smp h d' = ([], d'')"
    using drain_smp_spec [of h d'] assms(6) by (cases "drain_smp h d'") auto
  show ?case
  proof (cases n)
    case 0
    with Cons.prems push have "cs = []" "res = Inr (Some frame)" "r = r'"
      by (auto simp: case_prod_beta split: list.splits) (cases cs; simp add: case_prod_beta)+
    with hdr push assms(5) drain show ?thesis
      by (cases rsp) (simp_all add: handle_packet_def handle_acl_def Let_def)
  next
    case (Suc m)
    with Cons.prems push have "res = Inr None"
      "map snd (fst (feed r (fragments h False cs))) = replicate m (Inr None) @ [Inr (Some frame)]"
      "snd (feed r (fragments h False cs)) = r'" "\<forall>c \<in> set cs. length c < 65536"
      by (auto simp: case_prod_beta)
    with Cons.IH [of "host\<lparr>host_reassembler := r\<rparr>" False m] hdr push show ?thesis
      by (fastforce simp: handle_packet_def handle_acl_def Let_def)
  qed
qed simp

text \<open>A central that has no operations to start handles the packets of one frame likewise.\<close>

definition then_pump :: "bytes list \<times> LeCentral \<Rightarrow> bytes list \<times> LeCentral" where
  "then_pump x = (case x of (out, c) \<Rightarrow> let (out', c) = pump c in (out @ out', c))"

lemma deliver_frame_to_central:
  assumes "\<forall>x \<in> set cs. length x < 65536" "h AND 0x0FFF = h"
    and "map snd (fst (feed (ce_reassembler c) (fragments h first cs))) = replicate n (Inr None) @ [Inr (Some frame)]"
    and "snd (feed (ce_reassembler c) (fragments h first cs)) = r'"
    and "L2capHeader_parse frame = Some (lh, att)" "ce_phase c \<noteq> PhaseReady \<or> ce_pending c = []"
  shows "deliver_to_central (acl_packets_loop h first cs) c
      = map_option then_pump (dispatch_att att (c\<lparr>ce_reassembler := r'\<rparr>))"
  using assms(1,3,4,6)
proof (induction cs arbitrary: first c n)
  case (Cons x cs)
  obtain hdr where hdr: "HciAclHeader_parse (HciAclHeader_as_bytes (HciAclHeader_new h
      (if first then FirstNonFlushable else Continuing) (of_nat (length x))) @ x) = Some (hdr, x)"
    "HciAclHeader_handle hdr = h" "HciAclHeader_is_first_fragment hdr = first"
    using acl_chunk [of x h first] Cons.prems(1) assms(2) by auto
  obtain res r where push: "push_fragment (ce_reassembler c) h first x = (res, r)"
    by (cases "push_fragment (ce_reassembler c) h first x")
  show ?case
  proof (cases n)
    case 0
    with Cons.prems push have "cs = []" "res = Inr (Some frame)" "r = r'"
      by (auto simp: case_prod_beta split: list.splits) (cases cs; simp add: case_prod_beta)+
    with hdr push assms(5) show ?thesis
      by (cases "dispatch_att att (c\<lparr>ce_reassembler := r'\<rparr>)")
        (auto simp: on_packet_def on_acl_def Let_def then_pump_def split: prod.splits)
  next
    case (Suc m)
    with Cons.prems push have "res = Inr None"
      "map snd (fst (feed r (fragments h False cs))) = replicate m (Inr None) @ [Inr (Some frame)]"
      "snd (feed r (fragments h False cs)) = r'" "\<forall>c \<in> set cs. length c < 65536"
      by (auto simp: case_prod_beta)
    moreover have "pump (c\<lparr>ce_reassembler := r\<rparr>) = ([], c\<lparr>ce_reassembler := r\<rparr>)"
      using Cons.prems(4) by (auto simp: pump_def)
    moreover have "ce_phase (c\<lparr>ce_reassembler := r\<rparr>) \<noteq> PhaseReady \<or> ce_pending (c\<lparr>ce_reassembler := r\<rparr>) = []"
      using Cons.prems(4) by simp
    moreover have "(case x of (a, b) \<Rightarrow> ([] @ a, b)) = x" for x :: "bytes list \<times> LeCentral" by (cases x) simp
    ultimately show ?thesis
      using Cons.IH [of "c\<lparr>ce_reassembler := r\<rparr>" False m] hdr push
      by (simp add: on_packet_def on_acl_def Let_def case_prod_beta option.map_ident option.map_id)
  qed
qed simp

section \<open>A request and its response\<close>

text \<open>What stays true of the link between requests: the handle is a connection of the device without
  a pairing, no frame is half received, and the database is the same.\<close>

definition link_ok :: "u16 \<Rightarrow> 'h GattDatabase \<Rightarrow> LeCentral \<Rightarrow> LeHost \<Rightarrow> ('h, 's) VirtualDevice \<Rightarrow> bool" where
  "link_ok h db c host d =
     (h AND 0x0FFF = h \<and> gc_connection_handle (ce_client c) = h \<and> ce_acl_data_len c < 65536 \<and> ce_pending c = []
      \<and> buffers (ce_reassembler c) h = None \<and> buffers (host_reassembler host) h = None
      \<and> vd_gatt_db d = db \<and> smp_queue h d = [])"

lemma drain_nothing: "smp_queue h d = [] \<Longrightarrow> drain_smp h d = (out, d') \<Longrightarrow>
    out = [] \<and> vd_gatt_db d' = vd_gatt_db d \<and> smp_queue h d' = [] \<and>
    map_option (\<lambda>c. c\<lparr>conn_pairing_session := None\<rparr>) (vd_connections d' h) =
      map_option (\<lambda>c. c\<lparr>conn_pairing_session := None\<rparr>) (vd_connections d h)"
  using drain_smp_spec [of h d out d']
  by (subst (asm) drain_smp.simps)
    (auto simp: poll_smp_pdu_def smp_queue_def poll_pending_def modify_connection_def
      split: option.splits list.splits prod.splits)

lemma link_request:
  assumes ok: "link_ok h db c host d" and len: "length req < 65536" "length rsp < 65536"
    and serve: "process_att_packet ow h req d = Some (Inr (Some rsp), d')" "vd_gatt_db d' = db'" "smp_queue h d' = []"
  shows "\<exists>r host' d''. link_round ec gen rnd ow (send_frame c h (L2capHeader_serialize cid_ATT req), c, host, d)
      = map_option (\<lambda>x. case then_pump x of (ps, c) \<Rightarrow> (ps, c, host', d'')) (dispatch_att rsp (c\<lparr>ce_reassembler := r\<rparr>))
    \<and> link_ok h db' (c\<lparr>ce_reassembler := r\<rparr>) host' d''
    \<and> map_option conn_mtu (vd_connections d'' h) = map_option conn_mtu (vd_connections d' h)"
proof -
  let ?req = "L2capHeader_serialize cid_ATT req" and ?rsp = "L2capHeader_serialize cid_ATT rsp"
  have h: "h AND 0x0FFF = h" and acl: "ce_acl_data_len c < 65536" using ok by (simp_all add: link_ok_def)
  have parse: "L2capHeader_parse (L2capHeader_serialize cid_ATT p)
      = Some (L2capHeader_new (of_nat (length p)) cid_ATT, p)" if "length p < 65536" for p
    using that l2cap_parse_prefix [of p "L2capHeader_new (of_nat (length p)) cid_ATT" "[]"]
    by (simp add: L2capHeader_serialize_def L2capHeader_new_def unat_of_nat_u16)
  have l2cap: "process_l2cap_packet ec gen rnd ow h ?req d = Some (Inr (Some ?rsp), d')"
    using parse [OF len(1)] serve(1) by (simp add: process_l2cap_packet_def L2capHeader_new_def)
  let ?cs = "chunks (max (ce_acl_data_len c) LE_ACL_DATA_LEN) ?req"
  have "buffers (host_reassembler host) h = None" using ok by (simp add: link_ok_def)
  from frame_fragments [OF len(1) acl this refl, of cid_ATT] obtain n r1 where r1:
      "\<forall>x \<in> set ?cs. length x < 65536"
      "map snd (fst (feed (host_reassembler host) (fragments h True ?cs))) = replicate n (Inr None) @ [Inr (Some ?req)]"
      "snd (feed (host_reassembler host) (fragments h True ?cs)) = r1" "buffers r1 h = None" by blast
  obtain d'' where d'': "deliver_to_host ec gen rnd ow (acl_packets_loop h True ?cs) host d
      = Some (acl_packets h ?rsp, host\<lparr>host_reassembler := r1\<rparr>, d'')" "drain_smp h d' = ([], d'')"
    using deliver_frame_to_host [OF r1(1) h r1(2,3) l2cap serve(3)] by auto
  let ?cs2 = "chunks (max LE_ACL_DATA_LEN LE_ACL_DATA_LEN) ?rsp"
  have "buffers (ce_reassembler c) h = None" "LE_ACL_DATA_LEN < 65536" using ok by (simp_all add: link_ok_def LE_ACL_DATA_LEN_def)
  from frame_fragments [OF len(2) this(2,1) refl, of cid_ATT] obtain n2 r2 where r2:
      "\<forall>x \<in> set ?cs2. length x < 65536"
      "map snd (fst (feed (ce_reassembler c) (fragments h True ?cs2))) = replicate n2 (Inr None) @ [Inr (Some ?rsp)]"
      "snd (feed (ce_reassembler c) (fragments h True ?cs2)) = r2" "buffers r2 h = None" by blast
  have "ce_pending c = []" using ok by (simp add: link_ok_def)
  with deliver_frame_to_central [OF r2(1) h r2(2,3) parse [OF len(2)]]
  have "deliver_to_central (acl_packets h ?rsp) c = map_option then_pump (dispatch_att rsp (c\<lparr>ce_reassembler := r2\<rparr>))"
    by (simp add: acl_packets_def acl_packets_with_len_def)
  with d''(1) have "link_round ec gen rnd ow (send_frame c h ?req, c, host, d)
      = map_option (\<lambda>x. case then_pump x of (ps, c) \<Rightarrow> (ps, c, host\<lparr>host_reassembler := r1\<rparr>, d''))
          (dispatch_att rsp (c\<lparr>ce_reassembler := r2\<rparr>))"
    by (simp add: link_round_def send_frame_def acl_packets_with_len_def option.map_comp comp_def)
  moreover have "vd_gatt_db d'' = db' \<and> smp_queue h d'' = []
      \<and> map_option conn_mtu (vd_connections d'' h) = map_option conn_mtu (vd_connections d' h)"
    using drain_nothing [OF serve(3) d''(2)] serve(2)
    by (cases "vd_connections d'' h"; cases "vd_connections d' h")
      (auto dest: arg_cong [where f = conn_mtu])
  moreover have "link_ok h db' (c\<lparr>ce_reassembler := r2\<rparr>) (host\<lparr>host_reassembler := r1\<rparr>) d''"
    using ok r1(4) r2(4) calculation by (simp add: link_ok_def)
  ultimately show ?thesis by blast
qed

end
