(* ===== verification/Discovery.thy ===== *)
theory Discovery
  imports Gatt_Link
begin

text \<open>
  Service and characteristic discovery, end to end: a central walks a peripheral's database with
  handle-range requests and ends up with exactly the services and characteristics the database
  declares.
\<close>

lemma u16_max_not_less [simp]: "\<not> 0xFFFF < (w :: u16)"
  using u16_le_max [of w] by (simp add: not_less del: u16_le_max)

lemma u16_le_succ: "s \<le> m \<Longrightarrow> m < 0xFFFF \<Longrightarrow> s \<le> m + (1 :: u16)"
  by (simp add: word_le_nat_alt unat_u16_plus_1)

section \<open>What a database declares\<close>

definition service_list :: "'h GattDatabase \<Rightarrow> u16 \<Rightarrow> (u16 \<times> u16 \<times> Uuid) list" where
  "service_list db s = map (\<lambda>(k, v). (k, the (group_end_handle db k), the (Uuid_from_bytes v)))
     (read_by_type db s 0xFFFF (Uuid16 PRIMARY_SERVICE))"

definition char_of :: "u16 \<times> bytes \<Rightarrow> DiscoveredCharacteristic" where
  "char_of x = (case x of (k, v) \<Rightarrow>
     \<lparr>dc_declaration_handle = k, dc_value_handle = k + 1, dc_properties = hd v,
      dc_uuid = the (Uuid_from_bytes (drop 3 v)), dc_descriptors = []\<rparr>)"

definition char_list :: "'h GattDatabase \<Rightarrow> u16 \<Rightarrow> u16 \<Rightarrow> DiscoveredCharacteristic list" where
  "char_list db s e = map char_of (read_by_type db s e (Uuid16 CHARACTERISTIC))"

text \<open>
  A database whose declarations are well formed: service declarations carry a UUID, characteristic
  declarations point at their value, the attribute that follows them, and the responses stay below the
  largest L2CAP frame. It is discoverable when no two services share a UUID.
\<close>

definition well_declared :: "'h GattDatabase \<Rightarrow> bool" where
  "well_declared db =
     (gatt_inv db \<and> length (attributes db) \<le> 3000
      \<and> (\<forall>(k, a) \<in> set (attributes db). attr_uuid a = Uuid16 PRIMARY_SERVICE \<longrightarrow>
           (\<exists>u. wf_Uuid u \<and> attr_value a = Uuid_to_att_bytes u))
      \<and> (\<forall>(k, a) \<in> set (attributes db). attr_uuid a = Uuid16 CHARACTERISTIC \<longrightarrow>
           (\<exists>p u. wf_Uuid u
              \<and> attr_value a = CharacteristicDecl_as_bytes (CharacteristicDecl_new p (k + 1)) @ Uuid_to_att_bytes u)
           \<and> (\<exists>b. bt_get (attributes db) (k + 1) = Some b \<and> attr_uuid b \<noteq> Uuid16 CHARACTERISTIC)))"

definition discoverable :: "'h GattDatabase \<Rightarrow> bool" where
  "discoverable db \<longleftrightarrow> well_declared db \<and> distinct (map (\<lambda>(_, _, u). u) (service_list db 1))"

lemma well_declared_inv: "well_declared db \<Longrightarrow> gatt_inv db"
  by (simp add: well_declared_def)

lemma read_by_type_attr:
  assumes "gatt_inv db" "(k, v) \<in> set (read_by_type db s e u)"
  obtains a where "(k, a) \<in> set (attributes db)" "bt_get (attributes db) k = Some a" "attr_uuid a = u" "attr_value a = v"
    "s \<le> k" "k \<le> e"
  using assms range_queries [OF assms(1), of s e u k v] bt.entries_get [of "attributes db" k]
  by (auto simp: gatt_inv_def)

lemma read_by_type_length: "length (read_by_type db s e u) \<le> length (attributes db)"
  by (simp add: read_by_type_def bt_range_def le_trans [OF length_filter_le length_filter_le])

lemma service_value:
  assumes "well_declared db" "(k, v) \<in> set (read_by_type db s e (Uuid16 PRIMARY_SERVICE))"
  shows "\<exists>u. Uuid_from_bytes v = Some u \<and> wf_Uuid u \<and> Uuid_to_att_bytes u = v \<and> Uuid_len u = length v"
proof -
  obtain a where "(k, a) \<in> set (attributes db)" "attr_uuid a = Uuid16 PRIMARY_SERVICE" "attr_value a = v"
    by (rule read_by_type_attr [OF well_declared_inv [OF assms(1)] assms(2)])
  then obtain u where "wf_Uuid u" "v = Uuid_to_att_bytes u"
    using assms(1) by (fastforce simp: well_declared_def)
  then show ?thesis
    using Uuid_from_to_att_bytes Uuid_att_bytes_length by auto
qed

lemma char_value:
  assumes "well_declared db" "(k, v) \<in> set (read_by_type db s e (Uuid16 CHARACTERISTIC))"
  shows "\<exists>p u. v = CharacteristicDecl_as_bytes (CharacteristicDecl_new p (k + 1)) @ Uuid_to_att_bytes u \<and> wf_Uuid u"
proof -
  obtain a where "(k, a) \<in> set (attributes db)" "attr_uuid a = Uuid16 CHARACTERISTIC" "attr_value a = v"
    by (rule read_by_type_attr [OF well_declared_inv [OF assms(1)] assms(2)])
  then show ?thesis using assms(1) by (fastforce simp: well_declared_def)
qed

lemma att_bytes_le_16: "wf_Uuid u \<Longrightarrow> length (Uuid_to_att_bytes u) \<le> 16"
  by (cases u) simp_all

lemma length_concat_map_le:
  "\<forall>x \<in> set xs. length (f x) \<le> n \<Longrightarrow> length (concat (map f xs)) \<le> length xs * n"
  by (induction xs) fastforce+

section \<open>Continuing a walk\<close>

text \<open>A walk that continues behind \<open>m\<close> sees what a walk from \<open>s\<close> sees behind \<open>m\<close>.\<close>

lemma read_by_type_from:
  assumes "s \<le> s'"
  shows "read_by_type db s' e u = filter (\<lambda>(k, _). s' \<le> k) (read_by_type db s e u)"
proof (cases "e < s'")
  case True
  then show ?thesis
    by (auto simp: read_by_type_def bt_range_def filter_empty_conv filter_map)
next
  case False
  with assms have "\<not> e < s" by simp
  with False assms show ?thesis
    by (auto simp: read_by_type_def bt_range_def filter_map comp_def case_prod_beta intro!: arg_cong [where f = "map _"]
        filter_cong)
qed

lemma read_by_type_continue:
  assumes "gatt_inv db" "read_by_type db s e u = xs @ ys" "xs \<noteq> []" "fst (List.last xs) \<le> m" "m < 0xFFFF" "s \<le> m + 1"
    and "\<And>k a. bt_get (attributes db) k = Some a \<Longrightarrow> fst (List.last xs) < k \<Longrightarrow> k \<le> m \<Longrightarrow> attr_uuid a \<noteq> u"
  shows "read_by_type db (m + 1) e u = ys"
proof -
  have sorted: "sorted_wrt (<) (map fst (xs @ ys))"
    using range_queries [OF assms(1), of s e u] assms(2) by simp
  obtain zs x where xs: "xs = zs @ [x]" using assms(3) by (metis append_butlast_last_id)
  then have last: "List.last xs = x" by simp
  have succ: "m + 1 \<le> k \<longleftrightarrow> m < k" for k
    using assms(5) by (intro u16_succ_le) auto
  have "\<not> m + 1 \<le> fst y" if "y \<in> set xs" for y
  proof -
    have "y = x \<or> fst y < fst x" using sorted that by (auto simp: sorted_wrt_append xs)
    with assms(4) last show ?thesis by (auto simp: succ)
  qed
  moreover have "m + 1 \<le> fst y" if y: "y \<in> set ys" for y
  proof -
    have "fst x < fst y" using sorted y by (auto simp: sorted_wrt_append xs)
    obtain k v where kv: "y = (k, v)" by (cases y)
    with y assms(2) have "(k, v) \<in> set (read_by_type db s e u)" by simp
    then obtain a where "bt_get (attributes db) k = Some a" "attr_uuid a = u"
      by (rule read_by_type_attr [OF assms(1)])
    with assms(7) \<open>fst x < fst y\<close> last kv show ?thesis by (force simp: succ)
  qed
  ultimately have "filter (\<lambda>(k, _). m + 1 \<le> k) (xs @ ys) = ys"
    by (auto simp: filter_empty_conv case_prod_beta intro!: filter_True)
  with read_by_type_from [OF assms(6)] assms(2) show ?thesis by metis
qed

section \<open>The server's answers\<close>

lemma group_entries_takeWhile:
  assumes "\<forall>(k, v) \<in> set xs. group_end_handle db k \<noteq> None"
  shows "group_entries db n xs = Some (concat (map (\<lambda>(k, v).
      AttReadByGroupTypeItemHeader_as_bytes (AttReadByGroupTypeItemHeader_new k (the (group_end_handle db k))) @ v)
    (takeWhile (\<lambda>(_, v). length v = n) xs)))"
  using assms by (induction xs) auto

lemma group_request_bytes:
  "create_discover_services_request s e = L2capHeader_serialize cid_ATT
     (AttPdu_bytes (ReadByGroupTypeReq \<lparr>rgq_opcode = opcode_READ_BY_GROUP_TYPE_REQ, rgq_start_handle = s,
        rgq_end_handle = e\<rparr> (to_le_bytes 0x2800)))"
  by (simp add: create_discover_services_request_def create_range_request_def AttReadByTypeReqHeader_as_bytes_def
      AttReadByGroupTypeReqHeader_as_bytes_def)

lemma type_request_bytes:
  "create_discover_characteristics_request s e = L2capHeader_serialize cid_ATT
     (AttPdu_bytes (ReadByTypeReq \<lparr>rtq_opcode = opcode_READ_BY_TYPE_REQ, rtq_start_handle = s,
        rtq_end_handle = e\<rparr> (to_le_bytes 0x2803)))"
  by (simp add: create_discover_characteristics_request_def create_range_request_def)

lemma uuid16_from_le: "Uuid_from_bytes (to_le_bytes w) = Some (Uuid16 w)"
  by (simp add: Uuid_from_bytes_def to_le_bytes_def)

lemma serve_services:
  assumes db: "well_declared (vd_gatt_db d)" and s: "s \<noteq> 0"
  defines "L \<equiv> read_by_type (vd_gatt_db d) s 0xFFFF (Uuid16 PRIMARY_SERVICE)"
    and "req \<equiv> AttPdu_bytes (ReadByGroupTypeReq \<lparr>rgq_opcode = opcode_READ_BY_GROUP_TYPE_REQ, rgq_start_handle = s,
        rgq_end_handle = 0xFFFF\<rparr> (to_le_bytes 0x2800))"
  shows "\<exists>rsp. process_att_packet ow h req d = Some (Inr (Some rsp), d) \<and> length req < 65536 \<and> length rsp < 65536
    \<and> (if L = [] then rsp = att_error opcode_READ_BY_GROUP_TYPE_REQ s error_ATTRIBUTE_NOT_FOUND
       else rsp = AttReadByGroupTypeRspHeader_as_bytes (AttReadByGroupTypeRspHeader_new (length (snd (hd L))))
         @ concat (map (\<lambda>(k, v). AttReadByGroupTypeItemHeader_as_bytes
             (AttReadByGroupTypeItemHeader_new k (the (group_end_handle (vd_gatt_db d) k))) @ v)
           (takeWhile (\<lambda>(_, v). length v = length (snd (hd L))) L)))"
proof -
  let ?db = "vd_gatt_db d"
  note inv = well_declared_inv [OF db]
  have parse: "AttPdu_parse req = Some (ReadByGroupTypeReq \<lparr>rgq_opcode = opcode_READ_BY_GROUP_TYPE_REQ, rgq_start_handle = s,
      rgq_end_handle = 0xFFFF\<rparr> (to_le_bytes 0x2800))"
    unfolding req_def by (rule parse_AttPdu_bytes) simp
  have req: "length req < 65536" by (simp add: req_def AttReadByGroupTypeReqHeader_as_bytes_def)
  show ?thesis
  proof (cases L)
    case Nil
    with parse s req show ?thesis
      by (simp add: process_att_packet_def att_read_by_group_type_def Let_def uuid16_from_le L_def att_error_def
          AttErrorRsp_as_bytes_def)
  next
    case (Cons x rest)
    have "\<forall>(k, v) \<in> set L. group_end_handle ?db k \<noteq> None"
      unfolding L_def using group_end_handle_total [OF inv] read_by_type_get [OF inv] by fastforce
    note entries = group_entries_takeWhile [OF this]
    let ?T = "takeWhile (\<lambda>(_, v). length v = length (snd (hd L))) L"
    let ?B = "concat (map (\<lambda>(k, v). AttReadByGroupTypeItemHeader_as_bytes
        (AttReadByGroupTypeItemHeader_new k (the (group_end_handle ?db k))) @ v) ?T)"
    let ?rsp = "AttReadByGroupTypeRspHeader_as_bytes (AttReadByGroupTypeRspHeader_new (length (snd (hd L)))) @ ?B"
    have "length v \<le> 16" if "(k, v) \<in> set ?T" for k v
    proof -
      have "(k, v) \<in> set L" using set_takeWhileD [OF that] by simp
      then obtain u where "wf_Uuid u" "v = Uuid_to_att_bytes u"
        using service_value [OF db, of k v] unfolding L_def by metis
      then show ?thesis using att_bytes_le_16 by simp
    qed
    then have "length ?B \<le> length ?T * 20"
      by (intro length_concat_map_le) (auto simp: AttReadByGroupTypeItemHeader_as_bytes_def)
    moreover have "length ?T \<le> 3000"
    proof -
      have "length ?T \<le> length L" by (rule length_takeWhile_le)
      also have "\<dots> \<le> length (attributes (vd_gatt_db d))" unfolding L_def by (rule read_by_type_length)
      also have "\<dots> \<le> 3000" using db by (simp add: well_declared_def)
      finally show ?thesis .
    qed
    ultimately have "length ?rsp < 65536" by (simp add: AttReadByGroupTypeRspHeader_as_bytes_def del: length_concat)
    moreover have "att_read_by_group_type \<lparr>rgq_opcode = opcode_READ_BY_GROUP_TYPE_REQ, rgq_start_handle = s,
        rgq_end_handle = 0xFFFF\<rparr> (to_le_bytes 0x2800) d = Some ?rsp"
      using s Cons entries [of "length (snd x)"]
      by (cases x) (simp add: att_read_by_group_type_def uuid16_from_le L_def [symmetric] del: group_entries.simps)
    ultimately show ?thesis
      using parse req Cons by (simp add: process_att_packet_def del: length_concat length_append)
  qed
qed

lemma serve_chars:
  assumes db: "well_declared (vd_gatt_db d)" and s: "s \<noteq> 0" "s \<le> e"
  defines "L \<equiv> read_by_type (vd_gatt_db d) s e (Uuid16 CHARACTERISTIC)"
    and "req \<equiv> AttPdu_bytes (ReadByTypeReq \<lparr>rtq_opcode = opcode_READ_BY_TYPE_REQ, rtq_start_handle = s,
        rtq_end_handle = e\<rparr> (to_le_bytes 0x2803))"
  shows "\<exists>rsp. process_att_packet ow h req d = Some (Inr (Some rsp), d) \<and> length req < 65536 \<and> length rsp < 65536
    \<and> (if L = [] then rsp = att_error opcode_READ_BY_TYPE_REQ s error_ATTRIBUTE_NOT_FOUND
       else rsp = AttReadByTypeRspHeader_as_bytes (AttReadByTypeRspHeader_new (length (snd (hd L))))
         @ concat (map (\<lambda>(k, v). AttReadByTypeItemHeader_as_bytes (AttReadByTypeItemHeader_new k) @ v)
           (takeWhile (\<lambda>(_, v). length v = length (snd (hd L))) L)))"
proof -
  have parse: "AttPdu_parse req = Some (ReadByTypeReq \<lparr>rtq_opcode = opcode_READ_BY_TYPE_REQ, rtq_start_handle = s,
      rtq_end_handle = e\<rparr> (to_le_bytes 0x2803))"
    unfolding req_def by (rule parse_AttPdu_bytes) simp
  have req: "length req < 65536" by (simp add: req_def AttReadByTypeReqHeader_as_bytes_def)
  have range: "\<not> (s = 0 \<or> e < s)" using s by auto
  show ?thesis
  proof (cases L)
    case Nil
    with parse range req show ?thesis
      by (auto simp: process_att_packet_def att_read_by_type_def Let_def uuid16_from_le L_def att_error_def
          AttErrorRsp_as_bytes_def)
  next
    case (Cons x rest)
    let ?T = "takeWhile (\<lambda>(_, v). length v = length (snd (hd L))) L"
    let ?B = "concat (map (\<lambda>(k, v). AttReadByTypeItemHeader_as_bytes (AttReadByTypeItemHeader_new k) @ v) ?T)"
    let ?rsp = "AttReadByTypeRspHeader_as_bytes (AttReadByTypeRspHeader_new (length (snd (hd L)))) @ ?B"
    have "length v \<le> 19" if "(k, v) \<in> set ?T" for k v
    proof -
      have "(k, v) \<in> set L" using set_takeWhileD [OF that] by simp
      then obtain p u where "wf_Uuid u" "v = CharacteristicDecl_as_bytes (CharacteristicDecl_new p (k + 1)) @ Uuid_to_att_bytes u"
        using char_value [OF db, of k v] unfolding L_def by metis
      then show ?thesis using att_bytes_le_16 [of u] by (simp add: CharacteristicDecl_as_bytes_def)
    qed
    then have "length ?B \<le> length ?T * 21"
      by (intro length_concat_map_le) (auto simp: AttReadByTypeItemHeader_as_bytes_def)
    moreover have "length ?T \<le> 3000"
    proof -
      have "length ?T \<le> length L" by (rule length_takeWhile_le)
      also have "\<dots> \<le> length (attributes (vd_gatt_db d))" unfolding L_def by (rule read_by_type_length)
      also have "\<dots> \<le> 3000" using db by (simp add: well_declared_def)
      finally show ?thesis .
    qed
    ultimately have "length ?rsp < 65536" by (simp add: AttReadByTypeRspHeader_as_bytes_def del: length_concat)
    moreover have "att_read_by_type \<lparr>rtq_opcode = opcode_READ_BY_TYPE_REQ, rtq_start_handle = s,
        rtq_end_handle = e\<rparr> (to_le_bytes 0x2803) d = ?rsp"
      using range Cons by (cases x) (simp add: att_read_by_type_def uuid16_from_le L_def [symmetric])
    ultimately show ?thesis
      using parse req Cons by (simp add: process_att_packet_def del: length_concat length_append)
  qed
qed

section \<open>The client's side of an answer\<close>

definition service_of :: "u16 \<times> u16 \<times> Uuid \<Rightarrow> DiscoveredService" where
  "service_of x = (case x of (h, e, u) \<Rightarrow>
     \<lparr>ds_start_handle = h, ds_end_handle = e, ds_uuid = u, ds_characteristics = []\<rparr>)"

lemma client_services:
  assumes db: "well_declared db" and L: "L = read_by_type db s 0xFFFF (Uuid16 PRIMARY_SERVICE)" "L \<noteq> []"
  defines "T \<equiv> takeWhile (\<lambda>(_, v). length v = length (snd (hd L))) L"
  shows "on_discover_services_response
      (AttReadByGroupTypeRspHeader_as_bytes (AttReadByGroupTypeRspHeader_new (length (snd (hd L))))
         @ concat (map (\<lambda>(k, v). AttReadByGroupTypeItemHeader_as_bytes
             (AttReadByGroupTypeItemHeader_new k (the (group_end_handle db k))) @ v) T)) c
    = (Inr (), c\<lparr>gc_services := gc_services c
        @ map service_of (map (\<lambda>(k, v). (k, the (group_end_handle db k), the (Uuid_from_bytes v))) T)\<rparr>)"
proof -
  let ?gs = "map (\<lambda>(k, v). (k, the (group_end_handle db k), the (Uuid_from_bytes v))) T"
  have T: "Uuid_from_bytes v = Some u \<Longrightarrow> wf_Uuid u \<and> Uuid_to_att_bytes u = v \<and> Uuid_len u = length (snd (hd L))
      \<and> Uuid_from_bytes v \<noteq> None" if "(k, v) \<in> set T" for k v u
    using that set_takeWhileD [of "(k, v)" "\<lambda>(_, v). length v = length (snd (hd L))" L] service_value [OF db, of k v]
    unfolding T_def L(1) by force
  have some: "\<exists>u. Uuid_from_bytes v = Some u" if "(k, v) \<in> set T" for k v
    using that set_takeWhileD [of "(k, v)" "\<lambda>(_, v). length v = length (snd (hd L))" L] service_value [OF db, of k v]
    unfolding T_def L(1) by force
  have bytes: "(case x of (k, v) \<Rightarrow> AttReadByGroupTypeItemHeader_as_bytes
        (AttReadByGroupTypeItemHeader_new k (the (group_end_handle db k))) @ v)
      = (case (case x of (k, v) \<Rightarrow> (k, the (group_end_handle db k), the (Uuid_from_bytes v))) of (h, e, u) \<Rightarrow>
          AttReadByGroupTypeItemHeader_as_bytes (AttReadByGroupTypeItemHeader_new h e) @ Uuid_to_att_bytes u)"
    if "x \<in> set T" for x
    using some [of "fst x" "snd x"] T [of "fst x" "snd x"] that by (cases x) auto
  have "list_all (\<lambda>(_, _, u). wf_Uuid u \<and> Uuid_len u = length (snd (hd L))) ?gs"
    using some T by (fastforce simp: list_all_iff)
  moreover have "length (snd (hd L)) \<le> 251"
  proof -
    have "hd L \<in> set L" using L(2) by simp
    then obtain u where "wf_Uuid u" "snd (hd L) = Uuid_to_att_bytes u"
      using service_value [OF db, of "fst (hd L)" "snd (hd L)"] unfolding L(1) by (metis prod.collapse)
    then show ?thesis using att_bytes_le_16 [of u] by simp
  qed
  ultimately show ?thesis
    using services_response [of "length (snd (hd L))" ?gs c]
    by (simp add: comp_def bytes service_of_def cong: map_cong)
qed

lemma char_of_value:
  "v = CharacteristicDecl_as_bytes (CharacteristicDecl_new p (k + 1)) @ Uuid_to_att_bytes u \<Longrightarrow> wf_Uuid u \<Longrightarrow>
    char_of (k, v) = \<lparr>dc_declaration_handle = k, dc_value_handle = k + 1, dc_properties = p, dc_uuid = u,
      dc_descriptors = []\<rparr>"
  by (simp add: char_of_def CharacteristicDecl_as_bytes_def CharacteristicDecl_new_def Uuid_from_to_att_bytes to_le_bytes_def)

lemma discovered_characteristics_map:
  assumes "\<forall>(k, v) \<in> set T. \<exists>p u. v = CharacteristicDecl_as_bytes (CharacteristicDecl_new p (k + 1)) @ Uuid_to_att_bytes u \<and> wf_Uuid u"
  shows "discovered_characteristics (map (\<lambda>(k, v). (AttReadByTypeItemHeader_new k, v)) T) = map char_of T"
  using assms
proof (induction T)
  case (Cons x T)
  obtain k v where x: "x = (k, v)" by (cases x)
  with Cons.prems obtain p u where v: "v = CharacteristicDecl_as_bytes (CharacteristicDecl_new p (k + 1)) @ Uuid_to_att_bytes u"
      "wf_Uuid u" by auto
  then have "from_prefix 3 CharacteristicDecl_of_bytes v = Some (CharacteristicDecl_new p (k + 1), Uuid_to_att_bytes u)"
    by (simp add: cd_layout.prefix_enc)
  with Cons char_of_value [OF v] v(2) show ?case
    by (simp add: x Uuid_from_to_att_bytes AttReadByTypeItemHeader_new_def CharacteristicDecl_new_def)
qed simp

text \<open>No earlier service has the UUID of the one at \<open>i\<close>.\<close>

definition first_uuid :: "nat \<Rightarrow> Uuid list \<Rightarrow> bool" where
  "first_uuid i us \<longleftrightarrow> us ! i \<notin> set (take i us)"

lemma distinct_first_uuid: "distinct us \<Longrightarrow> i < length us \<Longrightarrow> first_uuid i us"
  by (auto simp: first_uuid_def in_set_conv_nth nth_eq_iff_index_eq)

lemma push_characteristics_nth:
  "first_uuid i (map ds_uuid ss) \<Longrightarrow> i < length ss \<Longrightarrow> push_characteristics (ds_uuid (ss ! i)) cs ss
    = Some (ss[i := (ss ! i)\<lparr>ds_characteristics := ds_characteristics (ss ! i) @ cs\<rparr>])"
proof (induction ss arbitrary: i)
  case (Cons x ss)
  show ?case
  proof (cases i)
    case (Suc j)
    with Cons.prems have "ds_uuid x \<noteq> ds_uuid (ss ! j)" "first_uuid j (map ds_uuid ss)" by (auto simp: first_uuid_def)
    with Suc Cons show ?thesis by simp
  qed simp
qed simp

lemma client_chars:
  assumes db: "well_declared db" and L: "L = read_by_type db s e (Uuid16 CHARACTERISTIC)" "L \<noteq> []"
    and ss: "first_uuid i (map ds_uuid (gc_services c))" "i < length (gc_services c)"
  defines "T \<equiv> takeWhile (\<lambda>(_, v). length v = length (snd (hd L))) L" and "S \<equiv> gc_services c ! i"
  shows "on_discover_characteristics_response (ds_uuid S)
      (AttReadByTypeRspHeader_as_bytes (AttReadByTypeRspHeader_new (length (snd (hd L))))
         @ concat (map (\<lambda>(k, v). AttReadByTypeItemHeader_as_bytes (AttReadByTypeItemHeader_new k) @ v) T)) c
    = Some (Inr (), c\<lparr>gc_services := (gc_services c)[i := S\<lparr>ds_characteristics := ds_characteristics S @ map char_of T\<rparr>]\<rparr>)"
proof -
  let ?n = "length (snd (hd L))"
  let ?items = "map (\<lambda>(k, v). (AttReadByTypeItemHeader_new k, v)) T"
  have T: "\<forall>(k, v) \<in> set T. \<exists>p u. v = CharacteristicDecl_as_bytes (CharacteristicDecl_new p (k + 1)) @ Uuid_to_att_bytes u \<and> wf_Uuid u"
    using set_takeWhileD [of _ "\<lambda>(_, v). length v = ?n" L] char_value [OF db] unfolding T_def L(1) by fast
  have n: "3 \<le> ?n" "?n \<le> 19"
  proof -
    have "hd L \<in> set L" using L(2) by simp
    then obtain p u where "wf_Uuid u" "snd (hd L) = CharacteristicDecl_as_bytes (CharacteristicDecl_new p (fst (hd L) + 1)) @ Uuid_to_att_bytes u"
      using char_value [OF db, of "fst (hd L)" "snd (hd L)"] unfolding L(1) by (metis prod.collapse)
    then show "3 \<le> ?n" "?n \<le> 19" using att_bytes_le_16 [of u] by (simp_all add: CharacteristicDecl_as_bytes_def)
  qed
  have items: "concat (map (\<lambda>(k, v). AttReadByTypeItemHeader_as_bytes (AttReadByTypeItemHeader_new k) @ v) T)
      = concat (map (\<lambda>(h, v). AttReadByTypeItemHeader_as_bytes h @ v) ?items)"
    by (simp add: comp_def) (intro arg_cong [where f = concat] map_cong; simp add: case_prod_beta)
  have parse: "AttReadByTypeRspHeader_parse (AttReadByTypeRspHeader_as_bytes (AttReadByTypeRspHeader_new ?n) @ rest)
      = Some (AttReadByTypeRspHeader_new ?n, rest)" for rest
    unfolding rtr_layout.att_parse_Some_iff AttReadByTypeRspHeader_parse_def by (simp add: AttReadByTypeRspHeader_new_def)
  have "list_all (\<lambda>(_, v). length v = ?n) ?items"
    by (auto simp: list_all_iff T_def dest!: set_takeWhileD)
  from read_by_type_items_round_trip [OF this, of "[]"] n
  have walk: "map_option (AttDataListIter_collect 2 AttReadByTypeItemHeader_of_bytes)
      (AttReadByTypeRspHeader_items (AttReadByTypeRspHeader_new ?n)
        (concat (map (\<lambda>(h, v). AttReadByTypeItemHeader_as_bytes h @ v) ?items))) = Some ?items"
    by (simp add: read_by_type_items_def)
  have "unat (rtr_length (AttReadByTypeRspHeader_new ?n)) = 2 + ?n"
    using unat_of_nat_u8 [of "2 + ?n"] n by (simp add: AttReadByTypeRspHeader_new_def del: of_nat_Suc of_nat_add)
  moreover obtain it where "AttReadByTypeRspHeader_items (AttReadByTypeRspHeader_new ?n)
        (concat (map (\<lambda>(h, v). AttReadByTypeItemHeader_as_bytes h @ v) ?items)) = Some it"
      "AttDataListIter_collect 2 AttReadByTypeItemHeader_of_bytes it = ?items"
    using walk by (auto simp only: map_option_eq_Some)
  ultimately show ?thesis
    using n push_characteristics_nth [OF ss, of "map char_of T"] discovered_characteristics_map [OF T]
    unfolding items S_def by (simp add: on_discover_characteristics_response_def parse)
qed

section \<open>Walking the services\<close>

lemma well_declared_handle:
  assumes "well_declared db" "bt_get (attributes db) k = Some a"
  shows "k < 0xFFFF"
proof -
  have "k < next_handle db" using gatt_inv_get [OF well_declared_inv [OF assms(1)] assms(2)] by simp
  also have "\<dots> \<le> 0xFFFF" by simp
  finally show ?thesis .
qed

text \<open>One response of the service walk is a non-empty prefix of what is left, and the next request
  asks exactly for the rest.\<close>

lemma service_step:
  assumes db: "well_declared db" and "s \<noteq> 0"
    and L: "L = read_by_type db s 0xFFFF (Uuid16 PRIMARY_SERVICE)" "L \<noteq> []"
  defines "T \<equiv> takeWhile (\<lambda>(_, v). length v = length (snd (hd L))) L"
  defines "m \<equiv> the (group_end_handle db (fst (List.last T)))"
  shows "T \<noteq> [] \<and> m < 0xFFFF \<and>
    service_list db s = map (\<lambda>(k, v). (k, the (group_end_handle db k), the (Uuid_from_bytes v))) T @ service_list db (m + 1)"
proof -
  note inv = well_declared_inv [OF db]
  have T: "T \<noteq> []" using L(2) by (cases L) (auto simp: T_def)
  have split: "L = T @ dropWhile (\<lambda>(_, v). length v = length (snd (hd L))) L" by (simp add: T_def)
  obtain k v where last: "List.last T = (k, v)" by (cases "List.last T")
  have "List.last T \<in> set T" using T by simp
  then have "(k, v) \<in> set L" unfolding last unfolding T_def by (rule set_takeWhileD [THEN conjunct1])
  then obtain a where a: "bt_get (attributes db) k = Some a" "attr_uuid a = Uuid16 PRIMARY_SERVICE" "s \<le> k"
    unfolding L(1) by (rule read_by_type_attr [OF inv])
  from group_end_handle_spec [OF inv a(1)] obtain e where e: "group_end_handle db k = Some e" "k \<le> e"
      "bt_get (attributes db) e \<noteq> None"
      "\<forall>j b. bt_get (attributes db) j = Some b \<and> k < j \<and> j \<le> e \<longrightarrow> \<not> is_service_declaration b" by blast
  have m: "m = e" by (simp add: m_def last e(1))
  have "m < 0xFFFF" using well_declared_handle [OF db] e(3) m by auto
  moreover have "read_by_type db (m + 1) 0xFFFF (Uuid16 PRIMARY_SERVICE)
      = dropWhile (\<lambda>(_, v). length v = length (snd (hd L))) L"
  proof (rule read_by_type_continue [OF inv])
    show "read_by_type db s 0xFFFF (Uuid16 PRIMARY_SERVICE) = T @ dropWhile (\<lambda>(_, v). length v = length (snd (hd L))) L"
      using split L(1) by simp
    show "m < 0xFFFF" by fact
    have "s \<le> m" using a(3) e(2) m by simp
    then show "s \<le> m + 1" using \<open>m < 0xFFFF\<close> by (rule u16_le_succ)
    show "attr_uuid b \<noteq> Uuid16 PRIMARY_SERVICE"
      if "bt_get (attributes db) j = Some b" "fst (List.last T) < j" "j \<le> m" for j b
      using e(4) that by (auto simp: last m is_service_declaration_def Uuid_from_u16_def)
  qed (use T last e(2) m in auto)
  ultimately show ?thesis
    using T split by (simp add: service_list_def flip: L(1) map_append)
qed

lemma att_error_bytes: "\<exists>t. att_error op h e = opcode_ERROR_RSP # t"
  by (simp add: att_error_def AttErrorRsp_as_bytes_def AttErrorRsp_new_def)

lemma dispatch_services_error:
  "ce_phase c = PhaseDiscoveringServices \<Longrightarrow> dispatch_att (att_error op h e) c = start_characteristic_discovery c"
  using att_error_bytes [of op h e] by (auto simp: dispatch_att_def is_peer_request_def Let_def)

lemma dispatch_services_response:
  assumes "ce_phase c = PhaseDiscoveringServices"
    and "on_discover_services_response (AttReadByGroupTypeRspHeader_as_bytes (AttReadByGroupTypeRspHeader_new n) @ body)
      (ce_client c) = (res, client)"
    and "gc_services client \<noteq> []" "ds_end_handle (List.last (gc_services client)) = m" "m < 0xFFFF"
    and "gc_connection_handle (ce_client c) = h"
  shows "dispatch_att (AttReadByGroupTypeRspHeader_as_bytes (AttReadByGroupTypeRspHeader_new n) @ body) c
    = Some (send_frame c h (create_discover_services_request (m + 1) 0xFFFF), c\<lparr>ce_client := client\<rparr>)"
proof -
  obtain t where bytes: "AttReadByGroupTypeRspHeader_as_bytes (AttReadByGroupTypeRspHeader_new n) @ body
      = opcode_READ_BY_GROUP_TYPE_RSP # t"
    by (simp add: AttReadByGroupTypeRspHeader_as_bytes_def AttReadByGroupTypeRspHeader_new_def)
  show ?thesis
    using assms unfolding bytes
    by (simp add: dispatch_att_def is_peer_request_def Let_def send_frame_def)
qed

lemma then_pump_idle [simp]: "ce_pending c = [] \<Longrightarrow> then_pump (ps, c) = (ps, c)"
  by (simp add: then_pump_def pump_def)

lemma finish_discovery_simps [simp]:
  "ce_client (finish_discovery c) = ce_client c" "ce_phase (finish_discovery c) = PhaseReady"
  "ce_pending (finish_discovery c) = ce_pending c" "ce_reassembler (finish_discovery c) = ce_reassembler c"
  "ce_acl_data_len (finish_discovery c) = ce_acl_data_len c"
  "ServicesDiscovered (length (gc_services (ce_client c))) \<in> set (ce_events (finish_discovery c))"
  by (simp_all add: finish_discovery_def raise_event_def)

text \<open>What a discovery leaves alone: the transfer units of both ends.\<close>

definition same_mtu :: "u16 \<Rightarrow> LeCentral \<Rightarrow> ('h, 's) VirtualDevice \<Rightarrow> LeCentral \<Rightarrow> ('h, 's) VirtualDevice \<Rightarrow> bool" where
  "same_mtu h c d c' d' =
     (gc_mtu (ce_client c') = gc_mtu (ce_client c)
      \<and> map_option conn_mtu (vd_connections d' h) = map_option conn_mtu (vd_connections d h))"

text \<open>One round of the service walk: either nothing is left and the central goes on to the
  characteristics, or some services are added and the request for the rest is under way.\<close>

lemma service_round:
  assumes db: "well_declared db" and ok: "link_ok h db c host d" and phase: "ce_phase c = PhaseDiscoveringServices"
    and s: "s \<noteq> 0"
    and rd_def: "rd = link_round ec gen rnd ow (send_frame c h (create_discover_services_request s 0xFFFF), c, host, d)"
  defines "L \<equiv> read_by_type db s 0xFFFF (Uuid16 PRIMARY_SERVICE)"
    and "c1 \<equiv> \<lambda>r. c\<lparr>ce_reassembler := r\<rparr>"
  shows "\<exists>r host1 d1. link_ok h db (c1 r) host1 d1 \<and> same_mtu h c d (c1 r) d1
    \<and> (service_list db s = [] \<longrightarrow> rd = map_option (\<lambda>x. case then_pump x of (ps, c) \<Rightarrow> (ps, c, host1, d1))
           (start_characteristic_discovery (c1 r)))
    \<and> (service_list db s \<noteq> [] \<longrightarrow> (\<exists>xs m. m < 0xFFFF \<and> xs \<noteq> [] \<and> service_list db s = xs @ service_list db (m + 1)
         \<and> rd = Some (send_frame c h (create_discover_services_request (m + 1) 0xFFFF),
              (c1 r)\<lparr>ce_client := (ce_client c)\<lparr>gc_services := gc_services (ce_client c) @ map service_of xs\<rparr>\<rparr>, host1, d1)))"
proof -
  have gdb: "vd_gatt_db d = db" "smp_queue h d = []" and h: "gc_connection_handle (ce_client c) = h" and
    pend: "ce_pending c = []"
    using ok by (simp_all add: link_ok_def)
  from serve_services [of d s ow h] db s gdb(1) obtain rsp where
    rsp: "process_att_packet ow h (AttPdu_bytes (ReadByGroupTypeReq \<lparr>rgq_opcode = opcode_READ_BY_GROUP_TYPE_REQ,
        rgq_start_handle = s, rgq_end_handle = 0xFFFF\<rparr> (to_le_bytes 0x2800))) d = Some (Inr (Some rsp), d)"
      "length (AttPdu_bytes (ReadByGroupTypeReq \<lparr>rgq_opcode = opcode_READ_BY_GROUP_TYPE_REQ,
        rgq_start_handle = s, rgq_end_handle = 0xFFFF\<rparr> (to_le_bytes 0x2800))) < 65536" "length rsp < 65536"
      "L = [] \<Longrightarrow> rsp = att_error opcode_READ_BY_GROUP_TYPE_REQ s error_ATTRIBUTE_NOT_FOUND"
      "L \<noteq> [] \<Longrightarrow> rsp = AttReadByGroupTypeRspHeader_as_bytes (AttReadByGroupTypeRspHeader_new (length (snd (hd L))))
         @ concat (map (\<lambda>(k, v). AttReadByGroupTypeItemHeader_as_bytes
             (AttReadByGroupTypeItemHeader_new k (the (group_end_handle db k))) @ v)
           (takeWhile (\<lambda>(_, v). length v = length (snd (hd L))) L))"
    unfolding L_def by (fastforce split: if_splits)
  from link_request [OF ok rsp(2,3,1) gdb] obtain r host1 d1 where
    round: "rd = map_option (\<lambda>x. case then_pump x of (ps, c) \<Rightarrow> (ps, c, host1, d1)) (dispatch_att rsp (c1 r))"
    "link_ok h db (c1 r) host1 d1" "map_option conn_mtu (vd_connections d1 h) = map_option conn_mtu (vd_connections d h)"
    unfolding group_request_bytes rd_def c1_def by blast
  have mtu: "same_mtu h c d (c1 r) d1" using round(3) by (simp add: same_mtu_def c1_def)
  have empty: "service_list db s = [] \<longleftrightarrow> L = []" by (simp add: service_list_def L_def)
  show ?thesis
  proof (cases "L = []")
    case True
    then have "rd = map_option (\<lambda>x. case then_pump x of (ps, c) \<Rightarrow> (ps, c, host1, d1)) (start_characteristic_discovery (c1 r))"
      using round(1) rsp(4) phase by (simp add: dispatch_services_error c1_def)
    with round(2) mtu True empty show ?thesis by blast
  next
    case False
    let ?T = "takeWhile (\<lambda>(_, v). length v = length (snd (hd L))) L"
    let ?xs = "map (\<lambda>(k, v). (k, the (group_end_handle db k), the (Uuid_from_bytes v))) ?T"
    define m where "m = the (group_end_handle db (fst (List.last ?T)))"
    from service_step [OF db s L_def [THEN meta_eq_to_obj_eq] False] have step: "?T \<noteq> []" "m < 0xFFFF"
        "service_list db s = ?xs @ service_list db (m + 1)"
      unfolding m_def by blast+
    let ?client = "(ce_client c)\<lparr>gc_services := gc_services (ce_client c) @ map service_of ?xs\<rparr>"
    have "ds_end_handle (List.last (gc_services ?client)) = m"
      using step(1) by (simp add: m_def last_map service_of_def case_prod_beta)
    moreover have "on_discover_services_response rsp (ce_client (c1 r)) = (Inr (), ?client)"
      using client_services [OF db L_def [THEN meta_eq_to_obj_eq] False, of "ce_client c"] rsp(5) [OF False]
      by (simp add: c1_def)
    ultimately have "dispatch_att rsp (c1 r) = Some (send_frame (c1 r) h (create_discover_services_request (m + 1) 0xFFFF),
        (c1 r)\<lparr>ce_client := ?client\<rparr>)"
      unfolding rsp(5) [OF False] using phase h step(1,2)
      by (intro dispatch_services_response [where res = "Inr ()"]) (simp_all add: c1_def)
    with round(1) pend have rd: "rd = Some (send_frame c h (create_discover_services_request (m + 1) 0xFFFF),
            (c1 r)\<lparr>ce_client := ?client\<rparr>, host1, d1)"
      by (simp add: send_frame_def c1_def)
    have "?xs \<noteq> []" using step(1) by simp
    with step(2,3) rd have "\<exists>xs m. m < 0xFFFF \<and> xs \<noteq> [] \<and> service_list db s = xs @ service_list db (m + 1)
         \<and> rd = Some (send_frame c h (create_discover_services_request (m + 1) 0xFFFF),
              (c1 r)\<lparr>ce_client := (ce_client c)\<lparr>gc_services := gc_services (ce_client c) @ map service_of xs\<rparr>\<rparr>, host1, d1)"
      by blast
    with round(2) mtu False empty show ?thesis by blast
  qed
qed

lemma walk_services:
  assumes db: "well_declared db"
  shows "link_ok h db c host d \<Longrightarrow> ce_phase c = PhaseDiscoveringServices \<Longrightarrow> s \<noteq> 0
    \<Longrightarrow> gc_services (ce_client c) = map service_of pre \<Longrightarrow>
    \<exists>n ps c' host' d'. link_rounds ec gen rnd ow n
        (send_frame c h (create_discover_services_request s 0xFFFF), c, host, d) = Some (ps, c', host', d')
      \<and> link_ok h db c' host' d' \<and> same_mtu h c d c' d'
      \<and> gc_services (ce_client c') = map service_of (pre @ service_list db s)
      \<and> (if pre @ service_list db s = []
         then ps = [] \<and> ce_phase c' = PhaseReady \<and> ServicesDiscovered 0 \<in> set (ce_events c')
         else ce_phase c' = PhaseDiscoveringCharacteristics 0 \<and> discover_characteristics_for 0 c' = Some ps)"
proof (induction "length (service_list db s)" arbitrary: s pre c host d rule: less_induct)
  case less
  let ?start = "(send_frame c h (create_discover_services_request s 0xFFFF), c, host, d)"
  obtain r host1 d1 where ok: "link_ok h db (c\<lparr>ce_reassembler := r\<rparr>) host1 d1"
      "same_mtu h c d (c\<lparr>ce_reassembler := r\<rparr>) d1"
    and none: "service_list db s = [] \<Longrightarrow> link_round ec gen rnd ow ?start =
      map_option (\<lambda>x. case then_pump x of (ps, c) \<Rightarrow> (ps, c, host1, d1))
        (start_characteristic_discovery (c\<lparr>ce_reassembler := r\<rparr>))"
    and some: "service_list db s \<noteq> [] \<Longrightarrow> \<exists>xs m. m < 0xFFFF \<and> xs \<noteq> []
      \<and> service_list db s = xs @ service_list db (m + 1)
      \<and> link_round ec gen rnd ow ?start = Some (send_frame c h (create_discover_services_request (m + 1) 0xFFFF),
          c\<lparr>ce_reassembler := r, ce_client := (ce_client c)\<lparr>gc_services := gc_services (ce_client c) @ map service_of xs\<rparr>\<rparr>,
          host1, d1)"
    using service_round [OF db less.prems(1-3) refl, of ec gen rnd ow] by blast
  let ?c1 = "c\<lparr>ce_reassembler := r\<rparr>"
  show ?case
  proof (cases "service_list db s = []")
    case True
    let ?c2 = "if pre = [] then finish_discovery ?c1 else ?c1\<lparr>ce_phase := PhaseDiscoveringCharacteristics 0\<rparr>"
    have "\<exists>ps. start_characteristic_discovery ?c1 = Some (ps, ?c2)
        \<and> (if pre = [] then ps = [] else discover_characteristics_for 0 ?c2 = Some ps)"
      using less.prems(4) by (auto simp: start_characteristic_discovery_def discover_characteristics_for_def Let_def)
    then obtain ps where ps: "start_characteristic_discovery ?c1 = Some (ps, ?c2)"
        "if pre = [] then ps = [] else discover_characteristics_for 0 ?c2 = Some ps" by blast
    have pend: "ce_pending ?c2 = []" using less.prems(1) by (simp add: link_ok_def)
    have "link_rounds ec gen rnd ow 1 ?start = Some (ps, ?c2, host1, d1)"
      using none [OF True] ps(1) pend by simp
    moreover have "link_ok h db ?c2 host1 d1" "same_mtu h c d ?c2 d1"
      using ok by (simp_all add: link_ok_def same_mtu_def)
    moreover have "gc_services (ce_client ?c2) = map service_of pre" using less.prems(4) by simp
    moreover have "pre = [] \<Longrightarrow> ServicesDiscovered 0 \<in> set (ce_events ?c2)"
      using finish_discovery_simps(6) [of ?c1] less.prems(4) by simp
    moreover have "ce_phase ?c2 = (if pre = [] then PhaseReady else PhaseDiscoveringCharacteristics 0)" by simp
    ultimately show ?thesis
      using ps(2) True by (intro exI [of _ "1 :: nat"] exI [of _ ps] exI [of _ ?c2] exI [of _ host1] exI [of _ d1])
        (auto simp del: link_rounds.simps)
  next
    case False
    from some [OF this] obtain xs m where step: "m < 0xFFFF" "xs \<noteq> []" "service_list db s = xs @ service_list db (m + 1)"
      and one: "link_round ec gen rnd ow ?start = Some (send_frame c h (create_discover_services_request (m + 1) 0xFFFF),
          c\<lparr>ce_reassembler := r, ce_client := (ce_client c)\<lparr>gc_services := gc_services (ce_client c) @ map service_of xs\<rparr>\<rparr>,
          host1, d1)" by blast
    let ?c2 = "c\<lparr>ce_reassembler := r, ce_client := (ce_client c)\<lparr>gc_services := gc_services (ce_client c) @ map service_of xs\<rparr>\<rparr>"
    have "length (service_list db (m + 1)) < length (service_list db s)" using step by simp
    moreover have "link_ok h db ?c2 host1 d1" using ok(1) by (simp add: link_ok_def)
    moreover have "m + 1 \<noteq> 0" using unat_u16_plus_1 [OF step(1)] by (metis nat.distinct(1) unat_0)
    moreover have "gc_services (ce_client ?c2) = map service_of (pre @ xs)" "ce_phase ?c2 = PhaseDiscoveringServices"
      using less.prems(2,4) by simp_all
    ultimately obtain n ps c' host' d' where rest: "link_rounds ec gen rnd ow n
        (send_frame ?c2 h (create_discover_services_request (m + 1) 0xFFFF), ?c2, host1, d1) = Some (ps, c', host', d')"
      "link_ok h db c' host' d'" "same_mtu h ?c2 d1 c' d'"
      "gc_services (ce_client c') = map service_of ((pre @ xs) @ service_list db (m + 1))"
      "if (pre @ xs) @ service_list db (m + 1) = []
         then ps = [] \<and> ce_phase c' = PhaseReady \<and> ServicesDiscovered 0 \<in> set (ce_events c')
         else ce_phase c' = PhaseDiscoveringCharacteristics 0 \<and> discover_characteristics_for 0 c' = Some ps"
      using less.hyps [of "m + 1" ?c2 host1 d1 "pre @ xs"] by blast
    have "link_rounds ec gen rnd ow (Suc n) ?start = Some (ps, c', host', d')"
      using rest(1) one by (simp add: send_frame_def [of ?c2] send_frame_def [of c, symmetric])
    moreover have "same_mtu h c d c' d'" using rest(3) ok(2) by (simp add: same_mtu_def)
    ultimately show ?thesis
      using rest(2,4,5) unfolding step(3) append_assoc by blast
  qed
qed

section \<open>Walking the characteristics\<close>

lemma char_step:
  assumes db: "well_declared db" and "s \<noteq> 0"
    and L: "L = read_by_type db s e (Uuid16 CHARACTERISTIC)" "L \<noteq> []"
  defines "T \<equiv> takeWhile (\<lambda>(_, v). length v = length (snd (hd L))) L"
  defines "m \<equiv> fst (List.last T) + 1"
  shows "T \<noteq> [] \<and> m < 0xFFFF \<and> dc_value_handle (List.last (map char_of T)) = m
    \<and> char_list db s e = map char_of T @ char_list db (m + 1) e \<and> (e \<le> m \<longrightarrow> char_list db (m + 1) e = [])"
proof -
  note inv = well_declared_inv [OF db]
  have T: "T \<noteq> []" using L(2) by (cases L) (auto simp: T_def)
  have split: "L = T @ dropWhile (\<lambda>(_, v). length v = length (snd (hd L))) L" by (simp add: T_def)
  obtain k v where last: "List.last T = (k, v)" by (cases "List.last T")
  have "List.last T \<in> set T" using T by simp
  then have "(k, v) \<in> set L" unfolding last unfolding T_def by (rule set_takeWhileD [THEN conjunct1])
  then obtain a where a: "bt_get (attributes db) k = Some a" "attr_uuid a = Uuid16 CHARACTERISTIC" "s \<le> k"
      "(k, a) \<in> set (attributes db)"
    unfolding L(1) by (rule read_by_type_attr [OF inv])
  have next_attr: "attr_uuid b \<noteq> Uuid16 CHARACTERISTIC" if "bt_get (attributes db) (k + 1) = Some b" for b
    using db a(2,4) that by (fastforce simp: well_declared_def)
  have k: "k < 0xFFFF" by (rule well_declared_handle [OF db a(1)])
  have m: "m = k + 1" by (simp add: m_def last)
  have "bt_get (attributes db) (k + 1) \<noteq> None" using db a(2,4) by (fastforce simp: well_declared_def)
  then have m_less: "m < 0xFFFF" using well_declared_handle [OF db] m by auto
  have succ: "k < j \<longleftrightarrow> m \<le> j" for j using u16_succ_le [of k j] k m by auto
  have rest: "read_by_type db (m + 1) e (Uuid16 CHARACTERISTIC)
      = dropWhile (\<lambda>(_, v). length v = length (snd (hd L))) L"
  proof (rule read_by_type_continue [OF inv])
    show "read_by_type db s e (Uuid16 CHARACTERISTIC) = T @ dropWhile (\<lambda>(_, v). length v = length (snd (hd L))) L"
      using split L(1) by simp
    have "s \<le> m" using a(3) u16_le_succ [OF a(3) k] m by simp
    then show "s \<le> m + 1" using m_less by (rule u16_le_succ)
    show "attr_uuid b \<noteq> Uuid16 CHARACTERISTIC"
      if "bt_get (attributes db) j = Some b" "fst (List.last T) < j" "j \<le> m" for j b
      using that next_attr succ [of j] by (auto simp: last m)
    show "fst (List.last T) \<le> m" using succ [of m] by (simp add: last)
  qed (use T m_less in auto)
  moreover have "read_by_type db (m + 1) e (Uuid16 CHARACTERISTIC) = []" if "e \<le> m"
  proof -
    have "e < m + 1" using that m_less u16_succ_le [of m "m + 1"] by (metis linorder_not_less order_le_less_trans order_refl order_less_imp_not_eq2)
    then show ?thesis by (simp add: read_by_type_def)
  qed
  ultimately show ?thesis
    using T split m_less by (simp add: char_list_def last_map char_of_def last m flip: L(1) map_append)
qed

lemma dispatch_chars_error:
  "ce_phase c = PhaseDiscoveringCharacteristics i \<Longrightarrow> dispatch_att (att_error op h e) c = next_characteristic_service i c"
  using att_error_bytes [of op h e] by (auto simp: dispatch_att_def is_peer_request_def Let_def)

lemma dispatch_chars_response:
  assumes "ce_phase c = PhaseDiscoveringCharacteristics i" "i < length (gc_services (ce_client c))"
    and "on_discover_characteristics_response (ds_uuid (gc_services (ce_client c) ! i))
      (AttReadByTypeRspHeader_as_bytes (AttReadByTypeRspHeader_new n) @ body) (ce_client c) = Some (res, client)"
    and "ds_characteristics (gc_services client ! i) \<noteq> []"
    and "dc_value_handle (List.last (ds_characteristics (gc_services client ! i))) = m"
    and "ds_end_handle (gc_services client ! i) = e" "gc_connection_handle (ce_client c) = h"
  shows "dispatch_att (AttReadByTypeRspHeader_as_bytes (AttReadByTypeRspHeader_new n) @ body) c
    = (if m < e then Some (send_frame c h (create_discover_characteristics_request (m + 1) e), c\<lparr>ce_client := client\<rparr>)
       else next_characteristic_service i (c\<lparr>ce_client := client\<rparr>))"
proof -
  obtain t where bytes: "AttReadByTypeRspHeader_as_bytes (AttReadByTypeRspHeader_new n) @ body = opcode_READ_BY_TYPE_RSP # t"
    by (simp add: AttReadByTypeRspHeader_as_bytes_def AttReadByTypeRspHeader_new_def)
  show ?thesis
    using assms unfolding bytes
    by (simp add: dispatch_att_def is_peer_request_def Let_def send_frame_def)
qed

definition with_services :: "DiscoveredService list \<Rightarrow> LeCentral \<Rightarrow> LeCentral" where
  "with_services ss c = c\<lparr>ce_client := (ce_client c)\<lparr>gc_services := ss\<rparr>\<rparr>"

lemma with_services_simps [simp]:
  "gc_services (ce_client (with_services ss c)) = ss" "ce_phase (with_services ss c) = ce_phase c"
  "ce_pending (with_services ss c) = ce_pending c" "send_frame (with_services ss c) = send_frame c"
  "link_ok h db (with_services ss c) host d = link_ok h db c host d"
  "same_mtu h c0 d0 (with_services ss c) d = same_mtu h c0 d0 c d"
  "same_mtu h (with_services ss c) d c1 d1 = same_mtu h c d c1 d1"
  by (simp_all add: with_services_def link_ok_def same_mtu_def fun_eq_iff send_frame_def)

definition add_chars :: "nat \<Rightarrow> DiscoveredCharacteristic list \<Rightarrow> DiscoveredService list \<Rightarrow> DiscoveredService list" where
  "add_chars i xs ss = ss[i := (ss ! i)\<lparr>ds_characteristics := ds_characteristics (ss ! i) @ xs\<rparr>]"

lemma add_chars_simps [simp]:
  "length (add_chars i xs ss) = length ss"
  "i < length ss \<Longrightarrow> ds_end_handle (add_chars i xs ss ! i) = ds_end_handle (ss ! i)"
  "i < length ss \<Longrightarrow> add_chars i ys (add_chars i xs ss) = add_chars i (xs @ ys) ss"
  "i < length ss \<Longrightarrow> ds_characteristics (add_chars i xs ss ! i) = ds_characteristics (ss ! i) @ xs"
  by (simp_all add: add_chars_def)

lemma add_chars_uuids [simp]: "map ds_uuid (add_chars i xs ss) = map ds_uuid ss"
proof (rule nth_equalityI)
  show "map ds_uuid (add_chars i xs ss) ! j = map ds_uuid ss ! j" if "j < length (map ds_uuid (add_chars i xs ss))" for j
    using that by (cases "i = j") (simp_all add: add_chars_def)
qed simp

lemma add_chars_Nil [simp]: "i < length ss \<Longrightarrow> add_chars i [] ss = ss"
  by (simp add: add_chars_def)

text \<open>How a walk goes on when the central has an answer for what to send next.\<close>

definition resume ::
  "LeHost \<Rightarrow> ('h, 's) VirtualDevice \<Rightarrow> (bytes list \<times> LeCentral) option \<Rightarrow> ('h, 's) link option" where
  "resume host d = map_option (\<lambda>x. case then_pump x of (ps, c) \<Rightarrow> (ps, c, host, d))"

lemma char_round:
  assumes db: "well_declared db" and ok: "link_ok h db c host d" and phase: "ce_phase c = PhaseDiscoveringCharacteristics i"
    and s: "s \<noteq> 0" "s \<le> e" and ss: "ss = gc_services (ce_client c)"
    and i: "i < length ss" "first_uuid i (map ds_uuid ss)" "ds_end_handle (ss ! i) = e"
    and rd_def: "rd = link_round ec gen rnd ow (send_frame c h (create_discover_characteristics_request s e), c, host, d)"
  defines "c1 \<equiv> \<lambda>r. c\<lparr>ce_reassembler := r\<rparr>"
  shows "\<exists>r host1 d1. link_ok h db (c1 r) host1 d1 \<and> same_mtu h c d (c1 r) d1
    \<and> (char_list db s e = [] \<longrightarrow> rd = resume host1 d1 (next_characteristic_service i (c1 r)))
    \<and> (char_list db s e \<noteq> [] \<longrightarrow> (\<exists>xs m. m < 0xFFFF \<and> xs \<noteq> [] \<and> char_list db s e = xs @ char_list db (m + 1) e
         \<and> (e \<le> m \<longrightarrow> char_list db (m + 1) e = [])
         \<and> rd = (if m < e then Some (send_frame c h (create_discover_characteristics_request (m + 1) e),
              with_services (add_chars i xs ss) (c1 r), host1, d1)
             else resume host1 d1 (next_characteristic_service i (with_services (add_chars i xs ss) (c1 r))))))"
proof -
  define L where "L = read_by_type db s e (Uuid16 CHARACTERISTIC)"
  have gdb: "vd_gatt_db d = db" "smp_queue h d = []" and h: "gc_connection_handle (ce_client c) = h" and
    pend: "ce_pending c = []"
    using ok by (simp_all add: link_ok_def)
  from serve_chars [of d s e ow h] db s gdb(1) obtain rsp where
    rsp: "process_att_packet ow h (AttPdu_bytes (ReadByTypeReq \<lparr>rtq_opcode = opcode_READ_BY_TYPE_REQ,
        rtq_start_handle = s, rtq_end_handle = e\<rparr> (to_le_bytes 0x2803))) d = Some (Inr (Some rsp), d)"
      "length (AttPdu_bytes (ReadByTypeReq \<lparr>rtq_opcode = opcode_READ_BY_TYPE_REQ,
        rtq_start_handle = s, rtq_end_handle = e\<rparr> (to_le_bytes 0x2803))) < 65536" "length rsp < 65536"
      "L = [] \<Longrightarrow> rsp = att_error opcode_READ_BY_TYPE_REQ s error_ATTRIBUTE_NOT_FOUND"
      "L \<noteq> [] \<Longrightarrow> rsp = AttReadByTypeRspHeader_as_bytes (AttReadByTypeRspHeader_new (length (snd (hd L))))
         @ concat (map (\<lambda>(k, v). AttReadByTypeItemHeader_as_bytes (AttReadByTypeItemHeader_new k) @ v)
           (takeWhile (\<lambda>(_, v). length v = length (snd (hd L))) L))"
    unfolding L_def by (fastforce split: if_splits)
  from link_request [OF ok rsp(2,3,1) gdb] obtain r host1 d1 where
    round: "rd = resume host1 d1 (dispatch_att rsp (c1 r))"
    "link_ok h db (c1 r) host1 d1" "map_option conn_mtu (vd_connections d1 h) = map_option conn_mtu (vd_connections d h)"
    unfolding type_request_bytes rd_def c1_def resume_def by blast
  have mtu: "same_mtu h c d (c1 r) d1" using round(3) by (simp add: same_mtu_def c1_def)
  have empty: "char_list db s e = [] \<longleftrightarrow> L = []" by (simp add: char_list_def L_def)
  show ?thesis
  proof (cases "L = []")
    case True
    then have "rd = resume host1 d1 (next_characteristic_service i (c1 r))"
      using round(1) rsp(4) phase by (simp add: dispatch_chars_error c1_def)
    with round(2) mtu True empty show ?thesis by blast
  next
    case False
    let ?T = "takeWhile (\<lambda>(_, v). length v = length (snd (hd L))) L"
    let ?xs = "map char_of ?T"
    define m where "m = fst (List.last ?T) + 1"
    from char_step [OF db s(1) L_def False] have step: "?T \<noteq> []" "m < 0xFFFF" "dc_value_handle (List.last ?xs) = m"
        "char_list db s e = ?xs @ char_list db (m + 1) e" "e \<le> m \<longrightarrow> char_list db (m + 1) e = []"
      unfolding m_def by blast+
    let ?client = "(ce_client c)\<lparr>gc_services := add_chars i ?xs ss\<rparr>"
    have "on_discover_characteristics_response (ds_uuid (ss ! i)) rsp (ce_client (c1 r)) = Some (Inr (), ?client)"
      using client_chars [OF db L_def False, of i "ce_client c"] i ss rsp(5) [OF False] by (simp add: c1_def add_chars_def)
    then have "dispatch_att rsp (c1 r) = (if m < e then Some (send_frame (c1 r) h
            (create_discover_characteristics_request (m + 1) e), (c1 r)\<lparr>ce_client := ?client\<rparr>)
         else next_characteristic_service i ((c1 r)\<lparr>ce_client := ?client\<rparr>))"
      unfolding rsp(5) [OF False] using phase h step(1,3) i ss
      by (intro dispatch_chars_response [where res = "Inr ()"]) (simp_all add: c1_def)
    moreover have "(c1 r)\<lparr>ce_client := ?client\<rparr> = with_services (add_chars i ?xs ss) (c1 r)"
      by (simp add: with_services_def c1_def)
    ultimately have "rd = (if m < e then Some (send_frame c h (create_discover_characteristics_request (m + 1) e),
              with_services (add_chars i ?xs ss) (c1 r), host1, d1)
             else resume host1 d1 (next_characteristic_service i (with_services (add_chars i ?xs ss) (c1 r))))"
      using round(1) pend by (simp add: resume_def send_frame_def c1_def)
    moreover have "?xs \<noteq> []" using step(1) by simp
    ultimately have "\<exists>xs m. m < 0xFFFF \<and> xs \<noteq> [] \<and> char_list db s e = xs @ char_list db (m + 1) e
         \<and> (e \<le> m \<longrightarrow> char_list db (m + 1) e = [])
         \<and> rd = (if m < e then Some (send_frame c h (create_discover_characteristics_request (m + 1) e),
              with_services (add_chars i xs ss) (c1 r), host1, d1)
             else resume host1 d1 (next_characteristic_service i (with_services (add_chars i xs ss) (c1 r))))"
      using step(2,4,5) by blast
    with round(2) mtu False empty show ?thesis by blast
  qed
qed

text \<open>The whole walk over one service.\<close>

lemma walk_one_service:
  assumes db: "well_declared db"
  shows "link_ok h db c host d \<Longrightarrow> ce_phase c = PhaseDiscoveringCharacteristics i \<Longrightarrow> s \<noteq> 0 \<Longrightarrow> s \<le> e
    \<Longrightarrow> ss = gc_services (ce_client c) \<Longrightarrow> i < length ss \<Longrightarrow> first_uuid i (map ds_uuid ss) \<Longrightarrow> ds_end_handle (ss ! i) = e \<Longrightarrow>
    \<exists>n c1 host1 d1. link_ok h db c1 host1 d1 \<and> same_mtu h c d c1 d1 \<and> ce_phase c1 = PhaseDiscoveringCharacteristics i
      \<and> gc_services (ce_client c1) = add_chars i (char_list db s e) ss
      \<and> link_rounds ec gen rnd ow n (send_frame c h (create_discover_characteristics_request s e), c, host, d)
        = resume host1 d1 (next_characteristic_service i c1)"
proof (induction "length (char_list db s e)" arbitrary: s c host d ss rule: less_induct)
  case less
  let ?start = "(send_frame c h (create_discover_characteristics_request s e), c, host, d)"
  note prems = less.prems
  obtain r host1 d1 where ok: "link_ok h db (c\<lparr>ce_reassembler := r\<rparr>) host1 d1" "same_mtu h c d (c\<lparr>ce_reassembler := r\<rparr>) d1"
    and none: "char_list db s e = [] \<Longrightarrow> link_round ec gen rnd ow ?start
      = resume host1 d1 (next_characteristic_service i (c\<lparr>ce_reassembler := r\<rparr>))"
    and some: "char_list db s e \<noteq> [] \<Longrightarrow> \<exists>xs m. m < 0xFFFF \<and> xs \<noteq> [] \<and> char_list db s e = xs @ char_list db (m + 1) e
         \<and> (e \<le> m \<longrightarrow> char_list db (m + 1) e = [])
         \<and> link_round ec gen rnd ow ?start = (if m < e then Some (send_frame c h (create_discover_characteristics_request (m + 1) e),
              with_services (add_chars i xs ss) (c\<lparr>ce_reassembler := r\<rparr>), host1, d1)
             else resume host1 d1 (next_characteristic_service i (with_services (add_chars i xs ss) (c\<lparr>ce_reassembler := r\<rparr>))))"
    using char_round [OF db prems(1-8) refl, of ec gen rnd ow] by blast
  have stop: ?case if "link_round ec gen rnd ow ?start = resume host1 d1 (next_characteristic_service i
      (with_services (add_chars i (char_list db s e) ss) (c\<lparr>ce_reassembler := r\<rparr>)))"
  proof -
    have "link_rounds ec gen rnd ow 1 ?start = resume host1 d1 (next_characteristic_service i
      (with_services (add_chars i (char_list db s e) ss) (c\<lparr>ce_reassembler := r\<rparr>)))"
      using that by (auto split: Option.bind_split)
    then show ?thesis
      using ok prems(2)
      by (intro exI [of _ "1 :: nat"] exI [of _ "with_services (add_chars i (char_list db s e) ss) (c\<lparr>ce_reassembler := r\<rparr>)"]
          exI [of _ host1] exI [of _ d1]) (simp del: link_rounds.simps)
  qed
  show ?case
  proof (cases "char_list db s e = []")
    case True
    have "with_services (add_chars i (char_list db s e) ss) (c\<lparr>ce_reassembler := r\<rparr>) = c\<lparr>ce_reassembler := r\<rparr>"
      using True prems(5,6) by (simp add: with_services_def)
    with none [OF True] show ?thesis by (intro stop) simp
  next
    case False
    from some [OF this] obtain xs m where step: "m < 0xFFFF" "xs \<noteq> []" "char_list db s e = xs @ char_list db (m + 1) e"
        "e \<le> m \<longrightarrow> char_list db (m + 1) e = []"
      and one: "link_round ec gen rnd ow ?start = (if m < e then Some (send_frame c h (create_discover_characteristics_request (m + 1) e),
              with_services (add_chars i xs ss) (c\<lparr>ce_reassembler := r\<rparr>), host1, d1)
             else resume host1 d1 (next_characteristic_service i (with_services (add_chars i xs ss) (c\<lparr>ce_reassembler := r\<rparr>))))"
      by blast
    let ?c2 = "with_services (add_chars i xs ss) (c\<lparr>ce_reassembler := r\<rparr>)"
    show ?thesis
    proof (cases "m < e")
      case True
      have "length (char_list db (m + 1) e) < length (char_list db s e)" using step by simp
      moreover have "m + 1 \<noteq> 0" using unat_u16_plus_1 [OF step(1)] by (metis nat.distinct(1) unat_0)
      moreover have "m + 1 \<le> e" using True step(1) u16_succ_le [of m e] by (metis order_less_irrefl)
      ultimately obtain n c1 host2 d2 where rest: "link_ok h db c1 host2 d2" "same_mtu h ?c2 d1 c1 d2"
          "ce_phase c1 = PhaseDiscoveringCharacteristics i"
          "gc_services (ce_client c1) = add_chars i (char_list db (m + 1) e) (add_chars i xs ss)"
          "link_rounds ec gen rnd ow n (send_frame ?c2 h (create_discover_characteristics_request (m + 1) e), ?c2, host1, d1)
            = resume host2 d2 (next_characteristic_service i c1)"
        using less.hyps [of "m + 1" ?c2 host1 d1 "add_chars i xs ss"] ok(1) prems(2,6,7,8) by auto
      have "link_rounds ec gen rnd ow (Suc n) ?start = resume host2 d2 (next_characteristic_service i c1)"
        using rest(5) one True by (simp add: send_frame_def [of "c\<lparr>ce_reassembler := r\<rparr>"] send_frame_def [of c, symmetric])
      moreover have "same_mtu h c d c1 d2" using rest(2) ok(2) by (simp add: same_mtu_def with_services_def)
      moreover have "gc_services (ce_client c1) = add_chars i (char_list db s e) ss"
        using rest(4) prems(6) by (simp add: step(3))
      ultimately show ?thesis using rest(1,3) by blast
    next
      case False
      with step(3,4) have "xs = char_list db s e" by auto
      with one False show ?thesis by (intro stop) simp
    qed
  qed
qed

text \<open>The walk over all services.\<close>

definition full_service :: "'h GattDatabase \<Rightarrow> u16 \<times> u16 \<times> Uuid \<Rightarrow> DiscoveredService" where
  "full_service db x = (service_of x)\<lparr>ds_characteristics := char_list db (fst x) (fst (snd x))\<rparr>"

lemma service_of_simps [simp]:
  "ds_start_handle (service_of x) = fst x" "ds_end_handle (service_of x) = fst (snd x)"
  "ds_uuid (service_of x) = snd (snd x)" "ds_characteristics (service_of x) = []"
  by (simp_all add: service_of_def split: prod.split)

lemma full_service_uuid [simp]: "ds_uuid (full_service db x) = snd (snd x)"
  by (simp add: full_service_def)

lemma add_chars_full:
  "i < length T \<Longrightarrow> add_chars i (char_list db (fst (T ! i)) (fst (snd (T ! i))))
      (map (full_service db) (take i T) @ map service_of (drop i T))
    = map (full_service db) (take (Suc i) T) @ map service_of (drop (Suc i) T)"
  by (simp add: add_chars_def nth_append list_update_append Cons_nth_drop_Suc [symmetric] take_Suc_conv_app_nth
      full_service_def)

lemma walk_characteristics:
  assumes db: "well_declared db" and T: "distinct (map (snd \<circ> snd) T)" "\<forall>x \<in> set T. fst x \<noteq> 0 \<and> fst x \<le> fst (snd x)"
  shows "link_ok h db c host d \<Longrightarrow> ce_phase c = PhaseDiscoveringCharacteristics i \<Longrightarrow> i < length T
    \<Longrightarrow> gc_services (ce_client c) = map (full_service db) (take i T) @ map service_of (drop i T)
    \<Longrightarrow> discover_characteristics_for i c = Some ps \<Longrightarrow>
    \<exists>n c' host' d'. link_rounds ec gen rnd ow n (ps, c, host, d) = Some ([], c', host', d')
      \<and> link_ok h db c' host' d' \<and> same_mtu h c d c' d' \<and> ce_phase c' = PhaseReady
      \<and> gc_services (ce_client c') = map (full_service db) T
      \<and> ServicesDiscovered (length T) \<in> set (ce_events c')"
proof (induction "length T - i" arbitrary: i c host d ps rule: less_induct)
  case less
  let ?ss = "map (full_service db) (take i T) @ map service_of (drop i T)"
  let ?x = "T ! i"
  have nth: "?ss ! i = service_of ?x" using less.prems(3) by (simp add: nth_append)
  have uuids: "map ds_uuid ?ss = map (snd \<circ> snd) T"
    by (simp add: comp_def) (metis append_take_drop_id map_append)
  have x: "fst ?x \<noteq> 0" "fst ?x \<le> fst (snd ?x)" using T(2) less.prems(3) by simp_all
  have h: "gc_connection_handle (ce_client c) = h" using less.prems(1) by (simp add: link_ok_def)
  have ps: "ps = send_frame c h (create_discover_characteristics_request (fst ?x) (fst (snd ?x)))"
    using less.prems(3-5) nth h by (simp add: discover_characteristics_for_def Let_def)
  have "i < length ?ss" "first_uuid i (map ds_uuid ?ss)" "ds_end_handle (?ss ! i) = fst (snd ?x)"
    using less.prems(3) distinct_first_uuid [OF T(1)] uuids nth by simp_all
  from walk_one_service [OF db less.prems(1,2) x less.prems(4) [symmetric] this, of ec gen rnd ow]
  obtain n c1 host1 d1 where one: "link_ok h db c1 host1 d1" "same_mtu h c d c1 d1"
      "ce_phase c1 = PhaseDiscoveringCharacteristics i"
      "gc_services (ce_client c1) = map (full_service db) (take (Suc i) T) @ map service_of (drop (Suc i) T)"
      "link_rounds ec gen rnd ow n (ps, c, host, d) = resume host1 d1 (next_characteristic_service i c1)"
    unfolding add_chars_full [OF less.prems(3)] ps by blast
  have len: "length (gc_services (ce_client c1)) = length T" using less.prems(3) by (simp add: one(4))
  have pend: "ce_pending c1 = []" using one(1) by (simp add: link_ok_def)
  show ?case
  proof (cases "Suc i < length T")
    case True
    let ?c2 = "c1\<lparr>ce_phase := PhaseDiscoveringCharacteristics (Suc i)\<rparr>"
    obtain ps2 where ps2: "discover_characteristics_for (Suc i) ?c2 = Some ps2"
      using True len by (simp add: discover_characteristics_for_def Let_def)
    have go: "link_rounds ec gen rnd ow n (ps, c, host, d) = Some (ps2, ?c2, host1, d1)"
      using one(5) ps2 True len pend by (simp add: next_characteristic_service_def resume_def)
    have ok2: "link_ok h db ?c2 host1 d1" using one(1) by (simp add: link_ok_def)
    have "length T - Suc i < length T - i" using True by linarith
    then obtain n2 c' host' d' where rest: "link_rounds ec gen rnd ow n2 (ps2, ?c2, host1, d1) = Some ([], c', host', d')"
        "link_ok h db c' host' d'" "same_mtu h ?c2 d1 c' d'" "ce_phase c' = PhaseReady"
        "gc_services (ce_client c') = map (full_service db) T" "ServicesDiscovered (length T) \<in> set (ce_events c')"
      using less.hyps [OF _ ok2 _ True _ ps2] one(4) by auto
    have "link_rounds ec gen rnd ow (n + n2) (ps, c, host, d) = Some ([], c', host', d')"
      using go rest(1) by (simp add: link_rounds_add)
    moreover have "same_mtu h c d c' d'" using rest(3) one(2) by (simp add: same_mtu_def)
    ultimately show ?thesis using rest(2,4-6) by blast
  next
    case False
    let ?c2 = "finish_discovery c1"
    have "link_rounds ec gen rnd ow n (ps, c, host, d) = Some ([], ?c2, host1, d1)"
      using one(5) False len pend by (simp add: next_characteristic_service_def resume_def)
    moreover have "link_ok h db ?c2 host1 d1" "same_mtu h c d ?c2 d1"
      using one(1,2) by (simp_all add: link_ok_def same_mtu_def)
    moreover have "gc_services (ce_client ?c2) = map (full_service db) T"
      using False less.prems(3) one(4) by simp
    moreover have "ServicesDiscovered (length T) \<in> set (ce_events ?c2)"
      using finish_discovery_simps(6) [of c1] len by simp
    ultimately show ?thesis
      by (intro exI [of _ n] exI [of _ ?c2] exI [of _ host1] exI [of _ d1]) simp
  qed
qed

section \<open>From connection to discovery\<close>

text \<open>The LE Connection Complete a controller sends its host: the handle, and the peer.\<close>

definition connection_complete :: "u16 \<Rightarrow> u8 \<Rightarrow> bytes \<Rightarrow> bytes" where
  "connection_complete h role peer =
     event_packet event_LE_META (LeConnectionCompletePrefix_as_bytes
       \<lparr>lcc_subevent_code = le_CONNECTION_COMPLETE, lcc_status = 0, lcc_connection_handle = h, lcc_role = role,
        lcc_peer_address_type = 0, lcc_peer_address = peer\<rparr>)"

lemma parse_connection_complete:
  "length peer = 6 \<Longrightarrow> HciEvent_parse_h4 (connection_complete h role peer) = Some (LeConnectionComplete
     \<lparr>lcc_subevent_code = le_CONNECTION_COMPLETE, lcc_status = 0, lcc_connection_handle = h, lcc_role = role,
      lcc_peer_address_type = 0, lcc_peer_address = peer\<rparr>)"
  using parse_event_packet [of "LeConnectionCompletePrefix_as_bytes
       \<lparr>lcc_subevent_code = le_CONNECTION_COMPLETE, lcc_status = 0, lcc_connection_handle = h, lcc_role = role,
        lcc_peer_address_type = 0, lcc_peer_address = peer\<rparr>" event_LE_META "[]"]
    lcc_layout.prefix_enc_exact [of "\<lparr>lcc_subevent_code = le_CONNECTION_COMPLETE, lcc_status = 0, lcc_connection_handle = h,
        lcc_role = role, lcc_peer_address_type = 0, lcc_peer_address = peer\<rparr>"]
  by (simp add: connection_complete_def HciEvent_from_parameters_def LeConnectionCompletePrefix_as_bytes_def)

text \<open>The MTU exchange that opens a connection.\<close>

lemma mtu_round:
  assumes ok: "link_ok h db c host d" and phase: "ce_phase c = PhaseExchangingMtu" and conn: "vd_connections d h \<noteq> None"
  shows "\<exists>c' host' d'. link_round ec gen rnd ow (send_frame c h (create_exchange_mtu_request CLIENT_MTU), c, host, d)
      = Some (send_frame c' h (create_discover_services_request 1 0xFFFF), c', host', d')
    \<and> link_ok h db c' host' d' \<and> ce_phase c' = PhaseDiscoveringServices \<and> gc_services (ce_client c') = gc_services (ce_client c)
    \<and> gc_mtu (ce_client c') = 512 \<and> map_option conn_mtu (vd_connections d' h) = Some 512"
proof -
  let ?req = "ExchangeMtuReq (AttExchangeMtuReq_new CLIENT_MTU)"
  have gdb: "vd_gatt_db d = db" "smp_queue h d = []" using ok by (simp_all add: link_ok_def)
  have parse: "AttPdu_parse (AttPdu_bytes ?req) = Some ?req"
    by (rule parse_AttPdu_bytes) (simp add: AttExchangeMtuReq_new_def)
  let ?d = "observe (on_mtu_changed h 512) (modify_connection h (\<lambda>c. c\<lparr>conn_mtu := 512\<rparr>) d)"
  let ?rsp = "AttExchangeMtuRsp_as_bytes (AttExchangeMtuRsp_new 512)"
  have serve: "process_att_packet ow h (AttPdu_bytes ?req) d = Some (Inr (Some ?rsp), ?d)"
    using parse by (simp add: process_att_packet_def att_exchange_mtu_def AttExchangeMtuReq_new_def Let_def del: AttPdu_bytes.simps)
  have d: "vd_gatt_db ?d = db" "smp_queue h ?d = []" "map_option conn_mtu (vd_connections ?d h) = Some 512"
    using gdb conn by (auto simp: modify_connection_def smp_queue_def split: option.splits)
  have len: "length (AttPdu_bytes ?req) < 65536" "length ?rsp < 65536"
    by (simp_all add: AttExchangeMtuReq_as_bytes_def AttExchangeMtuRsp_as_bytes_def)
  from link_request [OF ok len serve d(1,2), of ec gen rnd] obtain r host1 d1 where
    round: "link_round ec gen rnd ow (send_frame c h (create_exchange_mtu_request CLIENT_MTU), c, host, d)
      = map_option (\<lambda>x. case then_pump x of (ps, c) \<Rightarrow> (ps, c, host1, d1)) (dispatch_att ?rsp (c\<lparr>ce_reassembler := r\<rparr>))"
    "link_ok h db (c\<lparr>ce_reassembler := r\<rparr>) host1 d1"
    "map_option conn_mtu (vd_connections d1 h) = map_option conn_mtu (vd_connections ?d h)"
    by (auto simp: create_exchange_mtu_request_def)
  let ?c = "raise_event (MtuChanged 512) (c\<lparr>ce_reassembler := r, ce_client := (ce_client c)\<lparr>gc_mtu := 512\<rparr>\<rparr>)
      \<lparr>ce_phase := PhaseDiscoveringServices\<rparr>"
  have "dispatch_att ?rsp (c\<lparr>ce_reassembler := r\<rparr>) = Some (send_frame ?c h (create_discover_services_request 1 0xFFFF), ?c)"
    using ok phase
    by (simp add: dispatch_att_def AttExchangeMtuRsp_as_bytes_def AttExchangeMtuRsp_new_def is_peer_request_def to_le_bytes_def
        from_le_bytes_def on_exchange_mtu_response_def Let_def send_frame_def raise_event_def link_ok_def)
  moreover have "link_ok h db ?c host1 d1" using round(2) by (simp add: link_ok_def raise_event_def)
  moreover have "ce_pending ?c = []" using ok by (simp add: link_ok_def raise_event_def)
  ultimately show ?thesis
    using round(1,3) d(3) by (intro exI [of _ ?c] exI [of _ host1] exI [of _ d1]) (simp add: raise_event_def)
qed

text \<open>The two hosts after the controllers reported the connection.\<close>

lemma restore_loop_connections [simp]: "vd_connections (restore_loop handle xs d) = vd_connections d"
  by (induction handle xs d rule: restore_loop.induct)
    (auto simp: Let_def notify_subscription_def observe_def split: prod.splits sum.splits)

lemma restore_bonded_connections [simp]:
  "vd_connections (restore_bonded_subscriptions handle peer d) = vd_connections d"
  by (simp add: restore_bonded_subscriptions_def split: option.split)

lemma on_connected_connection:
  "vd_connections (on_connected h peer d) h = Some (ConnectionState_new_with_role h peer (vd_default_mtu d) Peripheral)"
  by (simp add: on_connected_def on_connected_with_role_def Let_def observe_def)

lemma peripheral_connected:
  assumes "handle_event (connection_complete h role peer) host0 d0 = (out, host, d)" "length peer = 6" "h AND 0x0FFF = h"
  shows "out = [] \<and> host_reassembler host = host_reassembler host0 \<and> vd_connections d h \<noteq> None \<and> smp_queue h d = []"
proof -
  have "out = []" "host_reassembler host = host_reassembler host0"
    and d: "d = set_peer_address_type h Public (on_connected h (Address_new peer) d0)"
    using assms by (auto simp: handle_event_def parse_connection_complete Let_def)
  then show ?thesis
    by (simp add: d set_peer_address_type_def modify_connection_def on_connected_connection smp_queue_def
        ConnectionState_new_with_role_def)
qed

lemma central_connected:
  assumes "on_event (connection_complete h role peer) c0 = (ps, c)" "length peer = 6" "h AND 0x0FFF = h"
  shows "ps = send_frame c h (create_exchange_mtu_request CLIENT_MTU) \<and> ce_phase c = PhaseExchangingMtu
    \<and> gc_connection_handle (ce_client c) = h \<and> gc_services (ce_client c) = [] \<and> ce_pending c = ce_pending c0
    \<and> ce_reassembler c = ce_reassembler c0 \<and> ce_acl_data_len c = ce_acl_data_len c0"
  using assms
  by (auto simp: on_event_def parse_connection_complete Let_def raise_event_def GattClient_new_def)

lemma service_list_range:
  assumes inv: "gatt_inv db" and x: "x \<in> set (service_list db 1)"
  shows "fst x \<noteq> 0 \<and> fst x \<le> fst (snd x)"
proof -
  obtain k v where kv: "(k, v) \<in> set (read_by_type db 1 0xFFFF (Uuid16 PRIMARY_SERVICE))"
    "x = (k, the (group_end_handle db k), the (Uuid_from_bytes v))"
    using x by (auto simp: service_list_def)
  obtain a where a: "bt_get (attributes db) k = Some a" "1 \<le> k"
    by (rule read_by_type_attr [OF inv kv(1)])
  from group_end_handle_spec [OF inv a(1)] a(2) kv(2) show ?thesis by auto
qed

lemma discovery_finishes_aux:
  assumes disc: "discoverable db" and ok: "link_ok h db c host d" and phase: "ce_phase c = PhaseExchangingMtu"
    and fresh: "gc_services (ce_client c) = []" and conn: "vd_connections d h \<noteq> None"
  shows "\<exists>n c' host' d'. link_rounds ec gen rnd ow n
        (send_frame c h (create_exchange_mtu_request CLIENT_MTU), c, host, d) = Some ([], c', host', d')
    \<and> ce_phase c' = PhaseReady \<and> gc_services (ce_client c') = map (full_service db) (service_list db 1)
    \<and> gc_mtu (ce_client c') = 512 \<and> map_option conn_mtu (vd_connections d' h) = Some 512
    \<and> ServicesDiscovered (length (service_list db 1)) \<in> set (ce_events c')"
proof -
  let ?T = "service_list db 1"
  have db: "well_declared db" using disc by (simp add: discoverable_def)
  note inv = well_declared_inv [OF db]
  obtain c1 host1 d1 where r1: "link_round ec gen rnd ow (send_frame c h (create_exchange_mtu_request CLIENT_MTU), c, host, d)
      = Some (send_frame c1 h (create_discover_services_request 1 0xFFFF), c1, host1, d1)"
    and ok1: "link_ok h db c1 host1 d1" and phase1: "ce_phase c1 = PhaseDiscoveringServices"
    and fresh1: "gc_services (ce_client c1) = map service_of []"
    and mtu1: "gc_mtu (ce_client c1) = 512" "map_option conn_mtu (vd_connections d1 h) = Some 512"
    using mtu_round [OF ok phase conn, of ec gen rnd ow] fresh by auto
  obtain n2 ps2 c2 host2 d2 where r2: "link_rounds ec gen rnd ow n2
        (send_frame c1 h (create_discover_services_request 1 0xFFFF), c1, host1, d1) = Some (ps2, c2, host2, d2)"
    and ok2: "link_ok h db c2 host2 d2" and mtu2: "same_mtu h c1 d1 c2 d2"
    and services2: "gc_services (ce_client c2) = map service_of ?T"
    and next2: "if ?T = [] then ps2 = [] \<and> ce_phase c2 = PhaseReady \<and> ServicesDiscovered 0 \<in> set (ce_events c2)
         else ce_phase c2 = PhaseDiscoveringCharacteristics 0 \<and> discover_characteristics_for 0 c2 = Some ps2"
    using walk_services [OF db ok1 phase1 _ fresh1, of 1 ec gen rnd ow] by auto
  have r12: "link_rounds ec gen rnd ow (Suc n2) (send_frame c h (create_exchange_mtu_request CLIENT_MTU), c, host, d)
      = Some (ps2, c2, host2, d2)"
    using r1 r2 by simp
  show ?thesis
  proof (cases "?T = []")
    case True
    with r12 next2 services2 mtu1 mtu2 show ?thesis
      by (intro exI [of _ "Suc n2"] exI [of _ c2] exI [of _ host2] exI [of _ d2]) (simp add: same_mtu_def del: link_rounds.simps)
  next
    case False
    have "snd \<circ> snd = (\<lambda>(_ :: u16, _ :: u16, u :: Uuid). u)" by auto
    then have T: "distinct (map (snd \<circ> snd) ?T)"
      using disc by (simp add: discoverable_def)
    note range = service_list_range [OF inv]
    have "0 < length ?T" "gc_services (ce_client c2) = map (full_service db) (take 0 ?T) @ map service_of (drop 0 ?T)"
      using False services2 by simp_all
    from walk_characteristics [OF db T _ ok2 _ this, of ps2 ec gen rnd ow] range False next2
    obtain n3 c' host' d' where r3: "link_rounds ec gen rnd ow n3 (ps2, c2, host2, d2) = Some ([], c', host', d')"
      "same_mtu h c2 d2 c' d'" "ce_phase c' = PhaseReady" "gc_services (ce_client c') = map (full_service db) ?T"
      "ServicesDiscovered (length ?T) \<in> set (ce_events c')" by auto
    have "link_rounds ec gen rnd ow (Suc n2 + n3) (send_frame c h (create_exchange_mtu_request CLIENT_MTU), c, host, d)
        = Some ([], c', host', d')"
      unfolding link_rounds_add r12 using r3(1) by simp
    with r3(2-5) mtu1 mtu2 show ?thesis
      by (intro exI [of _ "Suc n2 + n3"] exI [of _ c'] exI [of _ host'] exI [of _ d']) (simp add: same_mtu_def)
  qed
qed

text \<open>C1: Discovery terminates and is exact. When the controllers of a central and of a peripheral
  report a connection between them, with no pairing under way and a well-formed database, then after
  finitely many rounds of the link no packet is under way, the central is ready, it knows exactly
  the services the database declares, each with its handle range and with exactly its
  characteristics, both sides use the same MTU, and the application has been told.\<close>
theorem discovery_finishes:
  assumes "handle_event (connection_complete h 1 central_address) host0 d0 = (out, host, d)"
    and "on_event (connection_complete h 0 peripheral_address) c0 = (ps, c)"
    and "length central_address = 6" "length peripheral_address = 6" "h AND 0x0FFF = h"
    and "ce_pending c0 = []" "ce_acl_data_len c0 < 65536"
    and "buffers (ce_reassembler c0) h = None" "buffers (host_reassembler host0) h = None"
    and "discoverable (vd_gatt_db d)"
  shows "\<exists>n c' host' d'. link_rounds ec gen rnd ow n (ps, c, host, d) = Some ([], c', host', d')
    \<and> ce_phase c' = PhaseReady
    \<and> gc_services (ce_client c') = map (full_service (vd_gatt_db d)) (service_list (vd_gatt_db d) 1)
    \<and> gc_mtu (ce_client c') = 512 \<and> map_option conn_mtu (vd_connections d' h) = Some 512
    \<and> ServicesDiscovered (length (service_list (vd_gatt_db d) 1)) \<in> set (ce_events c')"
proof -
  note p = peripheral_connected [OF assms(1,3,5)] and q = central_connected [OF assms(2,4,5)]
  have "link_ok h (vd_gatt_db d) c host d" using p q assms(5-9) by (simp add: link_ok_def)
  from discovery_finishes_aux [OF assms(10) this, of ec gen rnd ow] p q show ?thesis by simp
qed

text \<open>The sample database is well formed, so a device that serves it is discovered.\<close>

lemma sample_db_services: "service_list sample_db 1 = [(1, 3, Uuid16 0x180D), (4, 4, Uuid16 0x180F)]"
  by code_simp

lemma discoverable_sample_db: "discoverable sample_db"
proof -
  have "[0x0D, 0x18] = Uuid_to_att_bytes (Uuid16 0x180D)" "[0x0F, 0x18] = Uuid_to_att_bytes (Uuid16 0x180F)"
    "[0x0A, 3, 0, 0x37, 0x2A] = CharacteristicDecl_as_bytes (CharacteristicDecl_new 0x0A 3) @ Uuid_to_att_bytes (Uuid16 0x2A37)"
    by (code_simp)+
  moreover have "wf_Uuid (Uuid16 w)" for w by simp
  ultimately have
    "\<exists>u. wf_Uuid u \<and> [0x0D, 0x18] = Uuid_to_att_bytes u" "\<exists>u. wf_Uuid u \<and> [0x0F, 0x18] = Uuid_to_att_bytes u"
    "\<exists>p u. wf_Uuid u \<and> [0x0A, 3, 0, 0x37, 0x2A] = CharacteristicDecl_as_bytes (CharacteristicDecl_new p 3) @ Uuid_to_att_bytes u"
    by blast+
  then show ?thesis
    using gatt_inv_sample_db
    by (simp add: discoverable_def well_declared_def sample_db_services) (simp add: sample_db_def bt_get_def)
qed

lemma connected_database:
  assumes "handle_event (connection_complete h 1 peer) host0 d0 = (out, host, d)" "length peer = 6" "h AND 0x0FFF = h"
    and "vd_bond_store d0 = None"
  shows "vd_gatt_db d = vd_gatt_db d0"
proof -
  have "d = set_peer_address_type h Public (on_connected h (Address_new peer) d0)"
    using assms(1-3) by (auto simp: handle_event_def parse_connection_complete Let_def)
  then show ?thesis
    using assms(4) by (simp add: set_peer_address_type_def modify_connection_def on_connected_def on_connected_with_role_def
        Let_def observe_def restore_bonded_subscriptions_def)
qed

theorem discovery_finishes_witness:
  "\<exists>ps c out host d n c' host' d'. on_event (connection_complete 0x40 0 (replicate 6 7)) LeCentral_new = (ps, c)
    \<and> handle_event (connection_complete 0x40 1 (replicate 6 9)) LeHost_new sample_device = (out, host, d)
    \<and> link_rounds sample_curve sample_pair (\<lambda>_ n. replicate n 0) counting_handler n (ps, c, host, d) = Some ([], c', host', d')
    \<and> ce_phase c' = PhaseReady
    \<and> gc_services (ce_client c') = map (full_service sample_db) [(1, 3, Uuid16 0x180D), (4, 4, Uuid16 0x180F)]"
proof -
  obtain out host d where d: "handle_event (connection_complete 0x40 1 (replicate 6 9)) LeHost_new sample_device = (out, host, d)"
    by (cases "handle_event (connection_complete 0x40 1 (replicate 6 9)) LeHost_new sample_device") auto
  obtain ps c where c: "on_event (connection_complete 0x40 0 (replicate 6 7)) LeCentral_new = (ps, c)"
    by (cases "on_event (connection_complete 0x40 0 (replicate 6 7)) LeCentral_new") auto
  have db: "vd_gatt_db d = sample_db" using connected_database [OF d] by simp
  from discovery_finishes [OF d c, of sample_curve sample_pair "\<lambda>_ n. replicate n 0" counting_handler]
  have "\<exists>n c' host' d'. link_rounds sample_curve sample_pair (\<lambda>_ n. replicate n 0) counting_handler n (ps, c, host, d)
      = Some ([], c', host', d') \<and> ce_phase c' = PhaseReady
    \<and> gc_services (ce_client c') = map (full_service sample_db) [(1, 3, Uuid16 0x180D), (4, 4, Uuid16 0x180F)]"
    by (auto simp: db discoverable_sample_db sample_db_services LeCentral_new_def LE_ACL_DATA_LEN_def AclReassembler_new_def
        LeHost_new_def)
  with d c show ?thesis by blast
qed

end
