(* ===== verification/Discovery_Stall.thy ===== *)
theory Discovery_Stall
  imports Discovery
begin

text \<open>
  A central (\<open>src/src/device/central.rs\<close>, \<open>src/src/client/gatt_client.rs\<close>) connected to a peripheral that
  declares two services with one UUID: the walk over the characteristics reaches the second of them
  and stays there, because the client files what it receives under the first.
\<close>

section \<open>Up to the second service\<close>

lemma push_characteristics_first:
  assumes "push_characteristics u cs ss = Some ss'" "j < i" "i < length ss" "ds_uuid (ss ! j) = u"
  shows "ss' ! i = ss ! i \<and> map ds_uuid ss' = map ds_uuid ss"
  using assms
proof (induction u cs ss arbitrary: i j ss' rule: push_characteristics.induct)
  case (2 u cs s ss)
  show ?case
  proof (cases "ds_uuid s = u")
    case True
    with "2.prems" show ?thesis by (cases i) auto
  next
    case False
    with "2.prems"(1) obtain rest where rest: "push_characteristics u cs ss = Some rest" "ss' = s # rest" by auto
    obtain i' j' where ij: "i = Suc i'" "j = Suc j'"
      using False "2.prems"(2,4) by (metis Suc_lessE gr0_conv_Suc nth_Cons_0 not_gr_zero)
    have "rest ! i' = ss ! i' \<and> map ds_uuid rest = map ds_uuid ss"
      using False "2.prems"(2-4) ij rest(1) by (intro "2.IH") auto
    then show ?thesis using rest ij by simp
  qed
qed simp

text \<open>The walk over the characteristics reaches any service up to which no UUID occurs twice.\<close>

lemma walk_up_to:
  assumes db: "well_declared db" and T: "\<forall>x \<in> set T. fst x \<noteq> 0 \<and> fst x \<le> fst (snd x)"
    and start: "link_ok h db c host d" "ce_phase c = PhaseDiscoveringCharacteristics 0"
      "gc_services (ce_client c) = map service_of T" "discover_characteristics_for 0 c = Some ps"
  shows "i < length T \<Longrightarrow> distinct (map (snd \<circ> snd) (take i T)) \<Longrightarrow>
    \<exists>n ps' c' host' d'. link_rounds ec gen rnd ow n (ps, c, host, d) = Some (ps', c', host', d')
      \<and> link_ok h db c' host' d' \<and> ce_phase c' = PhaseDiscoveringCharacteristics i
      \<and> gc_services (ce_client c') = map (full_service db) (take i T) @ map service_of (drop i T)
      \<and> discover_characteristics_for i c' = Some ps'"
proof (induction i)
  case 0
  then show ?case using start by (intro exI [of _ "0 :: nat"]) auto
next
  case (Suc i)
  let ?ss = "map (full_service db) (take i T) @ map service_of (drop i T)"
  let ?x = "T ! i"
  have i: "i < length T" using Suc.prems(1) by simp
  have dist: "distinct (map (snd \<circ> snd) (take i T) @ [snd (snd ?x)])"
    using Suc.prems(2) by (simp add: take_Suc_conv_app_nth [OF i] comp_def)
  have "distinct (map (snd \<circ> snd) (take i T))" using dist unfolding distinct_append by blast
  from Suc.IH [OF i this] obtain n ps1 c1 host1 d1 where at:
    "link_rounds ec gen rnd ow n (ps, c, host, d) = Some (ps1, c1, host1, d1)" "link_ok h db c1 host1 d1"
    "ce_phase c1 = PhaseDiscoveringCharacteristics i" "gc_services (ce_client c1) = ?ss"
    "discover_characteristics_for i c1 = Some ps1" by blast
  have nth: "?ss ! i = service_of ?x" using i by (simp add: nth_append)
  have uuids: "map ds_uuid ?ss = map (snd \<circ> snd) T"
    by (simp add: comp_def) (metis append_take_drop_id map_append)
  have x: "fst ?x \<noteq> 0" "fst ?x \<le> fst (snd ?x)" using T i by simp_all
  have h: "gc_connection_handle (ce_client c1) = h" using at(2) by (simp add: link_ok_def)
  have ps1: "ps1 = send_frame c1 h (create_discover_characteristics_request (fst ?x) (fst (snd ?x)))"
    using at(4,5) nth h i by (simp add: discover_characteristics_for_def Let_def)
  have "i < length ?ss" "first_uuid i (map ds_uuid ?ss)" "ds_end_handle (?ss ! i) = fst (snd ?x)"
    unfolding uuids using i dist nth by (simp_all add: first_uuid_def take_map)
  from walk_one_service [OF db at(2,3) x at(4) [symmetric] this, of ec gen rnd ow]
  obtain m c2 host2 d2 where one: "link_ok h db c2 host2 d2" "ce_phase c2 = PhaseDiscoveringCharacteristics i"
      "gc_services (ce_client c2) = map (full_service db) (take (Suc i) T) @ map service_of (drop (Suc i) T)"
      "link_rounds ec gen rnd ow m (ps1, c1, host1, d1) = resume host2 d2 (next_characteristic_service i c2)"
    unfolding add_chars_full [OF i] ps1 by blast
  let ?c = "c2\<lparr>ce_phase := PhaseDiscoveringCharacteristics (Suc i)\<rparr>"
  have len: "Suc i < length (gc_services (ce_client ?c))" using Suc.prems(1) by (simp add: one(3))
  then obtain ps2 where ps2: "discover_characteristics_for (Suc i) ?c = Some ps2"
    by (simp add: discover_characteristics_for_def Let_def)
  have "ce_pending c2 = []" using one(1) by (simp add: link_ok_def)
  then have "link_rounds ec gen rnd ow m (ps1, c1, host1, d1) = Some (ps2, ?c, host2, d2)"
    using one(4) ps2 len by (simp add: next_characteristic_service_def resume_def)
  then have "link_rounds ec gen rnd ow (n + m) (ps, c, host, d) = Some (ps2, ?c, host2, d2)"
    using at(1) by (simp add: link_rounds_add)
  moreover have "link_ok h db ?c host2 d2" using one(1) by (simp add: link_ok_def)
  ultimately show ?case
    using one(3) ps2 by (intro exI [of _ "n + m"] exI [of _ ps2] exI [of _ ?c] exI [of _ host2] exI [of _ d2]) simp
qed

section \<open>Rounds without progress\<close>

text \<open>Both ends while discovery stands at service \<open>i\<close>, of which \<open>j\<close> has the UUID.\<close>

definition stalled :: "nat \<Rightarrow> nat \<Rightarrow> u16 \<Rightarrow> u16 \<Rightarrow> u16 \<Rightarrow> 'h GattDatabase \<Rightarrow> LeCentral \<Rightarrow> LeHost \<Rightarrow> ('h, 's) VirtualDevice \<Rightarrow> bool" where
  "stalled i j s e h db c host d \<longleftrightarrow>
     (let ss = gc_services (ce_client c) in
      link_ok h db c host d \<and> ce_phase c = PhaseDiscoveringCharacteristics i \<and> j < i \<and> i < length ss
      \<and> ds_uuid (ss ! j) = ds_uuid (ss ! i) \<and> ds_characteristics (ss ! i) = []
      \<and> ds_start_handle (ss ! i) = s \<and> ds_end_handle (ss ! i) = e)"

lemma stalled_dispatch:
  assumes st: "stalled i j s e h db c host d" and "s < e"
  shows "\<exists>c'. dispatch_att (opcode_READ_BY_TYPE_RSP # rsp) c
      = Some (send_frame c h (create_discover_characteristics_request (s + 1) e), c')
    \<and> stalled i j s e h db c' host d \<and> send_frame c' = send_frame c"
proof -
  let ?att = "opcode_READ_BY_TYPE_RSP # rsp" and ?ss = "gc_services (ce_client c)"
  have st': "link_ok h db c host d" "ce_phase c = PhaseDiscoveringCharacteristics i" "j < i" "i < length ?ss"
      "ds_uuid (?ss ! j) = ds_uuid (?ss ! i)" "ds_characteristics (?ss ! i) = []"
      "ds_start_handle (?ss ! i) = s" "ds_end_handle (?ss ! i) = e" and h: "gc_connection_handle (ce_client c) = h"
    using st by (simp_all add: stalled_def link_ok_def Let_def)
  obtain res client where r: "on_discover_characteristics_response (ds_uuid (?ss ! i)) ?att (ce_client c) = Some (res, client)"
    using on_discover_characteristics_total by fastforce
  have "client = ce_client c \<or> (\<exists>cs ss'. push_characteristics (ds_uuid (?ss ! i)) cs ?ss = Some ss'
      \<and> client = (ce_client c)\<lparr>gc_services := ss'\<rparr>)"
    by (rule on_discover_characteristics_cases [OF r])
  then have client: "gc_services client ! i = ?ss ! i" "map ds_uuid (gc_services client) = map ds_uuid ?ss"
      "gc_connection_handle client = h"
    using push_characteristics_first [of "ds_uuid (?ss ! i)" _ ?ss _ j i, OF _ st'(3,4,5)] h by auto
  let ?c = "c\<lparr>ce_client := client\<rparr>"
  have len: "length (gc_services client) = length ?ss" using client(2) by (metis length_map)
  have "ds_uuid (gc_services client ! j) = ds_uuid (?ss ! j)"
    using client(2) len st'(3,4) by (metis (no_types, lifting) dual_order.strict_trans nth_map)
  with st' client len have "stalled i j s e h db ?c host d"
    by (simp add: stalled_def link_ok_def)
  moreover have "dispatch_att ?att c = Some (send_frame c h (create_discover_characteristics_request (s + 1) e), ?c)"
    using st' r client h assms(2) by (simp add: dispatch_att_def is_peer_request_def Let_def send_frame_def not_le)
  moreover have "send_frame ?c = send_frame c" by (simp add: fun_eq_iff send_frame_def)
  ultimately show ?thesis by blast
qed

text \<open>A request for characteristics that exist is answered with them, and changes nothing at the central.\<close>

lemma stalled_round:
  assumes db: "well_declared db" and st: "stalled i j s e h db c host d" and "s < e"
    and q: "q \<noteq> 0" "char_list db q e \<noteq> []"
  shows "\<exists>c' host' d'. link_round ec gen rnd ow (send_frame c h (create_discover_characteristics_request q e), c, host, d)
      = Some (send_frame c' h (create_discover_characteristics_request (s + 1) e), c', host', d')
    \<and> stalled i j s e h db c' host' d'"
proof -
  have ok: "link_ok h db c host d" using st by (simp add: stalled_def Let_def)
  have gdb: "vd_gatt_db d = db" "smp_queue h d = []" using ok by (simp_all add: link_ok_def)
  have some: "read_by_type db q e (Uuid16 CHARACTERISTIC) \<noteq> []" using q(2) by (simp add: char_list_def)
  then have "q \<le> e" by (auto simp: read_by_type_def bt_range_def split: if_splits)
  with serve_chars [of d q e ow h] db q(1) gdb(1) some obtain rsp where
    rsp: "process_att_packet ow h (AttPdu_bytes (ReadByTypeReq \<lparr>rtq_opcode = opcode_READ_BY_TYPE_REQ,
        rtq_start_handle = q, rtq_end_handle = e\<rparr> (to_le_bytes 0x2803))) d = Some (Inr (Some (opcode_READ_BY_TYPE_RSP # rsp)), d)"
      "length (AttPdu_bytes (ReadByTypeReq \<lparr>rtq_opcode = opcode_READ_BY_TYPE_REQ,
        rtq_start_handle = q, rtq_end_handle = e\<rparr> (to_le_bytes 0x2803))) < 65536" "length (opcode_READ_BY_TYPE_RSP # rsp) < 65536"
    by (fastforce simp: AttReadByTypeRspHeader_as_bytes_def AttReadByTypeRspHeader_new_def)
  from link_request [OF ok rsp(2,3,1) gdb] obtain r host1 d1 where
    round: "link_round ec gen rnd ow (send_frame c h (create_discover_characteristics_request q e), c, host, d)
      = map_option (\<lambda>x. case then_pump x of (ps, c) \<Rightarrow> (ps, c, host1, d1))
          (dispatch_att (opcode_READ_BY_TYPE_RSP # rsp) (c\<lparr>ce_reassembler := r\<rparr>))"
    "link_ok h db (c\<lparr>ce_reassembler := r\<rparr>) host1 d1"
    unfolding type_request_bytes by blast
  have "stalled i j s e h db (c\<lparr>ce_reassembler := r\<rparr>) host1 d1" using st round(2) by (simp add: stalled_def Let_def)
  from stalled_dispatch [OF this assms(3)] obtain c' where
    c': "dispatch_att (opcode_READ_BY_TYPE_RSP # rsp) (c\<lparr>ce_reassembler := r\<rparr>)
        = Some (send_frame c' h (create_discover_characteristics_request (s + 1) e), c')" "stalled i j s e h db c' host1 d1"
    by metis
  then have "ce_pending c' = []" by (simp add: stalled_def link_ok_def Let_def)
  then show ?thesis using round(1) c' by auto
qed

lemma stalled_rounds:
  assumes db: "well_declared db" and "s < e" "s + 1 \<noteq> 0" "char_list db (s + 1) e \<noteq> []"
  shows "stalled i j s e h db c host d \<Longrightarrow>
    \<exists>c' host' d'. link_rounds ec gen rnd ow n (send_frame c h (create_discover_characteristics_request (s + 1) e), c, host, d)
      = Some (send_frame c' h (create_discover_characteristics_request (s + 1) e), c', host', d')
    \<and> stalled i j s e h db c' host' d'"
proof (induction n arbitrary: c host d)
  case (Suc n)
  from stalled_round [OF db Suc.prems assms(2-4), of ec gen rnd ow] Suc.IH show ?case by fastforce
qed auto

text \<open>The declaration of a service is no characteristic, so the first ones come after it.\<close>

lemma chars_behind_service:
  assumes db: "well_declared db" and x: "(s, e, u) \<in> set (service_list db 1)" and some: "char_list db s e \<noteq> []"
  shows "s < e \<and> s + 1 \<noteq> 0 \<and> char_list db (s + 1) e \<noteq> []"
proof -
  note inv = well_declared_inv [OF db]
  obtain v where "(s, v) \<in> set (read_by_type db 1 0xFFFF (Uuid16 PRIMARY_SERVICE))" using x by (auto simp: service_list_def)
  then obtain a where a: "bt_get (attributes db) s = Some a" "attr_uuid a = Uuid16 PRIMARY_SERVICE"
    by (rule read_by_type_attr [OF inv])
  obtain k w where kw: "(k, w) \<in> set (read_by_type db s e (Uuid16 CHARACTERISTIC))"
    using some by (cases "read_by_type db s e (Uuid16 CHARACTERISTIC)") (auto simp: char_list_def)
  then obtain b where b: "bt_get (attributes db) k = Some b" "attr_uuid b = Uuid16 CHARACTERISTIC" "attr_value b = w"
      "s \<le> k" "k \<le> e" by (rule read_by_type_attr [OF inv])
  then have "k \<noteq> s" using a by auto
  then have "s < k" using b(4) by simp
  have "s < 0xFFFF" by (rule well_declared_handle [OF db a(1)])
  then have next_s: "s + 1 \<le> k" using u16_succ_le [of s k] \<open>s < k\<close> by simp
  have "(k, w) \<in> set (read_by_type db (s + 1) e (Uuid16 CHARACTERISTIC))"
    using kw next_s b(5) range_queries [OF inv, of s e "Uuid16 CHARACTERISTIC" k w]
      range_queries [OF inv, of "s + 1" e "Uuid16 CHARACTERISTIC" k w] by blast
  moreover have "s + 1 \<noteq> 0" using unat_u16_plus_1 [OF \<open>s < 0xFFFF\<close>] by (metis nat.distinct(1) unat_0)
  ultimately show ?thesis using \<open>s < k\<close> b(5) by (auto simp: char_list_def)
qed

section \<open>A discovery without end\<close>

text \<open>C40: Discovery never finishes on a peripheral with two services of one UUID. Take a connection
  as in the theorem above, and a well-formed database in which service \<open>i\<close> is the first whose UUID an
  earlier service \<open>j\<close> already has, and which holds characteristics in service \<open>i\<close>. After finitely many
  rounds of the link the central asks for the characteristics behind the declaration of service \<open>i\<close>,
  and after every later round it asks for the same ones again: it is never ready, and never finds a
  characteristic of that service.\<close>
theorem duplicate_services_stall_discovery:
  assumes "handle_event (connection_complete h 1 central_address) host0 d0 = (out, host, d)"
    and "on_event (connection_complete h 0 peripheral_address) c0 = (ps, c)"
    and "length central_address = 6" "length peripheral_address = 6" "h AND 0x0FFF = h"
    and "ce_pending c0 = []" "ce_acl_data_len c0 < 65536"
    and "buffers (ce_reassembler c0) h = None" "buffers (host_reassembler host0) h = None"
    and db: "well_declared (vd_gatt_db d)"
    and T: "T = service_list (vd_gatt_db d) 1" "i < length T" "T ! i = (s, e, u)"
    and twin: "j < i" "snd (snd (T ! j)) = u" "distinct (map (snd \<circ> snd) (take i T))"
    and chars: "char_list (vd_gatt_db d) s e \<noteq> []"
  shows "\<exists>n0. \<forall>n. \<exists>c' host' d'. link_rounds ec gen rnd ow (n0 + n) (ps, c, host, d)
        = Some (send_frame c' h (create_discover_characteristics_request (s + 1) e), c', host', d')
      \<and> ce_phase c' = PhaseDiscoveringCharacteristics i
      \<and> ds_start_handle (gc_services (ce_client c') ! i) = s \<and> ds_characteristics (gc_services (ce_client c') ! i) = []"
proof -
  let ?db = "vd_gatt_db d" and ?rounds = "link_rounds ec gen rnd ow"
  note p = peripheral_connected [OF assms(1,3,5)] and q = central_connected [OF assms(2,4,5)]
  have ok: "link_ok h ?db c host d" using p q assms(5-9) by (simp add: link_ok_def)
  obtain c1 host1 d1 where r1: "?rounds 1 (ps, c, host, d) = Some (send_frame c1 h (create_discover_services_request 1 0xFFFF), c1, host1, d1)"
    and ok1: "link_ok h ?db c1 host1 d1" "ce_phase c1 = PhaseDiscoveringServices" "gc_services (ce_client c1) = map service_of []"
    using mtu_round [OF ok, where ec = ec and gen = gen and rnd = rnd and ow = ow] p q by auto
  have "T \<noteq> []" using T(2) by auto
  with walk_services [OF db ok1(1,2) _ ok1(3), of 1 ec gen rnd ow] T(1) obtain n2 ps2 c2 host2 d2 where
    r2: "?rounds n2 (send_frame c1 h (create_discover_services_request 1 0xFFFF), c1, host1, d1) = Some (ps2, c2, host2, d2)"
    and ok2: "link_ok h ?db c2 host2 d2" "ce_phase c2 = PhaseDiscoveringCharacteristics 0"
      "gc_services (ce_client c2) = map service_of T" "discover_characteristics_for 0 c2 = Some ps2" by auto
  have range: "\<forall>x \<in> set T. fst x \<noteq> 0 \<and> fst x \<le> fst (snd x)"
    using service_list_range [OF well_declared_inv [OF db]] T(1) by simp
  from walk_up_to [OF db range ok2 T(2) twin(3), where ec = ec and gen = gen and rnd = rnd and ow = ow] obtain n3 ps3 c3 host3 d3 where
    r3: "?rounds n3 (ps2, c2, host2, d2) = Some (ps3, c3, host3, d3)"
    and ok3: "link_ok h ?db c3 host3 d3" "ce_phase c3 = PhaseDiscoveringCharacteristics i"
      "gc_services (ce_client c3) = map (full_service ?db) (take i T) @ map service_of (drop i T)"
      "discover_characteristics_for i c3 = Some ps3" by blast
  have "T ! j \<in> set T" "(s, e, u) \<in> set T" using T twin(1) by (simp, metis nth_mem)
  then have s: "s \<noteq> 0" "s < e \<and> s + 1 \<noteq> 0 \<and> char_list ?db (s + 1) e \<noteq> []"
    using range chars_behind_service [OF db _ chars] T(1) by auto
  have stalled: "stalled i j s e h ?db c3 host3 d3"
    using ok3 T(2,3) twin(1,2) by (simp add: stalled_def nth_append full_service_def)
  have ps3: "ps3 = send_frame c3 h (create_discover_characteristics_request s e)"
    using ok3 T(2,3) by (simp add: discover_characteristics_for_def Let_def nth_append link_ok_def)
  from stalled_round [OF db stalled _ s(1) chars, where ec = ec and gen = gen and rnd = rnd and ow = ow] s(2) obtain c4 host4 d4 where
    r4: "?rounds 1 (ps3, c3, host3, d3) = Some (send_frame c4 h (create_discover_characteristics_request (s + 1) e), c4, host4, d4)"
    and stalled4: "stalled i j s e h ?db c4 host4 d4" by (auto simp: ps3)
  have at: "?rounds (1 + n2 + n3 + 1) (ps, c, host, d)
      = Some (send_frame c4 h (create_discover_characteristics_request (s + 1) e), c4, host4, d4)"
    unfolding link_rounds_add r1 using r2 r3 r4 by simp
  show ?thesis
  proof (intro exI [of _ "1 + n2 + n3 + 1"] allI)
    fix n
    from stalled_rounds [OF db _ _ _ stalled4, where n = n and ec = ec and gen = gen and rnd = rnd and ow = ow] s(2) obtain c' host' d' where
      "?rounds n (send_frame c4 h (create_discover_characteristics_request (s + 1) e), c4, host4, d4)
        = Some (send_frame c' h (create_discover_characteristics_request (s + 1) e), c', host', d')"
      "stalled i j s e h ?db c' host' d'" by blast
    then show "\<exists>c' host' d'. ?rounds (1 + n2 + n3 + 1 + n) (ps, c, host, d)
        = Some (send_frame c' h (create_discover_characteristics_request (s + 1) e), c', host', d')
      \<and> ce_phase c' = PhaseDiscoveringCharacteristics i
      \<and> ds_start_handle (gc_services (ce_client c') ! i) = s \<and> ds_characteristics (gc_services (ce_client c') ! i) = []"
      unfolding link_rounds_add [of _ _ _ _ "1 + n2 + n3 + 1"] at by (auto simp: stalled_def Let_def)
  qed
qed

text \<open>A peripheral with two batteries: two services of one UUID, with one characteristic each.\<close>

definition twin_db :: "nat GattDatabase" where
  "twin_db = \<lparr>attributes = map (\<lambda>(k, u, v). (k, \<lparr>attr_handle = k, attr_uuid = Uuid16 u, attr_value = v,
      attr_permissions = permissions_read_only, attr_handler = None\<rparr>))
     [(1, 0x2800, [0x0F, 0x18]), (2, 0x2803, [2, 3, 0, 0x19, 0x2A]), (3, 0x2A19, [80]),
      (4, 0x2800, [0x0F, 0x18]), (5, 0x2803, [2, 6, 0, 0x19, 0x2A]), (6, 0x2A19, [75])],
     next_handle = 7\<rparr>"

lemma twin_db_lists:
  "service_list twin_db 1 = [(1, 3, Uuid16 0x180F), (4, 6, Uuid16 0x180F)]" "char_list twin_db 4 6 \<noteq> []"
  by code_simp+

lemma well_declared_twin_db: "well_declared twin_db"
proof -
  have "[0x0F, 0x18] = Uuid_to_att_bytes (Uuid16 0x180F)"
    "[2, 3, 0, 0x19, 0x2A] = CharacteristicDecl_as_bytes (CharacteristicDecl_new 2 3) @ Uuid_to_att_bytes (Uuid16 0x2A19)"
    "[2, 6, 0, 0x19, 0x2A] = CharacteristicDecl_as_bytes (CharacteristicDecl_new 2 6) @ Uuid_to_att_bytes (Uuid16 0x2A19)"
    by (code_simp)+
  moreover have "wf_Uuid (Uuid16 w)" for w by simp
  ultimately have "\<exists>u. wf_Uuid u \<and> [0x0F, 0x18] = Uuid_to_att_bytes u"
    "\<exists>p u. wf_Uuid u \<and> [2, 3, 0, 0x19, 0x2A] = CharacteristicDecl_as_bytes (CharacteristicDecl_new p 3) @ Uuid_to_att_bytes u"
    "\<exists>p u. wf_Uuid u \<and> [2, 6, 0, 0x19, 0x2A] = CharacteristicDecl_as_bytes (CharacteristicDecl_new p 6) @ Uuid_to_att_bytes u"
    by blast+
  moreover have "gatt_inv twin_db" by (simp add: gatt_inv_def twin_db_def bt_inv_def)
  ultimately show ?thesis by (simp add: well_declared_def) (simp add: twin_db_def bt_get_def)
qed

theorem duplicate_services_stall_discovery_witness:
  "\<exists>ps c out host d n0. on_event (connection_complete 0x40 0 (replicate 6 7)) LeCentral_new = (ps, c)
    \<and> handle_event (connection_complete 0x40 1 (replicate 6 9)) LeHost_new (sample_device\<lparr>vd_gatt_db := twin_db\<rparr>) = (out, host, d)
    \<and> (\<forall>n. \<exists>c' host' d'. link_rounds sample_curve sample_pair (\<lambda>_ n. replicate n 0) counting_handler (n0 + n) (ps, c, host, d)
        = Some (send_frame c' 0x40 (create_discover_characteristics_request (4 + 1) 6), c', host', d')
      \<and> ce_phase c' = PhaseDiscoveringCharacteristics 1
      \<and> ds_start_handle (gc_services (ce_client c') ! 1) = 4 \<and> ds_characteristics (gc_services (ce_client c') ! 1) = [])"
proof -
  obtain out host d where d: "handle_event (connection_complete 0x40 1 (replicate 6 9)) LeHost_new
      (sample_device\<lparr>vd_gatt_db := twin_db\<rparr>) = (out, host, d)"
    by (cases "handle_event (connection_complete 0x40 1 (replicate 6 9)) LeHost_new (sample_device\<lparr>vd_gatt_db := twin_db\<rparr>)") auto
  obtain ps c where c: "on_event (connection_complete 0x40 0 (replicate 6 7)) LeCentral_new = (ps, c)"
    by (cases "on_event (connection_complete 0x40 0 (replicate 6 7)) LeCentral_new") auto
  have db: "vd_gatt_db d = twin_db" using connected_database [OF d] by simp
  obtain n0 where "\<forall>n. \<exists>c' host' d'. link_rounds sample_curve sample_pair (\<lambda>_ n. replicate n 0) counting_handler (n0 + n) (ps, c, host, d)
        = Some (send_frame c' 0x40 (create_discover_characteristics_request (4 + 1) 6), c', host', d')
      \<and> ce_phase c' = PhaseDiscoveringCharacteristics 1
      \<and> ds_start_handle (gc_services (ce_client c') ! 1) = 4 \<and> ds_characteristics (gc_services (ce_client c') ! 1) = []"
    using duplicate_services_stall_discovery [OF d c, where T = "service_list twin_db 1" and j = 0 and i = 1
        and s = 4 and e = 6 and u = "Uuid16 0x180F" and ec = sample_curve and gen = sample_pair
        and rnd = "\<lambda>_ n. replicate n 0" and ow = counting_handler]
    by (auto simp: db twin_db_lists well_declared_twin_db LeCentral_new_def LE_ACL_DATA_LEN_def AclReassembler_new_def
        LeHost_new_def)
  with d c show ?thesis by (intro exI conjI) assumption+
qed

end
