(* ===== verification/Gatt_Exchange.thy ===== *)
theory Gatt_Exchange
  imports Gatt_Link
begin

text \<open>
  Reads and writes of the application, end to end: an operation queued at a central that is ready
  crosses the link, takes effect in the peripheral's database, and its response completes it.
\<close>

section \<open>One operation\<close>

text \<open>What the two ends agree on between operations.\<close>

definition link_ready :: "u16 \<Rightarrow> 'h GattDatabase \<Rightarrow> LeCentral \<Rightarrow> LeHost \<Rightarrow> ('h, 's) VirtualDevice \<Rightarrow> bool" where
  "link_ready h db c host d = (link_ok h db c host d \<and> ce_phase c = PhaseReady \<and> ce_in_flight c = None)"

definition pump_to_link :: "Op \<Rightarrow> LeCentral \<Rightarrow> LeHost \<Rightarrow> ('h, 's) VirtualDevice \<Rightarrow> ('h, 's) link" where
  "pump_to_link op c host d = (case pump (enqueue op c) of (ps, c) \<Rightarrow> (ps, c, host, d))"

lemma pump_idle: "ce_pending c = [] \<Longrightarrow> pump c = ([], c)"
  by (simp add: pump_def)

lemma smp_queue_connections: "vd_connections d' = vd_connections d \<Longrightarrow> smp_queue h d' = smp_queue h d"
  by (simp add: smp_queue_def)

lemma write_request_bytes:
  "create_write_request vh v = L2capHeader_serialize cid_ATT
     (AttPdu_bytes (WriteReq (AttWriteReqHeader_new opcode_WRITE_REQ vh) v))"
  by (simp add: create_write_request_def create_write_pdu_def)

lemma read_request_bytes:
  "create_read_request vh = L2capHeader_serialize cid_ATT
     (AttPdu_bytes (ReadReq \<lparr>rrq_opcode = opcode_READ_REQ, rrq_handle = vh\<rparr>))"
  by (simp add: create_read_request_def)

lemma serve_write:
  assumes "bt_get (attributes (vd_gatt_db d)) vh = Some a" "perm_write (attr_permissions a)" "attr_handler a = None"
    and "attr_uuid a \<noteq> Uuid_CCCD"
  shows "\<exists>d'. process_att_packet ow h (AttPdu_bytes (WriteReq (AttWriteReqHeader_new opcode_WRITE_REQ vh) v)) d
      = Some (Inr (Some [opcode_WRITE_RSP]), d')
    \<and> vd_gatt_db d' = modify_attribute (vd_gatt_db d) vh (\<lambda>a. a\<lparr>attr_value := v\<rparr>)
    \<and> vd_connections d' = vd_connections d"
proof -
  have "AttPdu_parse (AttPdu_bytes (WriteReq (AttWriteReqHeader_new opcode_WRITE_REQ vh) v))
      = Some (WriteReq (AttWriteReqHeader_new opcode_WRITE_REQ vh) v)"
    by (rule parse_AttPdu_bytes) (simp add: AttWriteReqHeader_new_def)
  then show ?thesis
    using assms
    by (simp add: process_att_packet_def att_write_req_def att_write_attribute_def Let_def AttWriteReqHeader_new_def
        GattDatabase_write_def check_write_permitted_def cccd_value_def observe_def del: AttPdu_bytes.simps)
qed

lemma serve_read:
  assumes "bt_get (attributes (vd_gatt_db d)) vh = Some a" "perm_read (attr_permissions a)"
  shows "\<exists>d'. process_att_packet ow h (AttPdu_bytes (ReadReq \<lparr>rrq_opcode = opcode_READ_REQ, rrq_handle = vh\<rparr>)) d
      = Some (Inr (Some (opcode_READ_RSP # attr_value a)), d')
    \<and> vd_gatt_db d' = vd_gatt_db d \<and> vd_connections d' = vd_connections d"
proof -
  have "AttPdu_parse (AttPdu_bytes (ReadReq \<lparr>rrq_opcode = opcode_READ_REQ, rrq_handle = vh\<rparr>))
      = Some (ReadReq \<lparr>rrq_opcode = opcode_READ_REQ, rrq_handle = vh\<rparr>)"
    by (rule parse_AttPdu_bytes) simp
  then show ?thesis
    using assms
    by (simp add: process_att_packet_def att_read_def Let_def GattDatabase_read_def observe_def del: AttPdu_bytes.simps)
qed

lemma write_crosses:
  assumes ready: "link_ready h db c host d" and ch: "resolve c target = Some ch" "dc_value_handle ch = vh"
    and a: "bt_get (attributes db) vh = Some a" "perm_write (attr_permissions a)" "attr_handler a = None"
      "attr_uuid a \<noteq> Uuid_CCCD"
    and len: "length v < 65533"
  shows "\<exists>r host' d'. link_round ec gen rnd ow (pump_to_link (OpWrite target v True) c host d)
      = Some ([], raise_event (CharacteristicWrite (uuid_of c target) vh 0) (c\<lparr>ce_reassembler := r\<rparr>), host', d')
    \<and> link_ok h (modify_attribute db vh (\<lambda>a. a\<lparr>attr_value := v\<rparr>)) (c\<lparr>ce_reassembler := r\<rparr>) host' d'"
proof -
  let ?op = "OpWrite target v True" and ?req = "AttPdu_bytes (WriteReq (AttWriteReqHeader_new opcode_WRITE_REQ vh) v)"
  let ?c = "c\<lparr>ce_in_flight := Some (?op, vh)\<rparr>"
  have c: "ce_phase c = PhaseReady" "ce_in_flight c = None" "ce_pending c = []" "gc_connection_handle (ce_client c) = h"
    "vd_gatt_db d = db" "smp_queue h d = []" and ok: "link_ok h db ?c host d"
    using ready by (simp_all add: link_ready_def link_ok_def)
  have same: "resolve (c\<lparr>ce_pending := ops\<rparr>) target = resolve c target" for ops
    by (cases target) (simp_all add: all_characteristics_def)
  have start: "pump_to_link ?op c host d = (send_frame ?c h (L2capHeader_serialize cid_ATT ?req), ?c, host, d)"
    using c ch same [of "[]"] by (simp add: pump_to_link_def enqueue_def pump_def write_request_bytes send_frame_def)
  obtain d' where d': "process_att_packet ow h ?req d = Some (Inr (Some [opcode_WRITE_RSP]), d')"
      "vd_gatt_db d' = modify_attribute db vh (\<lambda>a. a\<lparr>attr_value := v\<rparr>)" "smp_queue h d' = []"
    using serve_write [of d vh a ow h v] a c smp_queue_connections by fastforce
  have "length ?req < 65536" "length [opcode_WRITE_RSP] < 65536"
    using len by (simp_all add: AttWriteReqHeader_as_bytes_def)
  from link_request [OF ok this d', of ec gen rnd] obtain r host' d'' where
    round: "link_round ec gen rnd ow (send_frame ?c h (L2capHeader_serialize cid_ATT ?req), ?c, host, d)
      = map_option (\<lambda>x. case then_pump x of (ps, c) \<Rightarrow> (ps, c, host', d''))
          (dispatch_att [opcode_WRITE_RSP] (?c\<lparr>ce_reassembler := r\<rparr>))"
    and ok': "link_ok h (modify_attribute db vh (\<lambda>a. a\<lparr>attr_value := v\<rparr>)) (?c\<lparr>ce_reassembler := r\<rparr>) host' d''"
    by blast
  let ?c' = "raise_event (CharacteristicWrite (uuid_of c target) vh 0) (c\<lparr>ce_reassembler := r\<rparr>)"
  have uuid: "uuid_of (c\<lparr>ce_reassembler := r\<rparr>) target = uuid_of c target"
    by (cases target) (simp_all add: uuid_for_handle_def all_characteristics_def)
  have "c\<lparr>ce_reassembler := r, ce_in_flight := None\<rparr> = c\<lparr>ce_reassembler := r\<rparr>" using c(2) by simp
  with uuid have "dispatch_att [opcode_WRITE_RSP] (?c\<lparr>ce_reassembler := r\<rparr>) = Some ([], ?c')"
    using c(1) by (simp add: dispatch_att_def is_peer_request_def complete_operation_def Let_def)
  moreover have "then_pump ([], ?c') = ([], ?c')"
    using pump_idle [of ?c'] c(3) by (simp add: then_pump_def raise_event_def)
  ultimately show ?thesis
    using start round ok' by (intro exI [of _ r] exI [of _ host'] exI [of _ d'']) (simp add: link_ok_def)
qed

lemma read_crosses:
  assumes ready: "link_ready h db c host d" and ch: "resolve c target = Some ch" "dc_value_handle ch = vh"
    and a: "bt_get (attributes db) vh = Some a" "perm_read (attr_permissions a)" "attr_value a = v"
    and len: "length v < 65535"
  shows "\<exists>r host' d'. link_round ec gen rnd ow (pump_to_link (OpRead target) c host d)
      = Some ([], raise_event (CharacteristicRead (uuid_of c target) vh v 0)
          (c\<lparr>ce_reassembler := r, ce_values := (ce_values c)(vh \<mapsto> v)\<rparr>), host', d')
    \<and> link_ok h db (c\<lparr>ce_reassembler := r\<rparr>) host' d'"
proof -
  let ?op = "OpRead target" and ?req = "AttPdu_bytes (ReadReq \<lparr>rrq_opcode = opcode_READ_REQ, rrq_handle = vh\<rparr>)"
  let ?c = "c\<lparr>ce_in_flight := Some (?op, vh)\<rparr>"
  have c: "ce_phase c = PhaseReady" "ce_in_flight c = None" "ce_pending c = []" "gc_connection_handle (ce_client c) = h"
    "vd_gatt_db d = db" "smp_queue h d = []" and ok: "link_ok h db ?c host d"
    using ready by (simp_all add: link_ready_def link_ok_def)
  have same: "resolve (c\<lparr>ce_pending := ops\<rparr>) target = resolve c target" for ops
    by (cases target) (simp_all add: all_characteristics_def)
  have start: "pump_to_link ?op c host d = (send_frame ?c h (L2capHeader_serialize cid_ATT ?req), ?c, host, d)"
    using c ch same [of "[]"] by (simp add: pump_to_link_def enqueue_def pump_def read_request_bytes send_frame_def)
  obtain d' where d': "process_att_packet ow h ?req d = Some (Inr (Some (opcode_READ_RSP # v)), d')"
      "vd_gatt_db d' = db" "smp_queue h d' = []"
    using serve_read [of d vh a ow h] a c smp_queue_connections by fastforce
  have "length ?req < 65536" "length (opcode_READ_RSP # v) < 65536"
    using len by (simp_all add: AttReadReq_as_bytes_def)
  from link_request [OF ok this d', of ec gen rnd] obtain r host' d'' where
    round: "link_round ec gen rnd ow (send_frame ?c h (L2capHeader_serialize cid_ATT ?req), ?c, host, d)
      = map_option (\<lambda>x. case then_pump x of (ps, c) \<Rightarrow> (ps, c, host', d''))
          (dispatch_att (opcode_READ_RSP # v) (?c\<lparr>ce_reassembler := r\<rparr>))"
    and ok': "link_ok h db (?c\<lparr>ce_reassembler := r\<rparr>) host' d''"
    by blast
  let ?c' = "raise_event (CharacteristicRead (uuid_of c target) vh v 0)
      (c\<lparr>ce_reassembler := r, ce_values := (ce_values c)(vh \<mapsto> v)\<rparr>)"
  have uuid: "uuid_of (c\<lparr>ce_reassembler := r\<rparr>) target = uuid_of c target"
    by (cases target) (simp_all add: uuid_for_handle_def all_characteristics_def)
  have "c\<lparr>ce_reassembler := r, ce_in_flight := None\<rparr> = c\<lparr>ce_reassembler := r\<rparr>" using c(2) by simp
  with uuid have "dispatch_att (opcode_READ_RSP # v) (?c\<lparr>ce_reassembler := r\<rparr>) = Some ([], ?c')"
    using c(1) by (simp add: dispatch_att_def is_peer_request_def complete_operation_def Let_def)
  moreover have "then_pump ([], ?c') = ([], ?c')"
    using pump_idle [of ?c'] c(3) by (simp add: then_pump_def raise_event_def)
  ultimately show ?thesis
    using start round ok' by (intro exI [of _ r] exI [of _ host'] exI [of _ d'']) (simp add: link_ok_def)
qed

section \<open>A write, then a read\<close>

text \<open>C2: What the application of a central that is ready writes to a characteristic, it reads back:
  the write and the read each take one round of the link and leave both ends idle; the peripheral's
  database holds the written bytes at the characteristic's handle and is otherwise unchanged, the
  central has recorded them, and the application has been told of both, in order, with success.\<close>
theorem write_then_read_over_the_link:
  assumes "link_ready h db c host d" "resolve c target = Some ch" "dc_value_handle ch = vh"
    and "bt_get (attributes db) vh = Some a" "perm_read (attr_permissions a)" "perm_write (attr_permissions a)"
    and "attr_handler a = None" "attr_uuid a \<noteq> Uuid_CCCD" "length v < 65533"
  shows "\<exists>c1 host1 d1 c2 host2 d2.
      link_round ec gen rnd ow (pump_to_link (OpWrite target v True) c host d) = Some ([], c1, host1, d1)
    \<and> link_round ec gen rnd ow (pump_to_link (OpRead target) c1 host1 d1) = Some ([], c2, host2, d2)
    \<and> link_ready h (modify_attribute db vh (\<lambda>a. a\<lparr>attr_value := v\<rparr>)) c2 host2 d2
    \<and> central_value_at c2 vh = Some v
    \<and> ce_events c2 = ce_events c @ [CharacteristicWrite (uuid_of c target) vh 0, CharacteristicRead (uuid_of c target) vh v 0]"
proof -
  let ?db = "modify_attribute db vh (\<lambda>a. a\<lparr>attr_value := v\<rparr>)"
  obtain r host1 d1 where one: "link_round ec gen rnd ow (pump_to_link (OpWrite target v True) c host d)
      = Some ([], raise_event (CharacteristicWrite (uuid_of c target) vh 0) (c\<lparr>ce_reassembler := r\<rparr>), host1, d1)"
    and ok1: "link_ok h ?db (c\<lparr>ce_reassembler := r\<rparr>) host1 d1"
    using write_crosses [OF assms(1-4,6-9)] by blast
  let ?c1 = "raise_event (CharacteristicWrite (uuid_of c target) vh 0) (c\<lparr>ce_reassembler := r\<rparr>)"
  have ready1: "link_ready h ?db ?c1 host1 d1"
    using assms(1) ok1 by (simp add: link_ready_def link_ok_def raise_event_def)
  have res: "resolve ?c1 target = Some ch" "uuid_of ?c1 target = uuid_of c target"
    using assms(2) by (cases target; simp add: all_characteristics_def raise_event_def uuid_for_handle_def)+
  have a: "bt_get (attributes ?db) vh = Some (a\<lparr>attr_value := v\<rparr>)" using assms(4) by simp
  have perm: "perm_read (attr_permissions (a\<lparr>attr_value := v\<rparr>))" "attr_value (a\<lparr>attr_value := v\<rparr>) = v"
    and len: "length v < 65535" using assms(5,9) by simp_all
  obtain r2 host2 d2 where two: "link_round ec gen rnd ow (pump_to_link (OpRead target) ?c1 host1 d1)
      = Some ([], raise_event (CharacteristicRead (uuid_of c target) vh v 0)
          (?c1\<lparr>ce_reassembler := r2, ce_values := (ce_values ?c1)(vh \<mapsto> v)\<rparr>), host2, d2)"
    and ok2: "link_ok h ?db (?c1\<lparr>ce_reassembler := r2\<rparr>) host2 d2"
    using read_crosses [OF ready1 res(1) assms(3) a perm len, of ec gen rnd ow] unfolding res(2) by blast
  let ?c2 = "raise_event (CharacteristicRead (uuid_of c target) vh v 0)
      (?c1\<lparr>ce_reassembler := r2, ce_values := (ce_values ?c1)(vh \<mapsto> v)\<rparr>)"
  have "link_ready h ?db ?c2 host2 d2"
    using assms(1) ok2 by (simp add: link_ready_def link_ok_def raise_event_def)
  moreover have "central_value_at ?c2 vh = Some v"
    by (simp add: central_value_at_def raise_event_def)
  moreover have "ce_events ?c2 = ce_events c @ [CharacteristicWrite (uuid_of c target) vh 0, CharacteristicRead (uuid_of c target) vh v 0]"
    by (simp add: raise_event_def)
  ultimately show ?thesis using one two by blast
qed

text \<open>A central that has discovered the sample database.\<close>

definition sample_central :: LeCentral where
  "sample_central = LeCentral_new\<lparr>ce_phase := PhaseReady, ce_client :=
     \<lparr>gc_connection_handle = 0x40, gc_peer_address = Address_ANY, gc_mtu = 512, gc_services =
       [\<lparr>ds_start_handle = 1, ds_end_handle = 3, ds_uuid = Uuid16 0x180D, ds_characteristics =
          [\<lparr>dc_declaration_handle = 2, dc_value_handle = 3, dc_properties = 0x0A, dc_uuid = Uuid16 0x2A37, dc_descriptors = []\<rparr>]\<rparr>,
        \<lparr>ds_start_handle = 4, ds_end_handle = 4, ds_uuid = Uuid16 0x180F, ds_characteristics = []\<rparr>]\<rparr>\<rparr>"

lemma sample_link_ready: "link_ready 0x40 sample_db sample_central LeHost_new sample_device"
  by (simp add: link_ready_def link_ok_def sample_central_def LeCentral_new_def LE_ACL_DATA_LEN_def AclReassembler_new_def
      LeHost_new_def smp_queue_def ConnectionState_new_def ConnectionState_new_with_role_def)

theorem write_then_read_over_the_link_witness:
  "\<exists>c1 host1 d1 c2 host2 d2.
      link_round sample_curve sample_pair (\<lambda>_ n. replicate n 0) counting_handler
        (pump_to_link (OpWrite (TargetUuid (Uuid16 0x2A37)) [7, 8, 9] True) sample_central LeHost_new sample_device)
        = Some ([], c1, host1, d1)
    \<and> link_round sample_curve sample_pair (\<lambda>_ n. replicate n 0) counting_handler
        (pump_to_link (OpRead (TargetUuid (Uuid16 0x2A37))) c1 host1 d1) = Some ([], c2, host2, d2)
    \<and> central_value_at c2 3 = Some [7, 8, 9]"
proof -
  let ?a = "\<lparr>attr_handle = 3, attr_uuid = Uuid16 0x2A37, attr_value = [0, 80],
           attr_permissions = permissions_default, attr_handler = None\<rparr> :: nat Attribute"
  let ?ch = "\<lparr>dc_declaration_handle = 2, dc_value_handle = 3, dc_properties = 0x0A, dc_uuid = Uuid16 0x2A37, dc_descriptors = []\<rparr>"
  have "bt_get (attributes sample_db) 3 = Some ?a" by (simp add: sample_db_def bt_get_def)
  moreover have "resolve sample_central (TargetUuid (Uuid16 0x2A37)) = Some ?ch"
    by (simp add: sample_central_def find_characteristic_def)
  ultimately show ?thesis
    using write_then_read_over_the_link [OF sample_link_ready, of "TargetUuid (Uuid16 0x2A37)" ?ch 3 ?a "[7, 8, 9]"
        sample_curve sample_pair "\<lambda>_ n. replicate n 0" counting_handler]
    by (force simp: permissions_default_def)
qed

section \<open>What the central gets wrong\<close>

text \<open>A frame on any L2CAP channel is taken for an ATT response. A peripheral that sends an SMP
  Security Request while a read is under way completes that read: the central records the request's
  authentication flags as the characteristic's value and reports success.\<close>
theorem security_request_completes_read:
  assumes "ce_phase c = PhaseReady" "ce_in_flight c = Some (OpRead target, vh)" "ce_pending c = []"
    and "buffers (ce_reassembler c) h = None" "h AND 0x0FFF = h"
  shows "\<exists>c'. deliver_to_central (acl_packets h (L2capHeader_serialize cid_SMP [smp_SECURITY_REQUEST, auth_req])) c = Some ([], c')
    \<and> central_value_at c' vh = Some [auth_req] \<and> ce_in_flight c' = None
    \<and> ce_events c' = ce_events c @ [CharacteristicRead (uuid_of c target) vh [auth_req] 0]"
proof -
  let ?p = "[smp_SECURITY_REQUEST, auth_req]"
  let ?f = "L2capHeader_serialize cid_SMP ?p"
  let ?cs = "chunks (max LE_ACL_DATA_LEN LE_ACL_DATA_LEN) ?f"
  have f: "L2capHeader_parse ?f = Some (L2capHeader_new 2 cid_SMP, ?p)"
    using l2cap_parse_prefix [of ?p "L2capHeader_new 2 cid_SMP" "[]"]
    by (simp add: L2capHeader_serialize_def L2capHeader_new_def)
  have "length ?p < 65536" "LE_ACL_DATA_LEN < 65536" by (simp_all add: LE_ACL_DATA_LEN_def)
  from frame_fragments [OF this assms(4) refl, of cid_SMP] obtain n r where r:
      "\<forall>x \<in> set ?cs. length x < 65536"
      "map snd (fst (feed (ce_reassembler c) (fragments h True ?cs))) = replicate n (Inr None) @ [Inr (Some ?f)]"
      "snd (feed (ce_reassembler c) (fragments h True ?cs)) = r" by blast
  let ?c = "c\<lparr>ce_reassembler := r, ce_in_flight := None, ce_values := (ce_values c)(vh \<mapsto> [auth_req])\<rparr>"
  let ?c' = "raise_event (CharacteristicRead (uuid_of c target) vh [auth_req] 0) ?c"
  have uuid: "uuid_of (c\<lparr>ce_reassembler := r, ce_in_flight := None\<rparr>) target = uuid_of c target"
    by (cases target) (simp_all add: uuid_for_handle_def all_characteristics_def)
  have "dispatch_att ?p (c\<lparr>ce_reassembler := r\<rparr>) = Some ([], ?c')"
    using assms(1,2) uuid by (simp add: dispatch_att_def is_peer_request_def complete_operation_def Let_def)
  moreover have "then_pump ([], ?c') = ([], ?c')"
    using pump_idle [of ?c'] assms(3) by (simp add: then_pump_def raise_event_def)
  ultimately have "deliver_to_central (acl_packets h ?f) c = Some ([], ?c')"
    using deliver_frame_to_central [OF r(1) assms(5) r(2,3) f] assms(3)
    by (simp add: acl_packets_def acl_packets_with_len_def)
  then show ?thesis by (intro exI [of _ ?c']) (simp add: raise_event_def central_value_at_def)
qed

theorem security_request_completes_read_witness:
  "\<exists>c'. deliver_to_central (acl_packets 0x40 (L2capHeader_serialize cid_SMP [smp_SECURITY_REQUEST, 0x0D]))
      (sample_central\<lparr>ce_in_flight := Some (OpRead (TargetHandle 3), 3)\<rparr>) = Some ([], c')
    \<and> central_value_at c' 3 = Some [0x0D]"
  using security_request_completes_read [of "sample_central\<lparr>ce_in_flight := Some (OpRead (TargetHandle 3), 3)\<rparr>"
      "TargetHandle 3" 3 "0x40" "0x0D"]
  by (auto simp: sample_central_def LeCentral_new_def AclReassembler_new_def)

end
