(* ===== verification/Central_Safety.thy ===== *)
theory Central_Safety
  imports Le_Central
begin

text \<open>
  What holds of a central in every state its controller, its peer and the application can bring it
  into: the steps are any packet at all and every call of the public interface.
\<close>

section \<open>Steps\<close>

inductive central_step :: "LeCentral \<Rightarrow> bytes list \<Rightarrow> LeCentral \<Rightarrow> bool" where
  packet: "on_packet p c = Some (out, c') \<Longrightarrow> central_step c out c'"
| connect: "connect target c = (out, c') \<Longrightarrow> central_step c out c'"
| connect_with_type: "connect_with_type target t c = (out, c') \<Longrightarrow> central_step c out c'"
| disconnect: "central_step c (central_disconnect c) c"
| event_mask: "central_step c [] (central_set_le_event_mask m c)"
| acl_data_len: "central_step c [] (set_acl_data_len n c)"
| queue: "central_step c [] (enqueue op c)"
| pump: "pump c = (out, c') \<Longrightarrow> central_step c out c'"
| events: "central_step c [] (snd (take_events c))"

inductive central_reachable :: "LeCentral \<Rightarrow> bool" where
  new: "central_reachable LeCentral_new"
| step: "central_reachable c \<Longrightarrow> central_step c out c' \<Longrightarrow> central_reachable c'"

inductive_cases central_step_cases: "central_step c out c'"

section \<open>The invariant\<close>

definition central_inv :: "LeCentral \<Rightarrow> bool" where
  "central_inv c =
     (reassembler_inv (ce_reassembler c) \<and> LE_ACL_DATA_LEN \<le> ce_acl_data_len c
      \<and> gc_connection_handle (ce_client c) AND 0x0FFF = gc_connection_handle (ce_client c)
      \<and> 23 \<le> gc_mtu (ce_client c) \<and> gc_mtu (ce_client c) \<le> CLIENT_MTU
      \<and> (\<forall>i. ce_phase c = PhaseDiscoveringCharacteristics i \<longrightarrow> i < length (gc_services (ce_client c))))"

text \<open>An update that leaves alone what the invariant speaks of, up to the discovered content of a
  service.\<close>

definition keeps :: "LeCentral \<Rightarrow> LeCentral \<Rightarrow> bool" where
  "keeps c c' =
     (ce_reassembler c' = ce_reassembler c \<and> ce_acl_data_len c' = ce_acl_data_len c \<and> ce_phase c' = ce_phase c
      \<and> gc_connection_handle (ce_client c') = gc_connection_handle (ce_client c)
      \<and> gc_mtu (ce_client c') = gc_mtu (ce_client c)
      \<and> length (gc_services (ce_client c')) = length (gc_services (ce_client c)))"

lemma keeps_inv: "keeps c c' \<Longrightarrow> central_inv c \<Longrightarrow> central_inv c'"
  by (simp add: keeps_def central_inv_def)

lemma keeps_trans: "keeps a b \<Longrightarrow> keeps b c \<Longrightarrow> keeps a c"
  by (simp add: keeps_def)

lemma keeps_simps [simp]:
  "keeps c c"
  "keeps c (raise_event e c) "
  "keeps c (central_fail target operation reason c)"
  "keeps c (enqueue op c)" "keeps c (central_set_le_event_mask m c)" "keeps c (c\<lparr>ce_events := es\<rparr>)"
  "keeps c (c\<lparr>ce_in_flight := f\<rparr>)" "keeps c (c\<lparr>ce_pending := ops\<rparr>)" "keeps c (c\<lparr>ce_values := vs\<rparr>)"
  "keeps c (c\<lparr>ce_subscribed := ss\<rparr>)"
  by (simp_all add: keeps_def raise_event_def central_fail_def enqueue_def central_set_le_event_mask_def Let_def)

lemma keeps_raise [simp]: "keeps c (raise_event e c') = keeps c c'"
  by (simp add: keeps_def raise_event_def)

lemma start_subscribe_keeps: "start_subscribe target enable c = (out, st, c') \<Longrightarrow> keeps c c'"
  by (auto simp: start_subscribe_def Let_def split: option.splits)

lemma start_keeps: "start op c = (out, st, c') \<Longrightarrow> keeps c c'"
  by (cases op) (auto simp: Let_def start_subscribe_keeps split: option.splits if_splits)

lemma pump_loop_keeps: "pump_loop ops c = (out, c') \<Longrightarrow> keeps c c'"
proof (induction ops c arbitrary: out c' rule: pump_loop.induct)
  case (2 op ops c)
  obtain o1 st c1 where start: "start op (c\<lparr>ce_pending := ops\<rparr>) = (o1, st, c1)" by (metis prod_cases3)
  obtain o2 c2 where rest: "pump_loop ops c1 = (o2, c2)" by fastforce
  show ?case
  proof (cases "ce_in_flight c")
    case None
    have "keeps c c1" using start_keeps [OF start] by (simp add: keeps_def)
    moreover have "keeps c1 c2" using "2.IH" None start rest by auto
    ultimately show ?thesis using "2.prems" None start rest by (auto intro: keeps_trans)
  qed (use "2.prems" in auto)
qed simp

lemma pump_keeps: "pump c = (out, c') \<Longrightarrow> keeps c c'"
  by (auto simp: pump_def pump_loop_keeps split: if_splits)

lemma set_descriptors_length [simp]: "length (set_descriptors target found ss) = length ss"
  by (induction target found ss rule: set_descriptors.induct) (auto split: option.split)

lemma record_descriptors_keeps [simp]: "keeps c (record_descriptors target att c)"
  by (auto simp: record_descriptors_def keeps_def split: option.split)

lemma complete_operation_keeps: "complete_operation att is_error c = (out, c') \<Longrightarrow> keeps c c'"
proof -
  assume a: "complete_operation att is_error c = (out, c')"
  have sub: "keeps c c'" if "start (OpSubscribe target enable) d = (out, st, c')" "keeps c d" for target enable d st
    using start_keeps [OF that(1)] that(2) keeps_trans by blast
  show ?thesis
  proof (cases "ce_in_flight c")
    case (Some x)
    obtain op h where x: "x = (op, h)" by fastforce
    show ?thesis
    proof (cases op)
      case (OpDiscoverDescriptors target enable)
      let ?c = "c\<lparr>ce_in_flight := None\<rparr>"
      have "keeps c (record_descriptors target att ?c)" "keeps c ?c"
        using keeps_trans [OF _ record_descriptors_keeps] by auto
      then show ?thesis
        using a Some x OpDiscoverDescriptors
        by (auto simp: complete_operation_def Let_def split: prod.splits if_splits list.splits simp del: start.simps
            intro: sub)
    qed (use a Some x in \<open>auto simp: complete_operation_def Let_def keeps_def raise_event_def split: if_splits\<close>)
  qed (use a in \<open>auto simp: complete_operation_def Let_def\<close>)
qed

section \<open>Discovery keeps its index\<close>

lemma push_characteristics_length: "push_characteristics u cs ss = Some ss' \<Longrightarrow> length ss' = length ss"
  by (induction u cs ss arbitrary: ss' rule: push_characteristics.induct) (auto split: if_splits)

lemma client_response_keeps:
  "on_discover_characteristics_response u att c = Some (r, c') \<Longrightarrow>
    length (gc_services c') = length (gc_services c) \<and> gc_mtu c' = gc_mtu c
    \<and> gc_connection_handle c' = gc_connection_handle c"
  using push_characteristics_length [of u _ "gc_services c"]
  by (fastforce simp: on_discover_characteristics_response_def split: option.splits if_splits)

lemma services_response_keeps [simp]:
  "gc_mtu (snd (on_discover_services_response att c)) = gc_mtu c"
  "gc_connection_handle (snd (on_discover_services_response att c)) = gc_connection_handle c"
  by (simp_all add: on_discover_services_response_def split: option.split)

lemma finish_discovery_inv: "central_inv c \<Longrightarrow> central_inv (finish_discovery c)"
  by (simp add: central_inv_def finish_discovery_def raise_event_def)

lemma start_characteristic_discovery_inv:
  "central_inv c \<Longrightarrow> \<exists>out c'. start_characteristic_discovery c = Some (out, c') \<and> central_inv c'"
  by (auto simp: start_characteristic_discovery_def discover_characteristics_for_def Let_def finish_discovery_inv)
    (auto simp: central_inv_def)

lemma next_characteristic_service_inv:
  "central_inv c \<Longrightarrow> \<exists>out c'. next_characteristic_service i c = Some (out, c') \<and> central_inv c'"
  by (auto simp: next_characteristic_service_def discover_characteristics_for_def Let_def finish_discovery_inv)
    (auto simp: central_inv_def)

lemma mtu_bounds:
  "23 \<le> gc_mtu (on_exchange_mtu_response w CLIENT_MTU c)" "gc_mtu (on_exchange_mtu_response w CLIENT_MTU c) \<le> CLIENT_MTU"
  by (auto simp: on_exchange_mtu_response_def max_def min_def not_le)


section \<open>Every packet is handled\<close>

lemma raise_inv [simp]: "central_inv (raise_event e c) = central_inv c"
  by (simp add: central_inv_def raise_event_def)

lemma values_inv [simp]: "central_inv (c\<lparr>ce_values := vs\<rparr>) = central_inv c"
  by (simp add: central_inv_def)

lemma characteristics_round_inv:
  assumes "central_inv c" "ce_phase c = PhaseDiscoveringCharacteristics i"
    and "on_discover_characteristics_response u att (ce_client c) = Some (r, client)"
  shows "central_inv (c\<lparr>ce_client := client\<rparr>)"
  using assms client_response_keeps [OF assms(3)] by (simp add: central_inv_def)

lemma dispatch_att_inv:
  assumes inv: "central_inv c"
  shows "\<exists>out c'. dispatch_att att c = Some (out, c') \<and> central_inv c'"
proof (cases att)
  case (Cons op rest)
  have mtu: "central_inv (c\<lparr>ce_client := on_exchange_mtu_response w CLIENT_MTU (ce_client c), ce_phase := PhaseDiscoveringServices\<rparr>)"
      "central_inv (c\<lparr>ce_phase := PhaseDiscoveringServices\<rparr>)" for w
    using inv mtu_bounds [of w "ce_client c"] by (simp_all add: central_inv_def) (simp add: on_exchange_mtu_response_def)
  show ?thesis
  proof (cases "is_peer_request op \<or> op = opcode_WRITE_CMD \<or> op = SIGNED_WRITE_CMD
      \<or> (op = opcode_HANDLE_VALUE_NTF \<or> op = opcode_HANDLE_VALUE_IND) \<and> 3 \<le> length att")
    case True
    then show ?thesis using inv Cons by (auto simp: dispatch_att_def Let_def)
  next
    case False
    note go = False
    show ?thesis
    proof (cases "ce_phase c")
      case PhaseExchangingMtu
      then show ?thesis using mtu go Cons by (auto simp: dispatch_att_def Let_def raise_event_def central_inv_def)
    next
      case PhaseDiscoveringServices
      have "central_inv (c\<lparr>ce_client := snd (on_discover_services_response att (ce_client c))\<rparr>)"
        using inv PhaseDiscoveringServices by (simp add: central_inv_def)
      with start_characteristic_discovery_inv [OF this] start_characteristic_discovery_inv [OF inv]
      show ?thesis using inv go Cons PhaseDiscoveringServices by (auto simp: dispatch_att_def Let_def)
    next
      case (PhaseDiscoveringCharacteristics i)
      then have i: "\<not> length (gc_services (ce_client c)) \<le> i" using inv by (auto simp: central_inv_def)
      obtain r client where r: "on_discover_characteristics_response (ds_uuid (gc_services (ce_client c) ! i)) att (ce_client c)
          = Some (r, client)"
        using on_discover_characteristics_total by fastforce
      note inv2 = characteristics_round_inv [OF inv PhaseDiscoveringCharacteristics r]
      from next_characteristic_service_inv [OF this, of i] next_characteristic_service_inv [OF inv, of i] inv2
      show ?thesis using inv go Cons PhaseDiscoveringCharacteristics i r by (auto simp: dispatch_att_def Let_def)
    next
      case PhaseReady
      obtain out c' where c': "complete_operation att (op = opcode_ERROR_RSP) c = (out, c')" by fastforce
      show ?thesis
        using keeps_inv [OF complete_operation_keeps [OF c'] inv] go Cons PhaseReady c'
        by (auto simp: dispatch_att_def Let_def)
    qed (use inv go Cons in \<open>auto simp: dispatch_att_def Let_def\<close>)
  qed
qed (use inv in \<open>simp add: dispatch_att_def\<close>)

lemma on_acl_inv: "central_inv c \<Longrightarrow> \<exists>out c'. on_acl p c = Some (out, c') \<and> central_inv c'"
proof (cases "HciAclHeader_parse (tl p)")
  case (Some x)
  assume inv: "central_inv c"
  obtain header payload where x: "x = (header, payload)" by fastforce
  obtain res r where push: "push_fragment (ce_reassembler c) (HciAclHeader_handle header)
      (HciAclHeader_is_first_fragment header) payload = (res, r)" by fastforce
  have "reassembler_inv r"
    using push_fragment_inv [of "ce_reassembler c" "HciAclHeader_handle header" "HciAclHeader_is_first_fragment header" payload]
      inv push by (simp add: central_inv_def)
  then have "central_inv (c\<lparr>ce_reassembler := r\<rparr>)" using inv by (simp add: central_inv_def)
  with dispatch_att_inv [OF this] show ?thesis
    using Some x push by (auto simp: on_acl_def Let_def split: sum.splits option.splits)
qed (simp add: on_acl_def)

lemma and_mask_idem: "(w AND m) AND m = (w AND m :: u16)"
  by (simp add: and.assoc)

lemma on_event_inv: "central_inv c \<Longrightarrow> on_event p c = (out, c') \<Longrightarrow> central_inv c'"
  by (auto simp: on_event_def Let_def finish_initializing_def GattClient_new_def and_mask_idem central_inv_def raise_event_def
      split: option.splits HciEvent.splits if_splits)

lemma on_packet_inv: "central_inv c \<Longrightarrow> \<exists>out c'. on_packet p c = Some (out, c') \<and> central_inv c'"
proof -
  assume inv: "central_inv c"
  have "\<exists>out c1. (case p of [] \<Rightarrow> Some ([], c) | t # _ \<Rightarrow> if t = h4_HCI_EVENT then Some (on_event p c)
      else if t = h4_HCI_ACL_DATA then on_acl p c else Some ([], c)) = Some (out, c1) \<and> central_inv c1"
    using inv on_acl_inv [OF inv, of p] on_event_inv [OF inv, of p]
    by (cases "on_event p c") (auto split: list.split)
  then obtain out c1 where c1: "(case p of [] \<Rightarrow> Some ([], c) | t # _ \<Rightarrow> if t = h4_HCI_EVENT then Some (on_event p c)
      else if t = h4_HCI_ACL_DATA then on_acl p c else Some ([], c)) = Some (out, c1)" "central_inv c1" by blast
  obtain out2 c2 where pump: "pump c1 = (out2, c2)" by fastforce
  show ?thesis
    using keeps_inv [OF pump_keeps [OF pump] c1(2)] c1(1) pump by (simp add: on_packet_def)
qed

lemma central_new_inv: "central_inv LeCentral_new"
  using reassembler_inv_new by (simp add: central_inv_def LeCentral_new_def GattClient_new_def)

lemma central_step_inv: "central_step c out c' \<Longrightarrow> central_inv c \<Longrightarrow> central_inv c'"
proof (induction rule: central_step.induct)
  case (packet p c out c')
  with on_packet_inv [of c p] show ?case by auto
next
  case (pump c out c')
  with pump_keeps keeps_inv show ?case by blast
next
  case (queue c op)
  then show ?case using keeps_inv keeps_simps(4) by blast
next
  case (acl_data_len c n)
  then show ?case by (simp add: central_inv_def set_acl_data_len_def)
qed (auto simp: connect_def connect_with_type_def begin_connect_def take_events_def central_set_le_event_mask_def
    central_inv_def GattClient_new_def)

lemma central_reachable_inv: "central_reachable c \<Longrightarrow> central_inv c"
  by (induction rule: central_reachable.induct) (auto simp: central_new_inv intro: central_step_inv)

text \<open>C5: Nothing a controller, a peer or the application does makes the central panic: in every
  reachable state any packet whatever is handled, the service whose characteristics are being
  discovered is one of the discovered services, the reassembler holds only frames that are not yet
  complete, the negotiated MTU lies between 23 and 517, and fragments are never shorter than the
  controller's default.\<close>
theorem central_never_panics:
  assumes "central_reachable c"
  shows "(\<exists>out c'. on_packet p c = Some (out, c'))
    \<and> (\<forall>i. ce_phase c = PhaseDiscoveringCharacteristics i \<longrightarrow> i < length (gc_services (ce_client c)))
    \<and> reassembler_inv (ce_reassembler c)
    \<and> 23 \<le> gc_mtu (ce_client c) \<and> gc_mtu (ce_client c) \<le> 517 \<and> LE_ACL_DATA_LEN \<le> ce_acl_data_len c"
proof -
  have "central_inv c" by (rule central_reachable_inv [OF assms])
  with on_packet_inv [OF this, of p] show ?thesis by (auto simp: central_inv_def)
qed

theorem central_never_panics_witness:
  "let c = snd (connect (Address_from_be_bytes (replicate 6 1)) LeCentral_new) in
   central_reachable c \<and> (\<exists>out c'. on_packet [h4_HCI_ACL_DATA, 0x40, 0x20, 9] c = Some (out, c'))"
proof -
  let ?c = "snd (connect (Address_from_be_bytes (replicate 6 1)) LeCentral_new)"
  have "central_step LeCentral_new (fst (connect (Address_from_be_bytes (replicate 6 1)) LeCentral_new)) ?c"
    by (rule central_step.connect) simp
  then have "central_reachable ?c" by (rule central_reachable.step [OF central_reachable.new])
  with central_never_panics [OF this, of "[h4_HCI_ACL_DATA, 0x40, 0x20, 9]"] show ?thesis by (simp add: Let_def)
qed

end
