(* ===== verification/Big_Endian.thy ===== *)
theory Big_Endian
  imports Prelude
begin

text \<open>
  Big-endian integers of any width: \<^verbatim>\<open>to_be_bytes\<close> and \<^verbatim>\<open>from_be_bytes\<close> of the unsigned types, and the
  validity of UTF-8 as \<^verbatim>\<open>String::from_utf8\<close> checks it.
\<close>

type_synonym u32 = "32 word"

section \<open>Octets of a word, the most significant first\<close>

primrec be_octets :: "nat \<Rightarrow> 'a :: len word \<Rightarrow> bytes" where
  "be_octets 0 w = []"
| "be_octets (Suc n) w = be_octets n (drop_bit 8 w) @ [ucast w]"

definition from_be :: "bytes \<Rightarrow> 'a :: len word" where
  "from_be bs = foldl (\<lambda>w b. push_bit 8 w OR ucast b) 0 bs"

lemma length_be_octets [simp]: "length (be_octets n w) = n"
  by (induction n arbitrary: w) simp_all

lemma from_be_simps [simp]: "from_be [] = 0" "from_be (bs @ [b]) = push_bit 8 (from_be bs) OR ucast b"
  by (simp_all add: from_be_def)

lemma low_octet: "push_bit 8 (take_bit (8 * n) (drop_bit 8 w)) OR ucast (ucast w :: u8) = take_bit (8 * Suc n) (w :: 'a :: len word)"
  by (rule bit_word_eqI) (auto simp: bit_simps)

lemma from_be_octets: "from_be (be_octets n w) = take_bit (8 * n) (w :: 'a :: len word)"
  by (induction n arbitrary: w) (simp_all add: low_octet del: mult_Suc_right)

lemma from_be_octets_16 [simp]: "from_be (be_octets 2 w) = (w :: u16)"
  and from_be_octets_32 [simp]: "from_be (be_octets 4 v) = (v :: u32)"
  and from_be_octets_64 [simp]: "from_be (be_octets 8 u) = (u :: 64 word)"
  by (simp_all add: from_be_octets take_bit_word_eq_self)

lemma be_octets_append: "be_octets (m + n) w = be_octets m (drop_bit (8 * n) w) @ be_octets n w"
proof (induction n arbitrary: w)
  case (Suc n)
  have "drop_bit (8 * n) (drop_bit 8 w) = drop_bit (8 * Suc n) w" by (simp add: drop_bit_drop_bit add.commute)
  then show ?case using Suc [of "drop_bit 8 w"] by simp
qed simp

lemma be_octets_from_be:
  assumes "8 * length bs \<le> LENGTH('a)" shows "be_octets (length bs) (from_be bs :: 'a :: len word) = bs"
  using assms
proof (induction bs rule: rev_induct)
  case (snoc b bs)
  then have n: "8 \<le> LENGTH('a)" by simp
  have b: "\<not> bit b (8 + k)" for k using bit_imp_le_length [of b "8 + k"] by auto
  have drop: "drop_bit 8 (push_bit 8 w OR ucast b) = take_bit (LENGTH('a) - 8) w" for w :: "'a word"
    using n by (auto intro!: bit_word_eqI simp: bit_simps less_diff_conv b)
  have low: "ucast (push_bit 8 w OR ucast b :: 'a word) = b" for w :: "'a word"
    using n by (auto intro!: bit_word_eqI simp: bit_simps dest: bit_imp_le_length)
  have take: "be_octets k (take_bit m w) = be_octets k w" if "8 * k \<le> m" for k m and w :: "'a word"
    using that
  proof (induction k arbitrary: m w)
    case (Suc k)
    have "drop_bit 8 (take_bit m w) = take_bit (m - 8) (drop_bit 8 w)" by (simp add: drop_bit_take_bit)
    moreover have "ucast (take_bit m w) = (ucast w :: u8)"
      using Suc.prems by (auto intro!: bit_word_eqI simp: bit_simps)
    ultimately show ?case using Suc.IH [of "m - 8"] Suc.prems by simp
  qed simp
  show ?case using snoc by (simp add: drop low take del: drop_bit_or unsigned_or_eq)
qed simp

lemma two_octets: "length xs = 2 \<Longrightarrow> \<exists>a b. xs = [a, b]"
  by (auto simp: list_of_length)

lemma be_octets_2_list: "\<exists>a b. be_octets 2 (w :: u16) = [a, b] \<and> from_be [a, b] = w"
proof -
  obtain a b where "be_octets 2 w = [a, b]"
    using two_octets [OF length_be_octets [of 2 w]] by blast
  then show ?thesis using from_be_octets_16 [of w] by (intro exI [of _ a] exI [of _ b]) simp
qed

lemma be_octets_inject_16 [simp]: "be_octets 2 v = be_octets 2 w \<longleftrightarrow> v = (w :: u16)"
  by (metis from_be_octets_16)

text \<open>The octets above the ones that carry a value.\<close>

lemma be_octets_0 [simp]: "be_octets n 0 = replicate n 0"
  by (induction n) (simp_all add: replicate_append_same)

lemma be_octets_ones: "(\<And>k. k < 8 * n \<Longrightarrow> bit w k) \<Longrightarrow> be_octets n w = replicate n 0xFF"
proof (induction n arbitrary: w)
  case (Suc n)
  have "bit (drop_bit 8 w) k" if "k < 8 * n" for k using Suc.prems [of "8 + k"] that by (simp add: bit_simps)
  from Suc.IH [OF this] have "be_octets n (drop_bit 8 w) = replicate n 0xFF" .
  moreover have "bit w k" if "k < 8" for k using Suc.prems [of k] that by simp
  then have "ucast w = (mask 8 :: u8)" by (auto intro!: bit_word_eqI simp: bit_simps)
  then have "ucast w = (0xFF :: u8)" by (simp add: mask_eq_exp_minus_1)
  ultimately show ?case by (simp add: replicate_append_same)
qed simp

section \<open>UTF-8\<close>

text \<open>\<open>utf8_tail\<close> is a continuation octet.\<close>

definition utf8_tail :: "u8 \<Rightarrow> bool" where
  "utf8_tail b = (0x80 \<le> b \<and> b \<le> 0xBF)"

fun utf8_valid :: "bytes \<Rightarrow> bool" where
  "utf8_valid [] = True"
| "utf8_valid (a # bs) =
     (if a \<le> 0x7F then utf8_valid bs
      else if 0xC2 \<le> a \<and> a \<le> 0xDF then
        (case bs of b # bs \<Rightarrow> utf8_tail b \<and> utf8_valid bs | _ \<Rightarrow> False)
      else if 0xE0 \<le> a \<and> a \<le> 0xEF then
        (case bs of
           b # c # bs \<Rightarrow>
             utf8_tail b \<and> (a = 0xE0 \<longrightarrow> 0xA0 \<le> b) \<and> (a = 0xED \<longrightarrow> b \<le> 0x9F) \<and> utf8_tail c \<and> utf8_valid bs
         | _ \<Rightarrow> False)
      else if 0xF0 \<le> a \<and> a \<le> 0xF4 then
        (case bs of
           b # c # d # bs \<Rightarrow>
             utf8_tail b \<and> (a = 0xF0 \<longrightarrow> 0x90 \<le> b) \<and> (a = 0xF4 \<longrightarrow> b \<le> 0x8F) \<and> utf8_tail c \<and> utf8_tail d
             \<and> utf8_valid bs
         | _ \<Rightarrow> False)
      else False)"

end
