(* ===== verification/Sdp_Element.thy ===== *)
theory Sdp_Element
  imports Big_Endian
begin

text \<open>
  SDP data elements (\<open>src/src/classic/sdp.rs\<close>): UUIDs and the recursive type-length-value encoding,
  its writer and its parser, and that the parser inverts the writer.
\<close>

abbreviation (input) MAX_DATA_ELEMENT_NESTING :: "nat" where "MAX_DATA_ELEMENT_NESTING \<equiv> 32"

section \<open>UUIDs\<close>

datatype SdpUuid = SdpUuid16 u16 | SdpUuid32 u32 | SdpUuid128 bytes

definition SdpUuid_wire_len :: "SdpUuid \<Rightarrow> nat" where
  "SdpUuid_wire_len u = (case u of SdpUuid16 _ \<Rightarrow> 2 | SdpUuid32 _ \<Rightarrow> 4 | SdpUuid128 _ \<Rightarrow> 16)"

definition SdpUuid_to_wire_bytes :: "SdpUuid \<Rightarrow> bytes" where
  "SdpUuid_to_wire_bytes u =
     (case u of SdpUuid16 v \<Rightarrow> be_octets 2 v | SdpUuid32 v \<Rightarrow> be_octets 4 v | SdpUuid128 b \<Rightarrow> rev b)"

definition SdpUuid_from_wire_bytes :: "bytes \<Rightarrow> SdpUuid option" where
  "SdpUuid_from_wire_bytes bs =
     (if length bs = 2 then Some (SdpUuid16 (from_be bs))
      else if length bs = 4 then Some (SdpUuid32 (from_be bs))
      else if length bs = 16 then Some (SdpUuid128 (rev bs))
      else None)"

abbreviation (input) BT_L2CAP_PROTOCOL_ID :: SdpUuid where "BT_L2CAP_PROTOCOL_ID \<equiv> SdpUuid16 0x0100"
abbreviation (input) BT_RFCOMM_PROTOCOL_ID :: SdpUuid where "BT_RFCOMM_PROTOCOL_ID \<equiv> SdpUuid16 0x0003"
abbreviation (input) SDP_PUBLIC_BROWSE_ROOT :: SdpUuid where "SDP_PUBLIC_BROWSE_ROOT \<equiv> SdpUuid16 0x1002"

section \<open>Data elements\<close>

text \<open>The second argument of an integer is its size in bytes; a URL is its UTF-8 bytes.\<close>

datatype DataElement =
    DeNil
  | DeUnsigned "64 word" u8
  | DeSigned "64 word" u8
  | DeUuid SdpUuid
  | DeText bytes
  | DeBoolean bool
  | DeSequence "DataElement list"
  | DeAlternative "DataElement list"
  | DeUrl bytes

definition unsigned_integer_8 :: "u8 \<Rightarrow> DataElement" where
  "unsigned_integer_8 v = DeUnsigned (ucast v) 1"

definition unsigned_integer_16 :: "u16 \<Rightarrow> DataElement" where
  "unsigned_integer_16 v = DeUnsigned (ucast v) 2"

definition unsigned_integer_32 :: "u32 \<Rightarrow> DataElement" where
  "unsigned_integer_32 v = DeUnsigned (ucast v) 4"

definition as_sequence :: "DataElement \<Rightarrow> DataElement list option" where
  "as_sequence e = (case e of DeSequence items \<Rightarrow> Some items | _ \<Rightarrow> None)"

definition as_uuid :: "DataElement \<Rightarrow> SdpUuid option" where
  "as_uuid e = (case e of DeUuid u \<Rightarrow> Some u | _ \<Rightarrow> None)"

definition as_unsigned_integer :: "DataElement \<Rightarrow> (64 word \<times> u8) option" where
  "as_unsigned_integer e = (case e of DeUnsigned v s \<Rightarrow> Some (v, s) | _ \<Rightarrow> None)"

definition type_code :: "DataElement \<Rightarrow> u8" where
  "type_code e =
     (case e of DeNil \<Rightarrow> 0 | DeUnsigned _ _ \<Rightarrow> 1 | DeSigned _ _ \<Rightarrow> 2 | DeUuid _ \<Rightarrow> 3 | DeText _ \<Rightarrow> 4 | DeBoolean _ \<Rightarrow> 5
      | DeSequence _ \<Rightarrow> 6 | DeAlternative _ \<Rightarrow> 7 | DeUrl _ \<Rightarrow> 8)"

definition size_index_fixed :: "nat \<Rightarrow> u8" where
  "size_index_fixed n = (if n = 2 then 1 else if n = 4 then 2 else if n = 8 then 3 else if n = 16 then 4 else 0)"

definition variable_header_len :: "nat \<Rightarrow> nat" where
  "variable_header_len n = (if n \<le> 0xFF then 2 else if n \<le> 0xFFFF then 3 else 5)"

definition write_variable_header :: "u8 \<Rightarrow> nat \<Rightarrow> bytes \<Rightarrow> bytes" where
  "write_variable_header code n out =
     (if n \<le> 0xFF then out @ [push_bit 3 code OR 5, of_nat n]
      else if n \<le> 0xFFFF then out @ (push_bit 3 code OR 6) # be_octets 2 (of_nat n :: u16)
      else out @ (push_bit 3 code OR 7) # be_octets 4 (of_nat n :: u32))"

definition write_variable :: "u8 \<Rightarrow> bytes \<Rightarrow> bytes \<Rightarrow> bytes" where
  "write_variable code data out = write_variable_header code (length data) out @ data"

fun encoded_len :: "DataElement \<Rightarrow> nat" where
  "encoded_len DeNil = 1"
| "encoded_len (DeUnsigned _ s) = 1 + unat s"
| "encoded_len (DeSigned _ s) = 1 + unat s"
| "encoded_len (DeUuid u) = 1 + SdpUuid_wire_len u"
| "encoded_len (DeBoolean _) = 2"
| "encoded_len (DeText s) = variable_header_len (length s) + length s"
| "encoded_len (DeUrl s) = variable_header_len (length s) + length s"
| "encoded_len (DeSequence items) =
     (let body_len = sum_list (map encoded_len items) in variable_header_len body_len + body_len)"
| "encoded_len (DeAlternative items) =
     (let body_len = sum_list (map encoded_len items) in variable_header_len body_len + body_len)"

text \<open>An integer of more than eight bytes is a panic; \<open>write_items\<close> is the loop over a sequence.\<close>

definition write_integer :: "u8 \<Rightarrow> 64 word \<Rightarrow> u8 \<Rightarrow> bytes \<Rightarrow> bytes option" where
  "write_integer code v s out =
     (if 8 < s then None
      else Some (out @ (push_bit 3 code OR size_index_fixed (unat s)) # drop (8 - unat s) (be_octets 8 v)))"

fun write_to :: "DataElement \<Rightarrow> bytes \<Rightarrow> bytes option"
  and write_items :: "DataElement list \<Rightarrow> bytes \<Rightarrow> bytes option" where
  "write_to DeNil out = Some (out @ [push_bit 3 (type_code DeNil)])"
| "write_to (DeUnsigned v s) out = write_integer (type_code (DeUnsigned v s)) v s out"
| "write_to (DeSigned v s) out = write_integer (type_code (DeSigned v s)) v s out"
| "write_to (DeUuid u) out =
     Some (out @ (push_bit 3 (type_code (DeUuid u)) OR size_index_fixed (SdpUuid_wire_len u)) # SdpUuid_to_wire_bytes u)"
| "write_to (DeBoolean b) out = Some (out @ [push_bit 3 (type_code (DeBoolean b)), of_bool b])"
| "write_to (DeText s) out = Some (write_variable (type_code (DeText s)) s out)"
| "write_to (DeUrl s) out = Some (write_variable (type_code (DeUrl s)) s out)"
| "write_to (DeSequence items) out =
     write_items items (write_variable_header (type_code (DeSequence items)) (sum_list (map encoded_len items)) out)"
| "write_to (DeAlternative items) out =
     write_items items (write_variable_header (type_code (DeAlternative items)) (sum_list (map encoded_len items)) out)"
| "write_items [] out = Some out"
| "write_items (item # items) out = Option.bind (write_to item out) (write_items items)"

definition DataElement_to_bytes :: "DataElement \<Rightarrow> bytes option" where
  "DataElement_to_bytes e = write_to e []"

section \<open>Parsing\<close>

definition decode_uint_be :: "bytes \<Rightarrow> 64 word" where
  "decode_uint_be bs = from_be (replicate (8 - length bs) 0 @ bs)"

definition decode_int_be :: "bytes \<Rightarrow> 64 word" where
  "decode_int_be bs = from_be (replicate (8 - length bs) (if bs ! 0 AND 0x80 \<noteq> 0 then 0xFF else 0) @ bs)"

text \<open>The type descriptor and the length that follow \<open>offset\<close>: type, value length, start of the value.\<close>

definition element_header :: "bytes \<Rightarrow> nat \<Rightarrow> (u8 \<times> nat \<times> nat) option" where
  "element_header data offset =
     (if length data \<le> offset then None
      else
        let code = drop_bit 3 (data ! offset);
            size_index = data ! offset AND 0x07;
            pos = offset + 1
        in if size_index = 0 then Some (code, if code \<noteq> 0 then 1 else 0, pos)
           else if size_index = 1 then Some (code, 2, pos)
           else if size_index = 2 then Some (code, 4, pos)
           else if size_index = 3 then Some (code, 8, pos)
           else if size_index = 4 then Some (code, 16, pos)
           else if size_index = 5 then
             (if length data < pos + 1 then None else Some (code, unat (data ! pos), pos + 1))
           else if size_index = 6 then
             (if length data < pos + 2 then None
              else Some (code, unat (from_be (take 2 (drop pos data)) :: u16), pos + 2))
           else
             (if length data < pos + 4 then None
              else Some (code, unat (from_be (take 4 (drop pos data)) :: u32), pos + 4)))"

definition scalar_element :: "u8 \<Rightarrow> bytes \<Rightarrow> DataElement option" where
  "scalar_element code v =
     (let n = length v in
      if code = 0 then Some DeNil
      else if code = 1 then (if n \<notin> {1, 2, 4, 8} then None else Some (DeUnsigned (decode_uint_be v) (of_nat n)))
      else if code = 2 then (if n \<notin> {1, 2, 4, 8} then None else Some (DeSigned (decode_int_be v) (of_nat n)))
      else if code = 3 then map_option DeUuid (SdpUuid_from_wire_bytes v)
      else if code = 4 then Some (DeText v)
      else if code = 5 then (if n \<noteq> 1 then None else Some (DeBoolean (v ! 0 \<noteq> 0)))
      else if code = 8 then (if utf8_valid v then Some (DeUrl v) else None)
      else None)"

text \<open>\<open>parse_items\<close> is the loop over the items of a sequence, from \<open>cursor\<close> on.\<close>

function parse_element :: "bytes \<Rightarrow> nat \<Rightarrow> nat \<Rightarrow> (DataElement \<times> nat) option"
  and parse_items :: "bytes \<Rightarrow> nat \<Rightarrow> nat \<Rightarrow> nat \<Rightarrow> (DataElement list \<times> nat) option" where
  "parse_element data offset depth =
     (case element_header data offset of
        None \<Rightarrow> None
      | Some (code, value_len, value_start) \<Rightarrow>
          let value_end = value_start + value_len in
          if length data < value_end then None
          else if code = 6 \<or> code = 7 then
            if MAX_DATA_ELEMENT_NESTING \<le> depth then None
            else
              (case parse_items data value_start value_end (depth + 1) of
                 None \<Rightarrow> None
               | Some (items, cursor) \<Rightarrow>
                   if cursor \<noteq> value_end then None
                   else Some (if code = 6 then DeSequence items else DeAlternative items, value_end))
          else map_option (\<lambda>e. (e, value_end)) (scalar_element code (take value_len (drop value_start data))))"
| "parse_items data cursor value_end depth =
     (if cursor < value_end then
        (case parse_element data cursor depth of
           None \<Rightarrow> None
         | Some (item, after) \<Rightarrow>
             map_option (\<lambda>(items, cursor). (item # items, cursor)) (parse_items data after value_end depth))
      else Some ([], cursor))"
  by pat_completeness auto

lemma element_header_advances: "element_header data offset = Some (c, n, start) \<Longrightarrow> offset < start \<and> offset < length data"
  by (auto simp: element_header_def Let_def split: if_splits)

lemma parse_advances:
  "parse_element_parse_items_dom (Inl (data, offset, depth)) \<Longrightarrow>
     parse_element data offset depth = Some (e, n) \<Longrightarrow> offset < n \<and> offset < length data"
  "parse_element_parse_items_dom (Inr (data, cursor, value_end, depth)) \<Longrightarrow> True"
proof (induction data offset depth and data cursor value_end depth arbitrary: e n rule: parse_element_parse_items.pinduct)
  case (1 data offset depth)
  then show ?case
    using element_header_advances [of data offset]
    by (auto simp: parse_element.psimps Let_def split: option.splits prod.splits if_splits)
qed simp

termination parse_element
proof (relation "measures [\<lambda>x. case x of Inl (data, offset, _) \<Rightarrow> length data - offset | Inr (data, cursor, _, _) \<Rightarrow> length data - cursor,
    \<lambda>x. case x of Inl _ \<Rightarrow> 0 | Inr _ \<Rightarrow> 1]", goal_cases)
  case (2 data offset depth h code y value_len value_start value_end)
  then show ?case using element_header_advances [of data offset] by auto
next
  case (4 data cursor value_end depth p item after)
  then show ?case using parse_advances(1) [of data cursor depth item after] by auto
qed auto

declare parse_element.simps [simp del] parse_items.simps [simp del]

definition DataElement_parse :: "bytes \<Rightarrow> (DataElement \<times> nat) option" where
  "DataElement_parse data = parse_element data 0 0"

definition DataElement_from_bytes :: "bytes \<Rightarrow> DataElement option" where
  "DataElement_from_bytes data = map_option fst (DataElement_parse data)"

section \<open>What the writer produces is read back\<close>

text \<open>An element the constructors build: integers of one of the four sizes that fit it, URLs of valid
  UTF-8, and no body of 4 GiB. \<open>nesting\<close> is the depth of its sequences.\<close>

fun wf_element :: "DataElement \<Rightarrow> bool" where
  "wf_element (DeUnsigned v s) = (s \<in> {1, 2, 4, 8} \<and> take_bit (8 * unat s) v = v)"
| "wf_element (DeSigned v s) = (s \<in> {1, 2, 4, 8} \<and> signed_take_bit (8 * unat s - 1) v = v)"
| "wf_element (DeUuid u) = (case u of SdpUuid128 b \<Rightarrow> length b = 16 | _ \<Rightarrow> True)"
| "wf_element (DeText s) = (length s < 2 ^ 32)"
| "wf_element (DeUrl s) = (utf8_valid s \<and> length s < 2 ^ 32)"
| "wf_element (DeSequence items) = ((\<forall>i \<in> set items. wf_element i) \<and> sum_list (map encoded_len items) < 2 ^ 32)"
| "wf_element (DeAlternative items) = ((\<forall>i \<in> set items. wf_element i) \<and> sum_list (map encoded_len items) < 2 ^ 32)"
| "wf_element _ = True"

fun nesting :: "DataElement \<Rightarrow> nat" where
  "nesting (DeSequence items) = Suc (Max (insert 0 (nesting ` set items)))"
| "nesting (DeAlternative items) = Suc (Max (insert 0 (nesting ` set items)))"
| "nesting _ = 0"

lemma length_variable_header: "length (write_variable_header code n out) = length out + variable_header_len n"
  by (simp add: write_variable_header_def variable_header_len_def)

lemma variable_header_appends: "write_variable_header code n out = out @ write_variable_header code n []"
  by (simp add: write_variable_header_def)

lemma element_header_variable:
  assumes "code \<in> {4, 6, 7, 8}" "n < 2 ^ 32"
  shows "element_header (pre @ write_variable_header code n [] @ rest) (length pre)
    = Some (code, n, length pre + variable_header_len n)"
proof -
  have bits: "drop_bit 3 (push_bit 3 code OR 5) = code" "(push_bit 3 code OR 5) AND 7 = 5"
    "drop_bit 3 (push_bit 3 code OR 6) = code" "(push_bit 3 code OR 6) AND 7 = 6"
    "drop_bit 3 (push_bit 3 code OR 7) = code" "(push_bit 3 code OR 7) AND 7 = 7"
    using assms(1) by auto
  note defs = element_header_def write_variable_header_def variable_header_len_def Let_def
  consider "n \<le> 0xFF" | "0xFF < n" "n \<le> 0xFFFF" | "0xFFFF < n" by linarith
  then show ?thesis
  proof cases
    case 1
    then show ?thesis by (simp add: defs bits nth_append unat_of_nat_u8 del: drop_bit_or)
  next
    case 2
    then show ?thesis by (simp add: defs bits nth_append unat_of_nat_u16 del: drop_bit_or be_octets.simps)
  next
    case 3
    moreover have "unat (of_nat n :: u32) = n" using assms(2) by (simp add: unat_of_nat)
    ultimately show ?thesis by (simp add: defs bits nth_append del: drop_bit_or be_octets.simps)
  qed
qed

lemma element_header_fixed:
  assumes "code \<in> {1, 2, 3, 5}" "k \<in> {1, 2, 4, 8, 16}"
  shows "element_header (pre @ (push_bit 3 code OR size_index_fixed k) # rest) (length pre)
    = Some (code, k, Suc (length pre))"
proof -
  have "drop_bit 3 (push_bit 3 code OR size_index_fixed k) = code
      \<and> (push_bit 3 code OR size_index_fixed k) AND 7 = size_index_fixed k \<and> code \<noteq> 0"
    using assms by (auto simp: size_index_fixed_def)
  then show ?thesis
    using assms(2) by (auto simp: element_header_def Let_def nth_append size_index_fixed_def)
qed

lemma decode_uint:
  assumes "take_bit (8 * n) v = v" "n \<le> 8" shows "decode_uint_be (be_octets n v) = v"
proof -
  have "drop_bit (8 * n) v = 0" using assms(1) by (metis drop_bit_take_bit diff_self_eq_0 take_bit_0)
  then have "be_octets 8 v = replicate (8 - n) 0 @ be_octets n v"
    using be_octets_append [of "8 - n" n v] assms(2) by simp
  then show ?thesis by (metis decode_uint_be_def from_be_octets_64 length_be_octets)
qed

lemma decode_int:
  assumes "signed_take_bit (8 * n - 1) v = v" "0 < n" "n \<le> 8" shows "decode_int_be (be_octets n v) = v"
proof -
  have bits: "bit v k \<longleftrightarrow> bit v (8 * n - 1)" if "8 * n - 1 \<le> k" "k < 64" for k
    using bit_signed_take_bit_iff [of "8 * n - 1" v k] that unfolding assms(1) by (simp add: min_def)
  obtain m where m: "n = Suc m" using assms(2) by (cases n) auto
  have "be_octets n v ! 0 = ucast (drop_bit (8 * m) v)"
    using be_octets_append [of 1 m v] m by (simp add: nth_append del: be_octets.simps(2)) simp
  moreover have "ucast (drop_bit (8 * m) v) AND (0x80 :: u8) \<noteq> 0 \<longleftrightarrow> bit v (8 * n - 1)"
  proof -
    have "(0x80 :: u8) = 2 ^ 7" by simp
    then have "ucast (drop_bit (8 * m) v) AND (0x80 :: u8) \<noteq> 0 \<longleftrightarrow> bit (ucast (drop_bit (8 * m) v) :: u8) 7"
      by (simp only: and_exp_eq_0_iff_not_bit not_not)
    also have "\<dots> \<longleftrightarrow> bit v (8 * m + 7)" by (simp add: bit_simps add.commute)
    finally show ?thesis using m by (simp add: add.commute)
  qed
  ultimately have sign: "be_octets n v ! 0 AND 0x80 \<noteq> 0 \<longleftrightarrow> bit v (8 * n - 1)" by simp
  have high: "be_octets (8 - n) (drop_bit (8 * n) v) = replicate (8 - n) (if bit v (8 * n - 1) then 0xFF else 0)"
  proof (cases "bit v (8 * n - 1)")
    case True
    have "bit (drop_bit (8 * n) v) k" if "k < 8 * (8 - n)" for k
      using bits [of "8 * n + k"] that True assms(3) by (simp add: bit_simps)
    then show ?thesis using True by (simp add: be_octets_ones [of "8 - n"] del: bit_drop_bit_eq)
  next
    case False
    have "\<not> bit v (8 * n + k)" for k
    proof
      assume b: "bit v (8 * n + k)"
      have "8 * n - 1 \<le> 8 * n + k" by simp
      then show False using bits [of "8 * n + k"] bit_imp_le_length [OF b] b False by simp
    qed
    then have "drop_bit (8 * n) v = 0" by (intro bit_word_eqI) (simp add: bit_simps)
    then show ?thesis using False by simp
  qed
  have "be_octets 8 v = be_octets (8 - n) (drop_bit (8 * n) v) @ be_octets n v"
    using be_octets_append [of "8 - n" n v] assms(3) by simp
  then have "from_be (replicate (8 - n) (if bit v (8 * n - 1) then 0xFF else 0) @ be_octets n v) = v"
    by (metis from_be_octets_64 high)
  then show ?thesis unfolding decode_int_be_def sign by simp
qed

text \<open>\<open>reads_back e bs\<close>: the writer appends \<open>bs\<close>, and the parser reads \<open>e\<close> from them, wherever they stand.\<close>

definition reads_back :: "DataElement \<Rightarrow> bytes \<Rightarrow> bool" where
  "reads_back e bs =
     (length bs = encoded_len e \<and> (\<forall>out. write_to e out = Some (out @ bs))
      \<and> (\<forall>pre post d. nesting e + d \<le> MAX_DATA_ELEMENT_NESTING \<longrightarrow>
           parse_element (pre @ bs @ post) (length pre) d = Some (e, length pre + length bs)))"

definition items_read_back :: "DataElement list \<Rightarrow> bytes \<Rightarrow> bool" where
  "items_read_back items bs =
     (length bs = sum_list (map encoded_len items) \<and> (\<forall>out. write_items items out = Some (out @ bs))
      \<and> (\<forall>pre post d. (\<forall>i \<in> set items. nesting i + d \<le> MAX_DATA_ELEMENT_NESTING) \<longrightarrow>
           parse_items (pre @ bs @ post) (length pre) (length pre + length bs) d = Some (items, length pre + length bs)))"

lemma encoded_len_pos: "0 < encoded_len e"
  by (cases e) (simp_all add: variable_header_len_def Let_def)

lemma reads_back_items:
  assumes "\<And>i. i \<in> set items \<Longrightarrow> \<exists>bs. reads_back i bs" shows "\<exists>bs. items_read_back items bs"
  using assms
proof (induction items)
  case Nil
  then show ?case by (intro exI [of _ "[]"]) (simp add: items_read_back_def parse_items.simps)
next
  case (Cons i items)
  then obtain cs bs where cs: "reads_back i cs" and bs: "items_read_back items bs" by (meson list.set_intros)
  have "parse_items (pre @ (cs @ bs) @ post) (length pre) (length pre + length (cs @ bs)) d
      = Some (i # items, length pre + length (cs @ bs))"
    if "\<forall>j \<in> set (i # items). nesting j + d \<le> MAX_DATA_ELEMENT_NESTING" for pre post d
  proof -
    have "0 < length cs" using cs encoded_len_pos [of i] by (simp add: reads_back_def)
    moreover have "parse_element (pre @ cs @ bs @ post) (length pre) d = Some (i, length pre + length cs)"
      using cs that by (simp add: reads_back_def)
    moreover have "parse_items ((pre @ cs) @ bs @ post) (length (pre @ cs)) (length (pre @ cs) + length bs) d
        = Some (items, length (pre @ cs) + length bs)"
      using bs that unfolding items_read_back_def by (metis list.set_intros(2))
    ultimately show ?thesis by (subst parse_items.simps) (simp add: add.assoc)
  qed
  then have "items_read_back (i # items) (cs @ bs)"
    using cs bs by (simp add: items_read_back_def reads_back_def)
  then show ?case by blast
qed

lemma reads_back_scalar:
  assumes "code \<in> {1, 2, 3, 5}" "length v \<in> {1, 2, 4, 8, 16}"
    and "\<And>out. write_to e out = Some (out @ (push_bit 3 code OR size_index_fixed (length v)) # v)"
    and "encoded_len e = Suc (length v)" "scalar_element code v = Some e"
  shows "reads_back e ((push_bit 3 code OR size_index_fixed (length v)) # v)"
proof -
  have "code \<noteq> 6 \<and> code \<noteq> 7" using assms(1) by auto
  then show ?thesis
    using assms(3,4,5) element_header_fixed [OF assms(1,2)]
    by (simp add: reads_back_def parse_element.simps Let_def)
qed

lemma write_variable_appends: "write_variable code v out = out @ write_variable_header code (length v) [] @ v"
  unfolding write_variable_def by (subst variable_header_appends) simp

lemma reads_back_variable:
  assumes "code \<in> {4, 8}" "length v < 2 ^ 32" "\<And>out. write_to e out = Some (write_variable code v out)"
    and "encoded_len e = variable_header_len (length v) + length v" "scalar_element code v = Some e"
  shows "reads_back e (write_variable_header code (length v) [] @ v)"
proof -
  have "code \<noteq> 6 \<and> code \<noteq> 7" "code \<in> {4, 6, 7, 8}" using assms(1) by auto
  then show ?thesis
    using assms(3-5) element_header_variable [OF _ assms(2)]
    by (simp add: reads_back_def write_variable_appends parse_element.simps Let_def length_variable_header)
qed

lemma reads_back_sequence:
  assumes "code \<in> {6, 7}" "items_read_back items bs" "sum_list (map encoded_len items) < 2 ^ 32"
    and "e = (if code = 6 then DeSequence items else DeAlternative items)"
  shows "reads_back e (write_variable_header code (sum_list (map encoded_len items)) [] @ bs)"
proof -
  let ?n = "sum_list (map encoded_len items)"
  let ?h = "write_variable_header code ?n []"
  have code: "code = 6 \<or> code = 7" "code \<in> {4, 6, 7, 8}" using assms(1) by auto
  have n: "length bs = ?n" and w: "write_items items out = Some (out @ bs)" for out
    using assms(2) by (simp_all add: items_read_back_def)
  have nest: "nesting e = Suc (Max (insert 0 (nesting ` set items)))" using assms(4) by simp
  have "parse_element (pre @ (?h @ bs) @ post) (length pre) d = Some (e, length pre + length (?h @ bs))"
    if d: "nesting e + d \<le> MAX_DATA_ELEMENT_NESTING" for pre post d
  proof -
    have "nesting i + (d + 1) \<le> MAX_DATA_ELEMENT_NESTING" if "i \<in> set items" for i
    proof -
      have "nesting i \<le> Max (insert 0 (nesting ` set items))" using that by simp
      then show ?thesis using d nest by linarith
    qed
    with assms(2) have "parse_items ((pre @ ?h) @ bs @ post) (length (pre @ ?h)) (length (pre @ ?h) + length bs) (d + 1)
        = Some (items, length (pre @ ?h) + length bs)"
      unfolding items_read_back_def by blast
    moreover have "d < MAX_DATA_ELEMENT_NESTING" using d nest by simp
    ultimately show ?thesis
      using element_header_variable [OF code(2) assms(3), of pre "bs @ post"] code(1) n assms(4)
      by (simp add: parse_element.simps Let_def length_variable_header)
  qed
  moreover have "write_to e out = Some (out @ ?h @ bs)" for out
    using w variable_header_appends [of code ?n out] code(1) assms(4) by (auto simp: type_code_def)
  ultimately show ?thesis
    using n code(1) assms(4) by (auto simp: reads_back_def length_variable_header Let_def)
qed

lemma SdpUuid_round_trip:
  "(case u of SdpUuid128 b \<Rightarrow> length b = 16 | _ \<Rightarrow> True) \<Longrightarrow> SdpUuid_from_wire_bytes (SdpUuid_to_wire_bytes u) = Some u
    \<and> length (SdpUuid_to_wire_bytes u) = SdpUuid_wire_len u \<and> SdpUuid_wire_len u \<in> {2, 4, 16}"
  by (auto simp: SdpUuid_from_wire_bytes_def SdpUuid_to_wire_bytes_def SdpUuid_wire_len_def split: SdpUuid.splits)

lemma integer_reads_back:
  assumes "s \<in> {1, 2, 4, 8 :: u8}"
  shows "write_integer code v s out = Some (out @ (push_bit 3 code OR size_index_fixed (unat s)) # be_octets (unat s) v)"
    and "unat s \<in> {1, 2, 4, 8}" "of_nat (unat s) = s"
proof -
  show n: "unat s \<in> {1, 2, 4, 8}" using assms by auto
  then have "be_octets 8 v = be_octets (8 - unat s) (drop_bit (8 * unat s) v) @ be_octets (unat s) v"
    using be_octets_append [of "8 - unat s" "unat s" v] by auto
  then have "drop (8 - unat s) (be_octets 8 v) = be_octets (unat s) v" by (metis append_eq_conv_conj length_be_octets)
  moreover have "\<not> 8 < s" using assms by auto
  ultimately show "write_integer code v s out = Some (out @ (push_bit 3 code OR size_index_fixed (unat s)) # be_octets (unat s) v)"
    by (simp only: write_integer_def if_False)
qed simp

lemma element_reads_back: "wf_element e \<Longrightarrow> \<exists>bs. reads_back e bs"
proof (induction e)
  case DeNil
  have "element_header (pre @ 0 # post) (length pre) = Some (0, 0, Suc (length pre))" for pre post :: bytes
    by (simp add: element_header_def Let_def nth_append)
  then show ?case
    by (intro exI [of _ "[0]"]) (simp add: reads_back_def type_code_def parse_element.simps scalar_element_def)
next
  case (DeUnsigned v s)
  then have s: "s \<in> {1, 2, 4, 8}" and v: "take_bit (8 * unat s) v = v" by simp_all
  note n = integer_reads_back [OF s]
  have "decode_uint_be (be_octets (unat s) v) = v" using decode_uint [OF v] n(2) by auto
  then have "scalar_element 1 (be_octets (unat s) v) = Some (DeUnsigned v s)"
    using n(2,3) by (simp add: scalar_element_def Let_def)
  moreover have "length (be_octets (unat s) v) \<in> {1, 2, 4, 8, 16}" using n(2) by auto
  ultimately have "reads_back (DeUnsigned v s) ((push_bit 3 1 OR size_index_fixed (length (be_octets (unat s) v))) # be_octets (unat s) v)"
    by (intro reads_back_scalar) (simp_all add: n(1) type_code_def)
  then show ?case by blast
next
  case (DeSigned v s)
  then have s: "s \<in> {1, 2, 4, 8}" and v: "signed_take_bit (8 * unat s - 1) v = v" by simp_all
  note n = integer_reads_back [OF s]
  have "decode_int_be (be_octets (unat s) v) = v" using decode_int [OF v] n(2) by auto
  then have "scalar_element 2 (be_octets (unat s) v) = Some (DeSigned v s)"
    using n(2,3) by (simp add: scalar_element_def Let_def)
  moreover have "length (be_octets (unat s) v) \<in> {1, 2, 4, 8, 16}" using n(2) by auto
  ultimately have "reads_back (DeSigned v s) ((push_bit 3 2 OR size_index_fixed (length (be_octets (unat s) v))) # be_octets (unat s) v)"
    by (intro reads_back_scalar) (simp_all add: n(1) type_code_def)
  then show ?case by blast
next
  case (DeUuid u)
  with SdpUuid_round_trip [of u]
  have "reads_back (DeUuid u) ((push_bit 3 3 OR size_index_fixed (length (SdpUuid_to_wire_bytes u))) # SdpUuid_to_wire_bytes u)"
    by (intro reads_back_scalar) (auto simp: type_code_def scalar_element_def Let_def)
  then show ?case by blast
next
  case (DeText v)
  then have "reads_back (DeText v) (write_variable_header 4 (length v) [] @ v)"
    by (intro reads_back_variable) (simp_all add: type_code_def scalar_element_def Let_def)
  then show ?case by blast
next
  case (DeBoolean b)
  have "reads_back (DeBoolean b) ((push_bit 3 5 OR size_index_fixed (length [of_bool b :: u8])) # [of_bool b])"
    by (intro reads_back_scalar) (simp_all add: type_code_def scalar_element_def Let_def size_index_fixed_def)
  then show ?case by blast
next
  case (DeSequence items)
  then obtain bs where "items_read_back items bs" using reads_back_items [of items] by auto
  then have "reads_back (DeSequence items) (write_variable_header 6 (sum_list (map encoded_len items)) [] @ bs)"
    using DeSequence.prems by (intro reads_back_sequence) simp_all
  then show ?case by blast
next
  case (DeAlternative items)
  then obtain bs where "items_read_back items bs" using reads_back_items [of items] by auto
  then have "reads_back (DeAlternative items) (write_variable_header 7 (sum_list (map encoded_len items)) [] @ bs)"
    using DeAlternative.prems by (intro reads_back_sequence) simp_all
  then show ?case by blast
next
  case (DeUrl v)
  then have "reads_back (DeUrl v) (write_variable_header 8 (length v) [] @ v)"
    by (intro reads_back_variable) (simp_all add: type_code_def scalar_element_def Let_def)
  then show ?case by blast
qed

lemma DataElement_reads_back:
  assumes "wf_element e" "nesting e \<le> 32"
  shows "\<exists>bs. DataElement_to_bytes e = Some bs \<and> length bs = encoded_len e
    \<and> (\<forall>pre post. parse_element (pre @ bs @ post) (length pre) 0 = Some (e, length pre + length bs))"
  using element_reads_back [OF assms(1)] assms(2) by (auto simp: reads_back_def DataElement_to_bytes_def)

text \<open>C27: A data element of any shape, nested at most 32 deep, is written without a panic in exactly the
  length computed beforehand, and the parser reads it back and stops where it ends, whatever follows.\<close>
theorem DataElement_round_trip:
  assumes "wf_element e" "nesting e \<le> 32"
  shows "\<exists>bs. DataElement_to_bytes e = Some bs \<and> length bs = encoded_len e
    \<and> DataElement_parse (bs @ rest) = Some (e, length bs)"
proof -
  obtain bs where bs: "DataElement_to_bytes e = Some bs" "length bs = encoded_len e"
      "\<And>pre post. parse_element (pre @ bs @ post) (length pre) 0 = Some (e, length pre + length bs)"
    using DataElement_reads_back [OF assms] by blast
  from bs(3) [of "[]" rest] show ?thesis using bs(1,2) by (auto simp: DataElement_parse_def)
qed

theorem DataElement_round_trip_witness:
  "\<exists>bs. DataElement_to_bytes (DeSequence [DeUnsigned 0x0102 2, DeSigned (-2) 4, DeAlternative [DeText [0x41], DeBoolean True]]) = Some bs
    \<and> DataElement_parse bs
      = Some (DeSequence [DeUnsigned 0x0102 2, DeSigned (-2) 4, DeAlternative [DeText [0x41], DeBoolean True]], length bs)"
  using DataElement_round_trip
    [of "DeSequence [DeUnsigned 0x0102 2, DeSigned (-2) 4, DeAlternative [DeText [0x41], DeBoolean True]]" "[]"]
  by (auto simp: variable_header_len_def Let_def)

end
