(* ===== verification/Sdp_Pdu.thy ===== *)
theory Sdp_Pdu
  imports Sdp_Element "HOL-Library.Monad_Syntax"
begin

text \<open>
  SDP service records and protocol data units (\<open>src/src/classic/sdp.rs\<close>), their encoding and parser,
  and that the parser inverts the encoding.
\<close>

section \<open>Service records\<close>

record ServiceAttribute =
  sa_id :: u16
  sa_value :: DataElement

type_synonym Service = "ServiceAttribute list"

definition ServiceAttribute_new :: "u16 \<Rightarrow> DataElement \<Rightarrow> ServiceAttribute" where
  "ServiceAttribute_new ident v = \<lparr>sa_id = ident, sa_value = v\<rparr>"

fun list_from_data_elements :: "DataElement list \<Rightarrow> ServiceAttribute list" where
  "list_from_data_elements (k # v # rest) =
     (case as_unsigned_integer k of
        None \<Rightarrow> list_from_data_elements rest
      | Some (ident, _) \<Rightarrow> ServiceAttribute_new (ucast ident) v # list_from_data_elements rest)"
| "list_from_data_elements _ = []"

definition find_attribute_in_list :: "ServiceAttribute list \<Rightarrow> u16 \<Rightarrow> DataElement option" where
  "find_attribute_in_list attrs ident = map_option sa_value (List.find (\<lambda>a. sa_id a = ident) attrs)"

fun is_uuid_in_value :: "SdpUuid \<Rightarrow> DataElement \<Rightarrow> bool" where
  "is_uuid_in_value uuid (DeUuid u) = (u = uuid)"
| "is_uuid_in_value uuid (DeSequence items) = (\<exists>e \<in> set items. is_uuid_in_value uuid e)"
| "is_uuid_in_value uuid _ = False"

section \<open>Protocol data units\<close>

datatype AttributeIdSpec = Single u16 | Range u16 u16

definition encode_attribute_id_list :: "AttributeIdSpec list \<Rightarrow> DataElement" where
  "encode_attribute_id_list ids =
     DeSequence (map (\<lambda>ident. case ident of
         Single v \<Rightarrow> unsigned_integer_16 v
       | Range start end_ \<Rightarrow> unsigned_integer_32 (push_bit 16 (ucast start) OR ucast end_)) ids)"

text \<open>The arguments in the order of the source: the transaction, the fields, the continuation state.\<close>

datatype SdpPdu =
    ErrorResponse u16 u16
  | ServiceSearchRequest u16 DataElement u16 bytes
  | ServiceSearchResponse u16 u16 "u32 list" bytes
  | ServiceAttributeRequest u16 u32 u16 DataElement bytes
  | ServiceAttributeResponse u16 bytes bytes
  | ServiceSearchAttributeRequest u16 DataElement u16 DataElement bytes
  | ServiceSearchAttributeResponse u16 bytes bytes

abbreviation (input) pdu_ERROR_RESPONSE :: "u8" where "pdu_ERROR_RESPONSE \<equiv> 0x01"
abbreviation (input) pdu_SERVICE_SEARCH_REQUEST :: "u8" where "pdu_SERVICE_SEARCH_REQUEST \<equiv> 0x02"
abbreviation (input) pdu_SERVICE_SEARCH_RESPONSE :: "u8" where "pdu_SERVICE_SEARCH_RESPONSE \<equiv> 0x03"
abbreviation (input) pdu_SERVICE_ATTRIBUTE_REQUEST :: "u8" where "pdu_SERVICE_ATTRIBUTE_REQUEST \<equiv> 0x04"
abbreviation (input) pdu_SERVICE_ATTRIBUTE_RESPONSE :: "u8" where "pdu_SERVICE_ATTRIBUTE_RESPONSE \<equiv> 0x05"
abbreviation (input) pdu_SERVICE_SEARCH_ATTRIBUTE_REQUEST :: "u8" where "pdu_SERVICE_SEARCH_ATTRIBUTE_REQUEST \<equiv> 0x06"
abbreviation (input) pdu_SERVICE_SEARCH_ATTRIBUTE_RESPONSE :: "u8" where "pdu_SERVICE_SEARCH_ATTRIBUTE_RESPONSE \<equiv> 0x07"

definition SdpPdu_id :: "SdpPdu \<Rightarrow> u8" where
  "SdpPdu_id pdu =
     (case pdu of
        ErrorResponse _ _ \<Rightarrow> pdu_ERROR_RESPONSE
      | ServiceSearchRequest _ _ _ _ \<Rightarrow> pdu_SERVICE_SEARCH_REQUEST
      | ServiceSearchResponse _ _ _ _ \<Rightarrow> pdu_SERVICE_SEARCH_RESPONSE
      | ServiceAttributeRequest _ _ _ _ _ \<Rightarrow> pdu_SERVICE_ATTRIBUTE_REQUEST
      | ServiceAttributeResponse _ _ _ \<Rightarrow> pdu_SERVICE_ATTRIBUTE_RESPONSE
      | ServiceSearchAttributeRequest _ _ _ _ _ \<Rightarrow> pdu_SERVICE_SEARCH_ATTRIBUTE_REQUEST
      | ServiceSearchAttributeResponse _ _ _ \<Rightarrow> pdu_SERVICE_SEARCH_ATTRIBUTE_RESPONSE)"

definition transaction_id :: "SdpPdu \<Rightarrow> u16" where
  "transaction_id pdu =
     (case pdu of
        ErrorResponse t _ \<Rightarrow> t
      | ServiceSearchRequest t _ _ _ \<Rightarrow> t
      | ServiceSearchResponse t _ _ _ \<Rightarrow> t
      | ServiceAttributeRequest t _ _ _ _ \<Rightarrow> t
      | ServiceAttributeResponse t _ _ \<Rightarrow> t
      | ServiceSearchAttributeRequest t _ _ _ _ \<Rightarrow> t
      | ServiceSearchAttributeResponse t _ _ \<Rightarrow> t)"

definition SdpPdu_parameters :: "SdpPdu \<Rightarrow> bytes option" where
  "SdpPdu_parameters pdu =
     (case pdu of
        ErrorResponse _ code \<Rightarrow> Some (be_octets 2 code)
      | ServiceSearchRequest _ pattern count cont \<Rightarrow>
          do { p \<leftarrow> DataElement_to_bytes pattern; Some (p @ be_octets 2 count @ cont) }
      | ServiceSearchResponse _ total_count handles cont \<Rightarrow>
          Some (be_octets 2 total_count @ be_octets 2 (of_nat (length handles) :: u16)
            @ concat (map (be_octets 4) handles) @ cont)
      | ServiceAttributeRequest _ handle count ids cont \<Rightarrow>
          do { i \<leftarrow> DataElement_to_bytes ids; Some (be_octets 4 handle @ be_octets 2 count @ i @ cont) }
      | ServiceAttributeResponse _ attrs cont \<Rightarrow>
          Some (be_octets 2 (of_nat (length attrs) :: u16) @ attrs @ cont)
      | ServiceSearchAttributeRequest _ pattern count ids cont \<Rightarrow>
          do { p \<leftarrow> DataElement_to_bytes pattern; i \<leftarrow> DataElement_to_bytes ids;
               Some (p @ be_octets 2 count @ i @ cont) }
      | ServiceSearchAttributeResponse _ attrs cont \<Rightarrow>
          Some (be_octets 2 (of_nat (length attrs) :: u16) @ attrs @ cont))"

definition SdpPdu_to_bytes :: "SdpPdu \<Rightarrow> bytes option" where
  "SdpPdu_to_bytes pdu =
     do { params \<leftarrow> SdpPdu_parameters pdu;
          Some (SdpPdu_id pdu # be_octets 2 (transaction_id pdu) @ be_octets 2 (of_nat (length params) :: u16) @ params) }"

text \<open>\<^verbatim>\<open>data.get(a..b)\<close> and \<^verbatim>\<open>data.get(a..)\<close>.\<close>

definition get_range :: "nat \<Rightarrow> nat \<Rightarrow> bytes \<Rightarrow> bytes option" where
  "get_range a b data = (if a \<le> b \<and> b \<le> length data then Some (take (b - a) (drop a data)) else None)"

definition get_from :: "nat \<Rightarrow> bytes \<Rightarrow> bytes option" where
  "get_from a data = (if a \<le> length data then Some (drop a data) else None)"

text \<open>The loop over the record handles of a response: the handles, and the offset behind them.\<close>

fun parse_handles :: "nat \<Rightarrow> nat \<Rightarrow> bytes \<Rightarrow> (u32 list \<times> nat) option" where
  "parse_handles 0 offset params = Some ([], offset)"
| "parse_handles (Suc n) offset params =
     do { h \<leftarrow> get_range offset (offset + 4) params;
          (hs, after) \<leftarrow> parse_handles n (offset + 4) params;
          Some (from_be h # hs, after) }"

definition parse_parameters :: "u8 \<Rightarrow> u16 \<Rightarrow> bytes \<Rightarrow> SdpPdu option" where
  "parse_parameters ident t params =
     (if ident = pdu_ERROR_RESPONSE then do {
       code \<leftarrow> get_range 0 2 params;
       Some (ErrorResponse t (from_be code)) }
     else if ident = pdu_SERVICE_SEARCH_REQUEST then do {
       (pattern, offset) \<leftarrow> DataElement_parse params;
       count \<leftarrow> get_range offset (offset + 2) params;
       cont \<leftarrow> get_from (offset + 2) params;
       Some (ServiceSearchRequest t pattern (from_be count) cont) }
     else if ident = pdu_SERVICE_SEARCH_RESPONSE then do {
       total_count \<leftarrow> get_range 0 2 params;
       count \<leftarrow> get_range 2 4 params;
       (handles, offset) \<leftarrow> parse_handles (unat (from_be count :: u16)) 4 params;
       cont \<leftarrow> get_from offset params;
       Some (ServiceSearchResponse t (from_be total_count) handles cont) }
     else if ident = pdu_SERVICE_ATTRIBUTE_REQUEST then do {
       handle \<leftarrow> get_range 0 4 params;
       count \<leftarrow> get_range 4 6 params;
       rest \<leftarrow> get_from 6 params;
       (ids, n) \<leftarrow> DataElement_parse rest;
       cont \<leftarrow> get_from (6 + n) params;
       Some (ServiceAttributeRequest t (from_be handle) (from_be count) ids cont) }
     else if ident = pdu_SERVICE_ATTRIBUTE_RESPONSE then do {
       len \<leftarrow> get_range 0 2 params;
       attrs \<leftarrow> get_range 2 (2 + unat (from_be len :: u16)) params;
       cont \<leftarrow> get_from (2 + unat (from_be len :: u16)) params;
       Some (ServiceAttributeResponse t attrs cont) }
     else if ident = pdu_SERVICE_SEARCH_ATTRIBUTE_REQUEST then do {
       (pattern, off1) \<leftarrow> DataElement_parse params;
       count \<leftarrow> get_range off1 (off1 + 2) params;
       rest \<leftarrow> get_from (off1 + 2) params;
       (ids, off2) \<leftarrow> DataElement_parse rest;
       cont \<leftarrow> get_from (off1 + 2 + off2) params;
       Some (ServiceSearchAttributeRequest t pattern (from_be count) ids cont) }
     else if ident = pdu_SERVICE_SEARCH_ATTRIBUTE_RESPONSE then do {
       len \<leftarrow> get_range 0 2 params;
       attrs \<leftarrow> get_range 2 (2 + unat (from_be len :: u16)) params;
       cont \<leftarrow> get_from (2 + unat (from_be len :: u16)) params;
       Some (ServiceSearchAttributeResponse t attrs cont) }
     else None)"

definition SdpPdu_parse :: "bytes \<Rightarrow> SdpPdu option" where
  "SdpPdu_parse data =
     (if length data < 5 then None
      else
        let ident = data ! 0;
            t = from_be [data ! 1, data ! 2];
            parameters_length = unat (from_be [data ! 3, data ! 4] :: u16)
        in do { params \<leftarrow> get_range 5 (5 + parameters_length) data; parse_parameters ident t params })"

section \<open>Data units are read back\<close>

definition wf_pattern :: "DataElement \<Rightarrow> bool" where
  "wf_pattern e = (wf_element e \<and> nesting e \<le> 32)"

definition wf_SdpPdu :: "SdpPdu \<Rightarrow> bool" where
  "wf_SdpPdu pdu =
     (case pdu of
        ErrorResponse _ _ \<Rightarrow> True
      | ServiceSearchRequest _ pattern _ cont \<Rightarrow> wf_pattern pattern \<and> encoded_len pattern + 2 + length cont < 0x10000
      | ServiceSearchResponse _ _ handles cont \<Rightarrow> 4 + 4 * length handles + length cont < 0x10000
      | ServiceAttributeRequest _ _ _ ids cont \<Rightarrow> wf_pattern ids \<and> 6 + encoded_len ids + length cont < 0x10000
      | ServiceAttributeResponse _ attrs cont \<Rightarrow> 2 + length attrs + length cont < 0x10000
      | ServiceSearchAttributeRequest _ pattern _ ids cont \<Rightarrow>
          wf_pattern pattern \<and> wf_pattern ids \<and> encoded_len pattern + 2 + encoded_len ids + length cont < 0x10000
      | ServiceSearchAttributeResponse _ attrs cont \<Rightarrow> 2 + length attrs + length cont < 0x10000)"

lemma get_range_middle: "get_range (length pre) (length pre + length xs) (pre @ xs @ post) = Some xs"
  by (simp add: get_range_def)

lemma get_range_start: "length xs = n \<Longrightarrow> get_range 0 n (xs @ post) = Some xs"
  by (simp add: get_range_def)

lemma get_range_at: "length pre = a \<Longrightarrow> length xs = n \<Longrightarrow> b = a + n \<Longrightarrow> get_range a b (pre @ xs @ post) = Some xs"
  using get_range_middle [of pre xs post] by simp

lemma get_from_at: "length pre = a \<Longrightarrow> get_from a (pre @ post) = Some post"
  by (simp add: get_from_def)

lemma parse_pdu_header:
  assumes "SdpPdu_parameters pdu = Some params" "length params < 0x10000"
  shows "\<exists>bs. SdpPdu_to_bytes pdu = Some bs \<and> length bs = 5 + length params
    \<and> SdpPdu_parse (bs @ rest) = parse_parameters (SdpPdu_id pdu) (transaction_id pdu) params"
proof -
  obtain t t' where t: "be_octets 2 (transaction_id pdu) = [t, t']" "from_be [t, t'] = transaction_id pdu"
    using be_octets_2_list by blast
  obtain n n' where n: "be_octets 2 (of_nat (length params) :: u16) = [n, n']" "from_be [n, n'] = (of_nat (length params) :: u16)"
    using be_octets_2_list by blast
  have len: "unat (of_nat (length params) :: u16) = length params" using assms(2) by (simp add: unat_of_nat_u16)
  show ?thesis
    using assms(1) t n len by (simp add: SdpPdu_to_bytes_def SdpPdu_parse_def get_range_def Let_def)
qed

lemma parse_element_at: "wf_pattern e \<Longrightarrow> \<exists>bs. DataElement_to_bytes e = Some bs \<and> length bs = encoded_len e
    \<and> (\<forall>post. DataElement_parse (bs @ post) = Some (e, length bs))"
proof -
  assume "wf_pattern e"
  then obtain bs where bs: "DataElement_to_bytes e = Some bs" "length bs = encoded_len e"
      "\<And>pre post. parse_element (pre @ bs @ post) (length pre) 0 = Some (e, length pre + length bs)"
    using DataElement_reads_back unfolding wf_pattern_def by metis
  from bs(3) [of "[]"] show ?thesis using bs(1,2) by (auto simp: DataElement_parse_def)
qed

lemma parse_handles_octets:
  "length pre = a \<Longrightarrow> parse_handles (length hs) a (pre @ concat (map (be_octets 4) hs) @ post) = Some (hs, a + 4 * length hs)"
proof (induction hs arbitrary: pre a)
  case (Cons h hs)
  have "get_range a (a + 4) (pre @ be_octets 4 h @ concat (map (be_octets 4) hs) @ post) = Some (be_octets 4 h)"
    by (rule get_range_at) (simp_all add: Cons.prems)
  moreover have "parse_handles (length hs) (a + 4) ((pre @ be_octets 4 h) @ concat (map (be_octets 4) hs) @ post)
      = Some (hs, a + 4 + 4 * length hs)"
    by (rule Cons.IH) (simp add: Cons.prems)
  ultimately show ?case by (simp del: be_octets.simps)
qed simp

lemma concat_handles_length: "length (concat (map (be_octets 4) hs)) = 4 * length (hs :: u32 list)"
  by (induction hs) (simp_all del: be_octets.simps)

lemma parse_attribute_bytes:
  assumes "2 + length attrs + length cont < 0x10000"
  shows "get_range 0 2 (be_octets 2 (of_nat (length attrs) :: u16) @ attrs @ cont) = Some (be_octets 2 (of_nat (length attrs) :: u16))"
    "get_range 2 (2 + length attrs) (be_octets 2 (of_nat (length attrs) :: u16) @ attrs @ cont) = Some attrs"
    "get_from (2 + length attrs) (be_octets 2 (of_nat (length attrs) :: u16) @ attrs @ cont) = Some cont"
    "unat (of_nat (length attrs) :: u16) = length attrs"
proof -
  let ?n = "be_octets 2 (of_nat (length attrs) :: u16)"
  show "get_range 0 2 (?n @ attrs @ cont) = Some ?n" by (rule get_range_start) simp
  show "get_range 2 (2 + length attrs) (?n @ attrs @ cont) = Some attrs" by (rule get_range_at) simp_all
  show "get_from (2 + length attrs) (?n @ attrs @ cont) = Some cont"
    using get_from_at [of "?n @ attrs" _ cont] by (simp del: be_octets.simps)
  show "unat (of_nat (length attrs) :: u16) = length attrs" using assms by (simp add: unat_of_nat_u16)
qed

lemma parse_parameters_round_trip:
  assumes "wf_SdpPdu pdu"
  shows "\<exists>params. SdpPdu_parameters pdu = Some params \<and> length params < 0x10000
    \<and> parse_parameters (SdpPdu_id pdu) (transaction_id pdu) params = Some pdu"
proof (cases pdu)
  case (ErrorResponse t code)
  have "get_range 0 2 (be_octets 2 code) = Some (be_octets 2 code)"
    using get_range_start [of "be_octets 2 code" 2 "[]"] by (simp del: be_octets.simps)
  then show ?thesis
    by (simp add: ErrorResponse SdpPdu_parameters_def SdpPdu_id_def transaction_id_def parse_parameters_def del: be_octets.simps)
next
  case (ServiceSearchRequest t pattern count cont)
  with assms obtain p where p: "DataElement_to_bytes pattern = Some p" "length p = encoded_len pattern"
      "\<And>post. DataElement_parse (p @ post) = Some (pattern, length p)"
    using parse_element_at [of pattern] by (auto simp: wf_SdpPdu_def)
  have "get_range (length p) (length p + 2) (p @ be_octets 2 count @ cont) = Some (be_octets 2 count)"
    "get_from (length p + 2) (p @ be_octets 2 count @ cont) = Some cont"
    using get_range_at [of p _ "be_octets 2 count"] get_from_at [of "p @ be_octets 2 count" _ cont] by (simp_all del: be_octets.simps)
  with p assms show ?thesis
    by (simp add: ServiceSearchRequest SdpPdu_parameters_def SdpPdu_id_def transaction_id_def parse_parameters_def
        wf_SdpPdu_def del: be_octets.simps)
next
  case (ServiceSearchResponse t n hs cont)
  let ?count = "of_nat (length hs) :: u16"
  let ?params = "be_octets 2 n @ be_octets 2 ?count @ concat (map (be_octets 4) hs) @ cont"
  have "get_range 0 2 ?params = Some (be_octets 2 n)" "get_range 2 4 ?params = Some (be_octets 2 ?count)"
    by (rule get_range_start, simp) (rule get_range_at, simp_all del: be_octets.simps)
  moreover have "get_from (4 + 4 * length hs) ((be_octets 2 n @ be_octets 2 ?count @ concat (map (be_octets 4) hs)) @ cont) = Some cont"
    by (rule get_from_at) (simp add: concat_handles_length del: be_octets.simps)
  then have "get_from (4 + 4 * length hs) ?params = Some cont" by (simp only: append_assoc)
  moreover have "parse_handles (length hs) 4 ?params = Some (hs, 4 + 4 * length hs)"
    using parse_handles_octets [of "be_octets 2 n @ be_octets 2 ?count" 4 hs cont] by (simp del: be_octets.simps)
  moreover have "unat ?count = length hs" "length ?params < 0x10000"
    using assms by (simp_all add: ServiceSearchResponse wf_SdpPdu_def unat_of_nat_u16 concat_handles_length del: be_octets.simps)
  ultimately show ?thesis
    by (simp add: ServiceSearchResponse SdpPdu_parameters_def SdpPdu_id_def transaction_id_def parse_parameters_def del: be_octets.simps)
next
  case (ServiceAttributeRequest t handle count ids cont)
  with assms obtain i where i: "DataElement_to_bytes ids = Some i" "length i = encoded_len ids"
      "\<And>post. DataElement_parse (i @ post) = Some (ids, length i)"
    using parse_element_at [of ids] by (auto simp: wf_SdpPdu_def)
  let ?params = "be_octets 4 handle @ be_octets 2 count @ i @ cont"
  have "get_range 0 4 ?params = Some (be_octets 4 handle)" "get_range 4 6 ?params = Some (be_octets 2 count)"
    by (rule get_range_start, simp) (rule get_range_at, simp_all del: be_octets.simps)
  moreover have "get_from 6 ?params = Some (i @ cont)" "get_from (6 + length i) ?params = Some cont"
    using get_from_at [of "be_octets 4 handle @ be_octets 2 count" 6] get_from_at [of "be_octets 4 handle @ be_octets 2 count @ i" "6 + length i" cont]
    by (simp_all del: be_octets.simps)
  ultimately show ?thesis using i assms
    by (simp add: ServiceAttributeRequest SdpPdu_parameters_def SdpPdu_id_def transaction_id_def parse_parameters_def
        wf_SdpPdu_def del: be_octets.simps)
next
  case (ServiceSearchAttributeRequest t pattern count ids cont)
  with assms obtain p where p: "DataElement_to_bytes pattern = Some p" "length p = encoded_len pattern"
      "\<And>post. DataElement_parse (p @ post) = Some (pattern, length p)"
    using parse_element_at [of pattern] by (auto simp: wf_SdpPdu_def)
  from assms ServiceSearchAttributeRequest obtain i where i: "DataElement_to_bytes ids = Some i" "length i = encoded_len ids"
      "\<And>post. DataElement_parse (i @ post) = Some (ids, length i)"
    using parse_element_at [of ids] by (auto simp: wf_SdpPdu_def)
  let ?params = "p @ be_octets 2 count @ i @ cont"
  have "get_range (length p) (length p + 2) ?params = Some (be_octets 2 count)"
    by (rule get_range_at) simp_all
  moreover have "get_from (length p + 2) ?params = Some (i @ cont)" "get_from (length p + 2 + length i) ?params = Some cont"
    using get_from_at [of "p @ be_octets 2 count" "length p + 2"] get_from_at [of "p @ be_octets 2 count @ i" "length p + 2 + length i" cont]
    by (simp_all del: be_octets.simps)
  ultimately show ?thesis using p i assms
    by (simp add: ServiceSearchAttributeRequest SdpPdu_parameters_def SdpPdu_id_def transaction_id_def parse_parameters_def
        wf_SdpPdu_def del: be_octets.simps)
next
  case (ServiceAttributeResponse t attrs cont)
  with assms parse_attribute_bytes [of attrs cont] show ?thesis
    by (simp add: SdpPdu_parameters_def SdpPdu_id_def transaction_id_def parse_parameters_def wf_SdpPdu_def del: be_octets.simps)
next
  case (ServiceSearchAttributeResponse t attrs cont)
  with assms parse_attribute_bytes [of attrs cont] show ?thesis
    by (simp add: SdpPdu_parameters_def SdpPdu_id_def transaction_id_def parse_parameters_def wf_SdpPdu_def del: be_octets.simps)
qed

text \<open>C28: Every PDU of the protocol is read back as it was built, with its transaction, data elements,
  handles and continuation state, as long as its parameters fit the 16-bit length field.\<close>
theorem SdpPdu_round_trip:
  assumes "wf_SdpPdu pdu"
  shows "\<exists>bs. SdpPdu_to_bytes pdu = Some bs \<and> SdpPdu_parse (bs @ rest) = Some pdu"
  using parse_parameters_round_trip [OF assms] parse_pdu_header [of pdu _ rest] by force

theorem SdpPdu_round_trip_witness:
  "\<exists>bs. SdpPdu_to_bytes (ServiceSearchAttributeRequest 7 (DeSequence [DeUuid (SdpUuid16 3)]) 0xFFFF
      (encode_attribute_id_list [Range 0 0xFFFF]) [0]) = Some bs
    \<and> SdpPdu_parse bs = Some (ServiceSearchAttributeRequest 7 (DeSequence [DeUuid (SdpUuid16 3)]) 0xFFFF
      (encode_attribute_id_list [Range 0 0xFFFF]) [0])"
  using SdpPdu_round_trip [of "ServiceSearchAttributeRequest 7 (DeSequence [DeUuid (SdpUuid16 3)]) 0xFFFF
      (encode_attribute_id_list [Range 0 0xFFFF]) [0]" "[]"]
  by (simp add: wf_SdpPdu_def wf_pattern_def encode_attribute_id_list_def unsigned_integer_32_def
      variable_header_len_def SdpUuid_wire_len_def take_bit_word_eq_self)

end
