(* ===== verification/Sdp_Server.thy ===== *)
theory Sdp_Server
  imports Sdp_Pdu Classic_Channel
begin

text \<open>
  The SDP server and client (\<open>src/src/classic/sdp.rs\<close>). \<open>order\<close> is the order in which the server's hash
  map of records is iterated. \<open>None\<close> is a panic: a record that holds an integer of more than eight bytes.
\<close>

abbreviation (input) SDP_PSM :: "u16" where "SDP_PSM \<equiv> 0x0001"
abbreviation (input) SDP_CONTINUATION_WATCHDOG :: "nat" where "SDP_CONTINUATION_WATCHDOG \<equiv> 64"
abbreviation (input) CONTINUATION_MARKER :: "bytes" where "CONTINUATION_MARKER \<equiv> [0x01, 0x00]"
abbreviation (input) INVALID_SERVICE_RECORD_HANDLE :: "u16" where "INVALID_SERVICE_RECORD_HANDLE \<equiv> 0x0002"
abbreviation (input) INVALID_REQUEST_SYNTAX :: "u16" where "INVALID_REQUEST_SYNTAX \<equiv> 0x0003"
abbreviation (input) INVALID_CONTINUATION_STATE :: "u16" where "INVALID_CONTINUATION_STATE \<equiv> 0x0005"
abbreviation (input) SERVICE_RECORD_HANDLE :: "u16" where "SERVICE_RECORD_HANDLE \<equiv> 0x0000"
abbreviation (input) SERVICE_CLASS_ID_LIST :: "u16" where "SERVICE_CLASS_ID_LIST \<equiv> 0x0001"
abbreviation (input) PROTOCOL_DESCRIPTOR_LIST :: "u16" where "PROTOCOL_DESCRIPTOR_LIST \<equiv> 0x0004"
abbreviation (input) BROWSE_GROUP_LIST :: "u16" where "BROWSE_GROUP_LIST \<equiv> 0x0005"
abbreviation (input) ALL_ATTRIBUTES_RANGE :: "u16 \<times> u16" where "ALL_ATTRIBUTES_RANGE \<equiv> (0x0000, 0xFFFF)"

section \<open>Server\<close>

datatype PendingResponse = Handles u16 "u32 list" | Bytes bytes

record SdpServer =
  service_records :: "u32 \<rightharpoonup> Service"
  current_response :: "PendingResponse option"

definition SdpServer_new :: SdpServer where
  "SdpServer_new = \<lparr>service_records = Map.empty, current_response = None\<rparr>"

definition SdpServer_register :: "ClassicChannelManager \<Rightarrow> unit result \<times> ClassicChannelManager" where
  "SdpServer_register manager = register_server manager SDP_PSM"

text \<open>\<open>Some True\<close>: a continuation of the pending response, \<open>Some False\<close>: a fresh request.\<close>

definition check_continuation :: "bytes \<Rightarrow> SdpServer \<Rightarrow> bool option \<times> SdpServer" where
  "check_continuation cont s =
     (if 1 < length cont then
        (if current_response s = None \<or> cont \<noteq> CONTINUATION_MARKER then (None, s) else (Some True, s))
      else (Some False, s\<lparr>current_response := None\<rparr>))"

definition pattern_uuids :: "DataElement \<Rightarrow> DataElement list" where
  "pattern_uuids pattern = (case as_sequence pattern of None \<Rightarrow> [] | Some items \<Rightarrow> items)"

definition match_services :: "u32 list \<Rightarrow> DataElement \<Rightarrow> SdpServer \<Rightarrow> u32 list" where
  "match_services order pattern s =
     filter (\<lambda>handle. case service_records s handle of
         None \<Rightarrow> False
       | Some service \<Rightarrow>
           \<exists>ident \<in> set (pattern_uuids pattern). case as_uuid ident of
               None \<Rightarrow> False
             | Some target \<Rightarrow> \<exists>attr \<in> set service. is_uuid_in_value target (sa_value attr)) order"

definition attribute_range :: "DataElement \<Rightarrow> (u16 \<times> u16) option" where
  "attribute_range ident =
     (case as_unsigned_integer ident of
        None \<Rightarrow> None
      | Some (v, s) \<Rightarrow> Some (if s = 4 then (ucast (drop_bit 16 v), ucast (v AND 0xFFFF)) else (ucast v, ucast v)))"

definition select_attributes :: "Service \<Rightarrow> DataElement list \<Rightarrow> ServiceAttribute list" where
  "select_attributes service attribute_ids =
     sort_key sa_id (concat (map (\<lambda>ident. case attribute_range ident of
         None \<Rightarrow> []
       | Some (start, end_) \<Rightarrow> filter (\<lambda>a. start \<le> sa_id a \<and> sa_id a \<le> end_) service) attribute_ids))"

definition attribute_items :: "ServiceAttribute list \<Rightarrow> DataElement list" where
  "attribute_items attrs = concat (map (\<lambda>a. [unsigned_integer_16 (sa_id a), sa_value a]) attrs)"

definition get_service_attributes :: "Service \<Rightarrow> DataElement list \<Rightarrow> DataElement" where
  "get_service_attributes service attribute_ids = DeSequence (attribute_items (select_attributes service attribute_ids))"

definition next_response_payload :: "nat \<Rightarrow> SdpServer \<Rightarrow> bytes \<times> bytes \<times> SdpServer" where
  "next_response_payload max_size s =
     (let current = (case current_response s of Some (Bytes b) \<Rightarrow> b | _ \<Rightarrow> []);
          s = s\<lparr>current_response := None\<rparr>
      in if max_size < length current
         then (take max_size current, CONTINUATION_MARKER, s\<lparr>current_response := Some (Bytes (drop max_size current))\<rparr>)
         else (current, [0], s))"

definition on_service_search_request ::
  "u32 list \<Rightarrow> u16 \<Rightarrow> DataElement \<Rightarrow> u16 \<Rightarrow> bytes \<Rightarrow> u16 \<Rightarrow> SdpServer \<Rightarrow> SdpPdu \<times> SdpServer" where
  "on_service_search_request order t pattern count cont peer_mtu s =
     (case check_continuation cont s of
        (None, s) \<Rightarrow> (ErrorResponse t INVALID_CONTINUATION_STATE, s)
      | (Some continuation, s) \<Rightarrow>
          let s = (if continuation then s
                else
                  let handles = sort (match_services order pattern s)
                  in s\<lparr>current_response := Some (Handles (of_nat (length handles)) (take (unat count) handles))\<rparr>);
              (total_count, handles) = (case current_response s of Some (Handles t h) \<Rightarrow> (t, h) | _ \<Rightarrow> (0, []));
              s = s\<lparr>current_response := None\<rparr>;
              max_handles = (unat peer_mtu - 11) div 4;
              remaining = (if max_handles < length handles then drop max_handles handles else []);
              handles = (if max_handles < length handles then take max_handles handles else handles);
              (cont_out, s) = (if remaining = [] then ([0], s)
                else (CONTINUATION_MARKER, s\<lparr>current_response := Some (Handles total_count remaining)\<rparr>))
          in (ServiceSearchResponse t total_count handles cont_out, s))"

definition on_service_attribute_request ::
  "u16 \<Rightarrow> u32 \<Rightarrow> u16 \<Rightarrow> DataElement \<Rightarrow> bytes \<Rightarrow> u16 \<Rightarrow> SdpServer \<Rightarrow> (SdpPdu \<times> SdpServer) option" where
  "on_service_attribute_request t handle count ids cont peer_mtu s =
     (case check_continuation cont s of
        (None, s) \<Rightarrow> Some (ErrorResponse t INVALID_CONTINUATION_STATE, s)
      | (Some continuation, s) \<Rightarrow>
          if \<not> continuation \<and> service_records s handle = None
          then Some (ErrorResponse t INVALID_SERVICE_RECORD_HANDLE, s)
          else do {
            s \<leftarrow> (if continuation then Some s
              else do { b \<leftarrow> DataElement_to_bytes (get_service_attributes (the (service_records s handle)) (pattern_uuids ids));
                        Some (s\<lparr>current_response := Some (Bytes b)\<rparr>) });
            let (payload, cont_out, s) = next_response_payload (min (unat count) (unat peer_mtu - 9)) s;
            Some (ServiceAttributeResponse t payload cont_out, s) })"

definition matching_lists :: "u32 list \<Rightarrow> DataElement \<Rightarrow> DataElement \<Rightarrow> SdpServer \<Rightarrow> DataElement list" where
  "matching_lists order pattern ids s =
     filter (\<lambda>e. e \<noteq> DeSequence [])
       (map (\<lambda>handle. get_service_attributes (the (service_records s handle)) (pattern_uuids ids))
          (match_services order pattern s))"

definition on_service_search_attribute_request ::
  "u32 list \<Rightarrow> u16 \<Rightarrow> DataElement \<Rightarrow> u16 \<Rightarrow> DataElement \<Rightarrow> bytes \<Rightarrow> u16 \<Rightarrow> SdpServer \<Rightarrow> (SdpPdu \<times> SdpServer) option" where
  "on_service_search_attribute_request order t pattern count ids cont peer_mtu s =
     (case check_continuation cont s of
        (None, s) \<Rightarrow> Some (ErrorResponse t INVALID_CONTINUATION_STATE, s)
      | (Some continuation, s) \<Rightarrow> do {
          s \<leftarrow> (if continuation then Some s
            else do { b \<leftarrow> DataElement_to_bytes (DeSequence (matching_lists order pattern ids s));
                      Some (s\<lparr>current_response := Some (Bytes b)\<rparr>) });
          let (payload, cont_out, s) = next_response_payload (min (unat count) (unat peer_mtu - 9)) s;
          Some (ServiceSearchAttributeResponse t payload cont_out, s) })"

definition sdp_handle_pdu :: "u32 list \<Rightarrow> SdpPdu \<Rightarrow> u16 \<Rightarrow> SdpServer \<Rightarrow> (SdpPdu \<times> SdpServer) option" where
  "sdp_handle_pdu order pdu peer_mtu s =
     (case pdu of
        ServiceSearchRequest t pattern count cont \<Rightarrow>
          Some (on_service_search_request order t pattern count cont peer_mtu s)
      | ServiceAttributeRequest t handle count ids cont \<Rightarrow>
          on_service_attribute_request t handle count ids cont peer_mtu s
      | ServiceSearchAttributeRequest t pattern count ids cont \<Rightarrow>
          on_service_search_attribute_request order t pattern count ids cont peer_mtu s
      | other \<Rightarrow> Some (ErrorResponse (transaction_id other) INVALID_REQUEST_SYNTAX, s))"

definition handle_request :: "u32 list \<Rightarrow> u16 \<Rightarrow> bytes \<Rightarrow> SdpServer \<Rightarrow> (bytes \<times> SdpServer) option" where
  "handle_request order peer_mtu request s =
     (case SdpPdu_parse request of
        None \<Rightarrow> do { b \<leftarrow> SdpPdu_to_bytes (ErrorResponse 0 INVALID_REQUEST_SYNTAX); Some (b, s) }
      | Some pdu \<Rightarrow> do {
          (response, s) \<leftarrow> sdp_handle_pdu order pdu peer_mtu s;
          b \<leftarrow> SdpPdu_to_bytes response;
          Some (b, s) })"

section \<open>Client\<close>

record SdpClient =
  next_transaction_id :: u16

definition SdpClient_new :: SdpClient where
  "SdpClient_new = \<lparr>next_transaction_id = 0\<rparr>"

definition make_transaction_id :: "SdpClient \<Rightarrow> u16 \<times> SdpClient" where
  "make_transaction_id c = (next_transaction_id c, c\<lparr>next_transaction_id := next_transaction_id c + 1\<rparr>)"

definition is_final_continuation :: "bytes \<Rightarrow> bool" where
  "is_final_continuation state = (length state = 1 \<and> state ! 0 = 0)"

definition malformed_element :: SimbleError where
  "malformed_element = PacketParseError ''SDP: malformed response''"

definition unexpected_response :: SimbleError where
  "unexpected_response = PacketParseError ''SDP: unexpected response PDU type''"

definition watchdog_exceeded :: SimbleError where
  "watchdog_exceeded = DeviceError ''SDP: continuation watchdog exceeded''"

definition sdp_error :: "u16 \<Rightarrow> SimbleError" where
  "sdp_error code = DeviceError ''SDP: peer returned error''"

text \<open>
  The transport is a closure over a state \<open>'t\<close>. The three queries run the same loop: \<open>request\<close> builds
  the request of a round and \<open>part\<close> takes the wanted part and the continuation state from a response.
\<close>

type_synonym 't transport = "bytes \<Rightarrow> 't \<Rightarrow> (bytes \<times> 't) option"

fun sdp_rounds :: "nat \<Rightarrow> (u16 \<Rightarrow> bytes \<Rightarrow> SdpPdu) \<Rightarrow> (SdpPdu \<Rightarrow> ('a list \<times> bytes) option) \<Rightarrow> 't transport \<Rightarrow>
    bytes \<Rightarrow> 'a list \<Rightarrow> SdpClient \<Rightarrow> 't \<Rightarrow> ('a list result \<times> SdpClient \<times> 't) option" where
  "sdp_rounds 0 request part transport cont acc c t = Some (Inl watchdog_exceeded, c, t)"
| "sdp_rounds (Suc n) request part transport cont acc c t =
     (let (ident, c) = make_transaction_id c in do {
        bs \<leftarrow> SdpPdu_to_bytes (request ident cont);
        (response, t) \<leftarrow> transport bs t;
        case SdpPdu_parse response of
          None \<Rightarrow> Some (Inl malformed_element, c, t)
        | Some pdu \<Rightarrow>
            (case part pdu of
               Some (xs, cont) \<Rightarrow>
                 if is_final_continuation cont then Some (Inr (acc @ xs), c, t)
                 else sdp_rounds n request part transport cont (acc @ xs) c t
             | None \<Rightarrow>
                 (case pdu of
                    ErrorResponse _ code \<Rightarrow> Some (Inl (sdp_error code), c, t)
                  | _ \<Rightarrow> Some (Inl unexpected_response, c, t))) })"

definition uuid_pattern :: "SdpUuid list \<Rightarrow> DataElement" where
  "uuid_pattern uuids = DeSequence (map DeUuid uuids)"

definition search_services ::
  "SdpUuid list \<Rightarrow> 't transport \<Rightarrow> SdpClient \<Rightarrow> 't \<Rightarrow> (u32 list result \<times> SdpClient \<times> 't) option" where
  "search_services uuids transport c t =
     sdp_rounds SDP_CONTINUATION_WATCHDOG (\<lambda>ident cont. ServiceSearchRequest ident (uuid_pattern uuids) 0xFFFF cont)
       (\<lambda>pdu. case pdu of ServiceSearchResponse _ _ handles cont \<Rightarrow> Some (handles, cont) | _ \<Rightarrow> None)
       transport [0] [] c t"

definition get_attributes ::
  "u32 \<Rightarrow> AttributeIdSpec list \<Rightarrow> 't transport \<Rightarrow> SdpClient \<Rightarrow> 't \<Rightarrow> (ServiceAttribute list result \<times> SdpClient \<times> 't) option" where
  "get_attributes handle ids transport c t =
     map_option (\<lambda>(r, c, t). (case r of
         Inl e \<Rightarrow> Inl e
       | Inr acc \<Rightarrow>
           (case DataElement_from_bytes acc of
              None \<Rightarrow> Inl malformed_element
            | Some e \<Rightarrow> (case as_sequence e of None \<Rightarrow> Inl unexpected_response | Some items \<Rightarrow> Inr (list_from_data_elements items))),
       c, t))
     (sdp_rounds SDP_CONTINUATION_WATCHDOG
       (\<lambda>ident cont. ServiceAttributeRequest ident handle 0xFFFF (encode_attribute_id_list ids) cont)
       (\<lambda>pdu. case pdu of ServiceAttributeResponse _ attrs cont \<Rightarrow> Some (attrs, cont) | _ \<Rightarrow> None)
       transport [0] [] c t)"

definition search_attributes ::
  "SdpUuid list \<Rightarrow> AttributeIdSpec list \<Rightarrow> 't transport \<Rightarrow> SdpClient \<Rightarrow> 't \<Rightarrow>
     (ServiceAttribute list list result \<times> SdpClient \<times> 't) option" where
  "search_attributes uuids ids transport c t =
     map_option (\<lambda>(r, c, t). (case r of
         Inl e \<Rightarrow> Inl e
       | Inr acc \<Rightarrow>
           (case DataElement_from_bytes acc of
              None \<Rightarrow> Inl malformed_element
            | Some e \<Rightarrow>
                (case as_sequence e of
                   None \<Rightarrow> Inl unexpected_response
                 | Some items \<Rightarrow> Inr (map list_from_data_elements (List.map_filter as_sequence items)))),
       c, t))
     (sdp_rounds SDP_CONTINUATION_WATCHDOG
       (\<lambda>ident cont. ServiceSearchAttributeRequest ident (uuid_pattern uuids) 0xFFFF (encode_attribute_id_list ids) cont)
       (\<lambda>pdu. case pdu of ServiceSearchAttributeResponse _ attrs cont \<Rightarrow> Some (attrs, cont) | _ \<Rightarrow> None)
       transport [0] [] c t)"

end
