(* ===== verification/Sdp_Exchange.thy ===== *)
theory Sdp_Exchange
  imports Sdp_Server
begin

text \<open>
  An SDP client that talks to an SDP server: whatever the peer's MTU, the continuation rounds put the
  whole answer together, and it is the one the server's records give.
\<close>

section \<open>Continuation rounds\<close>

text \<open>The server hands out the pending list \<open>xs\<close> in parts of at most \<open>m\<close>.\<close>

definition hands_out :: "u32 list \<Rightarrow> u16 \<Rightarrow> (u16 \<Rightarrow> bytes \<Rightarrow> SdpPdu) \<Rightarrow> (u16 \<Rightarrow> 'a list \<Rightarrow> bytes \<Rightarrow> SdpPdu) \<Rightarrow>
    ('a list \<Rightarrow> PendingResponse) \<Rightarrow> nat \<Rightarrow> bytes \<Rightarrow> SdpServer \<Rightarrow> 'a list \<Rightarrow> bool" where
  "hands_out order mtu request response pending m cont s xs \<longleftrightarrow>
     (\<forall>ident. sdp_handle_pdu order (request ident cont) mtu s =
       Some (if m < length xs
             then (response ident (take m xs) CONTINUATION_MARKER, s\<lparr>current_response := Some (pending (drop m xs))\<rparr>)
             else (response ident xs [0], s\<lparr>current_response := None\<rparr>)))"

text \<open>A query in the client's loop and the server's answers to it.\<close>

definition continues :: "u32 list \<Rightarrow> u16 \<Rightarrow> (u16 \<Rightarrow> bytes \<Rightarrow> SdpPdu) \<Rightarrow> (u16 \<Rightarrow> 'a list \<Rightarrow> bytes \<Rightarrow> SdpPdu) \<Rightarrow>
    (SdpPdu \<Rightarrow> ('a list \<times> bytes) option) \<Rightarrow> ('a list \<Rightarrow> PendingResponse) \<Rightarrow> nat \<Rightarrow> bool" where
  "continues order mtu request response part pending m \<longleftrightarrow>
     0 < m
     \<and> (\<forall>ident cont. length cont \<le> 2 \<longrightarrow> wf_SdpPdu (request ident cont))
     \<and> (\<forall>ident xs cont. length xs \<le> m \<longrightarrow> length cont \<le> 2 \<longrightarrow> wf_SdpPdu (response ident xs cont))
     \<and> (\<forall>ident xs cont. part (response ident xs cont) = Some (xs, cont))
     \<and> (\<forall>s xs. hands_out order mtu request response pending m CONTINUATION_MARKER
           (s\<lparr>current_response := Some (pending xs)\<rparr>) xs)"

lemma final_continuation [simp]: "is_final_continuation [0]" "\<not> is_final_continuation CONTINUATION_MARKER"
  by (simp_all add: is_final_continuation_def)

lemma round_trip_bytes: "wf_SdpPdu pdu \<Longrightarrow> \<exists>bs. SdpPdu_to_bytes pdu = Some bs \<and> SdpPdu_parse bs = Some pdu"
  using parse_parameters_round_trip [of pdu] parse_pdu_header [of pdu _ "[]"] by force

lemma round_at_server:
  assumes "continues order mtu request response part pending m" "length cont \<le> 2"
    and "hands_out order mtu request response pending m cont s xs"
  shows "\<exists>c'. sdp_rounds (Suc n) request part (handle_request order mtu) cont acc c s =
    (if m < length xs
     then sdp_rounds n request part (handle_request order mtu) CONTINUATION_MARKER (acc @ take m xs) c'
       (s\<lparr>current_response := Some (pending (drop m xs))\<rparr>)
     else Some (Inr (acc @ xs), c', s\<lparr>current_response := None\<rparr>))"
proof -
  obtain ident c' where c: "make_transaction_id c = (ident, c')" by fastforce
  let ?ys = "if m < length xs then take m xs else xs"
  let ?cont = "if m < length xs then CONTINUATION_MARKER else [0]"
  have "wf_SdpPdu (request ident cont)" "wf_SdpPdu (response ident ?ys ?cont)"
    using assms(1,2) by (auto simp: continues_def)
  with round_trip_bytes obtain req res where
    "SdpPdu_to_bytes (request ident cont) = Some req" "SdpPdu_parse req = Some (request ident cont)"
    "SdpPdu_to_bytes (response ident ?ys ?cont) = Some res" "SdpPdu_parse res = Some (response ident ?ys ?cont)" by meson
  moreover have "part (response ident ys co) = Some (ys, co)" for ys co using assms(1) by (simp add: continues_def)
  ultimately show ?thesis
    using c assms(3) by (auto simp: hands_out_def handle_request_def Let_def split: if_splits)
qed

lemma rounds_collect:
  assumes "continues order mtu request response part pending m" "length cont \<le> 2"
    and "hands_out order mtu request response pending m cont s xs" "length xs \<le> Suc n * m"
  shows "\<exists>c'. sdp_rounds (Suc n) request part (handle_request order mtu) cont acc c s
    = Some (Inr (acc @ xs), c', s\<lparr>current_response := None\<rparr>)"
  using assms(2-4)
proof (induction n arbitrary: xs acc c cont s)
  case 0
  then show ?case using round_at_server [OF assms(1) 0(1,2), of 0] by auto
next
  case (Suc n)
  show ?case
  proof (cases "m < length xs")
    case False
    then show ?thesis using round_at_server [OF assms(1) Suc.prems(1,2)] by auto
  next
    case True
    have next_round: "hands_out order mtu request response pending m CONTINUATION_MARKER
        (s\<lparr>current_response := Some (pending (drop m xs))\<rparr>) (drop m xs)"
      using assms(1) by (simp add: continues_def)
    have "length (drop m xs) \<le> Suc n * m" using Suc.prems(3) by simp
    from Suc.IH [OF _ next_round this]
    have rest: "\<exists>c'. sdp_rounds (Suc n) request part (handle_request order mtu) CONTINUATION_MARKER acc' c
        (s\<lparr>current_response := Some (pending (drop m xs))\<rparr>)
      = Some (Inr (acc' @ drop m xs), c', s\<lparr>current_response := None\<rparr>)" for acc' c by simp
    obtain c' where "sdp_rounds (Suc (Suc n)) request part (handle_request order mtu) cont acc c s
      = sdp_rounds (Suc n) request part (handle_request order mtu) CONTINUATION_MARKER (acc @ take m xs) c'
          (s\<lparr>current_response := Some (pending (drop m xs))\<rparr>)"
      using round_at_server [OF assms(1) Suc.prems(1,2), of "Suc n" acc c] True by auto
    with rest [of "acc @ take m xs" c'] show ?thesis by simp
  qed
qed

text \<open>Once the rounds are used up the client gives up.\<close>

lemma rounds_exhausted:
  assumes "continues order mtu request response part pending m" "length cont \<le> 2"
    and "hands_out order mtu request response pending m cont s xs" "n * m < length xs"
  shows "\<exists>c' s'. sdp_rounds n request part (handle_request order mtu) cont acc c s = Some (Inl watchdog_exceeded, c', s')"
  using assms(2-4)
proof (induction n arbitrary: xs acc c cont s)
  case (Suc n)
  have more: "m < length xs" "n * m < length (drop m xs)" using Suc.prems(3) by auto
  have "hands_out order mtu request response pending m CONTINUATION_MARKER
      (s\<lparr>current_response := Some (pending (drop m xs))\<rparr>) (drop m xs)"
    using assms(1) by (simp add: continues_def)
  from Suc.IH [OF _ this more(2)]
  have "\<exists>c' s'. sdp_rounds n request part (handle_request order mtu) CONTINUATION_MARKER acc' c
      (s\<lparr>current_response := Some (pending (drop m xs))\<rparr>) = Some (Inl watchdog_exceeded, c', s')" for acc' c by simp
  moreover obtain c' where "sdp_rounds (Suc n) request part (handle_request order mtu) cont acc c s
      = sdp_rounds n request part (handle_request order mtu) CONTINUATION_MARKER (acc @ take m xs) c'
          (s\<lparr>current_response := Some (pending (drop m xs))\<rparr>)"
    using round_at_server [OF assms(1) Suc.prems(1,2), of n acc c] more(1) by auto
  ultimately show ?case by simp
qed simp

text \<open>What the client's loop gives for a pending answer: all of it, or the watchdog's error.\<close>

lemma rounds_result:
  assumes "continues order mtu request response part pending m" "hands_out order mtu request response pending m [0] s xs"
  shows "\<exists>c' s'. sdp_rounds 64 request part (handle_request order mtu) [0] [] c s
    = Some (if length xs \<le> 64 * m then Inr xs else Inl watchdog_exceeded, c', s')"
proof (cases "length xs \<le> 64 * m")
  case True
  then show ?thesis using rounds_collect [OF assms(1) _ assms(2), of 63 "[]" c] by auto
next
  case False
  then show ?thesis using rounds_exhausted [OF assms(1) _ assms(2), of 64 "[]" c] by simp
qed

section \<open>Queries\<close>

text \<open>UUIDs and attribute lists a request has room for.\<close>

definition wf_uuids :: "SdpUuid list \<Rightarrow> bool" where
  "wf_uuids uuids = (wf_pattern (uuid_pattern uuids) \<and> encoded_len (uuid_pattern uuids) < 0x7000)"

definition wf_ids :: "AttributeIdSpec list \<Rightarrow> bool" where
  "wf_ids ids = (encoded_len (encode_attribute_id_list ids) < 0x8000)"

lemma id_list_pattern: "wf_ids ids \<Longrightarrow> wf_pattern (encode_attribute_id_list ids)"
proof -
  assume ids: "wf_ids ids"
  let ?elem = "\<lambda>ident. case ident of Single v \<Rightarrow> unsigned_integer_16 v
    | Range a b \<Rightarrow> unsigned_integer_32 (push_bit 16 (ucast a) OR ucast b)"
  have elem: "wf_element (?elem i) \<and> nesting (?elem i) = 0" for i
  proof -
    have "take_bit 16 (ucast v :: 64 word) = ucast v" for v :: u16
      by (rule bit_word_eqI) (auto simp: bit_simps dest: bit_imp_le_length)
    moreover have "take_bit 32 (ucast v :: 64 word) = ucast v" for v :: u32
      by (rule bit_word_eqI) (auto simp: bit_simps dest: bit_imp_le_length)
    ultimately show ?thesis by (cases i) (simp_all add: unsigned_integer_16_def unsigned_integer_32_def)
  qed
  have "sum_list (map encoded_len (map ?elem ids)) \<le> encoded_len (DeSequence (map ?elem ids))"
    by (simp add: Let_def)
  then have "sum_list (map encoded_len (map ?elem ids)) < 2 ^ 32"
    using ids by (simp add: wf_ids_def encode_attribute_id_list_def Let_def)
  moreover have "Max (insert 0 (nesting ` set (map ?elem ids))) = 0"
    by (rule Max_eqI) (auto simp: elem)
  ultimately show ?thesis
    using elem by (simp add: wf_pattern_def encode_attribute_id_list_def)
qed

lemma search_continues:
  assumes "15 \<le> unat mtu" "wf_uuids uuids"
  shows "continues order mtu (\<lambda>ident cont. ServiceSearchRequest ident (uuid_pattern uuids) 0xFFFF cont)
    (\<lambda>ident xs cont. ServiceSearchResponse ident n xs cont)
    (\<lambda>pdu. case pdu of ServiceSearchResponse _ _ handles cont \<Rightarrow> Some (handles, cont) | _ \<Rightarrow> None)
    (Handles n) ((unat mtu - 11) div 4)"
proof -
  have "4 * ((unat mtu - 11) div 4) + 11 \<le> unat mtu" using assms(1) by linarith
  then have "4 + 4 * length xs + length cont < 0x10000"
    if "length xs \<le> (unat mtu - 11) div 4" "length cont \<le> 2" for xs :: "u32 list" and cont :: bytes
    using that unat_u16_less [of mtu] by linarith
  moreover have "0 < (unat mtu - 11) div 4" using assms(1) by simp
  ultimately show ?thesis
    using assms(2)
    by (simp add: continues_def wf_SdpPdu_def wf_uuids_def hands_out_def sdp_handle_pdu_def on_service_search_request_def
        check_continuation_def Let_def)
qed

lemma attributes_continue:
  assumes "10 \<le> unat mtu" "wf_ids ids"
  shows "continues order mtu (\<lambda>ident cont. ServiceAttributeRequest ident handle 0xFFFF (encode_attribute_id_list ids) cont)
    ServiceAttributeResponse
    (\<lambda>pdu. case pdu of ServiceAttributeResponse _ attrs cont \<Rightarrow> Some (attrs, cont) | _ \<Rightarrow> None) Bytes (unat mtu - 9)"
proof -
  have "2 + length xs + length cont < 0x10000" if "length xs \<le> unat mtu - 9" "length cont \<le> 2" for xs cont :: bytes
    using that assms(1) unat_u16_less [of mtu] by linarith
  moreover have "min 65535 (unat mtu - 9) = unat mtu - 9" using unat_u16_less [of mtu] by linarith
  ultimately show ?thesis
    using assms id_list_pattern [OF assms(2)]
    by (simp add: continues_def wf_SdpPdu_def wf_ids_def hands_out_def sdp_handle_pdu_def on_service_attribute_request_def
        check_continuation_def next_response_payload_def Let_def)
qed

lemma search_attributes_continue:
  assumes "10 \<le> unat mtu" "wf_ids ids" "wf_uuids uuids"
  shows "continues order mtu
    (\<lambda>ident cont. ServiceSearchAttributeRequest ident (uuid_pattern uuids) 0xFFFF (encode_attribute_id_list ids) cont)
    ServiceSearchAttributeResponse
    (\<lambda>pdu. case pdu of ServiceSearchAttributeResponse _ attrs cont \<Rightarrow> Some (attrs, cont) | _ \<Rightarrow> None) Bytes (unat mtu - 9)"
proof -
  have "2 + length xs + length cont < 0x10000" if "length xs \<le> unat mtu - 9" "length cont \<le> 2" for xs cont :: bytes
    using that assms(1) unat_u16_less [of mtu] by linarith
  moreover have "min 65535 (unat mtu - 9) = unat mtu - 9" using unat_u16_less [of mtu] by linarith
  ultimately show ?thesis
    using assms id_list_pattern [OF assms(2)]
    by (simp add: continues_def wf_SdpPdu_def wf_ids_def wf_uuids_def hands_out_def sdp_handle_pdu_def
        on_service_search_attribute_request_def check_continuation_def next_response_payload_def Let_def)
qed

section \<open>What a query finds\<close>

text \<open>A service matches when it holds one of the UUIDs; its attributes are those that one of the
  requested identifiers or ranges covers, in the order of their identifiers.\<close>

definition service_matches :: "SdpUuid list \<Rightarrow> Service \<Rightarrow> bool" where
  "service_matches uuids service = (\<exists>u \<in> set uuids. \<exists>a \<in> set service. is_uuid_in_value u (sa_value a))"

definition matching_handles :: "SdpUuid list \<Rightarrow> SdpServer \<Rightarrow> u32 set" where
  "matching_handles uuids s = {h. \<exists>service. service_records s h = Some service \<and> service_matches uuids service}"

definition in_spec :: "AttributeIdSpec \<Rightarrow> u16 \<Rightarrow> bool" where
  "in_spec spec i = (case spec of Single v \<Rightarrow> i = v | Range start end_ \<Rightarrow> start \<le> i \<and> i \<le> end_)"

definition requested_attributes :: "Service \<Rightarrow> AttributeIdSpec list \<Rightarrow> ServiceAttribute list" where
  "requested_attributes service ids =
     sort_key sa_id (concat (map (\<lambda>spec. filter (\<lambda>a. in_spec spec (sa_id a)) service) ids))"

definition wf_service :: "Service \<Rightarrow> bool" where
  "wf_service service = (\<forall>a \<in> set service. wf_element (sa_value a) \<and> nesting (sa_value a) \<le> 30)"

lemma match_services_eq:
  "match_services order (uuid_pattern uuids) s = filter (\<lambda>h. h \<in> matching_handles uuids s) order"
  unfolding match_services_def
  by (rule filter_cong) (auto simp: matching_handles_def service_matches_def pattern_uuids_def uuid_pattern_def
      as_sequence_def as_uuid_def split: option.splits)

lemma select_attributes_eq:
  "select_attributes service (pattern_uuids (encode_attribute_id_list ids)) = requested_attributes service ids"
proof -
  have range: "attribute_range (unsigned_integer_32 (push_bit 16 (ucast a) OR ucast b)) = Some (a, b)"
    "attribute_range (unsigned_integer_16 v) = Some (v, v)" for a b v :: u16
  proof -
    have "ucast (drop_bit 16 (ucast (push_bit 16 (ucast a) OR ucast b :: u32)) :: 64 word) = a"
      by (rule bit_word_eqI) (auto simp: bit_simps dest: bit_imp_le_length)
    moreover have "ucast (ucast (push_bit 16 (ucast a) OR ucast b :: u32) AND mask 16 :: 64 word) = b"
      by (rule bit_word_eqI) (auto simp: bit_simps dest: bit_imp_le_length)
    moreover have "mask 16 = (0xFFFF :: 64 word)" by (simp add: mask_eq_exp_minus_1)
    ultimately show "attribute_range (unsigned_integer_32 (push_bit 16 (ucast a) OR ucast b)) = Some (a, b)"
      unfolding attribute_range_def as_unsigned_integer_def unsigned_integer_32_def by simp
    have "ucast (ucast v :: 64 word) = v" by (rule bit_word_eqI) (auto simp: bit_simps)
    then show "attribute_range (unsigned_integer_16 v) = Some (v, v)"
      by (simp add: attribute_range_def as_unsigned_integer_def unsigned_integer_16_def)
  qed
  have "(case attribute_range (case spec of Single v \<Rightarrow> unsigned_integer_16 v
        | Range a b \<Rightarrow> unsigned_integer_32 (push_bit 16 (ucast a) OR ucast b)) of
      None \<Rightarrow> [] | Some (a, b) \<Rightarrow> filter (\<lambda>x. a \<le> sa_id x \<and> sa_id x \<le> b) service)
    = filter (\<lambda>a. in_spec spec (sa_id a)) service" for spec
    by (cases spec) (auto simp: range in_spec_def intro!: filter_cong)
  then show ?thesis
    by (simp add: select_attributes_def requested_attributes_def pattern_uuids_def encode_attribute_id_list_def
        as_sequence_def o_def)
qed

lemma attribute_items_read_back: "list_from_data_elements (attribute_items attrs) = attrs"
proof (induction attrs)
  case (Cons a attrs)
  have "ucast (ucast v :: 64 word) = v" for v :: u16 by (rule bit_word_eqI) (auto simp: bit_simps)
  with Cons show ?case
    by (cases a) (simp add: attribute_items_def as_unsigned_integer_def unsigned_integer_16_def ServiceAttribute_new_def)
qed (simp add: attribute_items_def)

lemma attribute_items_wf:
  assumes "wf_service service"
  shows "\<forall>e \<in> set (attribute_items (requested_attributes service ids)). wf_element e \<and> nesting e \<le> 30"
proof -
  have "take_bit 16 (ucast v :: 64 word) = ucast v" for v :: u16
    by (rule bit_word_eqI) (auto simp: bit_simps dest: bit_imp_le_length)
  then show ?thesis
    using assms by (auto simp: attribute_items_def requested_attributes_def wf_service_def unsigned_integer_16_def)
qed

lemma sequence_from_bytes:
  assumes "\<forall>e \<in> set items. wf_element e \<and> nesting e \<le> 31" "encoded_len (DeSequence items) < 2 ^ 32"
  shows "\<exists>b. DataElement_to_bytes (DeSequence items) = Some b \<and> length b = encoded_len (DeSequence items)
    \<and> DataElement_from_bytes b = Some (DeSequence items)"
proof -
  have "sum_list (map encoded_len items) < 2 ^ 32" using assms(2) by (simp add: Let_def)
  moreover have "nesting (DeSequence items) \<le> 32" using assms(1) by auto
  ultimately have "wf_pattern (DeSequence items)" using assms(1) by (simp add: wf_pattern_def)
  from parse_element_at [OF this] show ?thesis
    by (auto simp: DataElement_from_bytes_def) (metis append.right_neutral fst_conv option.map(2))
qed

lemma mtu_bound:
  assumes "10 \<le> unat (mtu :: u16)" "n \<le> 64 * (unat mtu - 9)"
  shows "n < 2 ^ 32"
proof -
  have "n \<le> 64 * 0xFFFF" using assms unat_u16_less [of mtu] by linarith
  then show ?thesis by simp
qed

lemma search_services_result:
  assumes order: "distinct order" "set order = dom (service_records s)"
    and mtu: "15 \<le> unat mtu" and count: "length order < 0x10000" and uuids: "wf_uuids uuids"
  shows "\<exists>c' s'. search_services uuids (handle_request order mtu) c s
    = Some (if card (matching_handles uuids s) \<le> 64 * ((unat mtu - 11) div 4)
        then Inr (sorted_list_of_set (matching_handles uuids s)) else Inl watchdog_exceeded, c', s')"
proof -
  let ?hs = "match_services order (uuid_pattern uuids) s"
  have set: "set ?hs = matching_handles uuids s" using order(2) by (auto simp: match_services_eq matching_handles_def)
  have distinct: "distinct ?hs" using order(1) by (simp add: match_services_eq)
  then have hs: "sort ?hs = sorted_list_of_set (matching_handles uuids s)"
    unfolding set [symmetric] sorted_list_of_set_sort_remdups by (simp add: distinct_remdups_id)
  have card: "card (matching_handles uuids s) = length ?hs"
    unfolding set [symmetric] by (rule distinct_card [OF distinct])
  have len: "length ?hs \<le> length order" by (simp add: match_services_eq)
  have take: "take 65535 (sort ?hs) = sort ?hs" using len count by simp
  note cont = search_continues [OF mtu uuids, of order "of_nat (length ?hs)"]
  have "hands_out order mtu (\<lambda>ident cont. ServiceSearchRequest ident (uuid_pattern uuids) 0xFFFF cont)
    (\<lambda>ident xs cont. ServiceSearchResponse ident (of_nat (length ?hs)) xs cont) (Handles (of_nat (length ?hs)))
    ((unat mtu - 11) div 4) [0] s (sort ?hs)"
    using take by (simp add: hands_out_def sdp_handle_pdu_def on_service_search_request_def check_continuation_def
        Let_def match_services_eq matching_handles_def)
  from rounds_result [OF cont this, of c] show ?thesis
    unfolding search_services_def hs card by (simp add: hs [symmetric])
qed

text \<open>The records a search is documented to return: those that hold every one of the UUIDs.\<close>

definition holds_uuid :: "Service \<Rightarrow> SdpUuid \<Rightarrow> bool" where
  "holds_uuid service u = (\<exists>a \<in> set service. is_uuid_in_value u (sa_value a))"

definition holding_all :: "SdpUuid list \<Rightarrow> SdpServer \<Rightarrow> u32 set" where
  "holding_all uuids s = {h. \<exists>service. service_records s h = Some service \<and> (\<forall>u \<in> set uuids. holds_uuid service u)}"

lemma matching_holding_all:
  assumes "uuids \<noteq> []"
    and "\<And>h service u v. service_records s h = Some service \<Longrightarrow> u \<in> set uuids \<Longrightarrow> v \<in> set uuids
      \<Longrightarrow> holds_uuid service u \<Longrightarrow> holds_uuid service v"
  shows "matching_handles uuids s = holding_all uuids s"
proof -
  have "hd uuids \<in> set uuids" using assms(1) by simp
  then show ?thesis
    using assms(2) unfolding matching_handles_def holding_all_def service_matches_def holds_uuid_def [symmetric] by blast
qed

text \<open>C15: A search by one UUID, or by several of which every record holds all or none, returns in
  ascending order exactly the handles of the records that hold all of them, for every peer MTU of at
  least 15, when their number lets them through within the client's 64 rounds; when it does not, the
  client reports that it gave up, and never a part of the list. (A record that holds only some of the
  UUIDs is returned as well, against the documentation: \<open>search_returns_partial_match\<close>.)\<close>
theorem search_services_finds:
  assumes order: "distinct order" "set order = dom (service_records s)"
    and mtu: "15 \<le> unat mtu" and count: "length order < 0x10000"
    and uuids: "wf_uuids uuids" "uuids \<noteq> []"
    and all_or_none: "\<And>h service u v. service_records s h = Some service \<Longrightarrow> u \<in> set uuids \<Longrightarrow> v \<in> set uuids
      \<Longrightarrow> holds_uuid service u \<Longrightarrow> holds_uuid service v"
  shows "\<exists>c' s'. search_services uuids (handle_request order mtu) c s
    = Some (if card (holding_all uuids s) \<le> 64 * ((unat mtu - 11) div 4)
        then Inr (sorted_list_of_set (holding_all uuids s)) else Inl watchdog_exceeded, c', s')"
proof -
  have eq: "matching_handles uuids s = holding_all uuids s"
    by (rule matching_holding_all [OF uuids(2)]) (rule all_or_none)
  show ?thesis using search_services_result [OF order mtu count uuids(1), of c] unfolding eq .
qed

text \<open>C14: A request for attributes of a record gives the client exactly the attributes that the
  identifiers and ranges cover, ordered by identifier and with their values, put together from parts
  of at most nine octets less than the peer's MTU, whenever 64 such parts are enough for the encoded
  list; and when they are not, the client's watchdog error, never a part of the attributes.\<close>
theorem get_attributes_complete:
  assumes served: "service_records s handle = Some service" "wf_service service"
    and mtu: "10 \<le> unat mtu" and ids: "wf_ids ids"
    and encodable: "encoded_len (DeSequence (attribute_items (requested_attributes service ids))) < 2 ^ 32"
  shows "\<exists>c' s'. get_attributes handle ids (handle_request order mtu) c s
    = Some (if encoded_len (DeSequence (attribute_items (requested_attributes service ids))) \<le> 64 * (unat mtu - 9)
        then Inr (requested_attributes service ids) else Inl watchdog_exceeded, c', s')"
proof -
  let ?items = "attribute_items (requested_attributes service ids)"
  obtain b where b: "DataElement_to_bytes (DeSequence ?items) = Some b" "length b = encoded_len (DeSequence ?items)"
      "DataElement_from_bytes b = Some (DeSequence ?items)"
    using sequence_from_bytes [OF _ encodable] attribute_items_wf [OF served(2), of ids] by force
  have "min 65535 (unat mtu - 9) = unat mtu - 9" using unat_u16_less [of mtu] by linarith
  then have "hands_out order mtu (\<lambda>ident cont. ServiceAttributeRequest ident handle 0xFFFF (encode_attribute_id_list ids) cont)
      ServiceAttributeResponse Bytes (unat mtu - 9) [0] s b"
    using served(1) b(1)
    by (simp add: hands_out_def sdp_handle_pdu_def on_service_attribute_request_def check_continuation_def Let_def
        get_service_attributes_def select_attributes_eq next_response_payload_def)
  from rounds_result [OF attributes_continue [OF mtu ids] this, of c]
  obtain c' s' where rounds: "sdp_rounds 64 (\<lambda>ident cont. ServiceAttributeRequest ident handle 0xFFFF (encode_attribute_id_list ids) cont)
      (\<lambda>pdu. case pdu of ServiceAttributeResponse _ attrs cont \<Rightarrow> Some (attrs, cont) | _ \<Rightarrow> None) (handle_request order mtu) [0] [] c s
    = Some (if length b \<le> 64 * (unat mtu - 9) then Inr b else Inl watchdog_exceeded, c', s')" by blast
  then show ?thesis
    by (cases "length b \<le> 64 * (unat mtu - 9)")
      (simp_all add: get_attributes_def b(2,3) as_sequence_def attribute_items_read_back)
qed

lemma matching_lists_eq:
  "matching_lists order (uuid_pattern uuids) (encode_attribute_id_list ids) s =
     map (\<lambda>attrs. DeSequence (attribute_items attrs))
       (filter (\<lambda>attrs. attrs \<noteq> []) (map (\<lambda>h. requested_attributes (the (service_records s h)) ids)
          (filter (\<lambda>h. h \<in> matching_handles uuids s) order)))"
  by (induction order)
    (auto simp: matching_lists_def match_services_eq get_service_attributes_def select_attributes_eq attribute_items_def)

lemma search_attributes_exchange:
  fixes order :: "u32 list"
  assumes records: "\<forall>h service. service_records s h = Some service \<longrightarrow> wf_service service"
    and mtu: "10 \<le> unat mtu" and wf: "wf_ids ids" "wf_uuids uuids"
  defines "found \<equiv> filter (\<lambda>attrs. attrs \<noteq> []) (map (\<lambda>h. requested_attributes (the (service_records s h)) ids)
      (filter (\<lambda>h. h \<in> matching_handles uuids s) order))"
  assumes room: "encoded_len (DeSequence (map (\<lambda>attrs. DeSequence (attribute_items attrs)) found)) \<le> 64 * (unat mtu - 9)"
  shows "\<exists>c' s'. search_attributes uuids ids (handle_request order mtu) c s = Some (Inr found, c', s')"
proof -
  let ?items = "map (\<lambda>attrs. DeSequence (attribute_items attrs)) found"
  have items: "wf_element e \<and> nesting e \<le> 31" if e: "e \<in> set ?items" for e
  proof -
    obtain h service where h: "service_records s h = Some service" "e = DeSequence (attribute_items (requested_attributes service ids))"
      using e by (auto simp: found_def matching_handles_def)
    have inner: "\<forall>e \<in> set (attribute_items (requested_attributes service ids)). wf_element e \<and> nesting e \<le> 30"
      using attribute_items_wf records h(1) by blast
    have "encoded_len e \<in> set (map encoded_len ?items)" using e by (simp only: set_map imageI)
    from member_le_sum_list [OF this] have "encoded_len e \<le> sum_list (map encoded_len ?items)" by simp
    then have "encoded_len e \<le> encoded_len (DeSequence ?items)" unfolding encoded_len.simps(8) Let_def by (rule trans_le_add2)
    then have "sum_list (map encoded_len (attribute_items (requested_attributes service ids))) < 2 ^ 32"
      using mtu_bound [OF mtu room] by (simp add: h(2) Let_def)
    then show ?thesis using inner h(2) by auto
  qed
  obtain b where b: "DataElement_to_bytes (DeSequence ?items) = Some b" "length b = encoded_len (DeSequence ?items)"
      "DataElement_from_bytes b = Some (DeSequence ?items)"
    using sequence_from_bytes [of ?items] items mtu_bound [OF mtu room] by blast
  have "min 65535 (unat mtu - 9) = unat mtu - 9" using unat_u16_less [of mtu] by linarith
  moreover have "matching_lists order (uuid_pattern uuids) (encode_attribute_id_list ids) (s\<lparr>current_response := None\<rparr>) = ?items"
    by (simp add: matching_lists_eq found_def matching_handles_def)
  ultimately have "hands_out order mtu
      (\<lambda>ident cont. ServiceSearchAttributeRequest ident (uuid_pattern uuids) 0xFFFF (encode_attribute_id_list ids) cont)
      ServiceSearchAttributeResponse Bytes (unat mtu - 9) [0] s b"
    using b(1)
    by (simp add: hands_out_def sdp_handle_pdu_def on_service_search_attribute_request_def check_continuation_def Let_def
        next_response_payload_def)
  from rounds_collect [OF search_attributes_continue [OF mtu wf] _ this, of 63 "[]" c] b(2) room
  obtain c' where rounds: "sdp_rounds 64
      (\<lambda>ident cont. ServiceSearchAttributeRequest ident (uuid_pattern uuids) 0xFFFF (encode_attribute_id_list ids) cont)
      (\<lambda>pdu. case pdu of ServiceSearchAttributeResponse _ attrs cont \<Rightarrow> Some (attrs, cont) | _ \<Rightarrow> None)
      (handle_request order mtu) [0] [] c s
    = Some (Inr b, c', s\<lparr>current_response := None\<rparr>)" by auto
  have "map list_from_data_elements (List.map_filter as_sequence ?items) = found"
    by (induction found) (simp_all add: as_sequence_def attribute_items_read_back List.map_filter_simps)
  then show ?thesis using rounds by (simp add: search_attributes_def b(3) as_sequence_def)
qed

text \<open>A combined search returns, for every record that holds one of the UUIDs, the requested
  attributes it has (a record with none of them is left out), in the order in which the server goes
  through its records.\<close>
theorem search_attributes_complete:
  assumes "\<forall>h service. service_records s h = Some service \<longrightarrow> wf_service service"
    and "10 \<le> unat mtu" "wf_ids ids" "wf_uuids uuids"
    and "found = filter (\<lambda>attrs. attrs \<noteq> []) (map (\<lambda>h. requested_attributes (the (service_records s h)) ids)
      (filter (\<lambda>h. h \<in> matching_handles uuids s) order))"
    and "encoded_len (DeSequence (map (\<lambda>attrs. DeSequence (attribute_items attrs)) found)) \<le> 64 * (unat mtu - 9)"
  shows "\<exists>c' s'. search_attributes uuids ids (handle_request order mtu) c s = Some (Inr found, c', s')"
  using search_attributes_exchange [OF assms(1-4)] assms(5,6) by blast

text \<open>A server with two records, one of which is an L2CAP service.\<close>

definition sample_records :: SdpServer where
  "sample_records = SdpServer_new\<lparr>service_records :=
     [7 \<mapsto> [ServiceAttribute_new 4 (DeSequence [DeUuid BT_L2CAP_PROTOCOL_ID]), ServiceAttribute_new 0 (unsigned_integer_8 7)],
      9 \<mapsto> [ServiceAttribute_new 1 (DeText [65])]]\<rparr>"

lemmas sample_simps = sample_records_def SdpServer_new_def ServiceAttribute_new_def unsigned_integer_8_def
  unsigned_integer_16_def unsigned_integer_32_def encode_attribute_id_list_def requested_attributes_def in_spec_def
  attribute_items_def uuid_pattern_def variable_header_len_def SdpUuid_wire_len_def

lemma sample_matching: "matching_handles [BT_L2CAP_PROTOCOL_ID] sample_records = {7}"
  by (auto simp: matching_handles_def service_matches_def sample_records_def SdpServer_new_def ServiceAttribute_new_def
      unsigned_integer_8_def split: if_splits)

lemma sample_wf: "wf_ids [Range 0 0xFFFF]" "wf_uuids [BT_L2CAP_PROTOCOL_ID]"
    "service_records sample_records h = Some service \<Longrightarrow> wf_service service"
  by (auto simp: wf_ids_def wf_uuids_def wf_pattern_def wf_service_def sample_simps split: if_splits)

lemma sample_holding: "holding_all [BT_L2CAP_PROTOCOL_ID] sample_records = {7}"
  using sample_matching matching_holding_all [of "[BT_L2CAP_PROTOCOL_ID]" sample_records] by simp

theorem search_services_finds_witness:
  "\<exists>c' s'. search_services [BT_L2CAP_PROTOCOL_ID] (handle_request [9, 7] 48) SdpClient_new sample_records = Some (Inr [7], c', s')"
  using search_services_finds [of "[9, 7]" sample_records 48 "[BT_L2CAP_PROTOCOL_ID]" SdpClient_new] sample_wf(2)
  unfolding sample_holding by (simp add: sample_records_def SdpServer_new_def)

text \<open>A search for two UUIDs, of which the only record found holds one.\<close>

lemma search_returns_partial_match:
  "(\<exists>c' s'. search_services [BT_L2CAP_PROTOCOL_ID, BT_RFCOMM_PROTOCOL_ID] (handle_request [9, 7] 48) SdpClient_new sample_records
      = Some (Inr [7], c', s')) \<and> holding_all [BT_L2CAP_PROTOCOL_ID, BT_RFCOMM_PROTOCOL_ID] sample_records = {}"
proof -
  have m: "matching_handles [BT_L2CAP_PROTOCOL_ID, BT_RFCOMM_PROTOCOL_ID] sample_records = {7}"
    by (auto simp: matching_handles_def service_matches_def sample_records_def SdpServer_new_def ServiceAttribute_new_def
        unsigned_integer_8_def split: if_splits)
  have "wf_uuids [BT_L2CAP_PROTOCOL_ID, BT_RFCOMM_PROTOCOL_ID]"
    by (auto simp: wf_uuids_def wf_pattern_def sample_simps)
  from search_services_result [OF _ _ _ _ this, of "[9, 7]" sample_records 48 SdpClient_new]
  have "\<exists>c' s'. search_services [BT_L2CAP_PROTOCOL_ID, BT_RFCOMM_PROTOCOL_ID] (handle_request [9, 7] 48) SdpClient_new sample_records
      = Some (Inr [7], c', s')"
    unfolding m by (simp add: sample_records_def SdpServer_new_def)
  moreover have "holding_all [BT_L2CAP_PROTOCOL_ID, BT_RFCOMM_PROTOCOL_ID] sample_records = {}"
    by (auto simp: holding_all_def holds_uuid_def sample_records_def SdpServer_new_def ServiceAttribute_new_def
        unsigned_integer_8_def split: if_splits)
  ultimately show ?thesis by blast
qed

theorem get_attributes_complete_witness:
  "\<exists>c' s'. get_attributes 9 [Range 0 0xFFFF] (handle_request [9, 7] 10) SdpClient_new sample_records
    = Some (Inr [ServiceAttribute_new 1 (DeText [65])], c', s')"
proof -
  have attrs: "requested_attributes [ServiceAttribute_new 1 (DeText [65])] [Range 0 0xFFFF] = [ServiceAttribute_new 1 (DeText [65])]"
    by (simp add: sample_simps)
  show ?thesis
    using get_attributes_complete [of sample_records 9 "[ServiceAttribute_new 1 (DeText [65])]" 10 "[Range 0 0xFFFF]" "[9, 7]" SdpClient_new]
      sample_wf(1) sample_wf(3) [of 9]
    unfolding attrs by (simp add: sample_simps)
qed

theorem search_attributes_complete_witness:
  "\<exists>c' s'. search_attributes [BT_L2CAP_PROTOCOL_ID] [Single 0] (handle_request [9, 7] 10) SdpClient_new sample_records
    = Some (Inr [[ServiceAttribute_new 0 (unsigned_integer_8 7)]], c', s')"
proof -
  have found: "[[ServiceAttribute_new 0 (unsigned_integer_8 7)]]
      = filter (\<lambda>attrs. attrs \<noteq> []) (map (\<lambda>h. requested_attributes (the (service_records sample_records h)) [Single 0])
        (filter (\<lambda>h. h \<in> matching_handles [BT_L2CAP_PROTOCOL_ID] sample_records) [9, 7]))"
    unfolding sample_matching by (simp add: sample_simps)
  show ?thesis
    by (rule search_attributes_complete [OF _ _ _ sample_wf(2) found])
      (auto simp: sample_wf(3), auto simp: wf_ids_def sample_simps)
qed

end
