(* ===== verification/Rfcomm_Frame.thy ===== *)
theory Rfcomm_Frame
  imports Byte_Table
begin

text \<open>
  RFCOMM frames (\<open>src/src/classic/rfcomm.rs\<close>): the checksum, the frame with its extensible length
  field, and the multiplexer control commands it carries.
\<close>

section \<open>Constants\<close>

abbreviation (input) RFCOMM_PSM :: u16 where "RFCOMM_PSM \<equiv> 0x0003"
abbreviation (input) MAX_INITIAL_CREDITS :: u8 where "MAX_INITIAL_CREDITS \<equiv> 7"
abbreviation (input) DEFAULT_MAX_CREDITS :: u8 where "DEFAULT_MAX_CREDITS \<equiv> 32"
abbreviation (input) DEFAULT_CREDIT_THRESHOLD :: u8 where "DEFAULT_CREDIT_THRESHOLD \<equiv> 16"
abbreviation (input) DEFAULT_FRAME_SIZE_WITHOUT_PN :: u16 where "DEFAULT_FRAME_SIZE_WITHOUT_PN \<equiv> 127"

abbreviation (input) frame_SABM :: u8 where "frame_SABM \<equiv> 0x2F"
abbreviation (input) frame_UA :: u8 where "frame_UA \<equiv> 0x63"
abbreviation (input) frame_DM :: u8 where "frame_DM \<equiv> 0x0F"
abbreviation (input) frame_DISC :: u8 where "frame_DISC \<equiv> 0x43"
abbreviation (input) frame_UIH :: u8 where "frame_UIH \<equiv> 0xEF"
abbreviation (input) frame_UI :: u8 where "frame_UI \<equiv> 0x03"

abbreviation (input) mcc_PN :: u8 where "mcc_PN \<equiv> 0x20"
abbreviation (input) mcc_MSC :: u8 where "mcc_MSC \<equiv> 0x38"
abbreviation (input) mcc_NSC :: u8 where "mcc_NSC \<equiv> 0x04"

abbreviation (input) pn_CFC_COMMAND :: u8 where "pn_CFC_COMMAND \<equiv> 0xF0"
abbreviation (input) pn_CFC_RESPONSE :: u8 where "pn_CFC_RESPONSE \<equiv> 0xE0"
abbreviation (input) pn_NO_CFC :: u8 where "pn_NO_CFC \<equiv> 0x00"

section \<open>Frame check sequence\<close>

definition FCS_TABLE :: bytes where
  "FCS_TABLE = [
     0x00, 0x91, 0xE3, 0x72, 0x07, 0x96, 0xE4, 0x75, 0x0E, 0x9F, 0xED, 0x7C, 0x09, 0x98, 0xEA, 0x7B,
     0x1C, 0x8D, 0xFF, 0x6E, 0x1B, 0x8A, 0xF8, 0x69, 0x12, 0x83, 0xF1, 0x60, 0x15, 0x84, 0xF6, 0x67,
     0x38, 0xA9, 0xDB, 0x4A, 0x3F, 0xAE, 0xDC, 0x4D, 0x36, 0xA7, 0xD5, 0x44, 0x31, 0xA0, 0xD2, 0x43,
     0x24, 0xB5, 0xC7, 0x56, 0x23, 0xB2, 0xC0, 0x51, 0x2A, 0xBB, 0xC9, 0x58, 0x2D, 0xBC, 0xCE, 0x5F,
     0x70, 0xE1, 0x93, 0x02, 0x77, 0xE6, 0x94, 0x05, 0x7E, 0xEF, 0x9D, 0x0C, 0x79, 0xE8, 0x9A, 0x0B,
     0x6C, 0xFD, 0x8F, 0x1E, 0x6B, 0xFA, 0x88, 0x19, 0x62, 0xF3, 0x81, 0x10, 0x65, 0xF4, 0x86, 0x17,
     0x48, 0xD9, 0xAB, 0x3A, 0x4F, 0xDE, 0xAC, 0x3D, 0x46, 0xD7, 0xA5, 0x34, 0x41, 0xD0, 0xA2, 0x33,
     0x54, 0xC5, 0xB7, 0x26, 0x53, 0xC2, 0xB0, 0x21, 0x5A, 0xCB, 0xB9, 0x28, 0x5D, 0xCC, 0xBE, 0x2F,
     0xE0, 0x71, 0x03, 0x92, 0xE7, 0x76, 0x04, 0x95, 0xEE, 0x7F, 0x0D, 0x9C, 0xE9, 0x78, 0x0A, 0x9B,
     0xFC, 0x6D, 0x1F, 0x8E, 0xFB, 0x6A, 0x18, 0x89, 0xF2, 0x63, 0x11, 0x80, 0xF5, 0x64, 0x16, 0x87,
     0xD8, 0x49, 0x3B, 0xAA, 0xDF, 0x4E, 0x3C, 0xAD, 0xD6, 0x47, 0x35, 0xA4, 0xD1, 0x40, 0x32, 0xA3,
     0xC4, 0x55, 0x27, 0xB6, 0xC3, 0x52, 0x20, 0xB1, 0xCA, 0x5B, 0x29, 0xB8, 0xCD, 0x5C, 0x2E, 0xBF,
     0x90, 0x01, 0x73, 0xE2, 0x97, 0x06, 0x74, 0xE5, 0x9E, 0x0F, 0x7D, 0xEC, 0x99, 0x08, 0x7A, 0xEB,
     0x8C, 0x1D, 0x6F, 0xFE, 0x8B, 0x1A, 0x68, 0xF9, 0x82, 0x13, 0x61, 0xF0, 0x85, 0x14, 0x66, 0xF7,
     0xA8, 0x39, 0x4B, 0xDA, 0xAF, 0x3E, 0x4C, 0xDD, 0xA6, 0x37, 0x45, 0xD4, 0xA1, 0x30, 0x42, 0xD3,
     0xB4, 0x25, 0x57, 0xC6, 0xB3, 0x22, 0x50, 0xC1, 0xBA, 0x2B, 0x59, 0xC8, 0xBD, 0x2C, 0x5E, 0xCF]"

definition compute_fcs :: "bytes \<Rightarrow> u8" where
  "compute_fcs buffer = 0xFF - foldl (\<lambda>result byte. FCS_TABLE ! unat (result XOR byte)) 0xFF buffer"

section \<open>Frames\<close>

record RfcommFrameHeader =
  rfh_address :: u8
  rfh_control :: u8

definition RfcommFrameHeader_as_bytes :: "RfcommFrameHeader \<Rightarrow> bytes" where
  "RfcommFrameHeader_as_bytes h = [rfh_address h, rfh_control h]"

definition RfcommFrameHeader_of_bytes :: "bytes \<Rightarrow> RfcommFrameHeader" where
  "RfcommFrameHeader_of_bytes bs = \<lparr>rfh_address = bs ! 0, rfh_control = bs ! 1\<rparr>"

interpretation rfh_layout: wire_layout 2 "\<lambda>_. True" RfcommFrameHeader_as_bytes RfcommFrameHeader_of_bytes
  by unfold_locales
    (auto simp: RfcommFrameHeader_as_bytes_def RfcommFrameHeader_of_bytes_def list_of_length)

record RfcommFrame =
  rf_type :: u8
  rf_c_r :: u8
  rf_dlci :: u8
  rf_p_f :: u8
  rf_information :: bytes
  rf_with_credits :: bool

definition RfcommFrame_new :: "u8 \<Rightarrow> u8 \<Rightarrow> u8 \<Rightarrow> u8 \<Rightarrow> bytes \<Rightarrow> bool \<Rightarrow> RfcommFrame" where
  "RfcommFrame_new frame_type c_r dlci p_f information with_credits =
     \<lparr>rf_type = frame_type, rf_c_r = c_r, rf_dlci = dlci, rf_p_f = p_f, rf_information = information,
      rf_with_credits = with_credits\<rparr>"

definition frame_sabm :: "u8 \<Rightarrow> u8 \<Rightarrow> RfcommFrame" where
  "frame_sabm c_r dlci = RfcommFrame_new frame_SABM c_r dlci 1 [] False"

definition frame_ua :: "u8 \<Rightarrow> u8 \<Rightarrow> RfcommFrame" where
  "frame_ua c_r dlci = RfcommFrame_new frame_UA c_r dlci 1 [] False"

definition frame_dm :: "u8 \<Rightarrow> u8 \<Rightarrow> RfcommFrame" where
  "frame_dm c_r dlci = RfcommFrame_new frame_DM c_r dlci 1 [] False"

definition frame_disc :: "u8 \<Rightarrow> u8 \<Rightarrow> RfcommFrame" where
  "frame_disc c_r dlci = RfcommFrame_new frame_DISC c_r dlci 1 [] False"

definition frame_uih :: "u8 \<Rightarrow> u8 \<Rightarrow> bytes \<Rightarrow> u8 \<Rightarrow> RfcommFrame" where
  "frame_uih c_r dlci information p_f = RfcommFrame_new frame_UIH c_r dlci p_f information (p_f = 1)"

definition address_byte :: "RfcommFrame \<Rightarrow> u8" where
  "address_byte f = push_bit 2 (rf_dlci f) OR push_bit 1 (rf_c_r f) OR 1"

definition control_byte :: "RfcommFrame \<Rightarrow> u8" where
  "control_byte f = rf_type f OR push_bit 4 (rf_p_f f)"

definition length_value :: "RfcommFrame \<Rightarrow> nat" where
  "length_value f =
     (let len = length (rf_information f) in if rf_with_credits f then len - 1 else len)"

definition length_bytes :: "RfcommFrame \<Rightarrow> bytes" where
  "length_bytes f =
     (let len = length_value f in
      if 0x7F < len then [of_nat (push_bit 1 (len AND 0x7F)), of_nat (drop_bit 7 len AND 0xFF)]
      else [of_nat (push_bit 1 len OR 1)])"

definition frame_fcs :: "RfcommFrame \<Rightarrow> u8" where
  "frame_fcs f =
     (let address = address_byte f; control = control_byte f in
      if rf_type f = frame_UIH then compute_fcs [address, control]
      else compute_fcs ([address, control] @ length_bytes f))"

definition RfcommFrame_to_bytes :: "RfcommFrame \<Rightarrow> bytes" where
  "RfcommFrame_to_bytes f =
     [address_byte f, control_byte f] @ length_bytes f @ rf_information f @ [frame_fcs f]"

definition RfcommFrame_parse :: "bytes \<Rightarrow> RfcommFrame option" where
  "RfcommFrame_parse data =
     (case from_prefix 2 RfcommFrameHeader_of_bytes data of
        None \<Rightarrow> None
      | Some (header, rest) \<Rightarrow>
          let dlci = drop_bit 2 (rfh_address header) AND 0x3F;
              c_r = drop_bit 1 (rfh_address header) AND 1;
              frame_type = rfh_control header AND 0xEF;
              p_f = drop_bit 4 (rfh_control header) AND 1
          in (case rest of
                [] \<Rightarrow> None
              | length_byte0 # _ \<Rightarrow>
                  let information_start = (if length_byte0 AND 1 \<noteq> 0 then 1 else 2) in
                  if length rest < information_start + 1 then None
                  else
                    let information = take (length rest - 1 - information_start) (drop information_start rest);
                        fcs_byte = List.last rest;
                        frame = RfcommFrame_new frame_type c_r dlci p_f information False
                    in if frame_fcs frame \<noteq> fcs_byte then None else Some frame))"

section \<open>Multiplexer control commands\<close>

definition parse_mcc :: "bytes \<Rightarrow> (u8 \<times> bool \<times> bytes) option" where
  "parse_mcc data =
     (case data of
        byte0 # len_byte0 # rest \<Rightarrow>
          let mcc_type = drop_bit 2 byte0;
              c_r = (drop_bit 1 byte0 AND 1 \<noteq> 0)
          in if len_byte0 AND 1 \<noteq> 0 then
               let len = unat (drop_bit 1 len_byte0)
               in if length rest < len then None else Some (mcc_type, c_r, take len rest)
             else
               (case rest of
                  [] \<Rightarrow> None
                | len_byte1 # rest \<Rightarrow>
                    let len = unat (drop_bit 1 len_byte0) OR push_bit 7 (unat len_byte1)
                    in if length rest < len then None else Some (mcc_type, c_r, take len rest))
      | _ \<Rightarrow> None)"

definition make_mcc :: "u8 \<Rightarrow> bool \<Rightarrow> bytes \<Rightarrow> bytes" where
  "make_mcc mcc_type c_r data =
     [push_bit 2 mcc_type OR push_bit 1 (of_bool c_r) OR 1,
      push_bit 1 (of_nat (length data) AND 0x7F) OR 1] @ data"

record MccPn =
  pn_dlci :: u8
  pn_cl :: u8
  pn_priority :: u8
  pn_ack_timer :: u8
  pn_max_frame_size :: u16
  pn_max_retransmissions :: u8
  pn_initial_credits :: u8

definition MccPn_to_bytes :: "MccPn \<Rightarrow> bytes" where
  "MccPn_to_bytes pn =
     [pn_dlci pn, pn_cl pn, pn_priority pn, pn_ack_timer pn, ucast (pn_max_frame_size pn AND 0xFF),
      ucast (drop_bit 8 (pn_max_frame_size pn) AND 0xFF), pn_max_retransmissions pn,
      min (pn_initial_credits pn) MAX_INITIAL_CREDITS]"

definition MccPn_parse :: "bytes \<Rightarrow> MccPn option" where
  "MccPn_parse data =
     (if length data < 8 then None
      else Some \<lparr>pn_dlci = data ! 0, pn_cl = data ! 1, pn_priority = data ! 2, pn_ack_timer = data ! 3,
        pn_max_frame_size = ucast (data ! 4) OR push_bit 8 (ucast (data ! 5)),
        pn_max_retransmissions = data ! 6, pn_initial_credits = data ! 7 AND 0x07\<rparr>)"

record MccMsc =
  msc_dlci :: u8
  msc_fc :: bool
  msc_rtc :: bool
  msc_rtr :: bool
  msc_ic :: bool
  msc_dv :: bool

definition MccMsc_to_bytes :: "MccMsc \<Rightarrow> bytes" where
  "MccMsc_to_bytes m =
     [push_bit 2 (msc_dlci m) OR 3,
      1 OR push_bit 1 (of_bool (msc_fc m)) OR push_bit 2 (of_bool (msc_rtc m)) OR push_bit 3 (of_bool (msc_rtr m))
        OR push_bit 6 (of_bool (msc_ic m)) OR push_bit 7 (of_bool (msc_dv m))]"

definition MccMsc_parse :: "bytes \<Rightarrow> MccMsc option" where
  "MccMsc_parse data =
     (if length data < 2 then None
      else Some \<lparr>msc_dlci = drop_bit 2 (data ! 0), msc_fc = (drop_bit 1 (data ! 1) AND 1 \<noteq> 0),
        msc_rtc = (drop_bit 2 (data ! 1) AND 1 \<noteq> 0), msc_rtr = (drop_bit 3 (data ! 1) AND 1 \<noteq> 0),
        msc_ic = (drop_bit 6 (data ! 1) AND 1 \<noteq> 0), msc_dv = (drop_bit 7 (data ! 1) AND 1 \<noteq> 0)\<rparr>)"

definition MccMsc_default_response :: "u8 \<Rightarrow> MccMsc" where
  "MccMsc_default_response dlci =
     \<lparr>msc_dlci = dlci, msc_fc = False, msc_rtc = True, msc_rtr = True, msc_ic = False, msc_dv = True\<rparr>"

section \<open>The checksum\<close>

lemma length_FCS_TABLE: "length FCS_TABLE = 256"
  by (simp add: FCS_TABLE_def)

lemma distinct_FCS_TABLE: "distinct FCS_TABLE"
  by (rule byte_table_distinct [OF _ length_FCS_TABLE])
    (unfold byte_mask_def FCS_TABLE_def mask_eq_exp_minus_1, simp)

text \<open>The same checksum without a table: TS 07.10's polynomial, one bit at a time.\<close>

definition crc_shift :: "u8 \<Rightarrow> u8" where
  "crc_shift r = (if r AND 1 = 1 then drop_bit 1 r XOR 0xE0 else drop_bit 1 r)"

definition fcs_bitwise :: "bytes \<Rightarrow> u8" where
  "fcs_bitwise bs = 0xFF - foldl (\<lambda>r b. (crc_shift ^^ 8) (r XOR b)) 0xFF bs"

lemma crc_shift_xor: "crc_shift (a XOR b) = crc_shift a XOR crc_shift b"
proof -
  have "crc_shift x = (if odd x then drop_bit 1 x XOR 0xE0 else drop_bit 1 x)" for x
    by (simp add: crc_shift_def and_one_eq odd_iff_mod_2_eq_one)
  then show ?thesis by (simp add: even_xor_iff drop_bit_xor xor.assoc xor.left_commute xor.commute)
qed

lemma crc_byte_xor: "(crc_shift ^^ n) (a XOR b) = (crc_shift ^^ n) a XOR (crc_shift ^^ n) b"
  by (induction n) (simp_all add: crc_shift_xor)

text \<open>A table of an additive function is determined by its entries at the powers of two.\<close>

definition double_table :: "bytes \<Rightarrow> u8 \<Rightarrow> bytes" where
  "double_table t g = t @ map ((XOR) g) t"

lemma of_nat_high_bit:
  assumes "j < 2 ^ k" shows "of_nat (2 ^ k + j) = (2 ^ k XOR of_nat j :: u8)"
proof -
  have "\<not> bit j k" using take_bit_nat_eq_self [OF assms] bit_take_bit_iff [of k j k] by simp
  then have "2 ^ k AND j = 0" using and_exp_eq_0_iff_not_bit [of j k] by (simp add: and.commute)
  then have "2 ^ k + j = 2 ^ k XOR j" by (simp add: disjunctive_add_eq_xor)
  then show ?thesis by (simp add: of_nat_xor_eq)
qed

lemma double_table:
  fixes f :: "u8 \<Rightarrow> u8"
  assumes "\<And>a b. f (a XOR b) = f a XOR f b" "t = map (\<lambda>n. f (of_nat n)) [0..<2 ^ k]"
  shows "double_table t (f (2 ^ k)) = map (\<lambda>n. f (of_nat n)) [0..<2 ^ Suc k]"
proof -
  have "[0..<2 ^ Suc k] = [0..<2 ^ k] @ map (\<lambda>j. 2 ^ k + j) [0..<2 ^ k]"
    using map_add_upt [of "2 ^ k" "2 ^ k"] upt_add_eq_append [of 0 "2 ^ k" "2 ^ k"]
    unfolding power_Suc mult_2 by (simp only: add.commute le0 simp_thms)
  moreover have "f (of_nat (2 ^ k + j)) = f (2 ^ k) XOR f (of_nat j)" if "j < 2 ^ k" for j
    unfolding of_nat_high_bit [OF that] by (rule assms(1))
  ultimately show ?thesis
    by (simp add: double_table_def assms(2) del: of_nat_add)
qed

lemma additive_table:
  fixes f :: "u8 \<Rightarrow> u8"
  assumes "\<And>a b. f (a XOR b) = f a XOR f b"
  shows "map (\<lambda>n. f (of_nat n)) [0..<2 ^ k] = foldl double_table [f 0] (map (\<lambda>i. f (2 ^ i)) [0..<k])"
proof (induction k)
  case (Suc k)
  then show ?case using double_table [OF assms Suc.IH [symmetric]] by simp
qed simp

lemma FCS_TABLE_crc: "FCS_TABLE = map (\<lambda>n. (crc_shift ^^ 8) (of_nat n)) [0..<256]"
proof -
  let ?f = "crc_shift ^^ 8"
  have f: "?f 0 = 0" "?f 1 = 0x91" "?f 2 = 0xE3" "?f 4 = 0x07" "?f 8 = 0x0E" "?f 16 = 0x1C" "?f 32 = 0x38" "?f 64 = 0x70"
      "?f 128 = 0xE0"
    by code_simp+
  have "map (\<lambda>i. ?f (2 ^ i)) [0..<8] = [0x91, 0xE3, 0x07, 0x0E, 0x1C, 0x38, 0x70, 0xE0]"
    using f by (simp add: upt_rec)
  then have "map (\<lambda>n. ?f (of_nat n)) [0..<2 ^ 8] = foldl double_table [0] [0x91, 0xE3, 0x07, 0x0E, 0x1C, 0x38, 0x70, 0xE0]"
    by (subst additive_table [OF crc_byte_xor]) (simp add: f(1))
  also have "\<dots> = FCS_TABLE" by (simp add: double_table_def FCS_TABLE_def)
  finally show ?thesis by simp
qed

lemma FCS_TABLE_entry: "FCS_TABLE ! unat b = (crc_shift ^^ 8) b"
  using unsigned_less [of b] by (simp add: FCS_TABLE_crc)

lemma compute_fcs_bitwise: "compute_fcs bs = fcs_bitwise bs"
  by (simp add: compute_fcs_def fcs_bitwise_def FCS_TABLE_entry)

lemma xor_cancel [simp]:
  "(a XOR c :: u8) = b XOR c \<longleftrightarrow> a = b" "(c XOR a :: u8) = c XOR b \<longleftrightarrow> a = b"
  by (metis xor.assoc xor.commute xor_self_eq xor.right_neutral)+

lemma fcs_fold_inject:
  "foldl (\<lambda>result byte. FCS_TABLE ! unat (result XOR byte)) r bs = foldl (\<lambda>result byte. FCS_TABLE ! unat (result XOR byte)) r' bs
    \<longleftrightarrow> r = r'"
  using byte_table_inject [OF distinct_FCS_TABLE length_FCS_TABLE]
  by (induction bs arbitrary: r r') auto

lemma compute_fcs_one_byte:
  "compute_fcs (xs @ a # ys) = compute_fcs (xs @ b # ys) \<longleftrightarrow> a = b"
  using byte_table_inject [OF distinct_FCS_TABLE length_FCS_TABLE]
  by (simp add: compute_fcs_def fcs_fold_inject)

section \<open>Frames are read back\<close>

text \<open>A frame the builders can produce: fields of the width of their places in the header, a type
  without the poll bit, and a credit octet only in a frame that is checked over its header.\<close>

definition wf_frame :: "RfcommFrame \<Rightarrow> bool" where
  "wf_frame f =
     (take_bit 6 (rf_dlci f) = rf_dlci f \<and> rf_c_r f \<in> {0, 1} \<and> rf_p_f f \<in> {0, 1}
      \<and> rf_type f AND 0xEF = rf_type f \<and> (rf_with_credits f \<longrightarrow> rf_type f = frame_UIH))"

lemma address_fields:
  fixes d c :: u8
  assumes "c \<in> {0, 1}"
  shows "drop_bit 2 (push_bit 2 d OR push_bit 1 c OR 1) AND 0x3F = take_bit 6 d"
    and "drop_bit 1 (push_bit 2 d OR push_bit 1 c OR 1) AND 1 = c"
proof -
  have c: "c = of_bool (c = 1)" using assms by auto
  show "drop_bit 2 (push_bit 2 d OR push_bit 1 c OR 1) AND 0x3F = take_bit 6 d"
    by (subst c) (rule u8_eqI; simp only: bit_simps o_apply; simp)
  show "drop_bit 1 (push_bit 2 d OR push_bit 1 c OR 1) AND 1 = c"
    by (subst (1 2) c) (rule u8_eqI; simp only: bit_simps o_apply; simp)
qed

lemma control_fields:
  fixes t p :: u8
  assumes "t AND 0xEF = t" "p \<in> {0, 1}"
  shows "(t OR push_bit 4 p) AND 0xEF = t" and "drop_bit 4 (t OR push_bit 4 p) AND 1 = p"
proof -
  have EF: "(0xEF :: u8) = NOT (2 ^ 4)" by simp
  have t: "\<not> bit t 4" using assms(1) unfolding EF by (metis bit_and_iff bit_not_exp_iff)
  show "(t OR push_bit 4 p) AND 0xEF = t" "drop_bit 4 (t OR push_bit 4 p) AND 1 = p"
    unfolding EF using control_bits [OF t] assms(2) by auto
qed

lemma of_nat_low_bit: "(of_nat n :: u8) AND 1 = of_bool (odd n)"
  by (rule bit_word_eqI) (auto simp: bit_simps bit_of_nat_iff bit_0)

lemma length_bytes_first: "\<exists>b bs. length_bytes f = b # bs \<and> length bs = (if b AND 1 \<noteq> 0 then 0 else 1)"
  by (simp add: length_bytes_def Let_def of_nat_low_bit even_or_iff even_and_iff del: One_nat_def)

lemma wf_frame_parsed: "wf_frame f \<Longrightarrow> frame_fcs (f\<lparr>rf_with_credits := False\<rparr>) = frame_fcs f"
  by (cases f) (auto simp: wf_frame_def frame_fcs_def address_byte_def control_byte_def length_bytes_def length_value_def Let_def)

lemma parse_frame: "wf_frame f \<Longrightarrow> RfcommFrame_parse (RfcommFrame_to_bytes f) = Some (f\<lparr>rf_with_credits := False\<rparr>)"
proof -
  assume wf: "wf_frame f"
  obtain b bs where lb: "length_bytes f = b # bs" "length bs = (if b AND 1 \<noteq> 0 then 0 else 1)"
    using length_bytes_first by blast
  have prefix: "from_prefix 2 RfcommFrameHeader_of_bytes (RfcommFrame_to_bytes f)
      = Some (\<lparr>rfh_address = address_byte f, rfh_control = control_byte f\<rparr>, b # bs @ rf_information f @ [frame_fcs f])"
    by (simp add: from_prefix_def RfcommFrame_to_bytes_def RfcommFrameHeader_of_bytes_def lb)
  have fields: "drop_bit 2 (address_byte f) AND 0x3F = rf_dlci f" "drop_bit 1 (address_byte f) AND 1 = rf_c_r f"
      "control_byte f AND 0xEF = rf_type f" "drop_bit 4 (control_byte f) AND 1 = rf_p_f f"
    unfolding address_byte_def control_byte_def
    using wf address_fields [of "rf_c_r f" "rf_dlci f"] control_fields [of "rf_type f" "rf_p_f f"]
    by (simp_all only: wf_frame_def)
  have new: "RfcommFrame_new (rf_type f) (rf_c_r f) (rf_dlci f) (rf_p_f f) (rf_information f) False = f\<lparr>rf_with_credits := False\<rparr>"
    by (cases f) (simp add: RfcommFrame_new_def)
  show ?thesis
  proof (cases "b AND 1 = 0")
    case True
    with lb(2) obtain y where "bs = [y]" by (auto simp: length_Suc_conv)
    with True show ?thesis
      unfolding RfcommFrame_parse_def prefix
      by (simp add: Let_def fields fields [unfolded One_nat_def] new wf_frame_parsed [OF wf])
  next
    case False
    with lb(2) have "bs = []" by simp
    with False show ?thesis
      unfolding RfcommFrame_parse_def prefix
      by (simp add: Let_def fields fields [unfolded One_nat_def] new wf_frame_parsed [OF wf])
  qed
qed

text \<open>C12: A frame is read back as it was written: type, command bit, DLCI, poll bit and information,
  for information of any length.\<close>
theorem rfcomm_frame_round_trip:
  assumes "wf_frame f"
  shows "RfcommFrame_parse (RfcommFrame_to_bytes f) = Some (f\<lparr>rf_with_credits := False\<rparr>)"
  using assms by (rule parse_frame)

theorem rfcomm_frame_round_trip_witness:
  "RfcommFrame_parse (RfcommFrame_to_bytes (frame_uih 1 5 [3, 0x41, 0x42] 1))
    = Some ((frame_uih 1 5 [3, 0x41, 0x42] 1)\<lparr>rf_with_credits := False\<rparr>)"
  by (rule rfcomm_frame_round_trip) (simp add: wf_frame_def frame_uih_def RfcommFrame_new_def)

text \<open>The checksum is computed from the fields that were read, not from the octets: the address
  extension bit and the value of the length field have no part in it.\<close>

lemma rebuilt_address:
  "address_byte (RfcommFrame_new t (drop_bit 1 a AND 1) (drop_bit 2 a AND 0x3F) p info w) = a OR 1"
proof -
  have "push_bit 2 (drop_bit 2 a AND 0x3F) OR push_bit 1 (drop_bit 1 a AND 1) OR 1 = a OR 1" for a :: u8
    by (rule u8_eqI; simp only: bit_simps; simp)
  then show ?thesis unfolding address_byte_def RfcommFrame_new_def by simp
qed

text \<open>Whatever the length field says, a frame is read to the end of its buffer: two frames that
  differ only in the value of that field are read alike.\<close>
theorem rfcomm_length_field_ignored:
  assumes "l AND 1 = l' AND 1"
  shows "RfcommFrame_parse (a # c # l # rest) = RfcommFrame_parse (a # c # l' # rest)"
  using assms
  by (auto simp: RfcommFrame_parse_def from_prefix_def RfcommFrameHeader_of_bytes_def Let_def)

theorem rfcomm_length_field_ignored_witness:
  "RfcommFrame_parse (0x17 # 0xEF # 0x05 # [1, 2, 0xD8]) = RfcommFrame_parse (0x17 # 0xEF # 0xFF # [1, 2, 0xD8])"
  by (rule rfcomm_length_field_ignored) simp

section \<open>Control commands are read back\<close>

lemma mcc_type_octet:
  "drop_bit 2 (push_bit 2 (take_bit 6 t) OR push_bit 1 (of_bool c) OR 1) = (take_bit 6 t :: u8)"
  "drop_bit 1 (push_bit 2 (take_bit 6 t) OR push_bit 1 (of_bool c) OR 1) AND (1 :: u8) \<noteq> 0 \<longleftrightarrow> c"
  unfolding u8_low_bit by (rule u8_eqI; simp only: bit_simps o_apply; simp) (simp only: bit_simps o_apply; simp)

lemma mcc_length_octet:
  assumes "n < 128"
  shows "unat (drop_bit 1 (push_bit 1 (of_nat n AND 0x7F) OR 1 :: u8)) = n" "(push_bit 1 (of_nat n AND 0x7F) OR 1 :: u8) AND 1 \<noteq> 0"
proof -
  have mask: "of_nat n AND (0x7F :: u8) = take_bit 7 (of_nat n)" by (simp add: take_bit_eq_mask mask_eq_exp_minus_1)
  have "drop_bit 1 (push_bit 1 (take_bit 7 w) OR 1) = take_bit 7 w" for w :: u8
    by (rule u8_eqI; simp only: bit_simps o_apply; simp add: numeral_2_eq_2)
  moreover have "unat (take_bit 7 (of_nat n) :: u8) = n"
    using assms by (simp add: unsigned_take_bit_eq unsigned_of_nat take_bit_nat_eq_self_iff)
  ultimately show "unat (drop_bit 1 (push_bit 1 (of_nat n AND 0x7F) OR 1 :: u8)) = n"
    unfolding mask by simp
  show "(push_bit 1 (of_nat n AND 0x7F) OR 1 :: u8) AND 1 \<noteq> 0"
    unfolding u8_low_bit by (simp only: bit_simps; simp)
qed

lemma parse_make_mcc:
  assumes "take_bit 6 t = t" "length data < 128"
  shows "parse_mcc (make_mcc t c_r data) = Some (t, c_r, data)"
  using mcc_type_octet [of t c_r] mcc_length_octet [OF assms(2)]
  by (simp add: parse_mcc_def make_mcc_def Let_def assms(1))

lemma MccPn_round_trip: "pn_initial_credits pn \<le> 7 \<Longrightarrow> MccPn_parse (MccPn_to_bytes pn) = Some pn"
proof -
  assume "pn_initial_credits pn \<le> 7"
  then have "unat (pn_initial_credits pn) < 8" by (simp add: word_le_nat_alt)
  then have "take_bit 3 (pn_initial_credits pn) = pn_initial_credits pn"
    by (simp add: word_unat_eq_iff unsigned_take_bit_eq take_bit_nat_eq_self_iff)
  then have credits: "min (pn_initial_credits pn) 7 AND 7 = pn_initial_credits pn"
    using \<open>pn_initial_credits pn \<le> 7\<close> by (simp add: min_def take_bit_eq_mask mask_eq_exp_minus_1)
  have mask: "0xFF = (mask 8 :: u16)" by (simp add: mask_eq_exp_minus_1)
  have "ucast (ucast (w AND mask 8) :: u8) OR push_bit 8 (ucast (ucast (drop_bit 8 w AND mask 8) :: u8)) = w" for w :: u16
    by (auto intro!: bit_word_eqI simp: bit_simps)
  with credits show ?thesis
    unfolding MccPn_parse_def MccPn_to_bytes_def mask by simp
qed

lemma MccMsc_round_trip: "take_bit 6 (msc_dlci m) = msc_dlci m \<Longrightarrow> MccMsc_parse (MccMsc_to_bytes m) = Some m"
proof -
  assume d: "take_bit 6 (msc_dlci m) = msc_dlci m"
  have "drop_bit 2 (push_bit 2 (take_bit 6 d) OR 3) = take_bit 6 d" for d :: u8
    by (rule u8_eqI; simp only: bit_simps o_apply; simp)
  then have "drop_bit 2 (push_bit 2 (msc_dlci m) OR 3) = msc_dlci m" using d by metis
  moreover define b :: u8 where "b = 1 OR push_bit 1 (of_bool (msc_fc m)) OR push_bit 2 (of_bool (msc_rtc m))
      OR push_bit 3 (of_bool (msc_rtr m)) OR push_bit 6 (of_bool (msc_ic m)) OR push_bit 7 (of_bool (msc_dv m))"
  then have "drop_bit 1 b AND 1 \<noteq> 0 \<longleftrightarrow> msc_fc m" "drop_bit 2 b AND 1 \<noteq> 0 \<longleftrightarrow> msc_rtc m"
      "drop_bit 3 b AND 1 \<noteq> 0 \<longleftrightarrow> msc_rtr m" "drop_bit 6 b AND 1 \<noteq> 0 \<longleftrightarrow> msc_ic m"
      "drop_bit 7 b AND 1 \<noteq> 0 \<longleftrightarrow> msc_dv m"
    unfolding u8_low_bit by (simp only: bit_simps o_apply; simp)+
  moreover have "MccMsc_to_bytes m = [push_bit 2 (msc_dlci m) OR 3, b]"
    unfolding MccMsc_to_bytes_def b_def by (rule refl)
  ultimately show ?thesis
    by (simp add: MccMsc_parse_def del: One_nat_def)
qed

section \<open>Errors are detected\<close>

text \<open>C31: The table-driven checksum is TS 07.10's cyclic redundancy check computed bit by bit, and it
  tells any two headers apart that differ in one octet.\<close>
theorem fcs_table_is_crc:
  "compute_fcs bs = fcs_bitwise bs
    \<and> (compute_fcs (xs @ a # ys) = compute_fcs (xs @ b # ys) \<longleftrightarrow> a = b)"
  by (simp add: compute_fcs_bitwise [symmetric] compute_fcs_one_byte)

end
