(* ===== verification/Rfcomm_Mux.thy ===== *)
theory Rfcomm_Mux
  imports Rfcomm_Frame Classic_Channel
begin

text \<open>
  The RFCOMM session state machine (\<open>src/src/classic/rfcomm.rs\<close>): data link connections with their
  credit-based flow control, the multiplexer, and the client and server around it. \<open>None\<close> as the
  result of an operation that sends data is a send loop that never ends.
\<close>

section \<open>Data link connections\<close>

datatype DlcState = DlcInit | DlcConnecting | DlcConnected | DlcDisconnecting | DlcDisconnected

record Dlc =
  dlc_dlci :: u8
  dlc_state :: DlcState
  dlc_c_r :: u8
  dlc_rx_max_frame_size :: u16
  dlc_rx_initial_credits :: u8
  dlc_rx_max_credits :: u8
  dlc_rx_credits :: u8
  dlc_rx_credits_threshold :: u8
  dlc_tx_max_frame_size :: u16
  dlc_tx_credits :: u8
  dlc_cfc :: bool
  dlc_mtu :: nat
  dlc_tx_buffer :: bytes

definition Dlc_new :: "u8 \<Rightarrow> u8 \<Rightarrow> u16 \<Rightarrow> u8 \<Rightarrow> u16 \<Rightarrow> u8 \<Rightarrow> u16 \<Rightarrow> bool \<Rightarrow> Dlc" where
  "Dlc_new dlci c_r tx_max_frame_size tx_initial_credits rx_max_frame_size rx_initial_credits peer_l2cap_mtu cfc =
     \<lparr>dlc_dlci = dlci, dlc_state = DlcInit, dlc_c_r = c_r, dlc_rx_max_frame_size = rx_max_frame_size,
      dlc_rx_initial_credits = rx_initial_credits, dlc_rx_max_credits = DEFAULT_MAX_CREDITS,
      dlc_rx_credits = rx_initial_credits, dlc_rx_credits_threshold = DEFAULT_CREDIT_THRESHOLD,
      dlc_tx_max_frame_size = tx_max_frame_size, dlc_tx_credits = tx_initial_credits, dlc_cfc = cfc,
      dlc_mtu = unat (min tx_max_frame_size (if peer_l2cap_mtu < 5 then 0 else peer_l2cap_mtu - 5)),
      dlc_tx_buffer = []\<rparr>"

definition dlc_is_open :: "Dlc \<Rightarrow> bool" where
  "dlc_is_open d = (dlc_state d = DlcConnected)"

definition dlc_queue :: "bytes \<Rightarrow> Dlc \<Rightarrow> Dlc" where
  "dlc_queue data d = d\<lparr>dlc_tx_buffer := dlc_tx_buffer d @ data\<rparr>"

definition rx_credits_needed :: "Dlc \<Rightarrow> u8" where
  "rx_credits_needed d =
     (if \<not> dlc_cfc d then 0
      else if dlc_rx_credits d \<le> dlc_rx_credits_threshold d then dlc_rx_max_credits d - dlc_rx_credits d
      else 0)"

text \<open>The send loop without credits, and the one with credits and a refill of \<open>needed\<close> for the peer.\<close>

partial_function (option) tx_plain :: "Dlc \<Rightarrow> (RfcommFrame list \<times> Dlc) option" where
  "tx_plain d =
     (if dlc_tx_buffer d = [] then Some ([], d)
      else
        let take_n = min (dlc_mtu d) (length (dlc_tx_buffer d));
            frame = frame_uih (dlc_c_r d) (dlc_dlci d) (take take_n (dlc_tx_buffer d)) 0
        in Option.bind (tx_plain (d\<lparr>dlc_tx_buffer := drop take_n (dlc_tx_buffer d)\<rparr>))
             (\<lambda>(frames, d). Some (frame # frames, d)))"

function tx_credited :: "u8 \<Rightarrow> Dlc \<Rightarrow> RfcommFrame list \<times> Dlc" where
  "tx_credited needed d =
     (if (dlc_tx_buffer d \<noteq> [] \<and> 0 < dlc_tx_credits d) \<or> 0 < needed then
        let d1 = (if 0 < needed then d\<lparr>dlc_rx_credits := dlc_rx_credits d + needed\<rparr> else d);
            spent = (if 0 < needed then dlc_tx_buffer d \<noteq> [] \<and> 0 < dlc_tx_credits d else True);
            take_n = (if 0 < needed then (if spent then min (dlc_mtu d - 1) (length (dlc_tx_buffer d)) else 0)
              else min (dlc_mtu d) (length (dlc_tx_buffer d)));
            chunk = (if 0 < needed then [needed] else []) @ take take_n (dlc_tx_buffer d);
            d2 = d1\<lparr>dlc_tx_buffer := drop take_n (dlc_tx_buffer d)\<rparr>;
            d3 = (if spent then d2\<lparr>dlc_tx_credits := dlc_tx_credits d2 - 1\<rparr> else d2);
            frame = frame_uih (dlc_c_r d) (dlc_dlci d) chunk (if 0 < needed then 1 else 0);
            (frames, d4) = tx_credited 0 d3
        in (frame # frames, d4)
      else ([], d))"
  by pat_completeness auto
termination
proof (relation "measures [\<lambda>(needed, d). if needed = 0 then 0 else 1, \<lambda>(needed, d). unat (dlc_tx_credits d)]", goal_cases)
  case (2 needed d)
  then show ?case
    by (cases "needed = 0") (auto simp: word_gt_0 unat_minus_one unat_gt_0)
qed simp

declare tx_credited.simps [simp del]

definition process_tx :: "Dlc \<Rightarrow> (RfcommFrame list \<times> Dlc) option" where
  "process_tx d = (if \<not> dlc_cfc d then tx_plain d else Some (tx_credited (rx_credits_needed d) d))"

text \<open>What a data frame does to its connection: credits, delivered data, and what can now be sent.\<close>

definition dlc_receive :: "RfcommFrame \<Rightarrow> Dlc \<Rightarrow> (bytes \<times> RfcommFrame list \<times> Dlc) option" where
  "dlc_receive frame d =
     (let credited = (dlc_cfc d \<and> rf_p_f frame = 1);
          received_credits = (case rf_information frame of [] \<Rightarrow> 0 | b # _ \<Rightarrow> b);
          d = (if credited
            then d\<lparr>dlc_tx_credits := (if unat (dlc_tx_credits d) + unat received_credits \<le> 255
              then dlc_tx_credits d + received_credits else 255)\<rparr>
            else d);
          data = (if credited then tl (rf_information frame) else rf_information frame);
          d = (if data \<noteq> [] then d\<lparr>dlc_rx_credits := (if dlc_rx_credits d = 0 then 0 else dlc_rx_credits d - 1)\<rparr> else d)
      in map_option (\<lambda>(frames, d). (data, frames, d)) (process_tx d))"

section \<open>The multiplexer\<close>

datatype RfcommRole = RfInitiator | RfResponder

datatype MultiplexerState = MuxInit | MuxConnecting | MuxConnected | MuxOpening | MuxDisconnecting | MuxDisconnected

datatype CreditFlowControl = CfcUnknown | CfcSupported | CfcNotSupported

datatype MultiplexerEvent =
    MuxStarted
  | MuxDisconnectedEvent
  | DlcOpened u8
  | DlcOpenRejected u8
  | DlcClosed u8
  | DataReceived u8 bytes

record Multiplexer =
  mx_role :: RfcommRole
  mx_state :: MultiplexerState
  mx_dlcs :: "u8 \<rightharpoonup> Dlc"
  mx_cfc :: CreditFlowControl
  mx_peer_mtu :: u16
  mx_pending_open :: "MccPn option"
  mx_listen_configs :: "u8 \<rightharpoonup> u16 \<times> u8"

definition reserve_listen_channel ::
  "u8 \<Rightarrow> u16 \<Rightarrow> u8 \<Rightarrow> (u8 \<rightharpoonup> u16 \<times> u8) \<Rightarrow> bool \<times> (u8 \<rightharpoonup> u16 \<times> u8)" where
  "reserve_listen_channel channel max_frame_size initial_credits configs =
     (if configs channel \<noteq> None then (False, configs)
      else (True, configs(channel \<mapsto> (max_frame_size, min initial_credits MAX_INITIAL_CREDITS))))"

definition Multiplexer_new :: "RfcommRole \<Rightarrow> u16 \<Rightarrow> Multiplexer" where
  "Multiplexer_new role peer_mtu =
     \<lparr>mx_role = role, mx_state = MuxInit, mx_dlcs = Map.empty, mx_cfc = CfcUnknown, mx_peer_mtu = peer_mtu,
      mx_pending_open = None, mx_listen_configs = Map.empty\<rparr>"

definition mx_is_connected :: "Multiplexer \<Rightarrow> bool" where
  "mx_is_connected m = (mx_state m = MuxConnected)"

definition role_c_r :: "Multiplexer \<Rightarrow> u8" where
  "role_c_r m = (if mx_role m = RfInitiator then 1 else 0)"

definition mx_start :: "Multiplexer \<Rightarrow> bytes result \<times> Multiplexer" where
  "mx_start m =
     (if mx_role m \<noteq> RfInitiator then (Inl (DeviceError ''RFCOMM: only the initiator starts the multiplexer''), m)
      else if mx_state m \<noteq> MuxInit then (Inl (DeviceError ''RFCOMM: multiplexer already starting''), m)
      else (Inr (RfcommFrame_to_bytes (frame_sabm 1 0)), m\<lparr>mx_state := MuxConnecting\<rparr>))"

definition mx_listen :: "u8 \<Rightarrow> u16 \<Rightarrow> u8 \<Rightarrow> Multiplexer \<Rightarrow> bool \<times> Multiplexer" where
  "mx_listen channel max_frame_size initial_credits m =
     (let (ok, configs) = reserve_listen_channel channel max_frame_size initial_credits (mx_listen_configs m)
      in (ok, m\<lparr>mx_listen_configs := configs\<rparr>))"

definition open_dlc :: "u8 \<Rightarrow> u16 \<Rightarrow> u8 \<Rightarrow> Multiplexer \<Rightarrow> bytes result \<times> Multiplexer" where
  "open_dlc channel max_frame_size initial_credits m =
     (if mx_state m \<noteq> MuxConnected then (Inl (DeviceError ''RFCOMM: multiplexer not connected''), m)
      else
        let pn = \<lparr>pn_dlci = push_bit 1 channel, pn_cl = pn_CFC_COMMAND, pn_priority = 7, pn_ack_timer = 0,
              pn_max_frame_size = max_frame_size, pn_max_retransmissions = 0,
              pn_initial_credits = min initial_credits MAX_INITIAL_CREDITS\<rparr>;
            mcc = make_mcc mcc_PN True (MccPn_to_bytes pn)
        in (Inr (RfcommFrame_to_bytes (frame_uih (role_c_r m) 0 mcc 0)),
            m\<lparr>mx_pending_open := Some pn, mx_state := MuxOpening\<rparr>))"

definition unknown_dlci :: SimbleError where
  "unknown_dlci = DeviceError ''RFCOMM: unknown DLCI''"

definition mx_write :: "u8 \<Rightarrow> bytes \<Rightarrow> Multiplexer \<Rightarrow> (bytes list result \<times> Multiplexer) option" where
  "mx_write dlci data m =
     (case mx_dlcs m dlci of
        None \<Rightarrow> Some (Inl unknown_dlci, m)
      | Some d \<Rightarrow>
          if dlc_state d \<noteq> DlcConnected then Some (Inl (DeviceError ''RFCOMM: DLC is not connected''), m)
          else map_option (\<lambda>(frames, d).
            (Inr (map RfcommFrame_to_bytes frames), m\<lparr>mx_dlcs := (mx_dlcs m)(dlci \<mapsto> d)\<rparr>))
            (process_tx (dlc_queue data d)))"

definition close_dlc :: "u8 \<Rightarrow> Multiplexer \<Rightarrow> bytes result \<times> Multiplexer" where
  "close_dlc dlci m =
     (case mx_dlcs m dlci of
        None \<Rightarrow> (Inl unknown_dlci, m)
      | Some d \<Rightarrow>
          if dlc_state d \<noteq> DlcConnected then (Inl (DeviceError ''RFCOMM: DLC is not connected''), m)
          else (Inr (RfcommFrame_to_bytes (frame_disc (role_c_r m) dlci)),
                m\<lparr>mx_dlcs := (mx_dlcs m)(dlci \<mapsto> d\<lparr>dlc_state := DlcDisconnecting\<rparr>)\<rparr>))"

definition mx_disconnect :: "Multiplexer \<Rightarrow> bytes result \<times> Multiplexer" where
  "mx_disconnect m =
     (if mx_state m \<noteq> MuxConnected then (Inl (DeviceError ''RFCOMM: multiplexer not connected''), m)
      else (Inr (RfcommFrame_to_bytes (frame_disc (role_c_r m) 0)), m\<lparr>mx_state := MuxDisconnecting\<rparr>))"

section \<open>Frames on the control channel\<close>

type_synonym mux_reply = "bytes list \<times> MultiplexerEvent list \<times> Multiplexer"

text \<open>The DLCIs in use, in ascending order.\<close>

definition dlcis :: "Multiplexer \<Rightarrow> u8 list" where
  "dlcis m = filter (\<lambda>k. mx_dlcs m k \<noteq> None) (map of_nat [0..<256])"

definition close_all_dlcs :: "Multiplexer \<Rightarrow> MultiplexerEvent list \<times> Multiplexer" where
  "close_all_dlcs m = (map DlcClosed (dlcis m), m\<lparr>mx_dlcs := Map.empty\<rparr>)"

definition mx_on_sabm :: "Multiplexer \<Rightarrow> mux_reply" where
  "mx_on_sabm m =
     (if mx_state m \<noteq> MuxInit then ([], [], m)
      else ([RfcommFrame_to_bytes (frame_ua 1 0)], [MuxStarted], m\<lparr>mx_state := MuxConnected\<rparr>))"

definition mx_on_ua :: "Multiplexer \<Rightarrow> mux_reply" where
  "mx_on_ua m =
     (case mx_state m of
        MuxConnecting \<Rightarrow> ([], [MuxStarted], m\<lparr>mx_state := MuxConnected\<rparr>)
      | MuxDisconnecting \<Rightarrow>
          let (events, m) = close_all_dlcs (m\<lparr>mx_state := MuxDisconnected\<rparr>)
          in ([], events @ [MuxDisconnectedEvent], m)
      | _ \<Rightarrow> ([], [], m))"

definition mx_on_disc :: "Multiplexer \<Rightarrow> mux_reply" where
  "mx_on_disc m =
     (let c_r = (if mx_role m = RfInitiator then 0 else 1);
          (events, m) = close_all_dlcs (m\<lparr>mx_state := MuxDisconnected\<rparr>)
      in ([RfcommFrame_to_bytes (frame_ua c_r 0)], events @ [MuxDisconnectedEvent], m))"

definition on_dm_frame :: "RfcommFrame \<Rightarrow> Multiplexer \<Rightarrow> mux_reply" where
  "on_dm_frame frame m =
     (if mx_state m = MuxOpening
      then ([], [DlcOpenRejected (drop_bit 1 (rf_dlci frame))], m\<lparr>mx_state := MuxConnected, mx_pending_open := None\<rparr>)
      else ([], [], m))"

definition negotiate_cfc :: "bool \<Rightarrow> Multiplexer \<Rightarrow> Multiplexer" where
  "negotiate_cfc peer_wants_cfc m =
     (if \<not> peer_wants_cfc then m\<lparr>mx_cfc := CfcNotSupported\<rparr>
      else if mx_cfc m = CfcUnknown then m\<lparr>mx_cfc := CfcSupported\<rparr>
      else m)"

definition on_mcc_pn_command :: "MccPn \<Rightarrow> Multiplexer \<Rightarrow> mux_reply" where
  "on_mcc_pn_command pn m =
     (if pn_dlci pn AND 1 \<noteq> 0 then ([], [], m)
      else case mx_listen_configs m (drop_bit 1 (pn_dlci pn)) of
        None \<Rightarrow> ([RfcommFrame_to_bytes (frame_dm 1 (pn_dlci pn))], [], m)
      | Some (rx_max_frame_size, rx_initial_credits) \<Rightarrow>
          let m = negotiate_cfc (pn_cl pn = pn_CFC_COMMAND) m;
              cfc = (mx_cfc m = CfcSupported);
              response_cl = (if cfc then pn_CFC_RESPONSE else pn_NO_CFC);
              response_credits = (if cfc then rx_initial_credits else 0);
              d = (Dlc_new (pn_dlci pn) (role_c_r m) (pn_max_frame_size pn) (if cfc then pn_initial_credits pn else 0)
                rx_max_frame_size response_credits (mx_peer_mtu m) cfc)\<lparr>dlc_state := DlcConnecting\<rparr>;
              m = m\<lparr>mx_dlcs := (mx_dlcs m)(pn_dlci pn \<mapsto> d)\<rparr>;
              response_pn = \<lparr>pn_dlci = pn_dlci pn, pn_cl = response_cl, pn_priority = 7, pn_ack_timer = 0,
                pn_max_frame_size = rx_max_frame_size, pn_max_retransmissions = 0,
                pn_initial_credits = response_credits\<rparr>;
              mcc = make_mcc mcc_PN False (MccPn_to_bytes response_pn)
          in ([RfcommFrame_to_bytes (frame_uih (role_c_r m) 0 mcc 0)], [], m))"

definition on_mcc_pn_response :: "MccPn \<Rightarrow> Multiplexer \<Rightarrow> mux_reply" where
  "on_mcc_pn_response pn m =
     (if mx_state m \<noteq> MuxOpening then ([], [], m)
      else case mx_pending_open m of
        None \<Rightarrow> ([], [], m)
      | Some requested \<Rightarrow>
          let m = negotiate_cfc (pn_cl pn = pn_CFC_RESPONSE) (m\<lparr>mx_pending_open := None\<rparr>);
              cfc = (mx_cfc m = CfcSupported);
              d = (Dlc_new (pn_dlci pn) (role_c_r m) (pn_max_frame_size pn) (if cfc then pn_initial_credits pn else 0)
                (pn_max_frame_size requested) (if cfc then pn_initial_credits requested else 0) (mx_peer_mtu m) cfc)
                \<lparr>dlc_state := DlcConnecting\<rparr>
          in ([RfcommFrame_to_bytes (frame_sabm (role_c_r m) (pn_dlci pn))], [],
              m\<lparr>mx_dlcs := (mx_dlcs m)(pn_dlci pn \<mapsto> d)\<rparr>))"

definition on_mcc_pn :: "bool \<Rightarrow> bytes \<Rightarrow> Multiplexer \<Rightarrow> mux_reply" where
  "on_mcc_pn c_r v m =
     (case MccPn_parse v of
        None \<Rightarrow> ([], [], m)
      | Some pn \<Rightarrow> if c_r then on_mcc_pn_command pn m else on_mcc_pn_response pn m)"

definition on_mcc_msc :: "bool \<Rightarrow> bytes \<Rightarrow> Multiplexer \<Rightarrow> mux_reply" where
  "on_mcc_msc c_r v m =
     (case MccMsc_parse v of
        None \<Rightarrow> ([], [], m)
      | Some msc \<Rightarrow>
     (case mx_dlcs m (msc_dlci msc) of
        None \<Rightarrow> ([], [], m)
      | Some d \<Rightarrow>
          if \<not> c_r then ([], [], m)
          else ([RfcommFrame_to_bytes (frame_uih (dlc_c_r d) 0
            (make_mcc mcc_MSC False (MccMsc_to_bytes (MccMsc_default_response (msc_dlci msc)))) 0)], [], m)))"

definition on_uih_control :: "RfcommFrame \<Rightarrow> Multiplexer \<Rightarrow> mux_reply" where
  "on_uih_control frame m =
     (case parse_mcc (rf_information frame) of
        None \<Rightarrow> ([], [], m)
      | Some (mcc, c_r, v) \<Rightarrow>
          if mcc = mcc_PN then on_mcc_pn c_r v m
          else if mcc = mcc_MSC then on_mcc_msc c_r v m
          else if c_r then
            let type_octet = push_bit 2 mcc OR push_bit 1 (of_bool c_r) OR 1;
                nsc = make_mcc mcc_NSC False [type_octet]
            in ([RfcommFrame_to_bytes (frame_uih (role_c_r m) 0 nsc 0)], [], m)
          else ([], [], m))"

definition on_control_frame :: "RfcommFrame \<Rightarrow> Multiplexer \<Rightarrow> mux_reply" where
  "on_control_frame frame m =
     (if rf_type frame = frame_SABM then mx_on_sabm m
      else if rf_type frame = frame_UA then mx_on_ua m
      else if rf_type frame = frame_DISC then mx_on_disc m
      else if rf_type frame = frame_UIH then on_uih_control frame m
      else ([], [], m))"

section \<open>Frames on a data connection\<close>

definition msc_command :: "u8 \<Rightarrow> u8 \<Rightarrow> bytes" where
  "msc_command c_r dlci = RfcommFrame_to_bytes (frame_uih c_r 0
     (make_mcc mcc_MSC True (MccMsc_to_bytes (MccMsc_default_response dlci))) 0)"

definition on_frame_for_unknown_dlci :: "RfcommFrame \<Rightarrow> Multiplexer \<Rightarrow> mux_reply" where
  "on_frame_for_unknown_dlci frame m =
     (let dlci = rf_dlci frame in
      if rf_type frame = frame_SABM then
        (case mx_listen_configs m (drop_bit 1 dlci) of
           None \<Rightarrow> ([RfcommFrame_to_bytes (frame_dm 1 dlci)], [], m)
         | Some (rx_max_frame_size, rx_initial_credits) \<Rightarrow>
             let m = (if mx_cfc m = CfcUnknown then m\<lparr>mx_cfc := CfcNotSupported\<rparr> else m);
                 cfc = (mx_cfc m = CfcSupported);
                 d = (Dlc_new dlci (role_c_r m) DEFAULT_FRAME_SIZE_WITHOUT_PN 0 rx_max_frame_size
                   (if cfc then rx_initial_credits else 0) (mx_peer_mtu m) cfc)\<lparr>dlc_state := DlcConnected\<rparr>
             in ([RfcommFrame_to_bytes (frame_ua (1 - dlc_c_r d) dlci), msc_command (dlc_c_r d) dlci], [DlcOpened dlci],
                 m\<lparr>mx_dlcs := (mx_dlcs m)(dlci \<mapsto> d), mx_state := MuxConnected\<rparr>))
      else if rf_type frame = frame_DISC then ([RfcommFrame_to_bytes (frame_dm 1 dlci)], [], m)
      else ([], [], m))"

definition on_dlc_uih :: "RfcommFrame \<Rightarrow> Dlc \<Rightarrow> Multiplexer \<Rightarrow> mux_reply option" where
  "on_dlc_uih frame d m =
     map_option (\<lambda>(data, frames, d).
       (map RfcommFrame_to_bytes frames, if data \<noteq> [] then [DataReceived (rf_dlci frame) data] else [],
        m\<lparr>mx_dlcs := (mx_dlcs m)(rf_dlci frame \<mapsto> d)\<rparr>)) (dlc_receive frame d)"

definition on_dlc_frame :: "RfcommFrame \<Rightarrow> Multiplexer \<Rightarrow> mux_reply option" where
  "on_dlc_frame frame m =
     (let dlci = rf_dlci frame in
      case mx_dlcs m dlci of
        None \<Rightarrow> Some (on_frame_for_unknown_dlci frame m)
      | Some d \<Rightarrow>
          let opened = m\<lparr>mx_dlcs := (mx_dlcs m)(dlci \<mapsto> d\<lparr>dlc_state := DlcConnected\<rparr>), mx_state := MuxConnected\<rparr>;
              closed = m\<lparr>mx_dlcs := (mx_dlcs m)(dlci := None)\<rparr>;
              ua = RfcommFrame_to_bytes (frame_ua (1 - dlc_c_r d) dlci)
          in if rf_type frame = frame_SABM then
               Some (if dlc_state d \<noteq> DlcConnecting then ([], [], m)
                 else ([ua, msc_command (dlc_c_r d) dlci], [DlcOpened dlci], opened))
             else if rf_type frame = frame_UA then
               Some (case dlc_state d of
                   DlcConnecting \<Rightarrow> ([msc_command (dlc_c_r d) dlci], [DlcOpened dlci], opened)
                 | DlcDisconnecting \<Rightarrow> ([], [DlcClosed dlci], closed)
                 | _ \<Rightarrow> ([], [], m))
             else if rf_type frame = frame_DISC then Some ([ua], [DlcClosed dlci], closed)
             else if rf_type frame = frame_UIH then on_dlc_uih frame d m
             else Some ([], [], m))"

definition mx_receive :: "bytes \<Rightarrow> Multiplexer \<Rightarrow> ((bytes list \<times> MultiplexerEvent list) result \<times> Multiplexer) option" where
  "mx_receive bs m =
     (case RfcommFrame_parse bs of
        None \<Rightarrow> Some (Inl (PacketParseError ''RFCOMM: malformed frame or FCS mismatch''), m)
      | Some frame \<Rightarrow>
          map_option (\<lambda>(frames, events, m). (Inr (frames, events), m))
            (if rf_dlci frame = 0 then Some (on_control_frame frame m)
             else if rf_type frame = frame_DM then Some (on_dm_frame frame m)
             else on_dlc_frame frame m))"

section \<open>Client and server\<close>

definition RfcommClient_connect ::
  "ClassicChannelManager \<Rightarrow> u16 \<Rightarrow> (u16 \<times> ConnectionRequestHeader) result \<times> ClassicChannelManager" where
  "RfcommClient_connect manager mtu = Classic_connect manager (ClassicChannelSpec_with_mtu RFCOMM_PSM mtu)"

record RfcommServer =
  rs_listen_configs :: "u8 \<rightharpoonup> u16 \<times> u8"

definition RfcommServer_new :: RfcommServer where
  "RfcommServer_new = \<lparr>rs_listen_configs = Map.empty\<rparr>"

definition RfcommServer_register :: "ClassicChannelManager \<Rightarrow> unit result \<times> ClassicChannelManager" where
  "RfcommServer_register manager = register_server manager RFCOMM_PSM"

definition RfcommServer_listen :: "u8 \<Rightarrow> u16 \<Rightarrow> u8 \<Rightarrow> RfcommServer \<Rightarrow> bool \<times> RfcommServer" where
  "RfcommServer_listen channel max_frame_size initial_credits s =
     (let (ok, configs) = reserve_listen_channel channel max_frame_size initial_credits (rs_listen_configs s)
      in (ok, s\<lparr>rs_listen_configs := configs\<rparr>))"

text \<open>The order in which the configurations are copied does not matter: the channels are distinct.\<close>

definition new_multiplexer :: "ClassicChannel \<Rightarrow> RfcommServer \<Rightarrow> Multiplexer" where
  "new_multiplexer channel s =
     fold (\<lambda>ch m. case rs_listen_configs s ch of
         None \<Rightarrow> m
       | Some (max_frame_size, initial_credits) \<Rightarrow> snd (mx_listen ch max_frame_size initial_credits m))
       (map of_nat [0..<256]) (Multiplexer_new RfResponder (ch_peer_mtu channel))"

end
