(* ===== verification/Rfcomm_Sdp.thy ===== *)
theory Rfcomm_Sdp
  imports Sdp_Exchange Rfcomm_Mux
begin

text \<open>
  RFCOMM services in service discovery (\<open>src/src/classic/rfcomm.rs\<close>): the record of a service and the
  search for server channels. \<open>keys\<close> is the order in which the hash map of channels is iterated.
\<close>

definition make_service_sdp_records :: "u32 \<Rightarrow> u8 \<Rightarrow> SdpUuid option \<Rightarrow> ServiceAttribute list" where
  "make_service_sdp_records service_record_handle channel uuid =
     [ServiceAttribute_new SERVICE_RECORD_HANDLE (unsigned_integer_32 service_record_handle),
      ServiceAttribute_new BROWSE_GROUP_LIST (DeSequence [DeUuid SDP_PUBLIC_BROWSE_ROOT]),
      ServiceAttribute_new PROTOCOL_DESCRIPTOR_LIST
        (DeSequence [DeSequence [DeUuid BT_L2CAP_PROTOCOL_ID],
                     DeSequence [DeUuid BT_RFCOMM_PROTOCOL_ID, unsigned_integer_8 channel]])]
     @ (case uuid of
          None \<Rightarrow> []
        | Some uuid \<Rightarrow> [ServiceAttribute_new SERVICE_CLASS_ID_LIST (DeSequence [DeUuid uuid])])"

text \<open>\<^verbatim>\<open>list.get(1)\<close>.\<close>

definition second :: "'a list \<Rightarrow> 'a option" where
  "second xs = (if 1 < length xs then Some (xs ! 1) else None)"

definition protocol_channel :: "DataElement \<Rightarrow> u8 option" where
  "protocol_channel v =
     do { protocols \<leftarrow> as_sequence v;
          protocol \<leftarrow> second protocols;
          rfcomm_proto \<leftarrow> as_sequence protocol;
          channel \<leftarrow> second rfcomm_proto;
          (number, _) \<leftarrow> as_unsigned_integer channel;
          Some (ucast number) }"

text \<open>One attribute of a record: the service classes and the channel found so far.\<close>

definition scan_attribute :: "ServiceAttribute \<Rightarrow> SdpUuid list \<times> u8 option \<Rightarrow> SdpUuid list \<times> u8 option" where
  "scan_attribute attr acc =
     (let (service_classes, channel) = acc in
      if sa_id attr = PROTOCOL_DESCRIPTOR_LIST then
        (case protocol_channel (sa_value attr) of
           None \<Rightarrow> (service_classes, channel)
         | Some n \<Rightarrow> (service_classes, Some n))
      else if sa_id attr = SERVICE_CLASS_ID_LIST then
        (case as_sequence (sa_value attr) of
           None \<Rightarrow> (service_classes, channel)
         | Some list \<Rightarrow> (List.map_filter as_uuid list, channel))
      else (service_classes, channel))"

definition insert_channel :: "ServiceAttribute list \<Rightarrow> (u8 \<rightharpoonup> SdpUuid list) \<Rightarrow> (u8 \<rightharpoonup> SdpUuid list)" where
  "insert_channel attrs chans =
     (case fold scan_attribute attrs ([], None) of
        (service_classes, Some channel) \<Rightarrow>
          if service_classes \<noteq> [] then chans(channel \<mapsto> service_classes) else chans
      | (_, None) \<Rightarrow> chans)"

definition find_rfcomm_channels ::
  "'t transport \<Rightarrow> SdpClient \<Rightarrow> 't \<Rightarrow> ((u8 \<rightharpoonup> SdpUuid list) result \<times> SdpClient \<times> 't) option" where
  "find_rfcomm_channels transport c t =
     map_option (\<lambda>(r, c, t). (case r of
         Inl e \<Rightarrow> Inl e
       | Inr results \<Rightarrow> Inr (fold insert_channel results Map.empty), c, t))
     (search_attributes [BT_RFCOMM_PROTOCOL_ID] [Single PROTOCOL_DESCRIPTOR_LIST, Single SERVICE_CLASS_ID_LIST] transport c t)"

definition find_rfcomm_channel_with_uuid ::
  "((u8 \<rightharpoonup> SdpUuid list) \<Rightarrow> u8 list) \<Rightarrow> SdpUuid \<Rightarrow> 't transport \<Rightarrow> SdpClient \<Rightarrow> 't \<Rightarrow>
     (u8 option result \<times> SdpClient \<times> 't) option" where
  "find_rfcomm_channel_with_uuid keys uuid transport c t =
     map_option (\<lambda>(r, c, t). (case r of
         Inl e \<Rightarrow> Inl e
       | Inr chans \<Rightarrow> Inr (List.find (\<lambda>ch. case chans ch of None \<Rightarrow> False | Some uuids \<Rightarrow> uuid \<in> set uuids) (keys chans)),
       c, t))
     (find_rfcomm_channels transport c t)"

section \<open>Services are found\<close>

text \<open>A server that offers the RFCOMM services of a table, with or without a service class, those with a
  class each on a channel of its own. Its other records are arbitrary, those of other protocols over L2CAP
  included; none of them mentions RFCOMM.\<close>

definition offers :: "SdpServer \<Rightarrow> (u32 \<rightharpoonup> u8 \<times> SdpUuid option) \<Rightarrow> bool" where
  "offers s services \<longleftrightarrow>
     (\<forall>h ch u. services h = Some (ch, u) \<longrightarrow>
        service_records s h = Some (make_service_sdp_records h ch u) \<and> pred_option (\<lambda>u. wf_element (DeUuid u)) u)
     \<and> (\<forall>h service. service_records s h = Some service \<longrightarrow> services h = None \<longrightarrow>
          wf_service service \<and> \<not> service_matches [BT_RFCOMM_PROTOCOL_ID] service)
     \<and> (\<forall>h h' ch u u'. services h = Some (ch, Some u) \<longrightarrow> services h' = Some (ch, Some u') \<longrightarrow> h = h')"

abbreviation rfcomm_ids :: "AttributeIdSpec list" where
  "rfcomm_ids \<equiv> [Single PROTOCOL_DESCRIPTOR_LIST, Single SERVICE_CLASS_ID_LIST]"

text \<open>The record of a service of the table.\<close>

definition offered_record :: "(u32 \<rightharpoonup> u8 \<times> SdpUuid option) \<Rightarrow> u32 \<Rightarrow> ServiceAttribute list" where
  "offered_record services h = (case the (services h) of (ch, u) \<Rightarrow> make_service_sdp_records h ch u)"

lemma offered_record_simps [simp]: "services h = Some (ch, u) \<Longrightarrow> offered_record services h = make_service_sdp_records h ch u"
  by (simp add: offered_record_def)

lemmas record_simps = make_service_sdp_records_def ServiceAttribute_new_def unsigned_integer_8_def unsigned_integer_16_def
  unsigned_integer_32_def

lemma service_record_wf: "pred_option (\<lambda>u. wf_element (DeUuid u)) u \<Longrightarrow> wf_service (make_service_sdp_records h ch u)"
proof -
  have "take_bit 8 (ucast v :: 64 word) = ucast v" for v :: u8
    by (rule bit_word_eqI) (auto simp: bit_simps dest: bit_imp_le_length)
  moreover have "take_bit 32 (ucast v :: 64 word) = ucast v" for v :: u32
    by (rule bit_word_eqI) (auto simp: bit_simps dest: bit_imp_le_length)
  moreover assume "pred_option (\<lambda>u. wf_element (DeUuid u)) u"
  ultimately show ?thesis by (cases u) (simp_all add: wf_service_def record_simps variable_header_len_def
      SdpUuid_wire_len_def split: SdpUuid.splits)
qed

lemma record_requested:
  "requested_attributes (make_service_sdp_records h ch u) rfcomm_ids
    = (case u of None \<Rightarrow> [] | Some u \<Rightarrow> [ServiceAttribute_new SERVICE_CLASS_ID_LIST (DeSequence [DeUuid u])])
      @ [ServiceAttribute_new PROTOCOL_DESCRIPTOR_LIST (DeSequence [DeSequence [DeUuid BT_L2CAP_PROTOCOL_ID],
         DeSequence [DeUuid BT_RFCOMM_PROTOCOL_ID, unsigned_integer_8 ch]])]"
  by (cases u) (simp_all add: requested_attributes_def in_spec_def record_simps word_le_nat_alt)

lemma record_matches: "service_matches [BT_RFCOMM_PROTOCOL_ID] (make_service_sdp_records h ch u)"
  by (simp add: service_matches_def record_simps)

lemma record_channel:
  "insert_channel (requested_attributes (make_service_sdp_records h ch u) rfcomm_ids) chans
    = (case u of None \<Rightarrow> chans | Some u \<Rightarrow> chans(ch \<mapsto> [u]))"
proof -
  have "ucast (ucast ch :: 64 word) = ch" by (rule bit_word_eqI) (auto simp: bit_simps)
  then show ?thesis
    unfolding record_requested
    by (cases u) (simp_all add: insert_channel_def scan_attribute_def protocol_channel_def second_def as_sequence_def as_uuid_def
        as_unsigned_integer_def ServiceAttribute_new_def unsigned_integer_8_def map_filter_simps)
qed

lemma record_len:
  "encoded_len (DeSequence (attribute_items (requested_attributes (make_service_sdp_records h ch u) rfcomm_ids))) \<le> 43"
  unfolding record_requested
  by (cases u) (simp_all add: attribute_items_def ServiceAttribute_new_def unsigned_integer_8_def unsigned_integer_16_def
      variable_header_len_def SdpUuid_wire_len_def split: SdpUuid.splits)

text \<open>The channels the records of \<open>order\<close> fill in, one after the other.\<close>

lemma channels_found:
  assumes "\<And>h. h \<in> set order \<Longrightarrow> services h \<noteq> None"
    and inj: "\<And>h h' ch u u'. services h = Some (ch, Some u) \<Longrightarrow> services h' = Some (ch, Some u') \<Longrightarrow> h = h'"
  shows "fold insert_channel (map (\<lambda>h. requested_attributes (offered_record services h) rfcomm_ids) order) chans ch = Some us
    \<longleftrightarrow> (\<exists>h \<in> set order. \<exists>u. services h = Some (ch, Some u) \<and> us = [u])
      \<or> (\<forall>h \<in> set order. \<forall>u. services h \<noteq> Some (ch, Some u)) \<and> chans ch = Some us"
  using assms(1)
proof (induction order arbitrary: chans)
  case (Cons h order)
  then obtain n u where h: "services h = Some (n, u)" by fastforce
  show ?case
  proof (cases u)
    case None
    then show ?thesis using h Cons by (simp add: record_channel)
  next
    case (Some v)
    then have step: "fold insert_channel (map (\<lambda>h. requested_attributes (offered_record services h) rfcomm_ids) (h # order)) chans
        = fold insert_channel (map (\<lambda>h. requested_attributes (offered_record services h) rfcomm_ids) order) (chans(n \<mapsto> [v]))"
      using h by (simp add: record_channel)
    have members: "\<And>k. k \<in> set order \<Longrightarrow> services k \<noteq> None" using Cons.prems by simp
    have v: "w = v" if "services k = Some (n, Some w)" for k w
    proof -
      have "k = h" by (rule inj [OF that]) (use h Some in simp)
      then show ?thesis using that h Some by simp
    qed
    have hv: "services h = Some (n, Some v)" using h Some by simp
    show ?thesis
    proof (cases "ch = n")
      case True
      have "(\<exists>k \<in> set (h # order). \<exists>u. services k = Some (ch, Some u) \<and> us = [u]) \<longleftrightarrow> us = [v]"
        unfolding True using hv v list.set_intros(1) [of h order] by blast
      moreover have "(\<exists>k \<in> set order. \<exists>u. services k = Some (ch, Some u) \<and> us = [u]) \<longrightarrow> us = [v]"
        unfolding True using v by blast
      moreover have "(\<exists>k \<in> set order. \<exists>u. services k = Some (ch, Some u)) \<longrightarrow> us = [v]
          \<longrightarrow> (\<exists>k \<in> set order. \<exists>u. services k = Some (ch, Some u) \<and> us = [u])" unfolding True using v by blast
      moreover have "\<not> (\<forall>k \<in> set (h # order). \<forall>u. services k \<noteq> Some (ch, Some u))"
        unfolding True using hv list.set_intros(1) [of h order] by blast
      ultimately show ?thesis
        using Cons.IH [OF members, of "chans(n \<mapsto> [v])"] unfolding step True fun_upd_same option.inject by blast
    next
      case False
      have other: "(chans(n \<mapsto> [v])) ch = chans ch" using False by simp
      have ex: "(\<exists>k \<in> set (h # order). \<exists>u. services k = Some (ch, Some u) \<and> us = [u])
          \<longleftrightarrow> (\<exists>k \<in> set order. \<exists>u. services k = Some (ch, Some u) \<and> us = [u])"
        "(\<forall>k \<in> set (h # order). \<forall>u. services k \<noteq> Some (ch, Some u)) \<longleftrightarrow> (\<forall>k \<in> set order. \<forall>u. services k \<noteq> Some (ch, Some u))"
        using hv False by simp_all
      show ?thesis
        using Cons.IH [OF members, of "chans(n \<mapsto> [v])"] unfolding step ex other .
    qed
  qed
qed simp

lemma records_room:
  assumes "\<And>e. e \<in> set items \<Longrightarrow> encoded_len e \<le> 43" shows "encoded_len (DeSequence items) \<le> 5 + 43 * length items"
proof -
  have "sum_list (map encoded_len items) \<le> 43 * length items"
    using assms by (induction items) fastforce+
  then show ?thesis by (simp add: Let_def variable_header_len_def)
qed

lemma rfcomm_query_wf:
  "wf_ids [Single PROTOCOL_DESCRIPTOR_LIST, Single SERVICE_CLASS_ID_LIST]" "wf_uuids [BT_RFCOMM_PROTOCOL_ID]"
  by (simp_all add: wf_ids_def wf_uuids_def wf_pattern_def encode_attribute_id_list_def uuid_pattern_def
      unsigned_integer_16_def variable_header_len_def SdpUuid_wire_len_def)

text \<open>The search returns what the offered records have of the two attributes, and nothing of the others.\<close>

lemma offered_found:
  assumes offers: "offers s services" and order: "set order = dom (service_records s)"
  shows "filter (\<lambda>attrs. attrs \<noteq> []) (map (\<lambda>h. requested_attributes (the (service_records s h)) rfcomm_ids)
      (filter (\<lambda>h. h \<in> matching_handles [BT_RFCOMM_PROTOCOL_ID] s) order))
    = map (\<lambda>h. requested_attributes (offered_record services h) rfcomm_ids) (filter (\<lambda>h. services h \<noteq> None) order)"
proof -
  have match: "h \<in> matching_handles [BT_RFCOMM_PROTOCOL_ID] s \<longleftrightarrow> services h \<noteq> None" if h: "h \<in> set order" for h
  proof (cases "services h")
    case None
    then show ?thesis using offers by (auto simp: matching_handles_def offers_def)
  next
    case (Some x)
    then show ?thesis
      using offers record_matches by (cases x) (fastforce simp: matching_handles_def offers_def)
  qed
  have attrs: "requested_attributes (the (service_records s h)) rfcomm_ids = requested_attributes (offered_record services h) rfcomm_ids
      \<and> requested_attributes (offered_record services h) rfcomm_ids \<noteq> []" if h: "services h \<noteq> None" for h
  proof -
    obtain ch u where "services h = Some (ch, u)" using h by auto
    moreover from this have "service_records s h = Some (make_service_sdp_records h ch u)" using offers by (auto simp: offers_def)
    ultimately show ?thesis by (simp add: record_requested)
  qed
  have offered: "filter (\<lambda>h. h \<in> matching_handles [BT_RFCOMM_PROTOCOL_ID] s) order = filter (\<lambda>h. services h \<noteq> None) order"
    using match by (rule filter_cong [OF refl])
  have same: "map (\<lambda>h. requested_attributes (the (service_records s h)) rfcomm_ids) (filter (\<lambda>h. services h \<noteq> None) order)
      = map (\<lambda>h. requested_attributes (offered_record services h) rfcomm_ids) (filter (\<lambda>h. services h \<noteq> None) order)"
    using attrs by (intro map_cong) auto
  show ?thesis
    unfolding offered same using attrs by (auto simp: filter_id_conv)
qed

lemma find_rfcomm_channels_exchange:
  assumes offers: "offers s services" and order: "distinct order" "set order = dom (service_records s)"
    and mtu: "10 \<le> unat mtu" "5 + 43 * length (filter (\<lambda>h. services h \<noteq> None) order) \<le> 64 * (unat mtu - 9)"
  shows "\<exists>chans c' s'. find_rfcomm_channels (handle_request order mtu) c s = Some (Inr chans, c', s')
    \<and> (\<forall>ch us. chans ch = Some us \<longleftrightarrow> (\<exists>h u. services h = Some (ch, Some u) \<and> us = [u]))"
proof -
  let ?offered = "filter (\<lambda>h. services h \<noteq> None) order"
  let ?lists = "map (\<lambda>h. requested_attributes (offered_record services h) rfcomm_ids) ?offered"
  have all: "h \<in> set ?offered" if "services h = Some (ch, u)" for h ch u
    using that offers order(2) by (auto simp: offers_def)
  have wf: "\<forall>h service. service_records s h = Some service \<longrightarrow> wf_service service"
  proof (intro allI impI)
    fix h service assume h: "service_records s h = Some service"
    show "wf_service service"
    proof (cases "services h")
      case None
      then show ?thesis using offers h by (auto simp: offers_def)
    next
      case (Some x)
      obtain ch u where "services h = Some (ch, u)" using Some by (cases x) simp
      then have "service = make_service_sdp_records h ch u" "pred_option (\<lambda>u. wf_element (DeUuid u)) u"
        using offers h unfolding offers_def by (metis option.inject)+
      then show ?thesis using service_record_wf by simp
    qed
  qed
  have "encoded_len e \<le> 43" if e: "e \<in> set (map (\<lambda>attrs. DeSequence (attribute_items attrs)) ?lists)" for e
    using e record_len by auto
  from records_room [of "map (\<lambda>attrs. DeSequence (attribute_items attrs)) ?lists", OF this]
  have "encoded_len (DeSequence (map (\<lambda>attrs. DeSequence (attribute_items attrs)) ?lists)) \<le> 5 + 43 * length ?offered"
    by (simp only: length_map)
  from order_trans [OF this mtu(2)] obtain c' s' where
    search: "search_attributes [BT_RFCOMM_PROTOCOL_ID] rfcomm_ids (handle_request order mtu) c s = Some (Inr ?lists, c', s')"
    using search_attributes_exchange [OF wf mtu(1) rfcomm_query_wf, where order = order and c = c]
    unfolding offered_found [OF offers order(2)] by blast
  have inj: "\<And>h h' ch u u'. services h = Some (ch, Some u) \<Longrightarrow> services h' = Some (ch, Some u') \<Longrightarrow> h = h'"
    using offers by (auto simp: offers_def)
  have "fold insert_channel ?lists Map.empty ch = Some us \<longleftrightarrow> (\<exists>h u. services h = Some (ch, Some u) \<and> us = [u])" for ch us
  proof -
    have "fold insert_channel ?lists Map.empty ch = Some us \<longleftrightarrow> (\<exists>h \<in> set ?offered. \<exists>u. services h = Some (ch, Some u) \<and> us = [u])"
      by (subst channels_found) (use inj in auto)
    then show ?thesis using all by blast
  qed
  then show ?thesis using search by (simp add: find_rfcomm_channels_def)
qed

text \<open>C13: Service discovery finds the RFCOMM services among all others: against a server that holds
  records of RFCOMM services, those with a service class each on its own channel, besides arbitrary
  records that do not mention RFCOMM, the search for channels returns exactly the channels of the
  RFCOMM services that have a class, with that class, and the search for a class returns a channel
  that offers it, and none only when there is none. The records found must fit the client's 64
  rounds, at no more than 43 octets each.\<close>
theorem rfcomm_services_found:
  assumes "offers s services" "distinct order" "set order = dom (service_records s)"
    and "10 \<le> unat mtu" "5 + 43 * length (filter (\<lambda>h. services h \<noteq> None) order) \<le> 64 * (unat mtu - 9)"
    and keys: "\<And>m. set (keys m) = dom m"
  shows "\<exists>chans c' s'. find_rfcomm_channels (handle_request order mtu) c s = Some (Inr chans, c', s')
    \<and> (\<forall>ch us. chans ch = Some us \<longleftrightarrow> (\<exists>h u. services h = Some (ch, Some u) \<and> us = [u]))
    \<and> (\<exists>found. find_rfcomm_channel_with_uuid keys uuid (handle_request order mtu) c s = Some (Inr found, c', s')
        \<and> (case found of None \<Rightarrow> \<forall>h ch. services h \<noteq> Some (ch, Some uuid) | Some ch \<Rightarrow> \<exists>h. services h = Some (ch, Some uuid)))"
proof -
  obtain chans c' s' where chans: "find_rfcomm_channels (handle_request order mtu) c s = Some (Inr chans, c', s')"
      "\<And>ch us. chans ch = Some us \<longleftrightarrow> (\<exists>h u. services h = Some (ch, Some u) \<and> us = [u])"
    using find_rfcomm_channels_exchange [OF assms(1-5), of c] by (elim exE conjE) metis
  let ?found = "List.find (\<lambda>ch. case chans ch of None \<Rightarrow> False | Some uuids \<Rightarrow> uuid \<in> set uuids) (keys chans)"
  have "case ?found of None \<Rightarrow> \<forall>h ch. services h \<noteq> Some (ch, Some uuid) | Some ch \<Rightarrow> \<exists>h. services h = Some (ch, Some uuid)"
  proof (cases ?found)
    case None
    have "services h \<noteq> Some (ch, Some uuid)" for h ch
    proof
      assume "services h = Some (ch, Some uuid)"
      then have "chans ch = Some [uuid]" using chans(2) by blast
      moreover from this have "ch \<in> set (keys chans)" using keys by auto
      ultimately show False using None by (auto simp: find_None_iff)
    qed
    then show ?thesis using None by simp
  next
    case (Some ch)
    then have "case chans ch of None \<Rightarrow> False | Some uuids \<Rightarrow> uuid \<in> set uuids" unfolding find_Some_iff by blast
    then obtain us where us: "chans ch = Some us" "uuid \<in> set us" by (cases "chans ch") simp_all
    from us(1) obtain h where "services h = Some (ch, Some uuid)" unfolding chans(2) using us(2) by auto
    then show ?thesis using Some by auto
  qed
  then show ?thesis using chans by (auto simp: find_rfcomm_channel_with_uuid_def)
qed

text \<open>A server with a serial port on channel 5, an RFCOMM service without a class, and an AVDTP service,
  which runs over L2CAP without RFCOMM.\<close>

definition sample_rfcomm_services :: "u32 \<rightharpoonup> u8 \<times> SdpUuid option" where
  "sample_rfcomm_services = [7 \<mapsto> (5, Some (SdpUuid16 0x1101)), 8 \<mapsto> (6, None)]"

definition sample_avdtp_record :: "ServiceAttribute list" where
  "sample_avdtp_record =
     [ServiceAttribute_new SERVICE_CLASS_ID_LIST (DeSequence [DeUuid (SdpUuid16 0x110B)]),
      ServiceAttribute_new PROTOCOL_DESCRIPTOR_LIST
        (DeSequence [DeSequence [DeUuid BT_L2CAP_PROTOCOL_ID, unsigned_integer_16 0x19],
                     DeSequence [DeUuid (SdpUuid16 0x0019), unsigned_integer_16 0x0103]])]"

definition sample_rfcomm_server :: SdpServer where
  "sample_rfcomm_server = SdpServer_new\<lparr>service_records :=
     [7 \<mapsto> make_service_sdp_records 7 5 (Some (SdpUuid16 0x1101)), 8 \<mapsto> make_service_sdp_records 8 6 None,
      9 \<mapsto> sample_avdtp_record]\<rparr>"

lemma sample_rfcomm_offers: "offers sample_rfcomm_server sample_rfcomm_services" "set [9, 8, 7] = dom (service_records sample_rfcomm_server)"
proof -
  have "wf_service sample_avdtp_record" "\<not> service_matches [BT_RFCOMM_PROTOCOL_ID] sample_avdtp_record"
    by (auto simp: sample_avdtp_record_def wf_service_def service_matches_def record_simps variable_header_len_def
        SdpUuid_wire_len_def)
  then show "offers sample_rfcomm_server sample_rfcomm_services"
    by (auto simp: offers_def sample_rfcomm_server_def sample_rfcomm_services_def split: if_splits)
  show "set [9, 8, 7] = dom (service_records sample_rfcomm_server)"
    by (auto simp: sample_rfcomm_server_def)
qed

theorem rfcomm_services_found_witness:
  "\<exists>chans c' s'. find_rfcomm_channels (handle_request [9, 8, 7] 48) SdpClient_new sample_rfcomm_server = Some (Inr chans, c', s')
    \<and> chans = [5 \<mapsto> [SdpUuid16 0x1101]]"
proof -
  obtain keys :: "(u8 \<rightharpoonup> SdpUuid list) \<Rightarrow> u8 list" where keys: "\<And>m. set (keys m) = dom m"
    using finite_list [OF finite [of "dom m" for m :: "u8 \<rightharpoonup> SdpUuid list"]] by metis
  have "distinct [9, 8, 7 :: u32]" "10 \<le> unat (48 :: u16)"
    "5 + 43 * length (filter (\<lambda>h. sample_rfcomm_services h \<noteq> None) [9, 8, 7]) \<le> 64 * (unat (48 :: u16) - 9)"
    by (simp_all add: sample_rfcomm_services_def)
  from rfcomm_services_found [OF sample_rfcomm_offers(1) this(1) sample_rfcomm_offers(2) this(2,3) keys, of SdpClient_new undefined]
  obtain chans c' s' where found: "find_rfcomm_channels (handle_request [9, 8, 7] 48) SdpClient_new sample_rfcomm_server = Some (Inr chans, c', s')"
    "\<And>ch us. chans ch = Some us \<longleftrightarrow> (\<exists>h u. sample_rfcomm_services h = Some (ch, Some u) \<and> us = [u])"
    by (elim exE conjE) (rule that, assumption, blast)
  have "chans ch = [5 \<mapsto> [SdpUuid16 0x1101]] ch" for ch
  proof (cases "chans ch")
    case None
    then have "\<not> (\<exists>us. chans ch = Some us)" by simp
    moreover have "sample_rfcomm_services 7 = Some (5, Some (SdpUuid16 0x1101))" by (simp add: sample_rfcomm_services_def)
    ultimately have "ch \<noteq> 5" unfolding found(2) by blast
    then show ?thesis using None by simp
  next
    case (Some us)
    then show ?thesis using found(2) [of ch us] by (auto simp: sample_rfcomm_services_def split: if_splits)
  qed
  then show ?thesis using found(1) by blast
qed

end
