(* ===== verification/Obex_Header.thy ===== *)
theory Obex_Header
  imports Big_Endian
begin

text \<open>
  OBEX headers (\<open>src/src/obex/header.rs\<close>): text as UTF-16, the header forms, their encoding and parser,
  and that the parser inverts the encoding. Text is the list of its Unicode scalar values.
\<close>

section \<open>UTF-16\<close>

type_synonym unicode_text = "nat list"

text \<open>\<^verbatim>\<open>str::encode_utf16\<close> and \<^verbatim>\<open>String::from_utf16_lossy\<close>: a surrogate without its partner becomes U+FFFD.\<close>

definition utf16_units :: "nat \<Rightarrow> u16 list" where
  "utf16_units c =
     (if c < 0x10000 then [of_nat c]
      else [of_nat (0xD800 + (c - 0x10000) div 0x400), of_nat (0xDC00 + (c - 0x10000) mod 0x400)])"

definition encode_utf16 :: "unicode_text \<Rightarrow> u16 list" where
  "encode_utf16 t = concat (map utf16_units t)"

definition high_surrogate :: "u16 \<Rightarrow> bool" where
  "high_surrogate u = (0xD800 \<le> unat u \<and> unat u \<le> 0xDBFF)"

definition low_surrogate :: "u16 \<Rightarrow> bool" where
  "low_surrogate u = (0xDC00 \<le> unat u \<and> unat u \<le> 0xDFFF)"

fun from_utf16_lossy :: "u16 list \<Rightarrow> unicode_text" where
  "from_utf16_lossy [] = []"
| "from_utf16_lossy [u] = [if high_surrogate u \<or> low_surrogate u then 0xFFFD else unat u]"
| "from_utf16_lossy (u # v # us) =
     (if high_surrogate u \<and> low_surrogate v
      then (0x10000 + (unat u - 0xD800) * 0x400 + (unat v - 0xDC00)) # from_utf16_lossy us
      else (if high_surrogate u \<or> low_surrogate u then 0xFFFD else unat u) # from_utf16_lossy (v # us))"

definition encode_unicode :: "unicode_text \<Rightarrow> bytes" where
  "encode_unicode t = (if t = [] then [] else concat (map (be_octets 2) (encode_utf16 t)) @ [0x00, 0x00])"

text \<open>\<^verbatim>\<open>as_chunks::<2>\<close> leaves an odd byte at the end out.\<close>

fun be_units :: "bytes \<Rightarrow> u16 list" where
  "be_units (a # b # bs) = from_be [a, b] # be_units bs"
| "be_units _ = []"

definition decode_unicode :: "bytes \<Rightarrow> unicode_text" where
  "decode_unicode bs = from_utf16_lossy (takeWhile (\<lambda>u. u \<noteq> 0) (be_units bs))"

section \<open>Headers\<close>

abbreviation (input) header_COUNT :: "u8" where "header_COUNT \<equiv> 0xC0"
abbreviation (input) header_NAME :: "u8" where "header_NAME \<equiv> 0x01"
abbreviation (input) header_TYPE :: "u8" where "header_TYPE \<equiv> 0x42"
abbreviation (input) header_LENGTH :: "u8" where "header_LENGTH \<equiv> 0xC3"
abbreviation (input) header_BODY :: "u8" where "header_BODY \<equiv> 0x48"
abbreviation (input) header_END_OF_BODY :: "u8" where "header_END_OF_BODY \<equiv> 0x49"
abbreviation (input) header_TARGET :: "u8" where "header_TARGET \<equiv> 0x46"
abbreviation (input) header_WHO :: "u8" where "header_WHO \<equiv> 0x4A"
abbreviation (input) header_CONNECTION_ID :: "u8" where "header_CONNECTION_ID \<equiv> 0xCB"
abbreviation (input) header_APP_PARAMETERS :: "u8" where "header_APP_PARAMETERS \<equiv> 0x4C"
abbreviation (input) header_AUTH_CHALLENGE :: "u8" where "header_AUTH_CHALLENGE \<equiv> 0x4D"
abbreviation (input) header_AUTH_RESPONSE :: "u8" where "header_AUTH_RESPONSE \<equiv> 0x4E"
abbreviation (input) header_SINGLE_RESPONSE_MODE :: "u8" where "header_SINGLE_RESPONSE_MODE \<equiv> 0x97"
abbreviation (input) header_DESCRIPTION :: "u8" where "header_DESCRIPTION \<equiv> 0x05"

datatype HeaderEncoding = EncUnicode | EncByteSequence | EncByte | EncFourByte

definition HeaderEncoding_of :: "u8 \<Rightarrow> HeaderEncoding" where
  "HeaderEncoding_of ident =
     (let top = ident AND 0xC0 in
      if top = 0x00 then EncUnicode else if top = 0x40 then EncByteSequence else if top = 0x80 then EncByte else EncFourByte)"

record HeaderPrefix =
  hp_identifier :: u8
  hp_length :: u16

definition HeaderPrefix_as_bytes :: "HeaderPrefix \<Rightarrow> bytes" where
  "HeaderPrefix_as_bytes p = hp_identifier p # be_octets 2 (hp_length p)"

definition HeaderPrefix_of_bytes :: "bytes \<Rightarrow> HeaderPrefix" where
  "HeaderPrefix_of_bytes bs = \<lparr>hp_identifier = bs ! 0, hp_length = from_be (drop 1 bs)\<rparr>"

record FourByteValue =
  fb_value :: u32

definition FourByteValue_as_bytes :: "FourByteValue \<Rightarrow> bytes" where
  "FourByteValue_as_bytes v = be_octets 4 (fb_value v)"

definition FourByteValue_of_bytes :: "bytes \<Rightarrow> FourByteValue" where
  "FourByteValue_of_bytes bs = \<lparr>fb_value = from_be bs\<rparr>"

lemma be_octets_of_be: "length bs = 2 \<Longrightarrow> be_octets 2 (from_be bs :: u16) = bs" "length bs = 4 \<Longrightarrow> be_octets 4 (from_be bs :: u32) = bs"
proof -
  show "length bs = 2 \<Longrightarrow> be_octets 2 (from_be bs :: u16) = bs"
    using be_octets_from_be [of bs, where 'a = 16] by (simp del: be_octets.simps)
  show "length bs = 4 \<Longrightarrow> be_octets 4 (from_be bs :: u32) = bs"
    using be_octets_from_be [of bs, where 'a = 32] by (simp del: be_octets.simps)
qed

interpretation hp_layout: wire_layout 3 "\<lambda>_. True" HeaderPrefix_as_bytes HeaderPrefix_of_bytes
proof
  show "HeaderPrefix_as_bytes (HeaderPrefix_of_bytes bs) = bs" if "length bs = 3" for bs
    using that be_octets_of_be(1) [of "drop 1 bs"]
    by (cases bs) (simp_all add: HeaderPrefix_as_bytes_def HeaderPrefix_of_bytes_def del: be_octets.simps)
qed (simp_all add: HeaderPrefix_as_bytes_def HeaderPrefix_of_bytes_def del: be_octets.simps)

interpretation fb_layout: wire_layout 4 "\<lambda>_. True" FourByteValue_as_bytes FourByteValue_of_bytes
  by unfold_locales (simp_all add: FourByteValue_as_bytes_def FourByteValue_of_bytes_def be_octets_of_be del: be_octets.simps)

datatype HeaderValue = ValText unicode_text | ValBytes bytes | ValByte u8 | ValFourByte u32

datatype Header =
    Name unicode_text
  | Type bytes
  | Length u32
  | Body bytes
  | EndOfBody bytes
  | Target bytes
  | Who bytes
  | ConnectionId u32
  | AppParameters bytes
  | AuthChallenge bytes
  | AuthResponse bytes
  | SingleResponseMode u8
  | Count u32
  | Description unicode_text
  | OtherHeader u8 HeaderValue

datatype HeaderError = HeaderTruncated | HeaderBadLength u16

definition Header_identifier :: "Header \<Rightarrow> u8" where
  "Header_identifier h =
     (case h of
        Name _ \<Rightarrow> header_NAME | Type _ \<Rightarrow> header_TYPE | Length _ \<Rightarrow> header_LENGTH | Body _ \<Rightarrow> header_BODY
      | EndOfBody _ \<Rightarrow> header_END_OF_BODY | Target _ \<Rightarrow> header_TARGET | Who _ \<Rightarrow> header_WHO
      | ConnectionId _ \<Rightarrow> header_CONNECTION_ID | AppParameters _ \<Rightarrow> header_APP_PARAMETERS
      | AuthChallenge _ \<Rightarrow> header_AUTH_CHALLENGE | AuthResponse _ \<Rightarrow> header_AUTH_RESPONSE
      | SingleResponseMode _ \<Rightarrow> header_SINGLE_RESPONSE_MODE | Count _ \<Rightarrow> header_COUNT
      | Description _ \<Rightarrow> header_DESCRIPTION | OtherHeader ident _ \<Rightarrow> ident)"

definition push_length_prefixed :: "bytes \<Rightarrow> u8 \<Rightarrow> bytes \<Rightarrow> bytes" where
  "push_length_prefixed out ident v =
     out @ HeaderPrefix_as_bytes \<lparr>hp_identifier = ident, hp_length = of_nat (length v + 3)\<rparr> @ v"

definition encode_value :: "u8 \<Rightarrow> HeaderValue \<Rightarrow> bytes \<Rightarrow> bytes" where
  "encode_value ident v out =
     (case v of
        ValText t \<Rightarrow> push_length_prefixed out ident (encode_unicode t)
      | ValBytes bs \<Rightarrow> push_length_prefixed out ident bs
      | ValByte b \<Rightarrow> out @ [ident, b]
      | ValFourByte w \<Rightarrow> out @ ident # be_octets 4 w)"

text \<open>Every header is encoded like an unknown one that holds its value.\<close>

definition Header_value :: "Header \<Rightarrow> HeaderValue" where
  "Header_value h =
     (case h of
        Name t \<Rightarrow> ValText t | Description t \<Rightarrow> ValText t
      | Type bs \<Rightarrow> ValBytes bs | Body bs \<Rightarrow> ValBytes bs | EndOfBody bs \<Rightarrow> ValBytes bs | Target bs \<Rightarrow> ValBytes bs
      | Who bs \<Rightarrow> ValBytes bs | AppParameters bs \<Rightarrow> ValBytes bs | AuthChallenge bs \<Rightarrow> ValBytes bs | AuthResponse bs \<Rightarrow> ValBytes bs
      | Length w \<Rightarrow> ValFourByte w | ConnectionId w \<Rightarrow> ValFourByte w | Count w \<Rightarrow> ValFourByte w
      | SingleResponseMode b \<Rightarrow> ValByte b
      | OtherHeader _ v \<Rightarrow> v)"

definition encode_into :: "Header \<Rightarrow> bytes \<Rightarrow> bytes" where
  "encode_into h out = encode_value (Header_identifier h) (Header_value h) out"

definition Header_encoded_len :: "Header \<Rightarrow> nat" where
  "Header_encoded_len h = length (encode_into h [])"

definition length_prefixed_header :: "u8 \<Rightarrow> HeaderEncoding \<Rightarrow> bytes \<Rightarrow> Header" where
  "length_prefixed_header ident encoding v =
     (if ident = header_NAME then Name (decode_unicode v)
      else if ident = header_DESCRIPTION then Description (decode_unicode v)
      else if ident = header_TYPE then Type v
      else if ident = header_BODY then Body v
      else if ident = header_END_OF_BODY then EndOfBody v
      else if ident = header_TARGET then Target v
      else if ident = header_WHO then Who v
      else if ident = header_APP_PARAMETERS then AppParameters v
      else if ident = header_AUTH_CHALLENGE then AuthChallenge v
      else if ident = header_AUTH_RESPONSE then AuthResponse v
      else if encoding = EncUnicode then OtherHeader ident (ValText (decode_unicode v))
      else OtherHeader ident (ValBytes v))"

definition Header_parse :: "bytes \<Rightarrow> HeaderError + Header \<times> nat" where
  "Header_parse bs =
     (case bs of
        [] \<Rightarrow> Inl HeaderTruncated
      | ident # tail \<Rightarrow>
          (case HeaderEncoding_of ident of
             EncByte \<Rightarrow>
               (case tail of
                  [] \<Rightarrow> Inl HeaderTruncated
                | v # _ \<Rightarrow>
                    Inr (if ident = header_SINGLE_RESPONSE_MODE then SingleResponseMode v else OtherHeader ident (ValByte v), 2))
           | EncFourByte \<Rightarrow>
               (case from_prefix 4 FourByteValue_of_bytes tail of
                  None \<Rightarrow> Inl HeaderTruncated
                | Some (view, _) \<Rightarrow>
                    Inr (if ident = header_LENGTH then Length (fb_value view)
                         else if ident = header_CONNECTION_ID then ConnectionId (fb_value view)
                         else if ident = header_COUNT then Count (fb_value view)
                         else OtherHeader ident (ValFourByte (fb_value view)), 5))
           | encoding \<Rightarrow>
               (case from_prefix 3 HeaderPrefix_of_bytes bs of
                  None \<Rightarrow> Inl HeaderTruncated
                | Some (prefix, rest) \<Rightarrow>
                    let total_len = unat (hp_length prefix) in
                    if total_len < 3 then Inl (HeaderBadLength (hp_length prefix))
                    else if length rest < total_len - 3 then Inl HeaderTruncated
                    else Inr (length_prefixed_header ident encoding (take (total_len - 3) rest), total_len))))"

function parse_all :: "bytes \<Rightarrow> HeaderError + Header list" where
  "parse_all bs =
     (if bs = [] then Inr []
      else
        (case Header_parse bs of
           Inl e \<Rightarrow> Inl e
         | Inr (h, used) \<Rightarrow> map_sum id (\<lambda>hs. h # hs) (parse_all (drop used bs))))"
  by pat_completeness auto
termination
proof (relation "measure length", goal_cases)
  case (2 bs p h used)
  then have "0 < used"
    by (auto simp: Header_parse_def Let_def split: list.splits HeaderEncoding.splits option.splits if_splits)
  then show ?case using 2(1) by (cases bs) auto
qed simp

declare parse_all.simps [simp del]

definition encode_all :: "Header list \<Rightarrow> bytes" where
  "encode_all hs = fold encode_into hs []"

section \<open>Text is read back\<close>

text \<open>Scalar values other than the null character, which ends a text.\<close>

definition wf_text :: "unicode_text \<Rightarrow> bool" where
  "wf_text t = (\<forall>c \<in> set t. 0 < c \<and> c < 0x110000 \<and> \<not> (0xD800 \<le> c \<and> c \<le> 0xDFFF))"

lemma lossy_units:
  assumes "0 < c" "c < 0x110000" "\<not> (0xD800 \<le> c \<and> c \<le> 0xDFFF)"
  shows "from_utf16_lossy (utf16_units c @ us) = c # from_utf16_lossy us" "0 \<notin> set (utf16_units c)"
proof -
  have c: "unat (of_nat c :: u16) = c" if "c < 0x10000" using that by (simp add: unat_of_nat_u16)
  define d where "d = c - 0x10000"
  have d: "d div 0x400 < 0x400" using assms(2) by (simp add: d_def less_mult_imp_div_less)
  have hi: "unat (of_nat (0xD800 + d div 0x400) :: u16) = 0xD800 + d div 0x400"
    and lo: "unat (of_nat (0xDC00 + d mod 0x400) :: u16) = 0xDC00 + d mod 0x400"
    unfolding unat_of_nat_u16 using d mod_less_divisor [of "0x400" d] by simp_all
  have split: "d div 0x400 * 0x400 + d mod 0x400 = d" by (rule div_mult_mod_eq)
  show "from_utf16_lossy (utf16_units c @ us) = c # from_utf16_lossy us"
  proof (cases "c < 0x10000")
    case True
    then have "\<not> high_surrogate (of_nat c)" "\<not> low_surrogate (of_nat c)"
      using assms(3) c [OF True] by (auto simp: high_surrogate_def low_surrogate_def)
    then show ?thesis using True c [OF True] by (cases us) (simp_all add: utf16_units_def)
  next
    case False
    then have "utf16_units c = [of_nat (0xD800 + d div 0x400), of_nat (0xDC00 + d mod 0x400)]"
      by (simp add: utf16_units_def d_def)
    moreover have "0x10000 + d = c" using False by (simp add: d_def)
    ultimately show ?thesis
      using d split by (simp add: high_surrogate_def low_surrogate_def hi lo del: of_nat_add)
  qed
  have "(of_nat (0xD800 + d div 0x400) :: u16) \<noteq> 0" "(of_nat (0xDC00 + d mod 0x400) :: u16) \<noteq> 0"
    using hi lo by (metis add_is_0 unat_0 zero_neq_numeral)+
  moreover have "(of_nat c :: u16) \<noteq> 0" if "c < 0x10000" using c [OF that] assms(1) by (metis less_numeral_extra(3) unat_0)
  ultimately show "0 \<notin> set (utf16_units c)" by (auto simp: utf16_units_def d_def)
qed

lemma utf16_round_trip: "wf_text t \<Longrightarrow> from_utf16_lossy (encode_utf16 t) = t \<and> 0 \<notin> set (encode_utf16 t)"
  by (induction t) (auto simp: encode_utf16_def wf_text_def lossy_units)

lemma be_units_octets: "be_units (concat (map (be_octets 2) us) @ [a, b]) = us @ [from_be [a, b]]"
proof (induction us)
  case (Cons u us)
  obtain x y where "be_octets 2 u = [x, y]" "from_be [x, y] = u" using be_octets_2_list by blast
  then show ?case using Cons by simp
qed simp

lemma decode_encode_unicode: "wf_text t \<Longrightarrow> decode_unicode (encode_unicode t) = t"
proof -
  assume t: "wf_text t"
  have "takeWhile (\<lambda>u. u \<noteq> 0) (encode_utf16 t @ [0]) = encode_utf16 t"
    using utf16_round_trip [OF t] by (subst takeWhile_append2) auto
  moreover have "from_be [0, 0] = (0 :: u16)" by (simp add: from_be_def)
  ultimately show ?thesis
    using utf16_round_trip [OF t] by (simp add: decode_unicode_def encode_unicode_def be_units_octets)
qed

section \<open>Headers are read back\<close>

text \<open>The identifiers of the headers the parser has a constructor for.\<close>

definition known_headers :: "u8 list" where
  "known_headers = [header_COUNT, header_NAME, header_TYPE, header_LENGTH, header_BODY, header_END_OF_BODY, header_TARGET,
     header_WHO, header_CONNECTION_ID, header_APP_PARAMETERS, header_AUTH_CHALLENGE, header_AUTH_RESPONSE,
     header_SINGLE_RESPONSE_MODE, header_DESCRIPTION]"

definition value_encoding :: "HeaderValue \<Rightarrow> HeaderEncoding" where
  "value_encoding v =
     (case v of ValText _ \<Rightarrow> EncUnicode | ValBytes _ \<Rightarrow> EncByteSequence | ValByte _ \<Rightarrow> EncByte | ValFourByte _ \<Rightarrow> EncFourByte)"

definition wf_header :: "Header \<Rightarrow> bool" where
  "wf_header h =
     ((case Header_value h of
         ValText t \<Rightarrow> wf_text t \<and> length (encode_unicode t) + 3 < 0x10000
       | ValBytes bs \<Rightarrow> length bs + 3 < 0x10000
       | _ \<Rightarrow> True)
      \<and> (case h of
           OtherHeader ident v \<Rightarrow> ident \<notin> set known_headers \<and> HeaderEncoding_of ident = value_encoding v
         | _ \<Rightarrow> True))"

lemma parse_length_prefixed:
  assumes "HeaderEncoding_of ident \<in> {EncUnicode, EncByteSequence}" "length v + 3 < 0x10000"
  shows "Header_parse (push_length_prefixed [] ident v @ rest)
    = Inr (length_prefixed_header ident (HeaderEncoding_of ident) v, length v + 3)"
proof -
  let ?p = "\<lparr>hp_identifier = ident, hp_length = of_nat (length v + 3)\<rparr>"
  have "unat (of_nat (length v + 3) :: u16) = length v + 3" unfolding unat_of_nat_u16 using assms(2) by simp
  moreover have "push_length_prefixed [] ident v @ rest = HeaderPrefix_as_bytes ?p @ v @ rest"
    by (simp add: push_length_prefixed_def)
  moreover have "HeaderPrefix_as_bytes ?p = ident # be_octets 2 (of_nat (length v + 3) :: u16)"
    by (simp add: HeaderPrefix_as_bytes_def)
  ultimately show ?thesis
    using assms(1) hp_layout.prefix_enc [of ?p "v @ rest"]
    by (auto simp: Header_parse_def Let_def simp del: of_nat_add be_octets.simps)
qed

lemma header_encodings:
  "HeaderEncoding_of 0xC0 = EncFourByte" "HeaderEncoding_of 0x01 = EncUnicode" "HeaderEncoding_of 0x42 = EncByteSequence"
  "HeaderEncoding_of 0xC3 = EncFourByte" "HeaderEncoding_of 0x48 = EncByteSequence" "HeaderEncoding_of 0x49 = EncByteSequence"
  "HeaderEncoding_of 0x46 = EncByteSequence" "HeaderEncoding_of 0x4A = EncByteSequence" "HeaderEncoding_of 0xCB = EncFourByte"
  "HeaderEncoding_of 0x4C = EncByteSequence" "HeaderEncoding_of 0x4D = EncByteSequence" "HeaderEncoding_of 0x4E = EncByteSequence"
  "HeaderEncoding_of 0x97 = EncByte" "HeaderEncoding_of 0x05 = EncUnicode"
  by (simp_all add: HeaderEncoding_of_def)

lemma Header_encoding: "wf_header h \<Longrightarrow> HeaderEncoding_of (Header_identifier h) = value_encoding (Header_value h)"
  by (cases h) (simp_all add: wf_header_def Header_identifier_def Header_value_def value_encoding_def header_encodings
      del: One_nat_def)

lemma parse_header:
  assumes "wf_header h"
  shows "Header_parse (encode_into h [] @ rest) = Inr (h, Header_encoded_len h)"
proof (cases "Header_value h")
  case (ValText t)
  then have t: "decode_unicode (encode_unicode t) = t" "length (encode_unicode t) + 3 < 0x10000"
    using assms by (simp_all add: wf_header_def decode_encode_unicode)
  have enc: "HeaderEncoding_of (Header_identifier h) = EncUnicode" using Header_encoding [OF assms] ValText by (simp add: value_encoding_def)
  have "length_prefixed_header (Header_identifier h) EncUnicode (encode_unicode t) = h"
    using ValText assms t by (cases h) (simp_all add: length_prefixed_header_def Header_identifier_def Header_value_def
        wf_header_def known_headers_def)
  then show ?thesis
    using parse_length_prefixed [of "Header_identifier h" "encode_unicode t" rest] t enc
    by (simp add: encode_into_def encode_value_def ValText Header_encoded_len_def push_length_prefixed_def hp_layout.length_enc)
next
  case (ValBytes bs)
  then have t: "length bs + 3 < 0x10000" using assms by (simp add: wf_header_def)
  have enc: "HeaderEncoding_of (Header_identifier h) = EncByteSequence"
    using Header_encoding [OF assms] ValBytes by (simp add: value_encoding_def)
  have "length_prefixed_header (Header_identifier h) EncByteSequence bs = h"
    using ValBytes assms by (cases h) (simp_all add: length_prefixed_header_def Header_identifier_def Header_value_def
        wf_header_def known_headers_def)
  then show ?thesis
    using parse_length_prefixed [of "Header_identifier h" bs rest] t enc
    by (simp add: encode_into_def encode_value_def ValBytes Header_encoded_len_def push_length_prefixed_def hp_layout.length_enc)
next
  case (ValByte b)
  have "HeaderEncoding_of (Header_identifier h) = EncByte"
    using Header_encoding [OF assms] ValByte by (simp add: value_encoding_def)
  then show ?thesis
    using ValByte assms by (cases h) (simp_all add: Header_parse_def encode_into_def encode_value_def Header_encoded_len_def
        Header_identifier_def Header_value_def wf_header_def known_headers_def)
next
  case (ValFourByte w)
  have enc: "HeaderEncoding_of (Header_identifier h) = EncFourByte"
    using Header_encoding [OF assms] ValFourByte by (simp add: value_encoding_def)
  have "from_prefix 4 FourByteValue_of_bytes (be_octets 4 w @ rest) = Some (\<lparr>fb_value = w\<rparr>, rest)"
    using fb_layout.prefix_enc [of "\<lparr>fb_value = w\<rparr>" rest] by (simp add: FourByteValue_as_bytes_def del: be_octets.simps)
  then have "Header_parse (encode_into h [] @ rest)
      = Inr (if Header_identifier h = header_LENGTH then Length w else if Header_identifier h = header_CONNECTION_ID then ConnectionId w
         else if Header_identifier h = header_COUNT then Count w else OtherHeader (Header_identifier h) (ValFourByte w), 5)"
    using enc by (simp add: Header_parse_def encode_into_def encode_value_def ValFourByte del: be_octets.simps)
  then show ?thesis
    using ValFourByte assms by (cases h) (simp_all add: encode_into_def encode_value_def Header_encoded_len_def
        Header_identifier_def Header_value_def wf_header_def known_headers_def del: be_octets.simps)
qed

lemma encode_into_append: "encode_into h out = out @ encode_into h []"
  by (simp add: encode_into_def encode_value_def push_length_prefixed_def split: HeaderValue.splits)

lemma encode_all_Cons: "encode_all (h # hs) = encode_into h [] @ encode_all hs"
proof -
  have "fold encode_into hs out = out @ fold encode_into hs []" for out
  proof (induction hs arbitrary: out)
    case (Cons h hs)
    from Cons [of "encode_into h out"] Cons [of "encode_into h []"] show ?case
      using encode_into_append [of h out] by simp
  qed simp
  then show ?thesis unfolding encode_all_def by (metis fold_simps(2))
qed

lemma encode_all_Nil [simp]: "encode_all [] = []"
  by (simp add: encode_all_def)

lemma encode_into_nonempty: "encode_into h [] \<noteq> []"
  by (simp add: encode_into_def encode_value_def push_length_prefixed_def HeaderPrefix_as_bytes_def split: HeaderValue.splits)

lemma parse_all_encode_all: "\<forall>h \<in> set hs. wf_header h \<Longrightarrow> parse_all (encode_all hs) = Inr hs"
proof (induction hs)
  case Nil
  then show ?case by (simp add: parse_all.simps)
next
  case (Cons h hs)
  then have "Header_parse (encode_all (h # hs)) = Inr (h, Header_encoded_len h)"
    unfolding encode_all_Cons by (intro parse_header) simp
  moreover have "drop (Header_encoded_len h) (encode_all (h # hs)) = encode_all hs"
    by (simp add: encode_all_Cons Header_encoded_len_def)
  moreover have "encode_all (h # hs) \<noteq> []" using encode_into_nonempty by (simp add: encode_all_Cons)
  ultimately show ?case using Cons by (subst parse_all.simps) simp
qed

text \<open>C29: Every list of headers, unknown ones included, is read back from its encoding.\<close>
theorem obex_headers_round_trip:
  assumes "\<forall>h \<in> set hs. wf_header h"
  shows "parse_all (encode_all hs) = Inr hs"
  using assms by (rule parse_all_encode_all)

theorem obex_headers_round_trip_witness:
  "parse_all (encode_all [Name [0x78, 0x1F600], Length 3, OtherHeader 0x9F (ValByte 3)])
    = Inr [Name [0x78, 0x1F600], Length 3, OtherHeader 0x9F (ValByte 3)]"
  by (rule obex_headers_round_trip)
    (simp add: wf_header_def Header_value_def wf_text_def known_headers_def HeaderEncoding_of_def value_encoding_def
      encode_unicode_def encode_utf16_def utf16_units_def)

end
