(* ===== verification/Obex_Session.thy ===== *)
theory Obex_Session
  imports Obex_Header Sdp_Pdu
begin

text \<open>
  OBEX packets, server and client (\<open>src/src/obex/packet.rs\<close>, \<open>server.rs\<close>, \<open>client.rs\<close>, \<open>opp.rs\<close>).
\<close>

section \<open>Packets\<close>

abbreviation (input) opcode_CONNECT :: "u8" where "opcode_CONNECT \<equiv> 0x00"
abbreviation (input) opcode_DISCONNECT :: "u8" where "opcode_DISCONNECT \<equiv> 0x01"
abbreviation (input) opcode_PUT :: "u8" where "opcode_PUT \<equiv> 0x02"
abbreviation (input) opcode_GET :: "u8" where "opcode_GET \<equiv> 0x03"
abbreviation (input) opcode_SETPATH :: "u8" where "opcode_SETPATH \<equiv> 0x05"
abbreviation (input) opcode_ABORT :: "u8" where "opcode_ABORT \<equiv> 0xFF"
abbreviation (input) FINAL_BIT :: "u8" where "FINAL_BIT \<equiv> 0x80"
abbreviation (input) response_CONTINUE :: "u8" where "response_CONTINUE \<equiv> 0x90"
abbreviation (input) response_SUCCESS :: "u8" where "response_SUCCESS \<equiv> 0xA0"
abbreviation (input) response_BAD_REQUEST :: "u8" where "response_BAD_REQUEST \<equiv> 0xC0"
abbreviation (input) response_NOT_IMPLEMENTED :: "u8" where "response_NOT_IMPLEMENTED \<equiv> 0xD1"
abbreviation (input) response_ENTITY_TOO_LARGE :: "u8" where "response_ENTITY_TOO_LARGE \<equiv> 0xCD"
abbreviation (input) response_SERVICE_UNAVAILABLE :: "u8" where "response_SERVICE_UNAVAILABLE \<equiv> 0xD3"

record PacketPrefix =
  pp_code :: u8
  pp_length :: u16

definition PacketPrefix_as_bytes :: "PacketPrefix \<Rightarrow> bytes" where
  "PacketPrefix_as_bytes p = pp_code p # be_octets 2 (pp_length p)"

definition PacketPrefix_of_bytes :: "bytes \<Rightarrow> PacketPrefix" where
  "PacketPrefix_of_bytes bs = \<lparr>pp_code = bs ! 0, pp_length = from_be (drop 1 bs)\<rparr>"

record ConnectFields =
  cf_version :: u8
  cf_flags :: u8
  cf_max_packet_length :: u16

definition ConnectFields_as_bytes :: "ConnectFields \<Rightarrow> bytes" where
  "ConnectFields_as_bytes c = [cf_version c, cf_flags c] @ be_octets 2 (cf_max_packet_length c)"

definition ConnectFields_of_bytes :: "bytes \<Rightarrow> ConnectFields" where
  "ConnectFields_of_bytes bs = \<lparr>cf_version = bs ! 0, cf_flags = bs ! 1, cf_max_packet_length = from_be (drop 2 bs)\<rparr>"

record SetPathFields =
  sp_flags :: u8
  sp_constants :: u8

definition SetPathFields_as_bytes :: "SetPathFields \<Rightarrow> bytes" where
  "SetPathFields_as_bytes f = [sp_flags f, sp_constants f]"

definition SetPathFields_of_bytes :: "bytes \<Rightarrow> SetPathFields" where
  "SetPathFields_of_bytes bs = \<lparr>sp_flags = bs ! 0, sp_constants = bs ! 1\<rparr>"

interpretation pp_layout: wire_layout 3 "\<lambda>_. True" PacketPrefix_as_bytes PacketPrefix_of_bytes
proof
  show "PacketPrefix_as_bytes (PacketPrefix_of_bytes bs) = bs" if "length bs = 3" for bs
    using that be_octets_of_be(1) [of "drop 1 bs"]
    by (cases bs) (simp_all add: PacketPrefix_as_bytes_def PacketPrefix_of_bytes_def del: be_octets.simps)
qed (simp_all add: PacketPrefix_as_bytes_def PacketPrefix_of_bytes_def del: be_octets.simps)

interpretation cf_layout: wire_layout 4 "\<lambda>_. True" ConnectFields_as_bytes ConnectFields_of_bytes
proof
  show "ConnectFields_as_bytes (ConnectFields_of_bytes bs) = bs" if bs: "length bs = 4" for bs
  proof -
    from bs obtain a b rest where "bs = a # b # rest" "length rest = 2" by (auto simp: list_of_length)
    then show ?thesis using be_octets_of_be(1) [of rest]
      by (simp add: ConnectFields_as_bytes_def ConnectFields_of_bytes_def del: be_octets.simps)
  qed
qed (simp_all add: ConnectFields_as_bytes_def ConnectFields_of_bytes_def del: be_octets.simps)

interpretation sp_layout: wire_layout 2 "\<lambda>_. True" SetPathFields_as_bytes SetPathFields_of_bytes
  by unfold_locales (auto simp: SetPathFields_as_bytes_def SetPathFields_of_bytes_def list_of_length)

datatype PacketError = PacketTruncated | PacketBadLength u16 | PacketHeader HeaderError

record Request =
  rq_opcode :: u8
  rq_is_final :: bool
  rq_connect :: "ConnectFields option"
  rq_set_path :: "SetPathFields option"
  rq_headers :: "Header list"

record Response =
  rs_code :: u8
  rs_is_final :: bool
  rs_connect :: "ConnectFields option"
  rs_headers :: "Header list"

definition split_packet :: "bytes \<Rightarrow> PacketError + u8 \<times> bool \<times> bytes" where
  "split_packet bs =
     (case from_prefix 3 PacketPrefix_of_bytes bs of
        None \<Rightarrow> Inl PacketTruncated
      | Some (prefix, rest) \<Rightarrow>
          let total_len = unat (pp_length prefix) in
          if total_len < 3 then Inl (PacketBadLength (pp_length prefix))
          else if length rest < total_len - 3 then Inl PacketTruncated
          else Inr (pp_code prefix AND NOT FINAL_BIT, pp_code prefix AND FINAL_BIT \<noteq> 0, take (total_len - 3) rest))"

definition build_packet :: "u8 \<Rightarrow> bytes \<Rightarrow> Header list \<Rightarrow> bytes" where
  "build_packet code fixed headers =
     (let body = encode_all headers;
          total_len = 3 + length fixed + length body
      in PacketPrefix_as_bytes \<lparr>pp_code = code, pp_length = of_nat total_len\<rparr> @ fixed @ body)"

definition parse_headers :: "bytes \<Rightarrow> PacketError + Header list" where
  "parse_headers bs = map_sum PacketHeader id (parse_all bs)"

definition Request_parse :: "bytes \<Rightarrow> PacketError + Request" where
  "Request_parse bs =
     (case split_packet bs of
        Inl e \<Rightarrow> Inl e
      | Inr (opcode, is_final, body) \<Rightarrow>
          let opcode = (if bs ! 0 = opcode_ABORT then opcode_ABORT else opcode);
              fields = (if opcode = opcode_CONNECT then
                  map_option (\<lambda>(f, rest). (Some f, None, rest)) (from_prefix 4 ConnectFields_of_bytes body)
                else if opcode = opcode_SETPATH then
                  map_option (\<lambda>(f, rest). (None, Some f, rest)) (from_prefix 2 SetPathFields_of_bytes body)
                else Some (None, None, body))
          in (case fields of
                None \<Rightarrow> Inl PacketTruncated
              | Some (connect, set_path, header_bytes) \<Rightarrow>
                  map_sum id (\<lambda>headers. \<lparr>rq_opcode = opcode, rq_is_final = is_final, rq_connect = connect,
                    rq_set_path = set_path, rq_headers = headers\<rparr>) (parse_headers header_bytes)))"

definition Request_to_bytes :: "Request \<Rightarrow> bytes" where
  "Request_to_bytes r =
     (let code = (if rq_is_final r then rq_opcode r OR FINAL_BIT else rq_opcode r);
          fixed = (case rq_connect r of None \<Rightarrow> [] | Some c \<Rightarrow> ConnectFields_as_bytes c)
            @ (case rq_set_path r of None \<Rightarrow> [] | Some f \<Rightarrow> SetPathFields_as_bytes f)
      in build_packet code fixed (rq_headers r))"

definition Request_simple :: "u8 \<Rightarrow> bool \<Rightarrow> Header list \<Rightarrow> Request" where
  "Request_simple opcode is_final headers =
     \<lparr>rq_opcode = opcode, rq_is_final = is_final, rq_connect = None, rq_set_path = None, rq_headers = headers\<rparr>"

definition Request_connect :: "u16 \<Rightarrow> Header list \<Rightarrow> Request" where
  "Request_connect max_packet_length headers =
     \<lparr>rq_opcode = opcode_CONNECT, rq_is_final = True,
      rq_connect = Some \<lparr>cf_version = 0x10, cf_flags = 0x00, cf_max_packet_length = max_packet_length\<rparr>,
      rq_set_path = None, rq_headers = headers\<rparr>"

definition Request_disconnect :: "Header list \<Rightarrow> Request" where
  "Request_disconnect headers = Request_simple opcode_DISCONNECT True headers"

definition Request_put :: "bool \<Rightarrow> Header list \<Rightarrow> Request" where
  "Request_put is_final headers = Request_simple opcode_PUT is_final headers"

definition Request_get :: "bool \<Rightarrow> Header list \<Rightarrow> Request" where
  "Request_get is_final headers = Request_simple opcode_GET is_final headers"

definition Request_abort :: Request where
  "Request_abort = Request_simple opcode_ABORT True []"

definition Request_header :: "u8 \<Rightarrow> Request \<Rightarrow> Header option" where
  "Request_header ident r = List.find (\<lambda>h. Header_identifier h = ident) (rq_headers r)"

definition Response_parse :: "bytes \<Rightarrow> bool \<Rightarrow> PacketError + Response" where
  "Response_parse bs to_connect =
     (case split_packet bs of
        Inl e \<Rightarrow> Inl e
      | Inr (_, is_final, body) \<Rightarrow>
          let code = bs ! 0;
              fields = (if to_connect \<and> code = response_SUCCESS then
                  map_option (\<lambda>(f, rest). (Some f, rest)) (from_prefix 4 ConnectFields_of_bytes body)
                else Some (None, body))
          in (case fields of
                None \<Rightarrow> Inl PacketTruncated
              | Some (connect, header_bytes) \<Rightarrow>
                  map_sum id (\<lambda>headers. \<lparr>rs_code = code, rs_is_final = is_final, rs_connect = connect, rs_headers = headers\<rparr>)
                    (parse_headers header_bytes)))"

definition Response_to_bytes :: "Response \<Rightarrow> bytes" where
  "Response_to_bytes r =
     build_packet (rs_code r) (case rs_connect r of None \<Rightarrow> [] | Some c \<Rightarrow> ConnectFields_as_bytes c) (rs_headers r)"

definition Response_status :: "u8 \<Rightarrow> Response" where
  "Response_status code = \<lparr>rs_code = code, rs_is_final = (code AND FINAL_BIT \<noteq> 0), rs_connect = None, rs_headers = []\<rparr>"

definition Response_cont :: Response where
  "Response_cont = Response_status response_CONTINUE"

definition Response_success :: "Header list \<Rightarrow> Response" where
  "Response_success headers = \<lparr>rs_code = response_SUCCESS, rs_is_final = True, rs_connect = None, rs_headers = headers\<rparr>"

definition Response_connect_success :: "u16 \<Rightarrow> Header list \<Rightarrow> Response" where
  "Response_connect_success max_packet_length headers =
     \<lparr>rs_code = response_SUCCESS, rs_is_final = True,
      rs_connect = Some \<lparr>cf_version = 0x10, cf_flags = 0x00, cf_max_packet_length = max_packet_length\<rparr>, rs_headers = headers\<rparr>"

section \<open>Server\<close>

record ReceivedObject =
  ro_name :: "unicode_text option"
  ro_mime_type :: "bytes option"
  ro_declared_length :: "u32 option"
  ro_body :: bytes

definition ReceivedObject_default :: ReceivedObject where
  "ReceivedObject_default = \<lparr>ro_name = None, ro_mime_type = None, ro_declared_length = None, ro_body = []\<rparr>"

datatype ServerEvent = SessionConnected | SessionDisconnected | Continued | ObjectReceived ReceivedObject | Aborted | Rejected u8

datatype SessionPolicy = SessionOptional | SessionRequired

record ServerLimits =
  sl_max_packet_length :: u16
  sl_max_object_bytes :: nat

definition ServerLimits_default :: ServerLimits where
  "ServerLimits_default = \<lparr>sl_max_packet_length = 0x2000, sl_max_object_bytes = 8 * 1024 * 1024\<rparr>"

record ObexServer =
  os_limits :: ServerLimits
  os_policy :: SessionPolicy
  os_connected :: bool
  os_in_progress :: "ReceivedObject option"
  os_completed :: "ReceivedObject list"
  os_peer_max_packet_length :: "u16 option"

definition ObexServer_new :: "SessionPolicy \<Rightarrow> ServerLimits \<Rightarrow> ObexServer" where
  "ObexServer_new policy limits =
     \<lparr>os_limits = limits, os_policy = policy, os_connected = False, os_in_progress = None, os_completed = [],
      os_peer_max_packet_length = None\<rparr>"

definition take_objects :: "ObexServer \<Rightarrow> ReceivedObject list \<times> ObexServer" where
  "take_objects s = (os_completed s, s\<lparr>os_completed := []\<rparr>)"

definition obex_reject :: "u8 \<Rightarrow> ObexServer \<Rightarrow> bytes \<times> ServerEvent \<times> ObexServer" where
  "obex_reject code s = (Response_to_bytes (Response_status code), Rejected code, s\<lparr>os_in_progress := None\<rparr>)"

definition on_connect :: "Request \<Rightarrow> ObexServer \<Rightarrow> bytes \<times> ServerEvent \<times> ObexServer" where
  "on_connect request s =
     (Response_to_bytes (Response_connect_success (sl_max_packet_length (os_limits s)) []), SessionConnected,
      s\<lparr>os_connected := True, os_in_progress := None,
        os_peer_max_packet_length := map_option cf_max_packet_length (rq_connect request)\<rparr>)"

text \<open>The loop over the headers of a PUT; \<open>None\<close> when a chunk exceeds the limit.\<close>

fun put_headers :: "nat \<Rightarrow> Header list \<Rightarrow> ReceivedObject \<Rightarrow> ReceivedObject option" where
  "put_headers limit [] object = Some object"
| "put_headers limit (h # hs) object =
     (case h of
        Name t \<Rightarrow> put_headers limit hs (object\<lparr>ro_name := Some t\<rparr>)
      | Type mime \<Rightarrow> put_headers limit hs (object\<lparr>ro_mime_type := Some mime\<rparr>)
      | Length n \<Rightarrow> put_headers limit hs (object\<lparr>ro_declared_length := Some n\<rparr>)
      | Body chunk \<Rightarrow>
          if limit < length (ro_body object) + length chunk then None
          else put_headers limit hs (object\<lparr>ro_body := ro_body object @ chunk\<rparr>)
      | EndOfBody chunk \<Rightarrow>
          if limit < length (ro_body object) + length chunk then None
          else put_headers limit hs (object\<lparr>ro_body := ro_body object @ chunk\<rparr>)
      | _ \<Rightarrow> put_headers limit hs object)"

definition on_put :: "Request \<Rightarrow> ObexServer \<Rightarrow> bytes \<times> ServerEvent \<times> ObexServer" where
  "on_put request s =
     (let object = (case os_in_progress s of None \<Rightarrow> ReceivedObject_default | Some object \<Rightarrow> object);
          s = s\<lparr>os_in_progress := None\<rparr>
      in case put_headers (sl_max_object_bytes (os_limits s)) (rq_headers request) object of
           None \<Rightarrow> obex_reject response_ENTITY_TOO_LARGE s
         | Some object \<Rightarrow>
             if rq_is_final request
             then (Response_to_bytes (Response_success []), ObjectReceived object,
                   s\<lparr>os_completed := os_completed s @ [object]\<rparr>)
             else (Response_to_bytes Response_cont, Continued, s\<lparr>os_in_progress := Some object\<rparr>))"

definition obex_handle_request :: "Request \<Rightarrow> ObexServer \<Rightarrow> bytes \<times> ServerEvent \<times> ObexServer" where
  "obex_handle_request request s =
     (if os_policy s = SessionRequired \<and> \<not> os_connected s \<and> rq_opcode request \<notin> {opcode_CONNECT, opcode_ABORT}
      then obex_reject response_SERVICE_UNAVAILABLE s
      else if rq_opcode request = opcode_CONNECT then on_connect request s
      else if rq_opcode request = opcode_DISCONNECT then
        (Response_to_bytes (Response_success []), SessionDisconnected, s\<lparr>os_connected := False, os_in_progress := None\<rparr>)
      else if rq_opcode request = opcode_PUT then on_put request s
      else if rq_opcode request = opcode_ABORT then
        (Response_to_bytes (Response_success []), Aborted, s\<lparr>os_in_progress := None\<rparr>)
      else obex_reject response_NOT_IMPLEMENTED s)"

definition obex_handle_packet :: "bytes \<Rightarrow> ObexServer \<Rightarrow> bytes \<times> ServerEvent \<times> ObexServer" where
  "obex_handle_packet packet s =
     (case Request_parse packet of
        Inl _ \<Rightarrow> (Response_to_bytes (Response_status response_BAD_REQUEST), Rejected response_BAD_REQUEST, s)
      | Inr request \<Rightarrow> obex_handle_request request s)"

text \<open>The packets after the first: the loop over what is left of the body.\<close>

function later_packets :: "nat \<Rightarrow> bytes \<Rightarrow> bytes list" where
  "later_packets capacity rest =
     (if 0 < capacity \<and> capacity < length rest
      then Request_to_bytes (Request_put False [Body (take capacity rest)]) # later_packets capacity (drop capacity rest)
      else [Request_to_bytes (Request_put True [EndOfBody rest])])"
  by pat_completeness auto
termination by (relation "measure (\<lambda>(_, rest). length rest)") auto

declare later_packets.simps [simp del]

definition put_leading :: "unicode_text option \<Rightarrow> bytes option \<Rightarrow> bytes \<Rightarrow> Header list" where
  "put_leading name mime_type body =
     (case name of None \<Rightarrow> [] | Some t \<Rightarrow> [Name t]) @ (case mime_type of None \<Rightarrow> [] | Some m \<Rightarrow> [Type m])
     @ [Length (of_nat (length body))]"

definition put_packets :: "unicode_text option \<Rightarrow> bytes option \<Rightarrow> bytes \<Rightarrow> u16 \<Rightarrow> bytes list" where
  "put_packets name mime_type body max_packet_length =
     (let leading = put_leading name mime_type body;
          leading_len = sum_list (map Header_encoded_len leading);
          first_capacity = unat max_packet_length - (3 + leading_len + 3);
          later_capacity = unat max_packet_length - (3 + 3)
      in if first_capacity = 0 \<or> later_capacity = 0 then [Request_to_bytes (Request_put True leading)]
         else if length body \<le> first_capacity then [Request_to_bytes (Request_put True (leading @ [EndOfBody body]))]
         else Request_to_bytes (Request_put False (leading @ [Body (take first_capacity body)]))
           # later_packets later_capacity (drop first_capacity body))"

section \<open>Client\<close>

datatype ClientState = ClientIdle | ClientConnected | Putting | ClientDone | ClientFailed u8

text \<open>The queue is kept in reverse order: packets are popped from its end.\<close>

record ObexClient =
  oc_state :: ClientState
  oc_max_packet_length :: u16
  oc_queued :: "bytes list"
  oc_awaiting_connect :: bool

definition ObexClient_new :: "u16 \<Rightarrow> ObexClient" where
  "ObexClient_new max_packet_length =
     \<lparr>oc_state = ClientIdle, oc_max_packet_length = max_packet_length, oc_queued = [], oc_awaiting_connect = False\<rparr>"

definition queue_pop :: "ObexClient \<Rightarrow> bytes option \<times> ObexClient" where
  "queue_pop c =
     (if oc_queued c = [] then (None, c) else (Some (List.last (oc_queued c)), c\<lparr>oc_queued := butlast (oc_queued c)\<rparr>))"

definition client_connect :: "ObexClient \<Rightarrow> bytes \<times> ObexClient" where
  "client_connect c = (Request_to_bytes (Request_connect (oc_max_packet_length c) []), c\<lparr>oc_awaiting_connect := True\<rparr>)"

definition client_disconnect :: "ObexClient \<Rightarrow> bytes \<times> ObexClient" where
  "client_disconnect c = (Request_to_bytes (Request_disconnect []), c\<lparr>oc_awaiting_connect := False\<rparr>)"

definition client_put :: "unicode_text option \<Rightarrow> bytes option \<Rightarrow> bytes \<Rightarrow> u16 \<Rightarrow> ObexClient \<Rightarrow> bytes \<times> ObexClient" where
  "client_put name mime_type body peer_max_packet_length c =
     (let (packet, c) = queue_pop (c\<lparr>oc_queued := rev (put_packets name mime_type body peer_max_packet_length),
            oc_awaiting_connect := False, oc_state := Putting\<rparr>)
      in (case packet of None \<Rightarrow> [] | Some p \<Rightarrow> p, c))"

definition handle_response :: "bytes \<Rightarrow> ObexClient \<Rightarrow> (PacketError + bytes option) \<times> ObexClient" where
  "handle_response bs c =
     (case Response_parse bs (oc_awaiting_connect c) of
        Inl e \<Rightarrow> (Inl e, c)
      | Inr parsed \<Rightarrow>
          let c = c\<lparr>oc_awaiting_connect := False\<rparr> in
          if rs_code parsed = response_CONTINUE then map_prod Inr id (queue_pop c)
          else if rs_code parsed = response_SUCCESS then
            (Inr None, if oc_queued c \<noteq> [] then c\<lparr>oc_queued := [], oc_state := ClientFailed response_SUCCESS\<rparr>
              else c\<lparr>oc_state := (if rs_connect parsed \<noteq> None then ClientConnected else ClientDone)\<rparr>)
          else (Inr None, c\<lparr>oc_queued := [], oc_state := ClientFailed (rs_code parsed)\<rparr>))"

definition client_abort :: "ObexClient \<Rightarrow> bytes \<times> ObexClient" where
  "client_abort c = (Request_to_bytes Request_abort, c\<lparr>oc_queued := []\<rparr>)"

definition client_get :: "unicode_text \<Rightarrow> ObexClient \<Rightarrow> bytes \<times> ObexClient" where
  "client_get name c = (Request_to_bytes (Request_get True [Name name]), c\<lparr>oc_awaiting_connect := False\<rparr>)"

section \<open>Object push\<close>

abbreviation (input) OBJECT_PUSH_SERVICE :: SdpUuid where "OBJECT_PUSH_SERVICE \<equiv> SdpUuid16 0x1105"
abbreviation (input) OBEX_PROTOCOL :: SdpUuid where "OBEX_PROTOCOL \<equiv> SdpUuid16 0x0008"
abbreviation (input) SUPPORTED_FORMATS_LIST :: "u16" where "SUPPORTED_FORMATS_LIST \<equiv> 0x0303"
abbreviation (input) SERVICE_NAME_PRIMARY :: "u16" where "SERVICE_NAME_PRIMARY \<equiv> 0x0100"

definition object_push_server :: "ServerLimits \<Rightarrow> ObexServer" where
  "object_push_server limits = ObexServer_new SessionOptional limits"

text \<open>The service name is its UTF-8 bytes; 1 and 4 are the attribute identifiers of classes and protocols.\<close>

definition object_push_service_record :: "u8 \<Rightarrow> bytes \<Rightarrow> bytes \<Rightarrow> Service" where
  "object_push_service_record rfcomm_channel service_name formats =
     [ServiceAttribute_new 0x0001 (DeSequence [DeUuid OBJECT_PUSH_SERVICE]),
      ServiceAttribute_new 0x0004
        (DeSequence [DeSequence [DeUuid BT_L2CAP_PROTOCOL_ID],
                     DeSequence [DeUuid BT_RFCOMM_PROTOCOL_ID, DeUnsigned (ucast rfcomm_channel) 1],
                     DeSequence [DeUuid OBEX_PROTOCOL]]),
      ServiceAttribute_new SERVICE_NAME_PRIMARY (DeText service_name),
      ServiceAttribute_new SUPPORTED_FORMATS_LIST (DeSequence (map (\<lambda>f. DeUnsigned (ucast f) 1) formats))]"

end
