(* ===== verification/Obex_Exchange.thy ===== *)
theory Obex_Exchange
  imports Obex_Session
begin

text \<open>
  OBEX packets are read back, and an object that a client pushes to a server arrives complete,
  however many packets it takes.
\<close>

section \<open>Packets are read back\<close>

lemma split_build:
  assumes "3 + length fixed + length (encode_all hs) < 0x10000"
  shows "split_packet (build_packet code fixed hs) = Inr (code AND NOT FINAL_BIT, code AND FINAL_BIT \<noteq> 0, fixed @ encode_all hs)"
    and "build_packet code fixed hs ! 0 = code"
proof -
  let ?n = "3 + length fixed + length (encode_all hs)"
  let ?p = "\<lparr>pp_code = code, pp_length = of_nat ?n\<rparr>"
  have "unat (of_nat ?n :: u16) = ?n" unfolding unat_of_nat_u16 using assms by simp
  moreover have "build_packet code fixed hs = PacketPrefix_as_bytes ?p @ fixed @ encode_all hs"
    by (simp add: build_packet_def Let_def)
  ultimately show "split_packet (build_packet code fixed hs) = Inr (code AND NOT FINAL_BIT, code AND FINAL_BIT \<noteq> 0, fixed @ encode_all hs)"
    using pp_layout.prefix_enc [of ?p "fixed @ encode_all hs"] by (simp add: split_packet_def Let_def del: of_nat_add)
  show "build_packet code fixed hs ! 0 = code" by (simp add: build_packet_def Let_def PacketPrefix_as_bytes_def)
qed

text \<open>A request the builders produce: the fixed fields its opcode asks for, and no more than 64 KiB.\<close>

definition wf_request :: "Request \<Rightarrow> bool" where
  "wf_request r =
     ((rq_connect r \<noteq> None \<longleftrightarrow> rq_opcode r = opcode_CONNECT) \<and> (rq_set_path r \<noteq> None \<longleftrightarrow> rq_opcode r = opcode_SETPATH)
      \<and> (rq_opcode r AND FINAL_BIT = 0 \<and> rq_opcode r \<noteq> 0x7F \<or> rq_opcode r = opcode_ABORT \<and> rq_is_final r)
      \<and> (\<forall>h \<in> set (rq_headers r). wf_header h) \<and> length (Request_to_bytes r) < 0x10000)"

lemma opcode_bits:
  fixes opc :: u8
  assumes "opc AND FINAL_BIT = 0" "opc \<noteq> 0x7F"
  shows "(opc OR FINAL_BIT) AND NOT FINAL_BIT = opc" "opc AND NOT FINAL_BIT = opc"
    "(opc OR FINAL_BIT) AND FINAL_BIT \<noteq> 0" "opc OR FINAL_BIT \<noteq> opcode_ABORT" "opc \<noteq> opcode_ABORT"
proof -
  have w: "FINAL_BIT = 2 ^ 7" by simp
  have "\<not> bit opc 7" using assms(1) unfolding w by (simp only: and_exp_eq_0_iff_not_bit simp_thms)
  note bits = control_bits [OF this]
  show cleared: "(opc OR FINAL_BIT) AND NOT FINAL_BIT = opc" and "opc AND NOT FINAL_BIT = opc" using bits unfolding w by simp_all
  have "bit (opc OR 2 ^ 7) 7" by (simp only: bit_or_iff bit_exp_iff) simp
  then show "(opc OR FINAL_BIT) AND FINAL_BIT \<noteq> 0" unfolding w by (simp only: and_exp_eq_0_iff_not_bit simp_thms)
  show "opc OR FINAL_BIT \<noteq> opcode_ABORT"
  proof
    assume "opc OR FINAL_BIT = opcode_ABORT"
    then have "opc = opcode_ABORT AND NOT FINAL_BIT" using cleared by simp
    then show False using assms(2) by simp
  qed
  show "opc \<noteq> opcode_ABORT" using assms(1) by auto
qed

lemma parse_headers_encode_all: "\<forall>h \<in> set hs. wf_header h \<Longrightarrow> parse_headers (encode_all hs) = Inr hs"
  by (simp add: parse_headers_def parse_all_encode_all)

lemma build_packet_length: "length (build_packet code fixed hs) = 3 + length fixed + length (encode_all hs)"
  by (simp add: build_packet_def Let_def pp_layout.length_enc)

lemma parse_request:
  assumes "wf_request r" shows "Request_parse (Request_to_bytes r) = Inr r"
proof -
  let ?code = "if rq_is_final r then rq_opcode r OR FINAL_BIT else rq_opcode r"
  let ?fixed = "(case rq_connect r of None \<Rightarrow> [] | Some c \<Rightarrow> ConnectFields_as_bytes c)
    @ (case rq_set_path r of None \<Rightarrow> [] | Some f \<Rightarrow> SetPathFields_as_bytes f)"
  have bytes: "Request_to_bytes r = build_packet ?code ?fixed (rq_headers r)"
    by (simp add: Request_to_bytes_def Let_def)
  have size: "3 + length ?fixed + length (encode_all (rq_headers r)) < 0x10000"
    using assms by (simp add: wf_request_def bytes build_packet_length)
  note split = split_build [OF size, of ?code]
  have opcode: "(if ?code = opcode_ABORT then opcode_ABORT else ?code AND NOT FINAL_BIT) = rq_opcode r"
    "(?code AND FINAL_BIT \<noteq> 0) = rq_is_final r"
    using assms opcode_bits [of "rq_opcode r"] unfolding wf_request_def by (auto split: if_splits)
  have headers: "parse_headers (encode_all (rq_headers r)) = Inr (rq_headers r)"
    using assms by (simp add: wf_request_def parse_headers_encode_all)
  have fields: "(if rq_opcode r = opcode_CONNECT then
      map_option (\<lambda>(f, rest). (Some f, None, rest)) (from_prefix 4 ConnectFields_of_bytes (?fixed @ encode_all (rq_headers r)))
    else if rq_opcode r = opcode_SETPATH then
      map_option (\<lambda>(f, rest). (None, Some f, rest)) (from_prefix 2 SetPathFields_of_bytes (?fixed @ encode_all (rq_headers r)))
    else Some (None, None, ?fixed @ encode_all (rq_headers r))) = Some (rq_connect r, rq_set_path r, encode_all (rq_headers r))"
    using assms by (auto simp: wf_request_def cf_layout.prefix_enc sp_layout.prefix_enc)
  show ?thesis
    unfolding Request_parse_def bytes split(1) split(2) sum.case prod.case opcode(1) Let_def fields opcode(2) option.case headers
    by simp
qed

text \<open>Every request the builders produce is read back: opcode, Final bit, fixed fields and headers.\<close>
theorem obex_request_round_trip:
  assumes "wf_request r"
  shows "Request_parse (Request_to_bytes r) = Inr r"
  using assms by (rule parse_request)

theorem obex_request_round_trip_witness:
  "Request_parse (Request_to_bytes (Request_connect 0x2000 [Count 2])) = Inr (Request_connect 0x2000 [Count 2])"
  by (rule obex_request_round_trip)
    (simp add: wf_request_def Request_connect_def wf_header_def Header_value_def Request_to_bytes_def build_packet_length
      ConnectFields_as_bytes_def encode_all_Cons encode_into_def encode_value_def Let_def)

lemma parse_status: "\<not> (b \<and> code = response_SUCCESS) \<Longrightarrow> Response_parse (Response_to_bytes (Response_status code)) b
    = Inr (Response_status code)"
  using split_build [of "[]" "[]" code]
  by (auto simp: Response_parse_def Response_to_bytes_def Response_status_def Let_def parse_headers_def parse_all.simps)

lemma status_fields [simp]: "rs_code (Response_status code) = code" "rs_connect (Response_status code) = None"
  by (simp_all add: Response_status_def)

lemma success_status: "Response_success [] = Response_status response_SUCCESS"
  by (simp add: Response_success_def Response_status_def)

section \<open>An object is pushed\<close>

text \<open>A client and a server exchange packets until the client has none left, or for at most \<open>n\<close> rounds.\<close>

fun obex_talk :: "nat \<Rightarrow> bytes \<Rightarrow> ObexClient \<Rightarrow> ObexServer \<Rightarrow> (ServerEvent \<times> ObexClient \<times> ObexServer) option" where
  "obex_talk 0 p c s = None"
| "obex_talk (Suc n) p c s =
     (let (response, event, s) = obex_handle_packet p s in
      case handle_response response c of
        (Inl _, _) \<Rightarrow> None
      | (Inr None, c) \<Rightarrow> Some (event, c, s)
      | (Inr (Some p), c) \<Rightarrow> obex_talk n p c s)"

text \<open>The server accepts requests without a session, or has one.\<close>

definition serves :: "ObexServer \<Rightarrow> bool" where
  "serves s = (os_policy s = SessionOptional \<or> os_connected s)"

lemma server_put:
  assumes "wf_request (Request_put fin hs)" "serves s"
  shows "obex_handle_packet (Request_to_bytes (Request_put fin hs)) s = on_put (Request_put fin hs) s"
proof -
  have "obex_handle_request (Request_put fin hs) s = on_put (Request_put fin hs) s"
    using assms(2) by (auto simp: obex_handle_request_def serves_def Request_put_def Request_simple_def)
  then show ?thesis by (simp add: obex_handle_packet_def parse_request [OF assms(1)])
qed

lemma wf_put:
  assumes "\<forall>h \<in> set hs. wf_header h" "3 + length (encode_all hs) < 0x10000"
  shows "wf_request (Request_put fin hs)"
  using assms by (simp add: wf_request_def Request_put_def Request_simple_def Request_to_bytes_def build_packet_length)

lemma chunk_header_size:
  assumes "6 + length chunk < 0x10000"
  shows "wf_header (Body chunk)" "wf_header (EndOfBody chunk)"
    "length (encode_all [Body chunk]) = 3 + length chunk" "length (encode_all [EndOfBody chunk]) = 3 + length chunk"
  using assms by (simp_all add: wf_header_def Header_value_def encode_all_Cons encode_into_def encode_value_def
      push_length_prefixed_def hp_layout.length_enc)

lemma client_response:
  assumes "\<not> oc_awaiting_connect c"
  shows "handle_response (Response_to_bytes Response_cont) c = map_prod Inr id (queue_pop c)"
    "handle_response (Response_to_bytes (Response_success [])) c
      = (Inr None, if oc_queued c \<noteq> [] then c\<lparr>oc_queued := [], oc_state := ClientFailed response_SUCCESS\<rparr>
         else c\<lparr>oc_state := ClientDone\<rparr>)"
proof -
  have same: "c\<lparr>oc_awaiting_connect := False\<rparr> = c" using assms by (cases c) simp
  show "handle_response (Response_to_bytes Response_cont) c = map_prod Inr id (queue_pop c)"
    using assms parse_status [of False response_CONTINUE] by (simp add: handle_response_def Response_cont_def Let_def same)
  show "handle_response (Response_to_bytes (Response_success [])) c
      = (Inr None, if oc_queued c \<noteq> [] then c\<lparr>oc_queued := [], oc_state := ClientFailed response_SUCCESS\<rparr>
         else c\<lparr>oc_state := ClientDone\<rparr>)"
    using assms parse_status [of False response_SUCCESS]
    by (simp add: handle_response_def success_status Let_def same)
qed

text \<open>One round for a packet that is not the last: its headers go into the object, and the client
  sends the next one.\<close>

lemma talk_continues:
  assumes "wf_request (Request_put False hs)" "serves s"
    and "put_headers (sl_max_object_bytes (os_limits s)) hs (case os_in_progress s of None \<Rightarrow> ReceivedObject_default | Some ob \<Rightarrow> ob) = Some ob"
    and "\<not> oc_awaiting_connect c" "oc_queued c = rev (q # qs)"
  shows "obex_talk (Suc n) (Request_to_bytes (Request_put False hs)) c s
    = obex_talk n q (c\<lparr>oc_queued := rev qs\<rparr>) (s\<lparr>os_in_progress := Some ob\<rparr>)"
proof -
  have "on_put (Request_put False hs) s = (Response_to_bytes Response_cont, Continued, s\<lparr>os_in_progress := Some ob\<rparr>)"
    using assms(3) by (simp add: on_put_def Request_put_def Request_simple_def Let_def)
  moreover have "queue_pop c = (Some q, c\<lparr>oc_queued := rev qs\<rparr>)" using assms(5) by (simp add: queue_pop_def)
  ultimately show ?thesis
    by (simp add: server_put [OF assms(1,2)] client_response(1) [OF assms(4)])
qed

lemma talk_ends:
  assumes "wf_request (Request_put True hs)" "serves s"
    and "put_headers (sl_max_object_bytes (os_limits s)) hs (case os_in_progress s of None \<Rightarrow> ReceivedObject_default | Some ob \<Rightarrow> ob) = Some ob"
    and "\<not> oc_awaiting_connect c" "oc_queued c = []"
  shows "obex_talk (Suc n) (Request_to_bytes (Request_put True hs)) c s
    = Some (ObjectReceived ob, c\<lparr>oc_state := ClientDone\<rparr>, s\<lparr>os_in_progress := None, os_completed := os_completed s @ [ob]\<rparr>)"
proof -
  have "on_put (Request_put True hs) s = (Response_to_bytes (Response_success []), ObjectReceived ob,
      s\<lparr>os_in_progress := None, os_completed := os_completed s @ [ob]\<rparr>)"
    using assms(3) by (simp add: on_put_def Request_put_def Request_simple_def Let_def)
  then show ?thesis
    by (simp add: server_put [OF assms(1,2)] client_response(2) [OF assms(4)] assms(5))
qed

lemma later_packets_nonempty: "later_packets cap rest \<noteq> []"
  by (subst later_packets.simps) simp

lemma later_packets_arrive:
  assumes "later_packets cap rest = q # qs" "oc_queued c = rev qs" "\<not> oc_awaiting_connect c"
    and "0 < cap" "6 + cap < 0x10000" "serves s" "os_in_progress s = Some ob"
    and "length (ro_body ob) + length rest \<le> sl_max_object_bytes (os_limits s)"
  shows "obex_talk (length (q # qs)) q c s
    = Some (ObjectReceived (ob\<lparr>ro_body := ro_body ob @ rest\<rparr>), c\<lparr>oc_queued := [], oc_state := ClientDone\<rparr>,
        s\<lparr>os_in_progress := None, os_completed := os_completed s @ [ob\<lparr>ro_body := ro_body ob @ rest\<rparr>]\<rparr>)"
  using assms
proof (induction rest arbitrary: q qs c s ob rule: measure_induct_rule [of length])
  case (less rest)
  show ?case
  proof (cases "cap < length rest")
    case True
    let ?chunk = "take cap rest"
    have q: "q = Request_to_bytes (Request_put False [Body ?chunk])" "qs = later_packets cap (drop cap rest)"
      using less.prems(1,4) True by (simp_all add: later_packets.simps [of cap rest])
    obtain q' qs' where qs: "later_packets cap (drop cap rest) = q' # qs'"
      using later_packets_nonempty by (meson neq_Nil_conv)
    have chunk: "length ?chunk = cap" using True by simp
    have wf: "wf_request (Request_put False [Body ?chunk])"
      using chunk_header_size [of ?chunk] less.prems(5) chunk by (intro wf_put) simp_all
    let ?ob = "ob\<lparr>ro_body := ro_body ob @ ?chunk\<rparr>"
    have put: "put_headers (sl_max_object_bytes (os_limits s)) [Body ?chunk] (case os_in_progress s of None \<Rightarrow> ReceivedObject_default | Some ob \<Rightarrow> ob) = Some ?ob"
      using less.prems(7,8) True by simp
    from less.prems(2) have queued: "oc_queued c = rev (q' # qs')" using q(2) qs by simp
    have shorter: "length (drop cap rest) < length rest" using less.prems(4) True by simp
    have "obex_talk (length (q' # qs')) q' (c\<lparr>oc_queued := rev qs'\<rparr>) (s\<lparr>os_in_progress := Some ?ob\<rparr>)
      = Some (ObjectReceived (?ob\<lparr>ro_body := ro_body ?ob @ drop cap rest\<rparr>), c\<lparr>oc_queued := [], oc_state := ClientDone\<rparr>,
          s\<lparr>os_in_progress := None, os_completed := os_completed s @ [?ob\<lparr>ro_body := ro_body ?ob @ drop cap rest\<rparr>]\<rparr>)"
      using less.IH [OF shorter qs, of "c\<lparr>oc_queued := rev qs'\<rparr>" "s\<lparr>os_in_progress := Some ?ob\<rparr>" ?ob] less.prems True
      by (simp add: serves_def)
    moreover have "obex_talk (length (q # qs)) q c s
      = obex_talk (length (q' # qs')) q' (c\<lparr>oc_queued := rev qs'\<rparr>) (s\<lparr>os_in_progress := Some ?ob\<rparr>)"
      using talk_continues [OF wf less.prems(6) put less.prems(3) queued, of "length (q' # qs')"] q qs by simp
    ultimately show ?thesis by simp
  next
    case False
    have q: "q = Request_to_bytes (Request_put True [EndOfBody rest])" "qs = []"
      using less.prems(1) False by (simp_all add: later_packets.simps [of cap rest])
    have wf: "wf_request (Request_put True [EndOfBody rest])"
      using chunk_header_size [of rest] less.prems(5) False by (intro wf_put) simp_all
    have put: "put_headers (sl_max_object_bytes (os_limits s)) [EndOfBody rest] (case os_in_progress s of None \<Rightarrow> ReceivedObject_default | Some ob \<Rightarrow> ob)
        = Some (ob\<lparr>ro_body := ro_body ob @ rest\<rparr>)"
      using less.prems(7,8) by simp
    have "oc_queued c = []" using less.prems(2) q(2) by simp
    from talk_ends [OF wf less.prems(6) put less.prems(3) this, of 0] this show ?thesis using q by simp
  qed
qed

lemma encode_all_append: "encode_all (hs @ hs') = encode_all hs @ encode_all hs'"
  by (induction hs) (simp_all add: encode_all_Cons)

lemma leading_len: "sum_list (map Header_encoded_len hs) = length (encode_all hs)"
  by (induction hs) (simp_all add: encode_all_Cons Header_encoded_len_def)

lemma leading_headers:
  assumes "\<forall>t. name = Some t \<longrightarrow> wf_text t" "length (encode_all (put_leading name mime body)) < 0x10000"
  shows "\<forall>h \<in> set (put_leading name mime body). wf_header h"
proof
  fix h assume h: "h \<in> set (put_leading name mime body)"
  then have "Header_encoded_len h \<le> sum_list (map Header_encoded_len (put_leading name mime body))"
    by (intro member_le_sum_list) auto
  then have "Header_encoded_len h < 0x10000" using assms(2) by (simp add: leading_len)
  then show "wf_header h"
    using h assms(1) by (auto simp: put_leading_def wf_header_def Header_value_def Header_encoded_len_def encode_into_def
        encode_value_def push_length_prefixed_def hp_layout.length_enc split: option.splits if_splits)
qed

lemma leading_collected:
  "put_headers limit (put_leading name mime body) ReceivedObject_default
    = Some \<lparr>ro_name = name, ro_mime_type = mime, ro_declared_length = Some (of_nat (length body)), ro_body = []\<rparr>"
  "length chunk \<le> limit \<Longrightarrow> put_headers limit (put_leading name mime body @ [Body chunk]) ReceivedObject_default
    = Some \<lparr>ro_name = name, ro_mime_type = mime, ro_declared_length = Some (of_nat (length body)), ro_body = chunk\<rparr>"
  "length chunk \<le> limit \<Longrightarrow> put_headers limit (put_leading name mime body @ [EndOfBody chunk]) ReceivedObject_default
    = Some \<lparr>ro_name = name, ro_mime_type = mime, ro_declared_length = Some (of_nat (length body)), ro_body = chunk\<rparr>"
  by (simp_all add: put_leading_def ReceivedObject_default_def split: option.splits)

lemma push_room:
  fixes max_packet_length :: u16
  assumes name: "\<forall>t. name = Some t \<longrightarrow> wf_text t"
    and room: "6 + length (encode_all (put_leading name mime body)) < unat max_packet_length"
  shows "unat max_packet_length - (3 + length (encode_all (put_leading name mime body)) + 3) + length (encode_all (put_leading name mime body)) + 6 < 0x10000"
    "unat max_packet_length < 0x10000" "\<forall>h \<in> set (put_leading name mime body). wf_header h"
proof -
  show b: "unat max_packet_length < 0x10000" using unat_u16_less [of max_packet_length] by linarith
  show "unat max_packet_length - (3 + length (encode_all (put_leading name mime body)) + 3) + length (encode_all (put_leading name mime body)) + 6 < 0x10000"
    using room b by linarith
  show "\<forall>h \<in> set (put_leading name mime body). wf_header h"
    by (rule leading_headers [OF name]) (use room b in linarith)
qed

text \<open>The object fits the first packet, or goes on in later ones.\<close>

lemma push_whole_body:
  assumes s: "serves s" "os_in_progress s = None" "length body \<le> sl_max_object_bytes (os_limits s)"
    and name: "\<forall>t. name = Some t \<longrightarrow> wf_text t"
    and room: "6 + length (encode_all (put_leading name mime body)) < unat max_packet_length"
    and whole: "length body \<le> unat max_packet_length - (3 + length (encode_all (put_leading name mime body)) + 3)"
  shows "\<exists>p c1 c2. client_put name mime body max_packet_length c = (p, c1)
    \<and> obex_talk (length (put_packets name mime body max_packet_length)) p c1 s
      = Some (ObjectReceived \<lparr>ro_name = name, ro_mime_type = mime, ro_declared_length = Some (of_nat (length body)), ro_body = body\<rparr>, c2,
          s\<lparr>os_completed := os_completed s
            @ [\<lparr>ro_name = name, ro_mime_type = mime, ro_declared_length = Some (of_nat (length body)), ro_body = body\<rparr>]\<rparr>)
    \<and> oc_state c2 = ClientDone"
proof -
  let ?lead = "put_leading name mime body"
  let ?len = "length (encode_all ?lead)"
  let ?first = "unat max_packet_length - (3 + ?len + 3)"
  let ?later = "unat max_packet_length - (3 + 3)"
  let ?ob = "\<lambda>bs. \<lparr>ro_name = name, ro_mime_type = mime, ro_declared_length = Some (of_nat (length body)), ro_body = bs\<rparr>"
  let ?c = "c\<lparr>oc_queued := [], oc_awaiting_connect := False, oc_state := Putting\<rparr>"
  have cap: "?first \<noteq> 0" "?later \<noteq> 0" "?later + 6 < 0x10000" using room push_room(2) [OF name room] by simp_all
  note bound = push_room(1) [OF name room] and lead = push_room(3) [OF name room]
  have same: "s\<lparr>os_in_progress := None\<rparr> = s" using s(2) by simp
  let ?p = "Request_to_bytes (Request_put True (?lead @ [EndOfBody body]))"
  have packets: "put_packets name mime body max_packet_length = [?p]"
    using whole cap by (simp add: put_packets_def leading_len Let_def)
  have put: "client_put name mime body max_packet_length c = (?p, ?c)"
    by (simp add: client_put_def packets queue_pop_def)
  have small: "6 + length body < 0x10000" "3 + length (encode_all (?lead @ [EndOfBody body])) < 0x10000"
    using whole bound chunk_header_size(4) [of body] unfolding encode_all_append length_append by linarith+
  have "wf_request (Request_put True (?lead @ [EndOfBody body]))"
    by (rule wf_put) (use lead chunk_header_size(2) [OF small(1)] small(2) in auto)
  from talk_ends [OF this s(1), of "?ob body" ?c 0] leading_collected(3) [OF s(3)] s(2) put packets show ?thesis
    by (simp add: same)
qed

lemma push_body_in_parts:
  assumes s: "serves s" "os_in_progress s = None" "length body \<le> sl_max_object_bytes (os_limits s)"
    and name: "\<forall>t. name = Some t \<longrightarrow> wf_text t"
    and room: "6 + length (encode_all (put_leading name mime body)) < unat max_packet_length"
    and parts: "\<not> length body \<le> unat max_packet_length - (3 + length (encode_all (put_leading name mime body)) + 3)"
  shows "\<exists>p c1 c2. client_put name mime body max_packet_length c = (p, c1)
    \<and> obex_talk (length (put_packets name mime body max_packet_length)) p c1 s
      = Some (ObjectReceived \<lparr>ro_name = name, ro_mime_type = mime, ro_declared_length = Some (of_nat (length body)), ro_body = body\<rparr>, c2,
          s\<lparr>os_completed := os_completed s
            @ [\<lparr>ro_name = name, ro_mime_type = mime, ro_declared_length = Some (of_nat (length body)), ro_body = body\<rparr>]\<rparr>)
    \<and> oc_state c2 = ClientDone"
proof -
  let ?lead = "put_leading name mime body"
  let ?len = "length (encode_all ?lead)"
  let ?first = "unat max_packet_length - (3 + ?len + 3)"
  let ?later = "unat max_packet_length - (3 + 3)"
  let ?ob = "\<lambda>bs. \<lparr>ro_name = name, ro_mime_type = mime, ro_declared_length = Some (of_nat (length body)), ro_body = bs\<rparr>"
  let ?c = "c\<lparr>oc_queued := [], oc_awaiting_connect := False, oc_state := Putting\<rparr>"
  have cap: "?first \<noteq> 0" "?later \<noteq> 0" "?later + 6 < 0x10000" using room push_room(2) [OF name room] by simp_all
  note bound = push_room(1) [OF name room] and lead = push_room(3) [OF name room]
  have same: "s\<lparr>os_in_progress := None\<rparr> = s" using s(2) by simp
  let ?p = "Request_to_bytes (Request_put False (?lead @ [Body (take ?first body)]))"
  obtain q qs where qs: "later_packets ?later (drop ?first body) = q # qs"
    using later_packets_nonempty by (meson neq_Nil_conv)
  have packets: "put_packets name mime body max_packet_length = ?p # q # qs"
    using parts cap qs by (simp add: put_packets_def leading_len Let_def)
  have put: "client_put name mime body max_packet_length c = (?p, ?c\<lparr>oc_queued := rev (q # qs)\<rparr>)"
    by (simp add: client_put_def packets queue_pop_def butlast_append)
  have chunk: "length (take ?first body) = ?first" using parts by simp
  have small: "6 + length (take ?first body) < 0x10000" "3 + length (encode_all (?lead @ [Body (take ?first body)])) < 0x10000"
    unfolding encode_all_append length_append
    using bound chunk chunk_header_size(3) [of "take ?first body"] by linarith+
  have wf: "wf_request (Request_put False (?lead @ [Body (take ?first body)]))"
    by (rule wf_put) (use lead chunk_header_size(1) [OF small(1)] small(2) in auto)
  have "length (take ?first body) \<le> sl_max_object_bytes (os_limits s)" using s(3) by simp
  note first = talk_continues [OF wf s(1), of "?ob (take ?first body)" "?c\<lparr>oc_queued := rev (q # qs)\<rparr>" q qs "length (q # qs)"]
    leading_collected(2) [OF this]
  have rest: "obex_talk (length (q # qs)) q (?c\<lparr>oc_queued := rev qs\<rparr>) (s\<lparr>os_in_progress := Some (?ob (take ?first body))\<rparr>)
    = Some (ObjectReceived (?ob body), ?c\<lparr>oc_queued := [], oc_state := ClientDone\<rparr>,
        s\<lparr>os_in_progress := None, os_completed := os_completed s @ [?ob body]\<rparr>)"
    using later_packets_arrive [OF qs, of "?c\<lparr>oc_queued := rev qs\<rparr>" "s\<lparr>os_in_progress := Some (?ob (take ?first body))\<rparr>"
        "?ob (take ?first body)"] cap(2) cap(3) s(1,3) by (simp add: serves_def add.commute)
  from first rest s(2) put packets show ?thesis by (simp add: same)
qed

text \<open>C16: A pushed object arrives complete: for every packet size that has room for the metadata and a byte
  of the body, and a server that accepts pushes without a connection, has no object in progress and
  whose limit the body does not exceed, the exchange ends with the server holding exactly the object
  that was pushed, its name, type and length included, and the client done.\<close>
theorem obex_push_arrives:
  assumes s: "serves s" "os_in_progress s = None" "length body \<le> sl_max_object_bytes (os_limits s)"
    and name: "\<forall>t. name = Some t \<longrightarrow> wf_text t"
    and room: "6 + length (encode_all (put_leading name mime body)) < unat max_packet_length"
  shows "\<exists>p c1 c2. client_put name mime body max_packet_length c = (p, c1)
    \<and> obex_talk (length (put_packets name mime body max_packet_length)) p c1 s
      = Some (ObjectReceived \<lparr>ro_name = name, ro_mime_type = mime, ro_declared_length = Some (of_nat (length body)), ro_body = body\<rparr>, c2,
          s\<lparr>os_completed := os_completed s
            @ [\<lparr>ro_name = name, ro_mime_type = mime, ro_declared_length = Some (of_nat (length body)), ro_body = body\<rparr>]\<rparr>)
    \<and> oc_state c2 = ClientDone"
  using push_whole_body [OF s name room] push_body_in_parts [OF s name room] by blast

theorem obex_push_arrives_witness:
  "\<exists>p c1 c2. client_put (Some [0x78]) None (replicate 500 7) 128 (ObexClient_new 0x2000) = (p, c1)
    \<and> obex_talk (length (put_packets (Some [0x78]) None (replicate 500 7) 128)) p c1 (object_push_server ServerLimits_default)
      = Some (ObjectReceived \<lparr>ro_name = Some [0x78], ro_mime_type = None, ro_declared_length = Some 500, ro_body = replicate 500 7\<rparr>, c2,
          (object_push_server ServerLimits_default)\<lparr>os_completed :=
            [\<lparr>ro_name = Some [0x78], ro_mime_type = None, ro_declared_length = Some 500, ro_body = replicate 500 7\<rparr>]\<rparr>)
    \<and> oc_state c2 = ClientDone"
proof -
  have "length (encode_all (put_leading (Some [0x78]) None (replicate 500 7))) = 12"
    by (simp add: put_leading_def encode_all_Cons encode_into_def encode_value_def Header_value_def push_length_prefixed_def
        hp_layout.length_enc encode_unicode_def encode_utf16_def utf16_units_def)
  then show ?thesis
    using obex_push_arrives [of "object_push_server ServerLimits_default" "replicate 500 7" "Some [0x78]" None 128 "ObexClient_new 0x2000"]
    by (simp add: serves_def object_push_server_def ObexServer_new_def ServerLimits_default_def wf_text_def)
qed

text \<open>C39: A packet size with no room for the body loses it: the client sends the metadata as a final PUT,
  and the server takes that for a complete, empty object.\<close>
theorem obex_small_packets_lose_body:
  assumes s: "serves s" "os_in_progress s = None"
    and name: "\<forall>t. name = Some t \<longrightarrow> wf_text t"
    and no_room: "unat max_packet_length \<le> 6 + length (encode_all (put_leading name mime body))"
    and fits: "3 + length (encode_all (put_leading name mime body)) < 0x10000"
  shows "\<exists>p c1 c2. client_put name mime body max_packet_length c = (p, c1)
    \<and> obex_talk 1 p c1 s
      = Some (ObjectReceived \<lparr>ro_name = name, ro_mime_type = mime, ro_declared_length = Some (of_nat (length body)), ro_body = []\<rparr>, c2,
          s\<lparr>os_completed := os_completed s
            @ [\<lparr>ro_name = name, ro_mime_type = mime, ro_declared_length = Some (of_nat (length body)), ro_body = []\<rparr>]\<rparr>)
    \<and> oc_state c2 = ClientDone"
proof -
  let ?lead = "put_leading name mime body"
  let ?p = "Request_to_bytes (Request_put True ?lead)"
  let ?c = "c\<lparr>oc_queued := [], oc_awaiting_connect := False, oc_state := Putting\<rparr>"
  have packets: "put_packets name mime body max_packet_length = [?p]"
    using no_room by (simp add: put_packets_def leading_len Let_def)
  have put: "client_put name mime body max_packet_length c = (?p, ?c)"
    by (simp add: client_put_def packets queue_pop_def)
  have "\<forall>h \<in> set ?lead. wf_header h" by (rule leading_headers [OF name]) (use fits in simp)
  from wf_put [OF this fits] have "wf_request (Request_put True ?lead)" .
  from talk_ends [OF this s(1), of _ ?c 0] leading_collected(1) s(2) put show ?thesis by simp
qed

theorem obex_small_packets_lose_body_witness:
  "\<exists>p c1 c2. client_put None None [1, 2, 3] 11 (ObexClient_new 0x2000) = (p, c1)
    \<and> obex_talk 1 p c1 (object_push_server ServerLimits_default)
      = Some (ObjectReceived \<lparr>ro_name = None, ro_mime_type = None, ro_declared_length = Some 3, ro_body = []\<rparr>, c2,
          (object_push_server ServerLimits_default)\<lparr>os_completed :=
            [\<lparr>ro_name = None, ro_mime_type = None, ro_declared_length = Some 3, ro_body = []\<rparr>]\<rparr>)
    \<and> oc_state c2 = ClientDone"
proof -
  have "length (encode_all (put_leading None None [1, 2, 3])) = 5"
    by (simp add: put_leading_def encode_all_Cons encode_into_def encode_value_def Header_value_def)
  then show ?thesis
    using obex_small_packets_lose_body [of "object_push_server ServerLimits_default" None 11 None "[1, 2, 3]" "ObexClient_new 0x2000"]
    by (simp add: serves_def object_push_server_def ObexServer_new_def)
qed

end
