(* ===== verification/Avctp.thy ===== *)
theory Avctp
  imports Big_Endian Byte_Table Classic_Channel
begin

text \<open>
  AVCTP (\<open>src/src/classic/avctp.rs\<close>): messages cut into packets, the assembler that joins them, and the
  protocol that routes them; what is sent arrives, and a command for a profile the peer does not have
  comes back as such.
\<close>

abbreviation (input) AVCTP_PSM :: u16 where "AVCTP_PSM \<equiv> 0x0017"
abbreviation (input) AVCTP_BROWSING_PSM :: u16 where "AVCTP_BROWSING_PSM \<equiv> 0x001B"

section \<open>Packets\<close>

datatype PacketType = PtSingle | PtStart | PtContinue | PtEnd

definition PacketType_from_bits :: "u8 \<Rightarrow> PacketType" where
  "PacketType_from_bits bits =
     (let b = bits AND 3 in if b = 0 then PtSingle else if b = 1 then PtStart else if b = 2 then PtContinue else PtEnd)"

definition PacketType_as_bits :: "PacketType \<Rightarrow> u8" where
  "PacketType_as_bits t = (case t of PtSingle \<Rightarrow> 0 | PtStart \<Rightarrow> 1 | PtContinue \<Rightarrow> 2 | PtEnd \<Rightarrow> 3)"

record AvctpMessage =
  am_transaction_label :: u8
  am_is_command :: bool
  am_ipid :: bool
  am_pid :: u16
  am_payload :: bytes

definition header_byte :: "u8 \<Rightarrow> PacketType \<Rightarrow> bool \<Rightarrow> bool \<Rightarrow> u8" where
  "header_byte transaction_label packet_type is_command ipid =
     push_bit 4 transaction_label OR push_bit 2 (PacketType_as_bits packet_type) OR push_bit 1 (of_bool (\<not> is_command))
       OR of_bool ipid"

text \<open>The packets behind the first: the loop over what remains of the payload.\<close>

function rest_packets :: "nat \<Rightarrow> (PacketType \<Rightarrow> u8) \<Rightarrow> bytes \<Rightarrow> bytes list" where
  "rest_packets rest_capacity header remaining =
     (if remaining = [] then []
      else
        let taken = min rest_capacity (length remaining);
            packet_type = (if taken = length remaining then PtEnd else PtContinue)
        in if taken = 0 then []
           else (header packet_type # take taken remaining) # rest_packets rest_capacity header (drop taken remaining))"
  by pat_completeness auto
termination by (relation "measure (\<lambda>(_, _, remaining). length remaining)") auto

declare rest_packets.simps [simp del]

definition write_message :: "u8 \<Rightarrow> bool \<Rightarrow> bool \<Rightarrow> u16 \<Rightarrow> bytes \<Rightarrow> u16 \<Rightarrow> bytes list" where
  "write_message transaction_label is_command ipid pid payload peer_mtu =
     (let mtu = unat (max peer_mtu 5);
          header = (\<lambda>t. header_byte transaction_label t is_command ipid)
      in if 3 + length payload \<le> mtu then [header PtSingle # be_octets 2 pid @ payload]
         else
           let first_capacity = mtu - 4;
               rest_capacity = mtu - 1;
               n = length payload - first_capacity;
               number_of_packets = min (1 + (n + rest_capacity - 1) div rest_capacity) 255
           in ([header PtStart, of_nat number_of_packets] @ be_octets 2 pid @ take first_capacity payload)
              # rest_packets rest_capacity header (drop first_capacity payload))"

section \<open>Assembler\<close>

record MessageAssembler =
  ma_in_progress :: bool
  ma_transaction_label :: u8
  ma_is_command :: bool
  ma_ipid :: bool
  ma_pid :: u16
  ma_payload :: bytes
  ma_number_of_packets :: u8
  ma_packets_received :: u8

definition MessageAssembler_new :: MessageAssembler where
  "MessageAssembler_new =
     \<lparr>ma_in_progress = False, ma_transaction_label = 0, ma_is_command = False, ma_ipid = False, ma_pid = 0, ma_payload = [],
      ma_number_of_packets = 0, ma_packets_received = 0\<rparr>"

text \<open>\<^verbatim>\<open>self.reset()\<close> puts the fresh assembler in place.\<close>

definition on_pdu :: "bytes \<Rightarrow> MessageAssembler \<Rightarrow> AvctpMessage option \<times> MessageAssembler" where
  "on_pdu pdu a =
     (let a = a\<lparr>ma_packets_received := (if ma_packets_received a = 255 then 255 else ma_packets_received a + 1)\<rparr> in
      case pdu of
        [] \<Rightarrow> (None, a)
      | first # _ \<Rightarrow>
          let transaction_label = drop_bit 4 first;
              packet_type = PacketType_from_bits (drop_bit 2 first);
              is_command = (drop_bit 1 first AND 1 = 0);
              ipid = (first AND 1 \<noteq> 0)
          in if is_command \<and> ipid then (None, MessageAssembler_new)
             else if packet_type = PtSingle then
               (if length pdu < 3 then (None, MessageAssembler_new)
                else (Some \<lparr>am_transaction_label = transaction_label, am_is_command = is_command, am_ipid = ipid,
                        am_pid = from_be (take 2 (drop 1 pdu)), am_payload = drop 3 pdu\<rparr>, MessageAssembler_new))
             else if packet_type = PtStart then
               (let a = MessageAssembler_new\<lparr>ma_packets_received := 1\<rparr> in
                if length pdu < 2 then (None, a)
                else
                  let a = a\<lparr>ma_number_of_packets := pdu ! 1\<rparr> in
                  if length pdu < 4 then (None, a)
                  else (None, a\<lparr>ma_in_progress := True, ma_transaction_label := transaction_label, ma_is_command := is_command,
                          ma_ipid := ipid, ma_pid := from_be (take 2 (drop 2 pdu)), ma_payload := drop 4 pdu\<rparr>))
             else if \<not> ma_in_progress a \<or> transaction_label \<noteq> ma_transaction_label a \<or> is_command \<noteq> ma_is_command a
               \<or> ma_number_of_packets a < ma_packets_received a then (None, MessageAssembler_new)
             else
               let a = a\<lparr>ma_payload := ma_payload a @ drop 1 pdu\<rparr> in
               if packet_type = PtContinue then (None, a)
               else if ma_packets_received a \<noteq> ma_number_of_packets a then (None, MessageAssembler_new)
               else (Some \<lparr>am_transaction_label = ma_transaction_label a, am_is_command = ma_is_command a, am_ipid = ma_ipid a,
                       am_pid = ma_pid a, am_payload = ma_payload a\<rparr>, MessageAssembler_new))"

section \<open>Protocol\<close>

datatype AvctpEvent = AvctpCommand u8 u16 bytes | AvctpResponse u8 u16 bytes | InvalidPid u8 u16

record AvctpProtocol =
  ap_peer_mtu :: u16
  ap_assembler :: MessageAssembler
  ap_registered_pids :: "u16 list"

definition AvctpProtocol_new :: "u16 \<Rightarrow> AvctpProtocol" where
  "AvctpProtocol_new peer_mtu = \<lparr>ap_peer_mtu = peer_mtu, ap_assembler = MessageAssembler_new, ap_registered_pids = []\<rparr>"

definition avctp_set_peer_mtu :: "u16 \<Rightarrow> AvctpProtocol \<Rightarrow> AvctpProtocol" where
  "avctp_set_peer_mtu peer_mtu p = p\<lparr>ap_peer_mtu := peer_mtu\<rparr>"

definition register_pid :: "u16 \<Rightarrow> AvctpProtocol \<Rightarrow> AvctpProtocol" where
  "register_pid pid p =
     (if pid \<in> set (ap_registered_pids p) then p else p\<lparr>ap_registered_pids := ap_registered_pids p @ [pid]\<rparr>)"

definition avctp_send_command :: "u8 \<Rightarrow> u16 \<Rightarrow> bytes \<Rightarrow> AvctpProtocol \<Rightarrow> bytes list" where
  "avctp_send_command transaction_label pid payload p = write_message transaction_label True False pid payload (ap_peer_mtu p)"

definition avctp_send_response :: "u8 \<Rightarrow> u16 \<Rightarrow> bytes \<Rightarrow> AvctpProtocol \<Rightarrow> bytes list" where
  "avctp_send_response transaction_label pid payload p = write_message transaction_label False False pid payload (ap_peer_mtu p)"

definition send_ipid_response :: "u8 \<Rightarrow> u16 \<Rightarrow> AvctpProtocol \<Rightarrow> bytes list" where
  "send_ipid_response transaction_label pid p = write_message transaction_label False True pid [] (ap_peer_mtu p)"

definition avctp_receive :: "bytes \<Rightarrow> AvctpProtocol \<Rightarrow> bytes list \<times> AvctpEvent list \<times> AvctpProtocol" where
  "avctp_receive pdu p =
     (let (message, a) = on_pdu pdu (ap_assembler p); p = p\<lparr>ap_assembler := a\<rparr> in
      case message of
        None \<Rightarrow> ([], [], p)
      | Some m \<Rightarrow>
          if am_is_command m then
            (if am_pid m \<notin> set (ap_registered_pids p) then (send_ipid_response (am_transaction_label m) (am_pid m) p, [], p)
             else ([], [AvctpCommand (am_transaction_label m) (am_pid m) (am_payload m)], p))
          else ([], [if am_ipid m then InvalidPid (am_transaction_label m) (am_pid m)
                     else AvctpResponse (am_transaction_label m) (am_pid m) (am_payload m)], p))"

definition register_control_server :: "ClassicChannelManager \<Rightarrow> unit result \<times> ClassicChannelManager" where
  "register_control_server manager = register_server manager AVCTP_PSM"

definition register_browsing_server :: "ClassicChannelManager \<Rightarrow> unit result \<times> ClassicChannelManager" where
  "register_browsing_server manager = register_server manager AVCTP_BROWSING_PSM"

definition connect_control_channel ::
  "ClassicChannelManager \<Rightarrow> u16 \<Rightarrow> (u16 \<times> ConnectionRequestHeader) result \<times> ClassicChannelManager" where
  "connect_control_channel manager mtu = Classic_connect manager (ClassicChannelSpec_with_mtu AVCTP_PSM mtu)"

definition connect_browsing_channel ::
  "ClassicChannelManager \<Rightarrow> u16 \<Rightarrow> (u16 \<times> ConnectionRequestHeader) result \<times> ClassicChannelManager" where
  "connect_browsing_channel manager mtu = Classic_connect manager (ClassicChannelSpec_with_mtu AVCTP_BROWSING_PSM mtu)"

section \<open>What is written is put together\<close>

lemma header_fields:
  assumes "take_bit 4 t = t"
  shows "drop_bit 4 (header_byte t p c i) = t" "PacketType_from_bits (drop_bit 2 (header_byte t p c i)) = p"
    "(drop_bit 1 (header_byte t p c i) AND 1 = 0) = c" "(header_byte t p c i AND 1 \<noteq> 0) = i"
proof -
  have "drop_bit 4 (push_bit 4 (take_bit 4 t) OR push_bit 2 (PacketType_as_bits p) OR push_bit 1 (of_bool (\<not> c)) OR of_bool i)
      = take_bit 4 t"
    by (cases p; cases c; cases i; simp only: PacketType_as_bits_def PacketType.case; rule u8_eqI; simp only: bit_simps o_apply; simp)
  then show "drop_bit 4 (header_byte t p c i) = t" unfolding header_byte_def using assms by simp
  have "drop_bit 2 (header_byte t p c i) AND 3 = PacketType_as_bits p"
    unfolding header_byte_def
    by (cases p; cases c; cases i; simp only: PacketType_as_bits_def PacketType.case; rule u8_eqI; simp only: bit_simps o_apply; simp)
  then show "PacketType_from_bits (drop_bit 2 (header_byte t p c i)) = p"
    by (cases p) (simp_all add: PacketType_from_bits_def PacketType_as_bits_def)
  have "drop_bit 1 (header_byte t p c i) AND 1 \<noteq> 0 \<longleftrightarrow> \<not> c"
    unfolding header_byte_def u8_low_bit
    by (cases p; cases c; cases i; simp only: PacketType_as_bits_def PacketType.case bit_simps o_apply; simp)
  then show "(drop_bit 1 (header_byte t p c i) AND 1 = 0) = c" by blast
  show "(header_byte t p c i AND 1 \<noteq> 0) = i"
    unfolding header_byte_def u8_low_bit
    by (cases p; cases c; cases i; simp only: PacketType_as_bits_def PacketType.case bit_simps o_apply; simp)
qed

fun assemble :: "bytes list \<Rightarrow> MessageAssembler \<Rightarrow> AvctpMessage list \<times> MessageAssembler" where
  "assemble [] a = ([], a)"
| "assemble (p # ps) a =
     (let (m, a) = on_pdu p a; (ms, a) = assemble ps a in (case m of None \<Rightarrow> ms | Some m \<Rightarrow> m # ms, a))"

lemma div_round_up: "0 < c \<Longrightarrow> c < n \<Longrightarrow> (n + c - 1) div c = Suc ((n - c + c - 1) div (c :: nat))"
proof -
  assume c: "0 < c" "c < n"
  then have "n + c - 1 = (n - c + c - 1) + c" by simp
  then show ?thesis using c(1) by (metis Suc_eq_plus1 div_add_self2 less_numeral_extra(3))
qed

lemma length_rest_packets:
  "0 < cap \<Longrightarrow> length (rest_packets cap h remaining) = (length remaining + cap - 1) div cap"
proof (induction cap h remaining rule: rest_packets.induct)
  case (1 cap h remaining)
  show ?case
  proof (cases "length remaining \<le> cap")
    case True
    have "(length remaining + cap - 1) div cap = 1" if "remaining \<noteq> []"
    proof (rule div_nat_eqI)
      have "1 \<le> length remaining" using that by (simp add: Suc_le_eq)
      then show "cap * 1 \<le> length remaining + cap - 1" by linarith
      show "length remaining + cap - 1 < cap * Suc 1" using True "1.prems" by simp
    qed
    then show ?thesis using True "1.prems"
      by (cases "remaining = []") (auto simp: rest_packets.simps [of cap h remaining] rest_packets.simps [of cap h "[]"] Let_def min_def
          dest: antisym)
  next
    case False
    then have "remaining \<noteq> []" by auto
    with False have "rest_packets cap h remaining = (h PtContinue # take cap remaining) # rest_packets cap h (drop cap remaining)"
      using "1.prems" by (subst rest_packets.simps) (simp add: Let_def)
    then show ?thesis
      using "1.IH" [of "min cap (length remaining)" PtContinue] "1.prems" False \<open>remaining \<noteq> []\<close> div_round_up [of cap "length remaining"] by simp
  qed
qed

text \<open>An assembler in the middle of a message that it takes to have \<open>n\<close> packets.\<close>

definition collecting :: "MessageAssembler \<Rightarrow> AvctpMessage \<Rightarrow> nat \<Rightarrow> nat \<Rightarrow> bool" where
  "collecting a m n received =
     (ma_in_progress a \<and> ma_transaction_label a = am_transaction_label m \<and> ma_is_command a = am_is_command m
      \<and> ma_ipid a = am_ipid m \<and> ma_pid a = am_pid m \<and> ma_payload a = am_payload m
      \<and> unat (ma_number_of_packets a) = n \<and> unat (ma_packets_received a) = received)"

lemma unat_next: "unat (w :: u8) < 255 \<Longrightarrow> (if w = 255 then 255 else w + 1) = w + 1 \<and> unat (w + 1) = unat w + 1"
  by (auto simp: unat_word_ariths)

lemma on_pdu_continue:
  assumes a: "collecting a m n received" "received < n" "received < 255"
    and m: "take_bit 4 (am_transaction_label m) = am_transaction_label m" "am_is_command m \<longrightarrow> \<not> am_ipid m"
    and pt: "pt \<in> {PtContinue, PtEnd}"
  shows "on_pdu (header_byte (am_transaction_label m) pt (am_is_command m) (am_ipid m) # chunk) a =
    (if pt = PtContinue then (None, a\<lparr>ma_packets_received := ma_packets_received a + 1, ma_payload := ma_payload a @ chunk\<rparr>)
     else if n = received + 1 then (Some (m\<lparr>am_payload := am_payload m @ chunk\<rparr>), MessageAssembler_new)
     else (None, MessageAssembler_new))"
proof -
  have rx: "unat (ma_packets_received a) = received" "unat (ma_number_of_packets a) = n" using a(1) by (simp_all add: collecting_def)
  note next_count = unat_next [of "ma_packets_received a"]
  have count: "(if ma_packets_received a = 255 then 255 else ma_packets_received a + 1) = ma_packets_received a + 1"
    "unat (ma_packets_received a + 1) = received + 1"
    using next_count a(3) rx(1) by simp_all
  have "\<not> ma_number_of_packets a < ma_packets_received a + 1"
    using count(2) rx(2) a(2) by (simp add: word_less_nat_alt)
  moreover have "ma_packets_received a + 1 \<noteq> ma_number_of_packets a \<longleftrightarrow> n \<noteq> received + 1"
    using count(2) rx(2) by (metis word_unat_eq_iff)
  moreover have "pt \<noteq> PtSingle" "pt \<noteq> PtStart" using pt by auto
  moreover have "\<not> (am_is_command m \<and> am_ipid m)" using m(2) by simp
  ultimately show ?thesis
    using a(1) pt unfolding on_pdu_def count(1) header_fields [OF m(1)] Let_def list.case
    by (cases m) (auto simp: collecting_def header_fields [OF m(1)])
qed

lemma assemble_rest:
  assumes "collecting a m n received" "remaining \<noteq> []" "0 < cap" "n < 256"
    and "received + length (rest_packets cap (\<lambda>t. header_byte (am_transaction_label m) t (am_is_command m) (am_ipid m)) remaining) = n"
    and "take_bit 4 (am_transaction_label m) = am_transaction_label m" "am_is_command m \<longrightarrow> \<not> am_ipid m"
  shows "assemble (rest_packets cap (\<lambda>t. header_byte (am_transaction_label m) t (am_is_command m) (am_ipid m)) remaining) a
    = ([m\<lparr>am_payload := am_payload m @ remaining\<rparr>], MessageAssembler_new)"
  using assms
proof (induction remaining arbitrary: a m received rule: measure_induct_rule [of length])
  case (less remaining)
  let ?h = "\<lambda>t. header_byte (am_transaction_label m) t (am_is_command m) (am_ipid m)"
  show ?case
  proof (cases "length remaining \<le> cap")
    case True
    then have packets: "rest_packets cap ?h remaining = [?h PtEnd # remaining]"
      using less.prems(2,3) by (simp add: rest_packets.simps [of cap ?h remaining] rest_packets.simps [of cap ?h "[]"] Let_def min_def)
    then have n: "n = received + 1" "received < 255" using less.prems(4,5) by simp_all
    show ?thesis
      unfolding packets
      using on_pdu_continue [OF less.prems(1) _ n(2) less.prems(6,7), of PtEnd remaining] n(1) by simp
  next
    case False
    let ?a = "a\<lparr>ma_packets_received := ma_packets_received a + 1, ma_payload := ma_payload a @ take cap remaining\<rparr>"
    let ?m = "m\<lparr>am_payload := am_payload m @ take cap remaining\<rparr>"
    have packets: "rest_packets cap ?h remaining = (?h PtContinue # take cap remaining) # rest_packets cap ?h (drop cap remaining)"
      using False less.prems(2,3) by (subst rest_packets.simps) (simp add: Let_def)
    have left: "drop cap remaining \<noteq> []" "length (drop cap remaining) < length remaining" using False less.prems(2,3) by auto
    then have "0 < length (rest_packets cap ?h (drop cap remaining))"
      using less.prems(3) by (subst rest_packets.simps) (simp add: Let_def)
    then have n: "received < n" "received < 255" "received + 1 < 256" using less.prems(4,5) packets by simp_all
    have "unat (ma_packets_received a + 1) = received + 1"
      using less.prems(1) unat_next [of "ma_packets_received a"] n(2) by (simp add: collecting_def)
    then have "collecting ?a ?m n (received + 1)" using less.prems(1) by (simp add: collecting_def)
    from less.IH [OF left(2) this left(1) less.prems(3,4)] less.prems(5-7) packets
    have "assemble (rest_packets cap ?h (drop cap remaining)) ?a = ([?m\<lparr>am_payload := am_payload ?m @ drop cap remaining\<rparr>], MessageAssembler_new)"
      by simp
    then show ?thesis
      unfolding packets
      using on_pdu_continue [OF less.prems(1) n(1,2) less.prems(6,7), of PtContinue "take cap remaining"] by simp
  qed
qed

text \<open>A message whose packets fit the one-byte count, with a label of four bits.\<close>

definition wf_message :: "AvctpMessage \<Rightarrow> u16 \<Rightarrow> bool" where
  "wf_message m peer_mtu =
     (take_bit 4 (am_transaction_label m) = am_transaction_label m \<and> (am_is_command m \<longrightarrow> \<not> am_ipid m)
      \<and> length (am_payload m) \<le> (unat (max peer_mtu 5) - 4) + 254 * (unat (max peer_mtu 5) - 1))"

lemma assemble_message:
  assumes "wf_message m peer_mtu"
  shows "assemble (write_message (am_transaction_label m) (am_is_command m) (am_ipid m) (am_pid m) (am_payload m) peer_mtu) a
    = ([m], MessageAssembler_new)"
proof -
  let ?h = "\<lambda>t. header_byte (am_transaction_label m) t (am_is_command m) (am_ipid m)"
  let ?mtu = "unat (max peer_mtu 5)"
  have label: "take_bit 4 (am_transaction_label m) = am_transaction_label m" "am_is_command m \<longrightarrow> \<not> am_ipid m"
    using assms by (simp_all add: wf_message_def)
  note fields = header_fields [OF label(1)]
  have "5 \<le> max peer_mtu 5" by simp
  then have mtu: "5 \<le> ?mtu" unfolding word_le_nat_alt by simp
  obtain x y where pid: "be_octets 2 (am_pid m) = [x, y]" "from_be [x, y] = am_pid m" using be_octets_2_list by blast
  show ?thesis
  proof (cases "3 + length (am_payload m) \<le> ?mtu")
    case True
    then have packets: "write_message (am_transaction_label m) (am_is_command m) (am_ipid m) (am_pid m) (am_payload m) peer_mtu
        = [?h PtSingle # be_octets 2 (am_pid m) @ am_payload m]"
      unfolding write_message_def Let_def by simp
    have "on_pdu (?h PtSingle # be_octets 2 (am_pid m) @ am_payload m) b = (Some m, MessageAssembler_new)" for b
      using label(2) pid(2) unfolding on_pdu_def Let_def list.case fields pid(1) by (cases m) auto
    then show ?thesis unfolding packets by simp
  next
    case False
    let ?first = "take (?mtu - 4) (am_payload m)" and ?rest = "drop (?mtu - 4) (am_payload m)"
    define N where "N = 1 + (length (am_payload m) - (?mtu - 4) + (?mtu - 1) - 1) div (?mtu - 1)"
    have rest: "length (rest_packets (?mtu - 1) ?h ?rest) = N - 1"
      using mtu unfolding N_def by (subst length_rest_packets) simp_all
    have "length (am_payload m) - (?mtu - 4) + (?mtu - 1) - 1 < 255 * (?mtu - 1)"
      using assms mtu unfolding wf_message_def by linarith
    then have n: "N \<le> 255" unfolding N_def using mtu by (simp add: less_mult_imp_div_less Suc_le_eq)
    have "0 < N" by (simp add: N_def)
    let ?start = "[?h PtStart, of_nat N] @ be_octets 2 (am_pid m) @ ?first"
    have packets: "write_message (am_transaction_label m) (am_is_command m) (am_ipid m) (am_pid m) (am_payload m) peer_mtu
        = ?start # rest_packets (?mtu - 1) ?h ?rest"
      using False n unfolding write_message_def Let_def N_def by (simp only: if_False min_absorb1)
    let ?a = "MessageAssembler_new\<lparr>ma_packets_received := 1, ma_number_of_packets := of_nat N, ma_in_progress := True,
        ma_transaction_label := am_transaction_label m, ma_is_command := am_is_command m, ma_ipid := am_ipid m,
        ma_pid := am_pid m, ma_payload := ?first\<rparr>"
    have first: "on_pdu ?start a = (None, ?a)"
      using label(2) pid(2) unfolding on_pdu_def Let_def append_Cons list.case fields pid(1)
      by (auto simp del: of_nat_add)
    let ?m = "m\<lparr>am_payload := ?first\<rparr>"
    have "collecting ?a ?m N 1" using n by (simp add: collecting_def unat_of_nat_u8)
    moreover have "?rest \<noteq> []" using False mtu by simp
    moreover have "0 < ?mtu - 1" "N < 256" "1 + length (rest_packets (?mtu - 1) ?h ?rest) = N" using mtu n \<open>0 < N\<close> rest by simp_all
    ultimately have "assemble (rest_packets (?mtu - 1) ?h ?rest) ?a = ([?m\<lparr>am_payload := ?first @ ?rest\<rparr>], MessageAssembler_new)"
      using assemble_rest [of ?a ?m N 1 ?rest "?mtu - 1"] label by simp
    then show ?thesis unfolding packets using first by simp
  qed
qed

text \<open>A message is put together from its packets, whatever the assembler held before and however small
  the peer's MTU: exactly one message comes out, at the last packet, and the assembler is fresh again.\<close>
theorem avctp_message_reassembled:
  assumes "wf_message m peer_mtu"
  shows "assemble (write_message (am_transaction_label m) (am_is_command m) (am_ipid m) (am_pid m) (am_payload m) peer_mtu) a
    = ([m], MessageAssembler_new)"
  using assms by (rule assemble_message)

theorem avctp_message_reassembled_witness:
  "assemble (write_message 7 True False 0x110E (replicate 100 1) 20) MessageAssembler_new
    = ([\<lparr>am_transaction_label = 7, am_is_command = True, am_ipid = False, am_pid = 0x110E, am_payload = replicate 100 1\<rparr>],
       MessageAssembler_new)"
proof -
  have "(max 20 5 :: u16) = 20" by (simp add: max_def)
  then have "wf_message \<lparr>am_transaction_label = 7, am_is_command = True, am_ipid = False, am_pid = 0x110E, am_payload = replicate 100 1\<rparr> 20"
    by (simp add: wf_message_def)
  from avctp_message_reassembled [OF this] show ?thesis by simp
qed

section \<open>Two protocols\<close>

fun avctp_deliver :: "bytes list \<Rightarrow> AvctpProtocol \<Rightarrow> bytes list \<times> AvctpEvent list \<times> AvctpProtocol" where
  "avctp_deliver [] p = ([], [], p)"
| "avctp_deliver (pdu # pdus) p =
     (let (out, events, p) = avctp_receive pdu p; (out', events', p) = avctp_deliver pdus p
      in (out @ out', events @ events', p))"

definition routed :: "AvctpMessage \<Rightarrow> AvctpProtocol \<Rightarrow> bytes list \<times> AvctpEvent list" where
  "routed m p =
     (if am_is_command m then
        (if am_pid m \<notin> set (ap_registered_pids p) then (send_ipid_response (am_transaction_label m) (am_pid m) p, [])
         else ([], [AvctpCommand (am_transaction_label m) (am_pid m) (am_payload m)]))
      else ([], [if am_ipid m then InvalidPid (am_transaction_label m) (am_pid m)
                 else AvctpResponse (am_transaction_label m) (am_pid m) (am_payload m)]))"

lemma routed_assembler [simp]: "routed m (p\<lparr>ap_assembler := a\<rparr>) = routed m p"
  by (simp add: routed_def send_ipid_response_def)

lemma deliver_routes:
  "assemble pdus (ap_assembler p) = (ms, a) \<Longrightarrow> avctp_deliver pdus p
    = (concat (map (\<lambda>m. fst (routed m p)) ms), concat (map (\<lambda>m. snd (routed m p)) ms), p\<lparr>ap_assembler := a\<rparr>)"
proof (induction pdus arbitrary: p ms)
  case (Cons pdu pdus)
  obtain m b where m: "on_pdu pdu (ap_assembler p) = (m, b)" by fastforce
  obtain ms' where ms': "assemble pdus b = (ms', a)" "ms = (case m of None \<Rightarrow> ms' | Some m \<Rightarrow> m # ms')"
    using Cons.prems m by (auto split: prod.splits)
  have "avctp_receive pdu p = (case m of None \<Rightarrow> ([], [], p\<lparr>ap_assembler := b\<rparr>)
      | Some m \<Rightarrow> (fst (routed m p), snd (routed m p), p\<lparr>ap_assembler := b\<rparr>))"
    using m by (auto simp: avctp_receive_def Let_def routed_def send_ipid_response_def split: option.splits)
  then show ?case
    using Cons.IH [of "p\<lparr>ap_assembler := b\<rparr>" ms'] ms' by (auto split: option.splits)
qed auto

lemma avctp_exchanged:
  assumes "take_bit 4 t = t" "length payload \<le> (unat (max (ap_peer_mtu a) 5) - 4) + 254 * (unat (max (ap_peer_mtu a) 5) - 1)"
  shows "pid \<in> set (ap_registered_pids b) \<Longrightarrow> avctp_deliver (avctp_send_command t pid payload a) b
      = ([], [AvctpCommand t pid payload], b\<lparr>ap_assembler := MessageAssembler_new\<rparr>)"
    and "avctp_deliver (avctp_send_response t pid payload a) b
      = ([], [AvctpResponse t pid payload], b\<lparr>ap_assembler := MessageAssembler_new\<rparr>)"
    and "pid \<notin> set (ap_registered_pids b) \<Longrightarrow> \<exists>answer. avctp_deliver (avctp_send_command t pid payload a) b
        = (answer, [], b\<lparr>ap_assembler := MessageAssembler_new\<rparr>)
      \<and> avctp_deliver answer a = ([], [InvalidPid t pid], a\<lparr>ap_assembler := MessageAssembler_new\<rparr>)"
proof -
  let ?m = "\<lambda>c. \<lparr>am_transaction_label = t, am_is_command = c, am_ipid = False, am_pid = pid, am_payload = payload\<rparr>"
  let ?i = "\<lparr>am_transaction_label = t, am_is_command = False, am_ipid = True, am_pid = pid, am_payload = []\<rparr>"
  have "wf_message (?m c) (ap_peer_mtu a)" "wf_message ?i mtu" for c mtu using assms by (simp_all add: wf_message_def)
  note sent = this [THEN assemble_message]
  have out: "avctp_deliver (write_message t c False pid payload (ap_peer_mtu a)) b
      = (fst (routed (?m c) b), snd (routed (?m c) b), b\<lparr>ap_assembler := MessageAssembler_new\<rparr>)" for c
    using deliver_routes [of _ b "[?m c]" MessageAssembler_new] sent(1) [of c "ap_assembler b"] by simp
  show "pid \<in> set (ap_registered_pids b) \<Longrightarrow> avctp_deliver (avctp_send_command t pid payload a) b
      = ([], [AvctpCommand t pid payload], b\<lparr>ap_assembler := MessageAssembler_new\<rparr>)"
    using out [of True] by (simp add: avctp_send_command_def routed_def)
  show "avctp_deliver (avctp_send_response t pid payload a) b
      = ([], [AvctpResponse t pid payload], b\<lparr>ap_assembler := MessageAssembler_new\<rparr>)"
    using out [of False] by (simp add: avctp_send_response_def routed_def)
  have "avctp_deliver (send_ipid_response t pid b) a = ([], [InvalidPid t pid], a\<lparr>ap_assembler := MessageAssembler_new\<rparr>)"
    using deliver_routes [of _ a "[?i]" MessageAssembler_new] sent(2) [of "ap_peer_mtu b" "ap_assembler a"]
    by (simp add: send_ipid_response_def routed_def)
  then show "pid \<notin> set (ap_registered_pids b) \<Longrightarrow> \<exists>answer. avctp_deliver (avctp_send_command t pid payload a) b
        = (answer, [], b\<lparr>ap_assembler := MessageAssembler_new\<rparr>)
      \<and> avctp_deliver answer a = ([], [InvalidPid t pid], a\<lparr>ap_assembler := MessageAssembler_new\<rparr>)"
    using out [of True] by (simp add: avctp_send_command_def routed_def)
qed

text \<open>C17: What one protocol sends, the other delivers: a command for a registered profile and any
  response arrive as one event with label, profile and payload intact; a command for a profile the
  peer does not serve is answered, and the answer tells the sender so.\<close>
theorem avctp_exchange:
  assumes "take_bit 4 t = t" "length payload \<le> (unat (max (ap_peer_mtu a) 5) - 4) + 254 * (unat (max (ap_peer_mtu a) 5) - 1)"
  shows "(pid \<in> set (ap_registered_pids b) \<longrightarrow> avctp_deliver (avctp_send_command t pid payload a) b
      = ([], [AvctpCommand t pid payload], b\<lparr>ap_assembler := MessageAssembler_new\<rparr>))
    \<and> avctp_deliver (avctp_send_response t pid payload a) b
      = ([], [AvctpResponse t pid payload], b\<lparr>ap_assembler := MessageAssembler_new\<rparr>)
    \<and> (pid \<notin> set (ap_registered_pids b) \<longrightarrow> (\<exists>answer. avctp_deliver (avctp_send_command t pid payload a) b
        = (answer, [], b\<lparr>ap_assembler := MessageAssembler_new\<rparr>)
      \<and> avctp_deliver answer a = ([], [InvalidPid t pid], a\<lparr>ap_assembler := MessageAssembler_new\<rparr>)))"
  using avctp_exchanged [OF assms] by blast

theorem avctp_exchange_witness:
  "avctp_deliver (avctp_send_command 7 0x110E (replicate 100 1) (AvctpProtocol_new 20)) (register_pid 0x110E (AvctpProtocol_new 48))
      = ([], [AvctpCommand 7 0x110E (replicate 100 1)], register_pid 0x110E (AvctpProtocol_new 48))
    \<and> (\<exists>answer. avctp_deliver (avctp_send_command 7 0x110E (replicate 100 1) (AvctpProtocol_new 20)) (AvctpProtocol_new 48)
        = (answer, [], AvctpProtocol_new 48)
      \<and> avctp_deliver answer (AvctpProtocol_new 20) = ([], [InvalidPid 7 0x110E], AvctpProtocol_new 20))"
proof -
  have "(max 20 5 :: u16) = 20" by (simp add: max_def)
  then show ?thesis
    using avctp_exchange [where t = 7 and payload = "replicate 100 1" and a = "AvctpProtocol_new 20" and pid = "0x110E" and b = "register_pid 0x110E (AvctpProtocol_new 48)"]
      avctp_exchange [where t = 7 and payload = "replicate 100 1" and a = "AvctpProtocol_new 20" and pid = "0x110E" and b = "AvctpProtocol_new 48"]
    by (simp add: AvctpProtocol_new_def register_pid_def)
qed

end
