(* ===== verification/Rtp.thy ===== *)
theory Rtp
  imports Big_Endian Byte_Table
begin

text \<open>
  RTP media packets (\<open>src/src/classic/rtp.rs\<close>): the header, the packet, SBC payloads, and that the frames
  a source packs into payloads come out of the sink's reassembler as they went in.
\<close>

abbreviation (input) RTP_VERSION :: u8 where "RTP_VERSION \<equiv> 2"
abbreviation (input) SBC_MAX_FRAMES_PER_PAYLOAD :: u8 where "SBC_MAX_FRAMES_PER_PAYLOAD \<equiv> 15"

section \<open>Media packets\<close>

record RtpHeader =
  rtp_flags :: u8
  rtp_marker_and_payload_type :: u8
  rtp_sequence_number :: u16
  rtp_timestamp :: u32
  rtp_ssrc :: u32

definition RtpHeader_as_bytes :: "RtpHeader \<Rightarrow> bytes" where
  "RtpHeader_as_bytes h =
     [rtp_flags h, rtp_marker_and_payload_type h] @ be_octets 2 (rtp_sequence_number h) @ be_octets 4 (rtp_timestamp h)
       @ be_octets 4 (rtp_ssrc h)"

definition RtpHeader_of_bytes :: "bytes \<Rightarrow> RtpHeader" where
  "RtpHeader_of_bytes bs =
     \<lparr>rtp_flags = bs ! 0, rtp_marker_and_payload_type = bs ! 1, rtp_sequence_number = from_be (take 2 (drop 2 bs)),
      rtp_timestamp = from_be (take 4 (drop 4 bs)), rtp_ssrc = from_be (drop 8 bs)\<rparr>"

lemma be_octets_of: "length bs = 2 \<Longrightarrow> be_octets 2 (from_be bs :: u16) = bs" "length bs = 4 \<Longrightarrow> be_octets 4 (from_be bs :: u32) = bs"
  using be_octets_from_be [of bs, where 'a = 16] be_octets_from_be [of bs, where 'a = 32]
  by (simp_all del: be_octets.simps)

interpretation rtp_layout: wire_layout 12 "\<lambda>_. True" RtpHeader_as_bytes RtpHeader_of_bytes
proof
  show "RtpHeader_of_bytes (RtpHeader_as_bytes x) = x" for x
    by (simp add: RtpHeader_as_bytes_def RtpHeader_of_bytes_def del: be_octets.simps)
  show "RtpHeader_as_bytes (RtpHeader_of_bytes bs) = bs" if bs: "length bs = 12" for bs
  proof -
    from bs obtain a b rest where r: "bs = a # b # rest" "length rest = 10" by (auto simp: list_of_length)
    have "rest = take 2 rest @ take 4 (drop 2 rest) @ drop 6 rest"
      using append_take_drop_id [of 2 rest] append_take_drop_id [of 4 "drop 2 rest"] by simp
    with r show ?thesis
      using be_octets_of(1) [of "take 2 rest"] be_octets_of(2) [of "take 4 (drop 2 rest)"] be_octets_of(2) [of "drop 6 rest"]
      by (simp add: RtpHeader_as_bytes_def RtpHeader_of_bytes_def del: be_octets.simps)
  qed
qed (simp_all add: RtpHeader_as_bytes_def)

definition RtpHeader_new :: "u16 \<Rightarrow> u32 \<Rightarrow> u32 \<Rightarrow> u8 \<Rightarrow> RtpHeader" where
  "RtpHeader_new sequence_number timestamp ssrc payload_type =
     \<lparr>rtp_flags = push_bit 6 RTP_VERSION, rtp_marker_and_payload_type = payload_type AND 0x7F,
      rtp_sequence_number = sequence_number, rtp_timestamp = timestamp, rtp_ssrc = ssrc\<rparr>"

definition rtp_version :: "RtpHeader \<Rightarrow> u8" where
  "rtp_version h = drop_bit 6 (rtp_flags h)"

definition rtp_padding :: "RtpHeader \<Rightarrow> bool" where
  "rtp_padding h = (rtp_flags h AND 0x20 \<noteq> 0)"

definition rtp_extension :: "RtpHeader \<Rightarrow> bool" where
  "rtp_extension h = (rtp_flags h AND 0x10 \<noteq> 0)"

definition csrc_count :: "RtpHeader \<Rightarrow> nat" where
  "csrc_count h = unat (rtp_flags h AND 0x0F)"

definition rtp_marker :: "RtpHeader \<Rightarrow> bool" where
  "rtp_marker h = (rtp_marker_and_payload_type h AND 0x80 \<noteq> 0)"

definition rtp_payload_type :: "RtpHeader \<Rightarrow> u8" where
  "rtp_payload_type h = rtp_marker_and_payload_type h AND 0x7F"

record MediaPacket =
  mp_sequence_number :: u16
  mp_timestamp :: u32
  mp_ssrc :: u32
  mp_payload_type :: u8
  mp_marker :: bool
  mp_payload :: bytes

datatype MediaPacketError = MediaTruncated | UnsupportedVersion u8 | BadPadding

definition MediaPacket_to_bytes :: "MediaPacket \<Rightarrow> bytes" where
  "MediaPacket_to_bytes p =
     (let out = RtpHeader_as_bytes (RtpHeader_new (mp_sequence_number p) (mp_timestamp p) (mp_ssrc p) (mp_payload_type p));
          out = (if mp_marker p then out[1 := out ! 1 OR 0x80] else out)
      in out @ mp_payload p)"

definition MediaPacket_parse :: "bytes \<Rightarrow> MediaPacketError + MediaPacket" where
  "MediaPacket_parse data =
     (case from_prefix 12 RtpHeader_of_bytes data of
        None \<Rightarrow> Inl MediaTruncated
      | Some (header, rest) \<Rightarrow>
          if rtp_version header \<noteq> RTP_VERSION then Inl (UnsupportedVersion (rtp_version header))
          else if length rest < csrc_count header * 4 then Inl MediaTruncated
          else
            let payload = drop (csrc_count header * 4) rest;
                pad = unat (List.last payload)
            in if rtp_padding header \<and> (payload = [] \<or> pad = 0 \<or> length payload < pad) then Inl BadPadding
               else Inr \<lparr>mp_sequence_number = rtp_sequence_number header, mp_timestamp = rtp_timestamp header,
                 mp_ssrc = rtp_ssrc header, mp_payload_type = rtp_payload_type header, mp_marker = rtp_marker header,
                 mp_payload = (if rtp_padding header then take (length payload - pad) payload else payload)\<rparr>)"

section \<open>SBC payloads\<close>

record SbcPayloadHeader =
  sbc_fragmented :: bool
  sbc_start :: bool
  sbc_last :: bool
  sbc_frame_count :: u8

definition SbcPayloadHeader_unfragmented :: "u8 \<Rightarrow> SbcPayloadHeader" where
  "SbcPayloadHeader_unfragmented frames =
     \<lparr>sbc_fragmented = False, sbc_start = False, sbc_last = False, sbc_frame_count = frames AND 0x0F\<rparr>"

definition SbcPayloadHeader_to_byte :: "SbcPayloadHeader \<Rightarrow> u8" where
  "SbcPayloadHeader_to_byte h =
     push_bit 7 (of_bool (sbc_fragmented h)) OR push_bit 6 (of_bool (sbc_start h)) OR push_bit 5 (of_bool (sbc_last h))
       OR (sbc_frame_count h AND 0x0F)"

definition SbcPayloadHeader_from_byte :: "u8 \<Rightarrow> SbcPayloadHeader" where
  "SbcPayloadHeader_from_byte b =
     \<lparr>sbc_fragmented = (b AND 0x80 \<noteq> 0), sbc_start = (b AND 0x40 \<noteq> 0), sbc_last = (b AND 0x20 \<noteq> 0), sbc_frame_count = b AND 0x0F\<rparr>"

record SbcPayload =
  sp_header :: SbcPayloadHeader
  sp_data :: bytes

definition SbcPayload_parse :: "bytes \<Rightarrow> SbcPayload option" where
  "SbcPayload_parse payload =
     (case payload of [] \<Rightarrow> None | first # rest \<Rightarrow> Some \<lparr>sp_header = SbcPayloadHeader_from_byte first, sp_data = rest\<rparr>)"

definition SbcPayload_unfragmented :: "bytes list \<Rightarrow> SbcPayload" where
  "SbcPayload_unfragmented frames =
     \<lparr>sp_header = SbcPayloadHeader_unfragmented (of_nat (length frames)), sp_data = concat frames\<rparr>"

definition SbcPayload_to_bytes :: "SbcPayload \<Rightarrow> bytes" where
  "SbcPayload_to_bytes p = SbcPayloadHeader_to_byte (sp_header p) # sp_data p"

record SbcReassembler =
  sr_partial :: bytes
  sr_in_progress :: bool

definition SbcReassembler_new :: SbcReassembler where
  "SbcReassembler_new = \<lparr>sr_partial = [], sr_in_progress = False\<rparr>"

definition is_reassembling :: "SbcReassembler \<Rightarrow> bool" where
  "is_reassembling r = sr_in_progress r"

definition sbc_reset :: "SbcReassembler \<Rightarrow> SbcReassembler" where
  "sbc_reset r = r\<lparr>sr_partial := [], sr_in_progress := False\<rparr>"

definition sbc_push :: "bytes \<Rightarrow> SbcReassembler \<Rightarrow> bytes option \<times> SbcReassembler" where
  "sbc_push payload r =
     (case SbcPayload_parse payload of
        None \<Rightarrow> (None, r)
      | Some parsed \<Rightarrow>
          if \<not> sbc_fragmented (sp_header parsed) then (Some (sp_data parsed), sbc_reset r)
          else if \<not> sbc_start (sp_header parsed) \<and> \<not> sr_in_progress r then (None, r)
          else
            let r = (if sbc_start (sp_header parsed) then \<lparr>sr_partial = [], sr_in_progress = True\<rparr> else r);
                r = r\<lparr>sr_partial := sr_partial r @ sp_data parsed\<rparr>
            in if sbc_last (sp_header parsed) then (Some (sr_partial r), \<lparr>sr_partial = [], sr_in_progress = False\<rparr>)
               else (None, r))"

text \<open>\<^verbatim>\<open>slice::chunks\<close> for a positive size, and the fragments of one frame: \<open>i\<close> counts the ones before.\<close>

function sbc_chunks :: "nat \<Rightarrow> bytes \<Rightarrow> bytes list" where
  "sbc_chunks n xs = (if xs = [] \<or> n = 0 then [] else take n xs # sbc_chunks n (drop n xs))"
  by pat_completeness auto
termination by (relation "measure (\<lambda>(_, xs). length xs)") auto

declare sbc_chunks.simps [simp del]

definition sbc_fragment :: "nat \<Rightarrow> nat \<Rightarrow> bytes \<Rightarrow> bytes" where
  "sbc_fragment n i chunk =
     SbcPayloadHeader_to_byte \<lparr>sbc_fragmented = True, sbc_start = (i = 0), sbc_last = (i = n - 1),
       sbc_frame_count = of_nat (min (n - i) 0x0F)\<rparr> # chunk"

definition sbc_fragments :: "nat \<Rightarrow> bytes \<Rightarrow> bytes list" where
  "sbc_fragments budget frame =
     (let chunks = sbc_chunks budget frame
      in map (\<lambda>(i, chunk). sbc_fragment (length chunks) i chunk) (enumerate 0 chunks))"

definition flush_batch :: "bytes list \<Rightarrow> bytes list" where
  "flush_batch batch = (if batch = [] then [] else [SbcPayload_to_bytes (SbcPayload_unfragmented batch)])"

text \<open>The loop over the frames, with the batch collected so far.\<close>

fun packetize_frames :: "nat \<Rightarrow> bytes list \<Rightarrow> bytes list \<Rightarrow> bytes list" where
  "packetize_frames budget [] batch = flush_batch batch"
| "packetize_frames budget (frame # frames) batch =
     (if budget < length frame then flush_batch batch @ sbc_fragments budget frame @ packetize_frames budget frames []
      else if (budget < length (concat batch) + length frame \<or> SBC_MAX_FRAMES_PER_PAYLOAD \<le> of_nat (length batch)) \<and> batch \<noteq> []
      then flush_batch batch @ packetize_frames budget frames [frame]
      else packetize_frames budget frames (batch @ [frame]))"

definition packetize_sbc :: "bytes list \<Rightarrow> nat \<Rightarrow> bytes list" where
  "packetize_sbc frames max_payload =
     (if max_payload = 0 \<or> max_payload - 1 = 0 then [] else packetize_frames (max_payload - 1) frames [])"

section \<open>Packets are read back\<close>

lemma media_bits:
  "drop_bit 6 (push_bit 6 RTP_VERSION) = RTP_VERSION" "push_bit 6 RTP_VERSION AND 0x20 = 0" "push_bit 6 RTP_VERSION AND 0x0F = 0"
  by simp_all

lemma payload_type_bits:
  fixes t :: u8
  shows "(t AND 0x7F) AND 0x7F = t AND 0x7F" "((t AND 0x7F) OR 0x80) AND 0x7F = t AND 0x7F"
    "(t AND 0x7F) AND 0x80 = 0" "((t AND 0x7F) OR 0x80) AND 0x80 \<noteq> 0"
proof -
  have m: "0x7F = (mask 7 :: u8)" "0x80 = (2 ^ 7 :: u8)" by (simp_all add: mask_eq_exp_minus_1)
  show "(t AND 0x7F) AND 0x7F = t AND 0x7F" by (simp add: and.assoc)
  show "((t AND 0x7F) OR 0x80) AND 0x7F = t AND 0x7F" unfolding m by (rule bit_word_eqI) (simp only: bit_simps, auto)
  have "\<not> bit (t AND mask 7) 7" by (simp only: bit_and_iff bit_mask_iff) simp
  then show "(t AND 0x7F) AND 0x80 = 0" unfolding m by (simp only: and_exp_eq_0_iff_not_bit simp_thms)
  have "bit ((t AND mask 7) OR 2 ^ 7) 7" by (simp only: bit_or_iff bit_exp_iff) simp
  then show "((t AND 0x7F) OR 0x80) AND 0x80 \<noteq> 0" unfolding m by (simp only: and_exp_eq_0_iff_not_bit simp_thms)
qed

lemma parse_media:
  assumes "mp_payload_type p AND 0x7F = mp_payload_type p"
  shows "MediaPacket_parse (MediaPacket_to_bytes p) = Inr p"
proof -
  let ?t = "if mp_marker p then mp_payload_type p OR 0x80 else mp_payload_type p"
  let ?h = "\<lparr>rtp_flags = push_bit 6 RTP_VERSION, rtp_marker_and_payload_type = ?t, rtp_sequence_number = mp_sequence_number p,
    rtp_timestamp = mp_timestamp p, rtp_ssrc = mp_ssrc p\<rparr>"
  have "MediaPacket_to_bytes p = RtpHeader_as_bytes ?h @ mp_payload p"
    using assms by (simp add: MediaPacket_to_bytes_def RtpHeader_new_def RtpHeader_as_bytes_def del: be_octets.simps)
  moreover have "?t AND 0x7F = mp_payload_type p" "?t AND 0x80 \<noteq> 0 \<longleftrightarrow> mp_marker p"
    using payload_type_bits [of "mp_payload_type p"] assms by auto
  ultimately show ?thesis
    by (simp add: MediaPacket_parse_def rtp_layout.prefix_enc rtp_version_def csrc_count_def rtp_padding_def
        rtp_payload_type_def rtp_marker_def Let_def)
qed

section \<open>Frames come out as they went in\<close>

lemma sbc_reset [simp]: "sbc_reset r = SbcReassembler_new"
  by (cases r) (simp add: sbc_reset_def SbcReassembler_new_def)

text \<open>A sink feeding the payloads to the reassembler in order, and the frame data it hands on.\<close>

fun sbc_receive :: "SbcReassembler \<Rightarrow> bytes list \<Rightarrow> bytes list \<times> SbcReassembler" where
  "sbc_receive r [] = ([], r)"
| "sbc_receive r (payload # payloads) =
     (let (done_data, r) = sbc_push payload r; (later, r) = sbc_receive r payloads in ((case done_data of None \<Rightarrow> later | Some d \<Rightarrow> d # later), r))"

lemma header_of_byte:
  assumes "sbc_frame_count h AND 0x0F = sbc_frame_count h"
  shows "SbcPayloadHeader_from_byte (SbcPayloadHeader_to_byte h) = h"
proof -
  have low: "(f AND 0x0F) AND 0x80 = 0" "(f AND 0x0F) AND 0x40 = 0" "(f AND 0x0F) AND 0x20 = 0" for f :: u8
    by (simp_all add: and.assoc)
  note high = low [of "sbc_frame_count h", unfolded assms]
  show ?thesis
    by (cases "sbc_fragmented h"; cases "sbc_start h"; cases "sbc_last h"; cases h)
       (use assms high in \<open>simp_all add: SbcPayloadHeader_from_byte_def SbcPayloadHeader_to_byte_def word_ao_dist\<close>)
qed

lemma push_whole:
  assumes "length batch < 16"
  shows "sbc_push (SbcPayload_to_bytes (SbcPayload_unfragmented batch)) r = (Some (concat batch), SbcReassembler_new)"
proof -
  have "(of_nat (length batch) :: u8) AND 0x0F = (of_nat (length batch) AND 0x0F) AND 0x0F" by (simp add: and.assoc)
  then have "SbcPayloadHeader_from_byte (SbcPayloadHeader_to_byte (sp_header (SbcPayload_unfragmented batch)))
      = sp_header (SbcPayload_unfragmented batch)"
    by (intro header_of_byte) (simp add: SbcPayload_unfragmented_def SbcPayloadHeader_unfragmented_def)
  then show ?thesis
    by (simp add: sbc_push_def SbcPayload_parse_def SbcPayload_to_bytes_def)
       (simp add: SbcPayload_unfragmented_def SbcPayloadHeader_unfragmented_def)
qed

lemma fragment_count: "(of_nat (min k 15) :: u8) AND 0x0F = of_nat (min k 15)"
proof -
  have "k' \<le> 15 \<Longrightarrow> (of_nat k' :: u8) AND 0x0F = of_nat k'" for k'
  proof -
    assume "k' \<le> 15"
    then have "k' \<in> set [0..<16]" by auto
    then show ?thesis by (auto simp: upt_rec)
  qed
  then show ?thesis by simp
qed

lemma push_fragment:
  "sbc_push (sbc_fragment n i chunk) r =
     (if i \<noteq> 0 \<and> \<not> sr_in_progress r then (None, r)
      else
        let p = (if i = 0 then chunk else sr_partial r @ chunk)
        in if i = n - 1 then (Some p, SbcReassembler_new) else (None, \<lparr>sr_partial = p, sr_in_progress = True\<rparr>))"
proof -
  let ?h = "\<lparr>sbc_fragmented = True, sbc_start = (i = 0), sbc_last = (i = n - 1), sbc_frame_count = of_nat (min (n - i) 0x0F)\<rparr>"
  have "SbcPayloadHeader_from_byte (SbcPayloadHeader_to_byte ?h) = ?h"
    by (rule header_of_byte) (use fragment_count [of "n - i"] in simp)
  then have "SbcPayload_parse (sbc_fragment n i chunk) = Some \<lparr>sp_header = ?h, sp_data = chunk\<rparr>"
    unfolding sbc_fragment_def SbcPayload_parse_def by simp
  then show ?thesis
    unfolding sbc_push_def by (cases r) (simp add: SbcReassembler_new_def Let_def)
qed

lemma receive_later_fragments:
  assumes "chunks \<noteq> []" "0 < i"
  shows "sbc_receive \<lparr>sr_partial = p, sr_in_progress = True\<rparr>
      (map (\<lambda>(j, chunk). sbc_fragment (i + length chunks) j chunk) (enumerate i chunks) @ rest)
    = (let (later, r) = sbc_receive SbcReassembler_new rest in ((p @ concat chunks) # later, r))"
  using assms
proof (induction chunks arbitrary: i p)
  case (Cons c cs)
  show ?case
  proof (cases "cs = []")
    case False
    then show ?thesis
      using Cons.IH [of "Suc i" "p @ c"] Cons.prems by (simp add: push_fragment Let_def)
  qed (use Cons.prems in \<open>simp add: push_fragment Let_def\<close>)
qed simp

lemma concat_sbc_chunks: "0 < n \<Longrightarrow> concat (sbc_chunks n xs) = xs \<and> (\<forall>c \<in> set (sbc_chunks n xs). length c \<le> n)"
proof (induction n xs rule: sbc_chunks.induct)
  case (1 n xs)
  then show ?case by (subst (1 2) sbc_chunks.simps) auto
qed

lemma receive_fragments:
  assumes "0 < budget" "frame \<noteq> []"
  shows "sbc_receive r (sbc_fragments budget frame @ rest)
    = (let (later, r) = sbc_receive SbcReassembler_new rest in (frame # later, r))"
proof -
  have whole: "concat (sbc_chunks budget frame) = frame" using concat_sbc_chunks [OF assms(1)] by simp
  then obtain c cs where cs: "sbc_chunks budget frame = c # cs" using assms by (cases "sbc_chunks budget frame") auto
  then have f: "c @ concat cs = frame" using whole by simp
  have fragments: "sbc_fragments budget frame
      = sbc_fragment (Suc (length cs)) 0 c # map (\<lambda>(j, chunk). sbc_fragment (1 + length cs) j chunk) (enumerate 1 cs)"
    by (simp add: sbc_fragments_def cs)
  show ?thesis
  proof (cases "cs = []")
    case False
    then show ?thesis
      using receive_later_fragments [of cs 1 c rest] f unfolding fragments by (simp add: push_fragment Let_def)
  qed (use f in \<open>simp add: fragments push_fragment Let_def\<close>)
qed

lemma receive_flush:
  assumes "length batch < 16"
  shows "sbc_receive SbcReassembler_new (flush_batch batch @ rest)
    = (let (later, r) = sbc_receive SbcReassembler_new rest in ((if batch = [] then [] else [concat batch]) @ later, r))"
  using assms by (simp add: flush_batch_def push_whole Let_def split_beta)

text \<open>What the sink hands on is the concatenation of groups of whole frames.\<close>

lemma receive_frames:
  assumes "0 < budget" "length batch < 16"
  shows "\<exists>groups. sbc_receive SbcReassembler_new (packetize_frames budget frames batch)
      = (map concat groups, SbcReassembler_new) \<and> concat groups = batch @ frames \<and> (\<forall>g \<in> set groups. g \<noteq> [] \<and> length g \<le> 15)"
  using assms
proof (induction budget frames batch rule: packetize_frames.induct)
  case (1 budget batch)
  then show ?case
    using receive_flush [of batch "[]"] by (intro exI [of _ "if batch = [] then [] else [batch]"]) simp
next
  case (2 budget frame frames batch)
  let ?g = "if batch = [] then [] else [batch]"
  consider (fragmented) "budget < length frame"
    | (flushed) "\<not> budget < length frame" "(budget < length (concat batch) + length frame \<or> SBC_MAX_FRAMES_PER_PAYLOAD \<le> of_nat (length batch)) \<and> batch \<noteq> []"
    | (packed) "\<not> budget < length frame" "\<not> ((budget < length (concat batch) + length frame \<or> SBC_MAX_FRAMES_PER_PAYLOAD \<le> of_nat (length batch)) \<and> batch \<noteq> [])"
    by blast
  then show ?case
  proof cases
    case fragmented
    then obtain groups where g: "sbc_receive SbcReassembler_new (packetize_frames budget frames []) = (map concat groups, SbcReassembler_new)"
      "concat groups = frames" "\<forall>g \<in> set groups. g \<noteq> [] \<and> length g \<le> 15" using "2.IH"(1) "2.prems" by auto
    have "frame \<noteq> []" using fragmented by auto
    then have "sbc_receive SbcReassembler_new (packetize_frames budget (frame # frames) batch)
        = (map concat (?g @ [frame] # groups), SbcReassembler_new)"
      using fragmented "2.prems" by (simp add: receive_flush receive_fragments g)
    then show ?thesis using g "2.prems" by (intro exI [of _ "?g @ [frame] # groups"]) auto
  next
    case flushed
    then obtain groups where g: "sbc_receive SbcReassembler_new (packetize_frames budget frames [frame]) = (map concat groups, SbcReassembler_new)"
      "concat groups = frame # frames" "\<forall>g \<in> set groups. g \<noteq> [] \<and> length g \<le> 15" using "2.IH"(2) "2.prems" by auto
    have "sbc_receive SbcReassembler_new (packetize_frames budget (frame # frames) batch)
        = (map concat (?g @ groups), SbcReassembler_new)"
      using flushed "2.prems" by (simp add: receive_flush g)
    then show ?thesis using g "2.prems" by (intro exI [of _ "?g @ groups"]) auto
  next
    case packed
    have short: "length (batch @ [frame]) < 16"
    proof (cases "batch = []")
      case False
      with packed(2) have "(of_nat (length batch) :: u8) < 15" by (simp add: not_le)
      moreover have "unat (of_nat (length batch) :: u8) = length batch"
        using "2.prems"(2) by (simp add: unat_of_nat)
      ultimately show ?thesis by (simp add: word_less_nat_alt)
    qed simp
    obtain groups where "sbc_receive SbcReassembler_new (packetize_frames budget frames (batch @ [frame])) = (map concat groups, SbcReassembler_new)"
      "concat groups = batch @ frame # frames" "\<forall>g \<in> set groups. g \<noteq> [] \<and> length g \<le> 15"
      using "2.IH"(3) packed short "2.prems" by auto
    then show ?thesis using packed by (intro exI [of _ groups]) (auto simp del: concat_append)
  qed
qed

lemma payload_lengths:
  assumes "length (concat batch) \<le> budget" "0 < budget"
  shows "payload \<in> set (packetize_frames budget frames batch) \<Longrightarrow> length payload \<le> Suc budget"
  using assms
proof (induction budget frames batch rule: packetize_frames.induct)
  case (1 budget batch)
  then show ?case by (auto simp: flush_batch_def SbcPayload_to_bytes_def SbcPayload_unfragmented_def split: if_splits)
next
  case (2 budget frame frames batch)
  have flush: "length p \<le> Suc budget" if "p \<in> set (flush_batch batch)" for p
    using that "2.prems" by (auto simp: flush_batch_def SbcPayload_to_bytes_def SbcPayload_unfragmented_def split: if_splits)
  have fragments: "length p \<le> Suc budget" if "p \<in> set (sbc_fragments budget frame)" for p
    using that concat_sbc_chunks [of budget frame] "2.prems"(3)
    by (auto simp: sbc_fragments_def sbc_fragment_def Let_def in_set_enumerate_eq)
  show ?case
    using 2 flush fragments by (auto split: if_splits)
qed

text \<open>C18: every media packet with a 7-bit payload type is read back field for field from its octets; and the payloads a
  source packs SBC frames into each fit the transport's limit and, fed to a fresh reassembler, come out as the same
  frames: in order, none lost, none split, in groups of at most 15.\<close>
theorem sbc_frames_arrive:
  assumes "mp_payload_type p AND 0x7F = mp_payload_type p" "2 \<le> max_payload"
  shows "MediaPacket_parse (MediaPacket_to_bytes p) = Inr p
    \<and> (\<forall>payload \<in> set (packetize_sbc frames max_payload). length payload \<le> max_payload)
    \<and> (\<exists>groups. sbc_receive SbcReassembler_new (packetize_sbc frames max_payload) = (map concat groups, SbcReassembler_new)
        \<and> concat groups = frames \<and> (\<forall>g \<in> set groups. g \<noteq> [] \<and> length g \<le> 15))"
  using parse_media [OF assms(1)] payload_lengths [of "[]" "max_payload - 1"] receive_frames [of "max_payload - 1" "[]" frames] assms(2)
  by (auto simp: packetize_sbc_def)

theorem sbc_frames_arrive_witness:
  "packetize_sbc [[1, 2], [3, 4, 5, 6, 7], [8], [9, 10]] 4
     = [[0x01, 1, 2], [0xC2, 3, 4, 5], [0xA1, 6, 7], [0x02, 8, 9, 10]]
   \<and> MediaPacket_parse (MediaPacket_to_bytes \<lparr>mp_sequence_number = 7, mp_timestamp = 320, mp_ssrc = 1, mp_payload_type = 96,
       mp_marker = True, mp_payload = [0x01, 1, 2]\<rparr>)
     = Inr \<lparr>mp_sequence_number = 7, mp_timestamp = 320, mp_ssrc = 1, mp_payload_type = 96, mp_marker = True,
         mp_payload = [0x01, 1, 2]\<rparr>
   \<and> (\<exists>groups. sbc_receive SbcReassembler_new (packetize_sbc [[1, 2], [3, 4, 5, 6, 7], [8], [9, 10]] 4)
        = (map concat groups, SbcReassembler_new) \<and> concat groups = [[1, 2], [3, 4, 5, 6, 7], [8], [9, 10]])"
proof -
  let ?p = "\<lparr>mp_sequence_number = 7, mp_timestamp = 320, mp_ssrc = 1, mp_payload_type = 96, mp_marker = True,
    mp_payload = [0x01, 1, 2]\<rparr>"
  have "packetize_sbc [[1, 2], [3, 4, 5, 6, 7], [8], [9, 10]] 4
      = [[0x01, 1, 2], [0xC2, 3, 4, 5], [0xA1, 6, 7], [0x02, 8, 9, 10]]"
    by (simp add: packetize_sbc_def flush_batch_def SbcPayload_to_bytes_def SbcPayload_unfragmented_def
      SbcPayloadHeader_unfragmented_def SbcPayloadHeader_to_byte_def sbc_fragments_def sbc_fragment_def sbc_chunks.simps word_le_nat_alt)
  moreover have payload_type: "mp_payload_type ?p AND 0x7F = mp_payload_type ?p" by simp
  have two: "(2 :: nat) \<le> 4" by simp
  note arrive = sbc_frames_arrive [OF payload_type two, of "[[1, 2], [3, 4, 5, 6, 7], [8], [9, 10]]"]
  then obtain groups where "sbc_receive SbcReassembler_new (packetize_sbc [[1, 2], [3, 4, 5, 6, 7], [8], [9, 10]] 4) = (map concat groups, SbcReassembler_new)"
    "concat groups = [[1, 2], [3, 4, 5, 6, 7], [8], [9, 10]]" by (elim conjE exE)
  moreover have "MediaPacket_parse (MediaPacket_to_bytes ?p) = Inr ?p" using arrive by (elim conjE)
  ultimately show ?thesis by (intro conjI exI [of _ groups]) assumption+
qed

end
