(* ===== verification/Rfcomm_Stream.thy ===== *)
theory Rfcomm_Stream
  imports Rfcomm_Mux
begin

text \<open>
  Two connected RFCOMM data connections and the frames between them: credits are conserved, the
  bytes arrive in order and complete, and the exchange never stalls.
\<close>

section \<open>What a frame carries\<close>

definition frame_data :: "RfcommFrame \<Rightarrow> bytes" where
  "frame_data f = (if rf_p_f f = 1 then tl (rf_information f) else rf_information f)"

definition frame_credits :: "RfcommFrame \<Rightarrow> nat" where
  "frame_credits f = (if rf_p_f f = 1 then unat (hd (rf_information f)) else 0)"

definition data_frames :: "RfcommFrame list \<Rightarrow> nat" where
  "data_frames fs = length (filter (\<lambda>f. frame_data f \<noteq> []) fs)"

definition frame_ok :: "RfcommFrame \<Rightarrow> bool" where
  "frame_ok f = (rf_information f \<noteq> [])"

lemma data_frames_simps [simp]:
  "data_frames [] = 0"
  "data_frames (f # fs) = (if frame_data f \<noteq> [] then 1 else 0) + data_frames fs"
  "data_frames (fs @ gs) = data_frames fs + data_frames gs"
  by (simp_all add: data_frames_def)

lemma frame_uih_simps [simp]:
  "frame_data (frame_uih c d (x # xs) 1) = xs" "frame_data (frame_uih c d ys 0) = ys"
  "frame_credits (frame_uih c d (x # xs) 1) = unat x" "frame_credits (frame_uih c d ys 0) = 0"
  "frame_ok (frame_uih c d ys p) = (ys \<noteq> [])"
  by (simp_all add: frame_data_def frame_credits_def frame_ok_def frame_uih_def RfcommFrame_new_def)

section \<open>One endpoint\<close>

text \<open>A connection with credit-based flow control and room for data beside a credit octet.\<close>

definition dlc_ok :: "Dlc \<Rightarrow> bool" where
  "dlc_ok d =
     (dlc_cfc d \<and> 2 \<le> dlc_mtu d \<and> dlc_rx_max_credits d = DEFAULT_MAX_CREDITS
      \<and> dlc_rx_credits_threshold d = DEFAULT_CREDIT_THRESHOLD \<and> dlc_rx_credits d \<le> DEFAULT_MAX_CREDITS)"

definition same_dlc :: "Dlc \<Rightarrow> Dlc \<Rightarrow> bool" where
  "same_dlc d d' = (d' = d\<lparr>dlc_tx_buffer := dlc_tx_buffer d', dlc_tx_credits := dlc_tx_credits d', dlc_rx_credits := dlc_rx_credits d'\<rparr>)"

lemma same_dlc_simps:
  assumes "same_dlc d d'"
  shows "dlc_cfc d' = dlc_cfc d" "dlc_mtu d' = dlc_mtu d" "dlc_rx_max_credits d' = dlc_rx_max_credits d"
    "dlc_rx_credits_threshold d' = dlc_rx_credits_threshold d" "dlc_dlci d' = dlc_dlci d" "dlc_c_r d' = dlc_c_r d"
    "dlc_state d' = dlc_state d"
  using assms by (cases d; cases d'; simp add: same_dlc_def)+

text \<open>The weight of frames: what their delivery is worth.\<close>

definition weight :: "RfcommFrame list \<Rightarrow> nat" where
  "weight fs = length fs + data_frames fs"

lemma weight_simps [simp]:
  "weight [] = 0" "weight (f # fs) = (if frame_data f \<noteq> [] then 2 else 1) + weight fs"
  "weight (fs @ gs) = weight fs + weight gs"
  by (simp_all add: weight_def)

lemma unat_u8_pred: "0 < w \<Longrightarrow> Suc (unat (w - 1)) = unat (w :: u8)"
  by (simp add: unat_minus_one word_gt_0 unat_gt_0)

definition uih_of :: "Dlc \<Rightarrow> RfcommFrame \<Rightarrow> bool" where
  "uih_of d f = (\<exists>chunk p. p \<in> {0, 1} \<and> f = frame_uih (dlc_c_r d) (dlc_dlci d) chunk p)"

lemma uih_of_frame [simp]: "uih_of d (frame_uih (dlc_c_r d) (dlc_dlci d) chunk 0)" "uih_of d (frame_uih (dlc_c_r d) (dlc_dlci d) chunk 1)"
  by (auto simp: uih_of_def)

lemma uih_of_cong: "dlc_c_r d' = dlc_c_r d \<Longrightarrow> dlc_dlci d' = dlc_dlci d \<Longrightarrow> uih_of d' = uih_of d"
  by (simp add: uih_of_def fun_eq_iff)

text \<open>What a run of the send loop does: it moves bytes from the buffer into frames, spends a credit
  on each of them, and stops only when it is out of bytes or out of credits.\<close>

definition tx_run :: "Dlc \<Rightarrow> RfcommFrame list \<Rightarrow> Dlc \<Rightarrow> bool" where
  "tx_run d fs d' =
     (concat (map frame_data fs) @ dlc_tx_buffer d' = dlc_tx_buffer d
      \<and> unat (dlc_tx_credits d') + data_frames fs = unat (dlc_tx_credits d)
      \<and> (\<forall>f \<in> set fs. frame_ok f \<and> uih_of d f)
      \<and> (dlc_tx_buffer d' \<noteq> [] \<longrightarrow> dlc_tx_credits d' = 0)
      \<and> same_dlc d d')"

lemma tx_credited_plain:
  assumes "tx_credited 0 d = (fs, d')" "0 < dlc_mtu d"
  shows "tx_run d fs d' \<and> dlc_rx_credits d' = dlc_rx_credits d \<and> sum_list (map frame_credits fs) = 0
    \<and> weight fs + 2 * length (dlc_tx_buffer d') \<le> 2 * length (dlc_tx_buffer d)"
  using assms
proof (induction "unat (dlc_tx_credits d)" arbitrary: d fs d')
  case 0
  then show ?case by (simp add: tx_credited.simps tx_run_def unat_eq_zero same_dlc_def)
next
  case (Suc n)
  then have pos: "0 < dlc_tx_credits d" by (simp add: word_gt_0 unat_gt_0 unat_eq_zero) (metis nat.distinct(1) unat_eq_zero)
  show ?case
  proof (cases "dlc_tx_buffer d = []")
    case True
    then show ?thesis using Suc.prems by (simp add: tx_credited.simps tx_run_def same_dlc_def)
  next
    case False
    let ?n = "min (dlc_mtu d) (length (dlc_tx_buffer d))"
    let ?d = "d\<lparr>dlc_tx_buffer := drop ?n (dlc_tx_buffer d), dlc_tx_credits := dlc_tx_credits d - 1\<rparr>"
    obtain gs e where rest: "tx_credited 0 ?d = (gs, e)" by fastforce
    have fs: "fs = frame_uih (dlc_c_r d) (dlc_dlci d) (take ?n (dlc_tx_buffer d)) 0 # gs" "d' = e"
      using Suc.prems(1) rest pos False by (auto simp: tx_credited.simps [of 0 d] Let_def)
    have "n = unat (dlc_tx_credits ?d)" using unat_u8_pred [OF pos] Suc.hyps(2) by simp
    from Suc.hyps(1) [OF this rest] Suc.prems(2)
    have IH: "tx_run ?d gs e" "dlc_rx_credits e = dlc_rx_credits d" "sum_list (map frame_credits gs) = 0"
        "weight gs + 2 * length (dlc_tx_buffer e) \<le> 2 * length (drop ?n (dlc_tx_buffer d))" by simp_all
    have "take ?n (dlc_tx_buffer d) \<noteq> []" "1 \<le> ?n" using False Suc.prems(2) by (auto simp: Suc_le_eq)
    moreover have "same_dlc d e" using IH(1) by (simp add: tx_run_def same_dlc_def)
    moreover have "uih_of ?d = uih_of d" by (rule uih_of_cong) simp_all
    ultimately show ?thesis
      using IH unat_u8_pred [OF pos] unfolding fs by (auto simp: tx_run_def)
  qed
qed

lemma tx_credited_refill:
  assumes "0 < needed" "spent \<longleftrightarrow> dlc_tx_buffer d \<noteq> [] \<and> 0 < dlc_tx_credits d"
    and "n = (if spent then min (dlc_mtu d - 1) (length (dlc_tx_buffer d)) else 0)"
    and "tx_credited 0 (d\<lparr>dlc_rx_credits := dlc_rx_credits d + needed, dlc_tx_buffer := drop n (dlc_tx_buffer d),
      dlc_tx_credits := dlc_tx_credits d - (if spent then 1 else 0)\<rparr>) = (gs, e)"
  shows "tx_credited needed d = (frame_uih (dlc_c_r d) (dlc_dlci d) (needed # take n (dlc_tx_buffer d)) 1 # gs, e)"
  unfolding tx_credited.simps [of needed d] Let_def
  using assms(3,4) by (cases spent) (simp_all only: assms(1) assms(2) [symmetric] simp_thms if_True if_False, simp_all)

lemma unat_numeral_32: "unat (32 :: u8) = 32"
  by simp

lemma taken_bytes: "a \<le> 2 * (l - n) \<Longrightarrow> 1 \<le> n \<Longrightarrow> n \<le> l \<Longrightarrow> a + 2 \<le> 2 * (l :: nat)"
  by linarith

lemma credit_sum: "(a :: u8) + (b - a) = b"
  by simp

lemma process_tx_run:
  assumes "process_tx d = Some (fs, d')" "dlc_ok d"
  shows "tx_run d fs d' \<and> dlc_ok d'
    \<and> unat (dlc_rx_credits d') = unat (dlc_rx_credits d) + sum_list (map frame_credits fs)
    \<and> 16 < dlc_rx_credits d'
    \<and> weight fs + 2 * length (dlc_tx_buffer d') + (if dlc_rx_credits d \<le> 16 then 1 else 0)
      + (32 - unat (dlc_rx_credits d')) \<le> 2 * length (dlc_tx_buffer d) + (32 - unat (dlc_rx_credits d))
    \<and> (dlc_rx_credits d \<le> 16 \<longrightarrow> fs \<noteq> [])"
proof (cases "dlc_rx_credits d \<le> 16")
  case False
  then have "tx_credited 0 d = (fs, d')"
    using assms by (simp add: process_tx_def rx_credits_needed_def dlc_ok_def)
  with tx_credited_plain [OF this] assms(2)
  have run: "tx_run d fs d'" "dlc_rx_credits d' = dlc_rx_credits d" "sum_list (map frame_credits fs) = 0"
    "weight fs + 2 * length (dlc_tx_buffer d') \<le> 2 * length (dlc_tx_buffer d)" by (simp_all add: dlc_ok_def)
  then have "same_dlc d d'" by (simp add: tx_run_def)
  from run assms(2) False same_dlc_simps [OF this] show ?thesis
    by (auto simp: dlc_ok_def)
next
  case True
  let ?needed = "32 - dlc_rx_credits d"
  have le: "dlc_rx_credits d \<le> 32" using assms(2) by (simp add: dlc_ok_def)
  have needed: "unat ?needed = 32 - unat (dlc_rx_credits d)" "dlc_rx_credits d + ?needed = 32"
    unfolding unat_sub [OF le] unat_numeral_32 by (rule refl) (rule credit_sum)
  have "unat (dlc_rx_credits d) \<le> 16" using True by (simp add: word_le_nat_alt)
  with needed(1) have "0 < unat ?needed" by linarith
  then have pos: "0 < ?needed" by (simp only: unat_gt_0 word_neq_0_conv)
  let ?spent = "dlc_tx_buffer d \<noteq> [] \<and> 0 < dlc_tx_credits d"
  let ?n = "if ?spent then min (dlc_mtu d - 1) (length (dlc_tx_buffer d)) else 0"
  let ?chunk = "take ?n (dlc_tx_buffer d)"
  let ?d = "d\<lparr>dlc_rx_credits := 32, dlc_tx_buffer := drop ?n (dlc_tx_buffer d),
      dlc_tx_credits := dlc_tx_credits d - (if ?spent then 1 else 0)\<rparr>"
  obtain gs e where rest: "tx_credited 0 ?d = (gs, e)" by fastforce
  have "tx_credited ?needed d = (frame_uih (dlc_c_r d) (dlc_dlci d) (?needed # ?chunk) 1 # gs, e)"
    by (rule tx_credited_refill [OF pos refl refl]) (use rest needed(2) in simp)
  moreover have "process_tx d = Some (tx_credited ?needed d)"
    using assms(2) True by (simp add: process_tx_def rx_credits_needed_def dlc_ok_def)
  ultimately have fs: "fs = frame_uih (dlc_c_r d) (dlc_dlci d) (?needed # ?chunk) 1 # gs" "d' = e"
    using assms(1) by simp_all
  have "0 < dlc_mtu ?d" using assms(2) by (simp add: dlc_ok_def)
  from tx_credited_plain [OF rest this]
  have IH: "tx_run ?d gs e" "dlc_rx_credits e = 32" "sum_list (map frame_credits gs) = 0"
      "weight gs + 2 * length (dlc_tx_buffer e) \<le> 2 * length (drop ?n (dlc_tx_buffer d))" by simp_all
  have spent: "?chunk \<noteq> [] \<longleftrightarrow> ?spent" using assms(2) by (auto simp: dlc_ok_def)
  have same: "same_dlc d e" using IH(1) by (simp add: tx_run_def same_dlc_def)
  have chunk: "unat (dlc_tx_credits ?d) + (if ?chunk \<noteq> [] then 1 else 0) = unat (dlc_tx_credits d)"
    using spent unat_u8_pred [of "dlc_tx_credits d"] by auto
  have "uih_of ?d = uih_of d" by (rule uih_of_cong) simp_all
  then have run: "tx_run d fs d'"
    using IH(1) same chunk unfolding fs by (auto simp: tx_run_def)
  have w: "weight fs + 2 * length (dlc_tx_buffer d') \<le> 2 * length (dlc_tx_buffer d) + 1"
  proof (cases "?spent")
    case True
    then have "1 \<le> ?n" using assms(2) by (auto simp: dlc_ok_def Suc_le_eq)
    then have "weight gs + 2 * length (dlc_tx_buffer e) + 2 \<le> 2 * length (dlc_tx_buffer d)"
      using IH(4) by (intro taken_bytes [of _ _ ?n]) simp_all
    then show ?thesis unfolding fs by simp
  next
    case False
    then show ?thesis using IH(4) unfolding fs by auto
  qed
  have rx: "dlc_rx_credits d' = 32" "fs \<noteq> []" using IH(2) fs by simp_all
  have credits: "sum_list (map frame_credits fs) = 32 - unat (dlc_rx_credits d)"
    unfolding fs(1) using IH(3) needed(1) by simp
  have "dlc_ok d'"
    using assms(2) same_dlc_simps [OF same] rx fs(2) by (simp add: dlc_ok_def)
  moreover have "weight fs + 2 * length (dlc_tx_buffer d') + 1 + (32 - unat (dlc_rx_credits d'))
      \<le> 2 * length (dlc_tx_buffer d) + (32 - unat (dlc_rx_credits d))"
    using w \<open>unat (dlc_rx_credits d) \<le> 16\<close> rx(1) by simp
  ultimately show ?thesis
    using run credits rx True \<open>unat (dlc_rx_credits d) \<le> 16\<close> by simp
qed

text \<open>Receiving: the data are handed over, the credits are added, and what the credits now allow is
  sent.\<close>

lemma dlc_receive_run:
  assumes "dlc_receive f d = Some (data, fs, d')" "dlc_ok d" "frame_ok f"
    and "unat (dlc_tx_credits d) + frame_credits f \<le> 255" "frame_data f \<noteq> [] \<longrightarrow> 0 < dlc_rx_credits d"
  shows "data = frame_data f \<and> (\<exists>d1. tx_run d1 fs d' \<and> dlc_tx_buffer d1 = dlc_tx_buffer d
      \<and> unat (dlc_tx_credits d1) = unat (dlc_tx_credits d) + frame_credits f)
    \<and> dlc_ok d' \<and> (\<forall>g \<in> set fs. uih_of d g) \<and> dlc_dlci d' = dlc_dlci d \<and> dlc_c_r d' = dlc_c_r d \<and> dlc_state d' = dlc_state d
    \<and> unat (dlc_rx_credits d') + (if frame_data f \<noteq> [] then 1 else 0)
        = unat (dlc_rx_credits d) + sum_list (map frame_credits fs)
    \<and> 16 < dlc_rx_credits d'
    \<and> weight fs + 2 * length (dlc_tx_buffer d') + (32 - unat (dlc_rx_credits d'))
        < weight [f] + 2 * length (dlc_tx_buffer d) + (32 - unat (dlc_rx_credits d))"
proof -
  let ?tx = "if rf_p_f f = 1 then dlc_tx_credits d + hd (rf_information f) else dlc_tx_credits d"
  let ?rx = "if frame_data f \<noteq> [] then dlc_rx_credits d - 1 else dlc_rx_credits d"
  let ?d = "d\<lparr>dlc_tx_credits := ?tx, dlc_rx_credits := ?rx\<rparr>"
  have cfc: "dlc_cfc d" using assms(2) by (simp add: dlc_ok_def)
  obtain x xs where info: "rf_information f = x # xs" using assms(3) by (auto simp: frame_ok_def neq_Nil_conv)
  have data: "(if dlc_cfc d \<and> rf_p_f f = 1 then tl (rf_information f) else rf_information f) = frame_data f"
    using cfc by (simp add: frame_data_def)
  have "process_tx ?d = Some (fs, d')" "data = frame_data f"
    using assms(1,4,5) cfc info unfolding dlc_receive_def Let_def data
    by (auto simp: frame_credits_def word_gt_0 split: if_splits)
  moreover have tx: "unat ?tx = unat (dlc_tx_credits d) + frame_credits f"
    using assms(4) by (auto simp: frame_credits_def unat_word_ariths)
  moreover have rx: "unat ?rx + (if frame_data f \<noteq> [] then 1 else 0) = unat (dlc_rx_credits d)"
    using assms(5) unat_u8_pred [of "dlc_rx_credits d"] by auto
  moreover have "dlc_ok ?d"
    using assms(2) rx by (auto simp: dlc_ok_def word_le_nat_alt split: if_splits)
  moreover have "unat (dlc_rx_credits d) \<le> 32" using assms(2) by (simp add: dlc_ok_def word_le_nat_alt)
  moreover have "uih_of ?d = uih_of d" by (rule uih_of_cong) simp_all
  moreover have "same_dlc ?d d' \<Longrightarrow> dlc_dlci d' = dlc_dlci d \<and> dlc_c_r d' = dlc_c_r d \<and> dlc_state d' = dlc_state d"
    using same_dlc_simps [of ?d d'] by simp
  ultimately show ?thesis
    using process_tx_run [of ?d fs d']
    by (auto simp: tx_run_def intro!: exI [of _ ?d] split: if_splits)
qed

section \<open>Two endpoints\<close>

text \<open>The ends are \<open>True\<close> and \<open>False\<close>; \<open>wire l e\<close> are the frames end \<open>e\<close> has sent and the other end has
  not received. \<open>written\<close> and \<open>got\<close> are the bytes each application has written and received so far.\<close>

record rf_link =
  ends :: "bool \<Rightarrow> Dlc"
  wire :: "bool \<Rightarrow> RfcommFrame list"
  written :: "bool \<Rightarrow> bytes"
  got :: "bool \<Rightarrow> bytes"

inductive rf_deliver :: "rf_link \<Rightarrow> rf_link \<Rightarrow> bool" where
  "wire l (\<not> e) = f # rest \<Longrightarrow> dlc_receive f (ends l e) = Some (data, fs, d) \<Longrightarrow>
   rf_deliver l (l\<lparr>ends := (ends l)(e := d), wire := (wire l)((\<not> e) := rest, e := wire l e @ fs),
     got := (got l)(e := got l e @ data)\<rparr>)"

inductive rf_step :: "rf_link \<Rightarrow> rf_link \<Rightarrow> bool" where
  deliver: "rf_deliver l l' \<Longrightarrow> rf_step l l'"
| send: "process_tx (dlc_queue data (ends l e)) = Some (fs, d) \<Longrightarrow>
   rf_step l (l\<lparr>ends := (ends l)(e := d), wire := (wire l)(e := wire l e @ fs),
     written := (written l)(e := written l e @ data)\<rparr>)"

text \<open>A link that has just been opened: each end may send what the other has granted.\<close>

definition rf_opened :: "rf_link \<Rightarrow> bool" where
  "rf_opened l =
     (\<forall>e. dlc_ok (ends l e) \<and> dlc_tx_buffer (ends l e) = [] \<and> dlc_rx_credits (ends l e) \<le> MAX_INITIAL_CREDITS
        \<and> dlc_tx_credits (ends l e) = dlc_rx_credits (ends l (\<not> e)) \<and> wire l e = [] \<and> written l e = [] \<and> got l e = [])"

inductive rf_reachable :: "rf_link \<Rightarrow> bool" where
  opened: "rf_opened l \<Longrightarrow> rf_reachable l"
| step: "rf_reachable l \<Longrightarrow> rf_step l l' \<Longrightarrow> rf_reachable l'"

definition wire_credits :: "RfcommFrame list \<Rightarrow> nat" where
  "wire_credits fs = sum_list (map frame_credits fs)"

lemma wire_credits_simps [simp]:
  "wire_credits [] = 0" "wire_credits (f # fs) = frame_credits f + wire_credits fs"
  "wire_credits (fs @ gs) = wire_credits fs + wire_credits gs"
  by (simp_all add: wire_credits_def)

text \<open>The invariant: the stream is written = received, then on the wire, then buffered; a sender's
  credits, the data frames under way and the credits under way to it add up to what its peer has
  granted; and who still has bytes to send has no credits, but has granted some.\<close>

definition stream_inv :: "rf_link \<Rightarrow> bool \<Rightarrow> bool" where
  "stream_inv l e = (written l e = got l (\<not> e) @ concat (map frame_data (wire l e)) @ dlc_tx_buffer (ends l e))"

definition credit_inv :: "rf_link \<Rightarrow> bool \<Rightarrow> bool" where
  "credit_inv l e =
     (unat (dlc_tx_credits (ends l e)) + data_frames (wire l e) + wire_credits (wire l (\<not> e))
        = unat (dlc_rx_credits (ends l (\<not> e))))"

definition end_inv :: "rf_link \<Rightarrow> bool \<Rightarrow> bool" where
  "end_inv l e =
     (dlc_ok (ends l e) \<and> (\<forall>f \<in> set (wire l e). frame_ok f)
      \<and> (dlc_tx_buffer (ends l e) \<noteq> [] \<longrightarrow> dlc_tx_credits (ends l e) = 0 \<and> 16 < dlc_rx_credits (ends l e))
      \<and> (wire l e \<noteq> [] \<longrightarrow> 16 < dlc_rx_credits (ends l e))
      \<and> (16 < dlc_rx_credits (ends l e) \<longrightarrow> 16 < dlc_rx_credits (ends l (\<not> e)) \<or> wire l e \<noteq> []))"

definition rf_inv :: "rf_link \<Rightarrow> bool" where
  "rf_inv l = (\<forall>e. stream_inv l e \<and> credit_inv l e \<and> end_inv l e)"

lemma rf_inv_opened:
  assumes "rf_opened l" shows "rf_inv l"
  unfolding rf_inv_def
proof
  fix e
  have "dlc_rx_credits (ends l e) \<le> 7" using assms by (simp add: rf_opened_def)
  then have "\<not> 16 < dlc_rx_credits (ends l e)" by (simp add: word_less_nat_alt word_le_nat_alt)
  then show "stream_inv l e \<and> credit_inv l e \<and> end_inv l e"
    using assms by (simp add: rf_opened_def stream_inv_def credit_inv_def end_inv_def)
qed

lemma rf_inv_at: "rf_inv l \<Longrightarrow> stream_inv l e \<and> credit_inv l e \<and> end_inv l e"
  by (simp add: rf_inv_def)

lemma all_ends: "(\<forall>x. P x) \<longleftrightarrow> P (e :: bool) \<and> P (\<not> e)"
  by (cases e) (auto simp: all_bool_eq)

lemma rf_inv_write:
  assumes inv: "rf_inv l" and tx: "process_tx (dlc_queue data (ends l e)) = Some (fs, d)"
  shows "rf_inv (l\<lparr>ends := (ends l)(e := d), wire := (wire l)(e := wire l e @ fs),
     written := (written l)(e := written l e @ data)\<rparr>)"
proof -
  have ok: "dlc_ok (dlc_queue data (ends l e))" using rf_inv_at [OF inv, of e] by (simp add: end_inv_def dlc_ok_def dlc_queue_def)
  have q: "dlc_tx_buffer (dlc_queue data (ends l e)) = dlc_tx_buffer (ends l e) @ data"
      "dlc_tx_credits (dlc_queue data (ends l e)) = dlc_tx_credits (ends l e)"
      "dlc_rx_credits (dlc_queue data (ends l e)) = dlc_rx_credits (ends l e)"
    by (simp_all add: dlc_queue_def)
  from process_tx_run [OF tx ok]
  have run: "concat (map frame_data fs) @ dlc_tx_buffer d = dlc_tx_buffer (ends l e) @ data"
      "unat (dlc_tx_credits d) + data_frames fs = unat (dlc_tx_credits (ends l e))" "\<forall>f \<in> set fs. frame_ok f"
      "dlc_tx_buffer d \<noteq> [] \<longrightarrow> dlc_tx_credits d = 0" "dlc_ok d"
      "unat (dlc_rx_credits d) = unat (dlc_rx_credits (ends l e)) + wire_credits fs" "16 < dlc_rx_credits d"
      "dlc_rx_credits (ends l e) \<le> 16 \<longrightarrow> fs \<noteq> []"
    unfolding tx_run_def q wire_credits_def by simp_all
  from rf_inv_at [OF inv, of e] rf_inv_at [OF inv, of "\<not> e"] run
  show ?thesis
    unfolding rf_inv_def all_ends [of _ e]
    by (auto simp: stream_inv_def credit_inv_def end_inv_def not_le [symmetric])
qed

lemma receive_enabled:
  assumes inv: "rf_inv l" and f: "wire l (\<not> e) = f # rest"
  shows "dlc_ok (ends l e)" "frame_ok f" "unat (dlc_tx_credits (ends l e)) + frame_credits f \<le> 255"
    "frame_data f \<noteq> [] \<longrightarrow> 0 < dlc_rx_credits (ends l e)"
proof -
  have at: "end_inv l e" "end_inv l (\<not> e)" "credit_inv l e" "credit_inv l (\<not> e)"
    using rf_inv_at [OF inv] by simp_all
  then show "dlc_ok (ends l e)" "frame_ok f" using f by (simp_all add: end_inv_def)
  have "unat (dlc_rx_credits (ends l (\<not> e))) \<le> 32" using at(2) by (simp add: end_inv_def dlc_ok_def word_le_nat_alt)
  then show "unat (dlc_tx_credits (ends l e)) + frame_credits f \<le> 255"
    using at(3) f by (simp add: credit_inv_def)
  have "0 < unat (dlc_rx_credits (ends l e))" if "frame_data f \<noteq> []"
    using at(4) f that by (simp add: credit_inv_def)
  then show "frame_data f \<noteq> [] \<longrightarrow> 0 < dlc_rx_credits (ends l e)" by (auto simp only: unat_gt_0 word_neq_0_conv)
qed

lemma rf_inv_receive:
  assumes "rf_inv l" "wire l (\<not> e) = f # rest" "dlc_receive f (ends l e) = Some (data, fs, d)"
  shows "(\<forall>g \<in> set fs. uih_of (ends l e) g) \<and> dlc_dlci d = dlc_dlci (ends l e) \<and> dlc_c_r d = dlc_c_r (ends l e)
    \<and> dlc_state d = dlc_state (ends l e)"
  using dlc_receive_run [OF assms(3) receive_enabled [OF assms(1,2)]] by blast

lemma rf_inv_deliver:
  assumes inv: "rf_inv l" and f: "wire l (\<not> e) = f # rest"
  shows "\<exists>data fs d. dlc_receive f (ends l e) = Some (data, fs, d)"
    and "dlc_receive f (ends l e) = Some (data, fs, d) \<Longrightarrow>
      rf_inv (l\<lparr>ends := (ends l)(e := d), wire := (wire l)((\<not> e) := rest, e := wire l e @ fs),
        got := (got l)(e := got l e @ data)\<rparr>)
      \<and> weight fs + 2 * length (dlc_tx_buffer d) + (32 - unat (dlc_rx_credits d))
        < weight [f] + 2 * length (dlc_tx_buffer (ends l e)) + (32 - unat (dlc_rx_credits (ends l e)))"
proof -
  have at: "end_inv l e" "end_inv l (\<not> e)" "credit_inv l e" "credit_inv l (\<not> e)" "stream_inv l e" "stream_inv l (\<not> e)"
    using rf_inv_at [OF inv] by simp_all
  then have "dlc_cfc (ends l e)" by (simp add: end_inv_def dlc_ok_def)
  then show "\<exists>data fs d. dlc_receive f (ends l e) = Some (data, fs, d)"
    by (auto simp: dlc_receive_def Let_def process_tx_def split: prod.split)
  assume rx: "dlc_receive f (ends l e) = Some (data, fs, d)"
  from dlc_receive_run [OF rx receive_enabled [OF inv f]] obtain d1 where
    run: "data = frame_data f" "concat (map frame_data fs) @ dlc_tx_buffer d = dlc_tx_buffer (ends l e)"
      "unat (dlc_tx_credits d) + data_frames fs = unat (dlc_tx_credits (ends l e)) + frame_credits f"
      "\<forall>f \<in> set fs. frame_ok f" "dlc_tx_buffer d \<noteq> [] \<longrightarrow> dlc_tx_credits d = 0" "dlc_ok d"
      "unat (dlc_rx_credits d) + (if frame_data f \<noteq> [] then 1 else 0) = unat (dlc_rx_credits (ends l e)) + wire_credits fs"
      "16 < dlc_rx_credits d"
    and less: "weight fs + 2 * length (dlc_tx_buffer d) + (32 - unat (dlc_rx_credits d))
        < weight [f] + 2 * length (dlc_tx_buffer (ends l e)) + (32 - unat (dlc_rx_credits (ends l e)))"
    unfolding tx_run_def wire_credits_def by auto
  have "16 < dlc_rx_credits (ends l (\<not> e))" using at(2) f by (simp add: end_inv_def)
  with at run f have "rf_inv (l\<lparr>ends := (ends l)(e := d), wire := (wire l)((\<not> e) := rest, e := wire l e @ fs),
        got := (got l)(e := got l e @ data)\<rparr>)"
    unfolding rf_inv_def all_ends [of _ e]
    by (auto simp: stream_inv_def credit_inv_def end_inv_def)
  with less show "rf_inv (l\<lparr>ends := (ends l)(e := d), wire := (wire l)((\<not> e) := rest, e := wire l e @ fs),
        got := (got l)(e := got l e @ data)\<rparr>)
      \<and> weight fs + 2 * length (dlc_tx_buffer d) + (32 - unat (dlc_rx_credits d))
        < weight [f] + 2 * length (dlc_tx_buffer (ends l e)) + (32 - unat (dlc_rx_credits (ends l e)))"
    by blast
qed

section \<open>What the link achieves\<close>

lemma rf_step_inv: "rf_step l l' \<Longrightarrow> rf_inv l \<Longrightarrow> rf_inv l'"
  by (induction rule: rf_step.induct) (auto elim!: rf_deliver.cases intro: rf_inv_write dest: rf_inv_deliver(2))

lemma rf_reachable_inv: "rf_reachable l \<Longrightarrow> rf_inv l"
  by (induction rule: rf_reachable.induct) (auto intro: rf_inv_opened rf_step_inv)

text \<open>What is left to do: every delivery uses some of it up.\<close>

definition rf_work :: "rf_link \<Rightarrow> nat" where
  "rf_work l = (\<Sum>e \<in> UNIV. weight (wire l e) + 2 * length (dlc_tx_buffer (ends l e)) + (32 - unat (dlc_rx_credits (ends l e))))"

lemma rf_deliver_work: "rf_deliver l l' \<Longrightarrow> rf_inv l \<Longrightarrow> rf_work l' < rf_work l"
proof (induction rule: rf_deliver.induct)
  case (1 l e f rest data fs d)
  have sum: "(\<Sum>x \<in> UNIV. g x) = g e + g (\<not> e)" for g :: "bool \<Rightarrow> nat"
    by (cases e) (simp_all add: UNIV_bool)
  from rf_inv_deliver(2) [OF 1(3,1,2)] 1(1) show ?case
    by (simp add: rf_work_def sum)
qed

text \<open>C8: An RFCOMM data connection is a pair of byte streams. Whatever is written at either end and
  in whatever order frames are delivered, what an application has received is a prefix of what the
  other has written; no data frame is under way that was not granted a credit; and no end ever
  grants more than 32 credits.\<close>
theorem rfcomm_stream_in_order:
  assumes "rf_reachable l"
  shows "(\<exists>rest. written l e = got l (\<not> e) @ rest)
    \<and> unat (dlc_tx_credits (ends l e)) + data_frames (wire l e) \<le> unat (dlc_rx_credits (ends l (\<not> e)))
    \<and> unat (dlc_rx_credits (ends l e)) \<le> 32"
  using rf_inv_at [OF rf_reachable_inv [OF assms], of e]
  by (auto simp: stream_inv_def credit_inv_def end_inv_def dlc_ok_def word_le_nat_alt)

lemma rf_deliver_written: "rf_deliver l l' \<Longrightarrow> written l' = written l"
  by (auto elim: rf_deliver.cases)

lemma rf_quiet:
  assumes inv: "rf_inv l" and quiet: "\<forall>e. wire l e = []"
  shows "dlc_tx_buffer (ends l e) = [] \<and> got l (\<not> e) = written l e"
proof -
  have "dlc_tx_buffer (ends l e) = []"
  proof (rule ccontr)
    assume "dlc_tx_buffer (ends l e) \<noteq> []"
    with rf_inv_at [OF inv, of e] quiet
    have "dlc_tx_credits (ends l e) = 0" "16 < dlc_rx_credits (ends l (\<not> e))" by (auto simp: end_inv_def)
    with rf_inv_at [OF inv, of e] quiet show False
      by (simp add: credit_inv_def word_less_nat_alt)
  qed
  with rf_inv_at [OF inv, of e] quiet show ?thesis by (simp add: stream_inv_def)
qed

lemma rf_drains:
  "rf_inv l \<Longrightarrow> \<exists>l'. rf_deliver\<^sup>*\<^sup>* l l' \<and> rf_inv l' \<and> (\<forall>e. wire l' e = []) \<and> written l' = written l"
proof (induction "rf_work l" arbitrary: l rule: less_induct)
  case less
  show ?case
  proof (cases "\<forall>e. wire l e = []")
    case False
    then obtain e' where "wire l e' \<noteq> []" by blast
    then obtain f rest where "wire l (\<not> (\<not> e')) = f # rest" by (auto simp: neq_Nil_conv)
    then obtain e where wire: "wire l (\<not> e) = f # rest" by blast
    obtain data fs d where rx: "dlc_receive f (ends l e) = Some (data, fs, d)"
      using rf_inv_deliver(1) [OF less.prems wire] by blast
    let ?l = "l\<lparr>ends := (ends l)(e := d), wire := (wire l)((\<not> e) := rest, e := wire l e @ fs), got := (got l)(e := got l e @ data)\<rparr>"
    have step: "rf_deliver l ?l" using rf_deliver.intros [OF wire rx] .
    have "rf_inv ?l" using rf_inv_deliver(2) [OF less.prems wire rx] by blast
    from less.hyps [OF rf_deliver_work [OF step less.prems] this] obtain l' where
      "rf_deliver\<^sup>*\<^sup>* ?l l'" "rf_inv l'" "\<forall>e. wire l' e = []" "written l' = written ?l" by blast
    with step show ?thesis by (auto intro: converse_rtranclp_into_rtranclp)
  qed (use less.prems in blast)
qed

lemma rf_deliveries_bound:
  "(rf_deliver ^^ n) l l' \<Longrightarrow> rf_inv l \<Longrightarrow> rf_inv l' \<and> n + rf_work l' \<le> rf_work l"
proof (induction n arbitrary: l')
  case (Suc n)
  then obtain l1 where l1: "(rf_deliver ^^ n) l l1" "rf_deliver l1 l'" by (auto elim: relcomppE)
  from Suc.IH [OF l1(1) Suc.prems(2)] have IH: "rf_inv l1" "n + rf_work l1 \<le> rf_work l" by blast+
  from rf_deliver_work [OF l1(2) IH(1)] rf_step_inv [OF rf_step.deliver [OF l1(2)] IH(1)] IH(2)
  show ?case by linarith
qed simp

text \<open>C3: The exchange never stalls and always ends. From any reachable state no more than a bounded
  number of deliveries is possible, and when no frame is left, neither end has bytes waiting: each
  application has received everything the other has written.\<close>
theorem rfcomm_never_stalls:
  assumes "rf_reachable l"
  shows "(\<forall>n l'. (rf_deliver ^^ n) l l' \<longrightarrow> n \<le> rf_work l
      \<and> ((\<forall>e. wire l' e = []) \<longrightarrow> (\<forall>e. dlc_tx_buffer (ends l' e) = [] \<and> got l' (\<not> e) = written l e)))
    \<and> (\<exists>l'. rf_deliver\<^sup>*\<^sup>* l l' \<and> (\<forall>e. wire l' e = []))"
proof (intro conjI allI impI)
  note inv = rf_reachable_inv [OF assms]
  show "\<exists>l'. rf_deliver\<^sup>*\<^sup>* l l' \<and> (\<forall>e. wire l' e = [])" using rf_drains [OF inv] by blast
  fix n l' e assume del: "(rf_deliver ^^ n) l l'"
  have "written l' = written l"
    using del by (induction n arbitrary: l') (auto dest: rf_deliver_written)
  note bound = rf_deliveries_bound [OF del inv]
  show "n \<le> rf_work l" using bound by simp
  assume quiet: "\<forall>e. wire l' e = []"
  show "dlc_tx_buffer (ends l' e) = []" "got l' (\<not> e) = written l e"
    using rf_quiet [of l' e] bound quiet \<open>written l' = written l\<close> by simp_all
qed

text \<open>An opened link, and one on which the first end has written more than its credits carry.\<close>

definition sample_dlc :: Dlc where
  "sample_dlc = (Dlc_new 4 1 64 7 64 7 2048 True)\<lparr>dlc_state := DlcConnected\<rparr>"

definition sample_rf_link :: rf_link where
  "sample_rf_link = \<lparr>ends = \<lambda>_. sample_dlc, wire = \<lambda>_. [], written = \<lambda>_. [], got = \<lambda>_. []\<rparr>"

lemma sample_rf_opened: "rf_opened sample_rf_link"
  by (simp add: rf_opened_def sample_rf_link_def sample_dlc_def Dlc_new_def dlc_ok_def)

lemma sample_rf_reachable: "\<exists>l. rf_reachable l \<and> written l True = replicate 1000 65"
proof -
  let ?d = "dlc_queue (replicate 1000 65) (ends sample_rf_link True)"
  obtain fs d where "process_tx ?d = Some (fs, d)"
    by (auto simp: process_tx_def dlc_queue_def sample_rf_link_def sample_dlc_def Dlc_new_def) fastforce
  from rf_reachable.step [OF rf_reachable.opened [OF sample_rf_opened] rf_step.send [OF this]]
  show ?thesis by (auto simp: sample_rf_link_def)
qed

theorem rfcomm_stream_in_order_witness:
  "\<exists>l rest. rf_reachable l \<and> replicate 1000 65 = got l False @ rest"
  using sample_rf_reachable rfcomm_stream_in_order [of _ True] by (metis (full_types))

theorem rfcomm_never_stalls_witness:
  "\<exists>l l'. rf_reachable l \<and> written l True = replicate 1000 65 \<and> rf_deliver\<^sup>*\<^sup>* l l' \<and> (\<forall>e. wire l' e = [])"
  using sample_rf_reachable rfcomm_never_stalls by metis

end
