(* ===== verification/Rfcomm_Session.thy ===== *)
theory Rfcomm_Session
  imports Rfcomm_Stream
begin

text \<open>
  Two RFCOMM multiplexers over one L2CAP channel: a session and a data connection open, and from then
  on the multiplexers refine the byte streams of \<open>Rfcomm_Stream\<close>.
\<close>

section \<open>Frames across the channel\<close>

text \<open>A multiplexer takes in a well-formed frame that another has sent.\<close>

lemma mx_receive_frame:
  assumes "wf_frame f"
  shows "mx_receive (RfcommFrame_to_bytes f) m =
    (let f = f\<lparr>rf_with_credits := False\<rparr> in
     map_option (\<lambda>(frames, events, m). (Inr (frames, events), m))
       (if rf_dlci f = 0 then Some (on_control_frame f m)
        else if rf_type f = frame_DM then Some (on_dm_frame f m)
        else on_dlc_frame f m))"
  by (simp add: mx_receive_def parse_frame [OF assms] Let_def)

lemma dlc_receive_uih: "dlc_receive (f\<lparr>rf_with_credits := w\<rparr>) d = dlc_receive f d"
  by (simp add: dlc_receive_def Let_def)

lemma wf_uih_of: "uih_of d f \<Longrightarrow> take_bit 6 (dlc_dlci d) = dlc_dlci d \<Longrightarrow> dlc_c_r d \<in> {0, 1} \<Longrightarrow>
    wf_frame f \<and> rf_type f = frame_UIH \<and> rf_dlci f = dlc_dlci d"
  by (auto simp: uih_of_def wf_frame_def frame_uih_def RfcommFrame_new_def)

section \<open>The multiplexers refine the streams\<close>

text \<open>The connection \<open>dlci\<close> of both multiplexers is open, and the packets under way between them are
  the frames of the link.\<close>

definition mux_end :: "u8 \<Rightarrow> Multiplexer \<Rightarrow> Dlc \<Rightarrow> bool" where
  "mux_end dlci m d =
     (mx_dlcs m dlci = Some d \<and> dlc_state d = DlcConnected \<and> dlc_dlci d = dlci \<and> dlc_c_r d \<in> {0, 1})"

definition mux_rel :: "u8 \<Rightarrow> (bool \<Rightarrow> Multiplexer) \<Rightarrow> (bool \<Rightarrow> bytes list) \<Rightarrow> rf_link \<Rightarrow> bool" where
  "mux_rel dlci muxes packets l =
     (take_bit 6 dlci = dlci \<and> dlci \<noteq> 0
      \<and> (\<forall>e. mux_end dlci (muxes e) (ends l e) \<and> packets e = map RfcommFrame_to_bytes (wire l e)
           \<and> (\<forall>f \<in> set (wire l e). uih_of (ends l e) f)))"

lemma mux_send:
  assumes rel: "mux_rel dlci muxes packets l" and l: "rf_inv l"
  shows "\<exists>out m l'. mx_write dlci data (muxes e) = Some (Inr out, m) \<and> rf_step l l'
    \<and> mux_rel dlci (muxes(e := m)) (packets(e := packets e @ out)) l'
    \<and> written l' = (written l)(e := written l e @ data) \<and> got l' = got l"
proof -
  let ?d = "dlc_queue data (ends l e)"
  have at: "mux_end dlci (muxes e) (ends l e)" "packets e = map RfcommFrame_to_bytes (wire l e)"
      "\<forall>f \<in> set (wire l e). uih_of (ends l e) f"
    using rel by (simp_all add: mux_rel_def)
  have ok: "dlc_ok ?d" using rf_inv_at [OF l, of e] by (simp add: end_inv_def dlc_ok_def dlc_queue_def)
  then obtain fs d where tx: "process_tx ?d = Some (fs, d)" by (simp add: process_tx_def dlc_ok_def) fastforce
  let ?l = "l\<lparr>ends := (ends l)(e := d), wire := (wire l)(e := wire l e @ fs), written := (written l)(e := written l e @ data)\<rparr>"
  have run: "same_dlc ?d d" "\<forall>f \<in> set fs. uih_of ?d f" using process_tx_run [OF tx ok] by (simp_all add: tx_run_def)
  from same_dlc_simps [OF this(1)]
  have same: "dlc_state d = dlc_state (ends l e)" "dlc_dlci d = dlc_dlci (ends l e)" "dlc_c_r d = dlc_c_r (ends l e)"
    by (simp_all add: dlc_queue_def)
  then have uih: "uih_of d = uih_of (ends l e)" "uih_of ?d = uih_of (ends l e)"
    by (auto intro!: uih_of_cong simp: dlc_queue_def)
  let ?m = "(muxes e)\<lparr>mx_dlcs := (mx_dlcs (muxes e))(dlci \<mapsto> d)\<rparr>"
  have "mx_write dlci data (muxes e) = Some (Inr (map RfcommFrame_to_bytes fs), ?m)"
    using at(1) tx by (simp add: mx_write_def mux_end_def)
  moreover have "mux_rel dlci (muxes(e := ?m)) (packets(e := packets e @ map RfcommFrame_to_bytes fs)) ?l"
    using rel at same run(2) uih by (auto simp: mux_rel_def mux_end_def)
  moreover have "rf_step l ?l" by (rule rf_step.send [OF tx])
  ultimately show ?thesis by (intro exI [of _ "map RfcommFrame_to_bytes fs"] exI [of _ ?m] exI [of _ ?l]) simp
qed

lemma mux_deliver:
  assumes rel: "mux_rel dlci muxes packets l" and l: "rf_inv l" and p: "packets (\<not> e) = p # ps"
  shows "\<exists>out events m l' data. mx_receive p (muxes e) = Some (Inr (out, events), m) \<and> rf_step l l'
    \<and> mux_rel dlci (muxes(e := m)) (packets((\<not> e) := ps, e := packets e @ out)) l'
    \<and> events = (if data = [] then [] else [DataReceived dlci data])
    \<and> written l' = written l \<and> got l' = (got l)(e := got l e @ data)"
proof -
  have at: "mux_end dlci (muxes e) (ends l e)" "packets e = map RfcommFrame_to_bytes (wire l e)"
      "\<forall>f \<in> set (wire l e). uih_of (ends l e) f"
      "mux_end dlci (muxes (\<not> e)) (ends l (\<not> e))" "packets (\<not> e) = map RfcommFrame_to_bytes (wire l (\<not> e))"
      "\<forall>f \<in> set (wire l (\<not> e)). uih_of (ends l (\<not> e)) f" "take_bit 6 dlci = dlci" "dlci \<noteq> 0"
    using rel by (simp_all add: mux_rel_def)
  obtain f rest where f: "wire l (\<not> e) = f # rest" "p = RfcommFrame_to_bytes f" "ps = map RfcommFrame_to_bytes rest"
    using at(5) p by auto
  obtain data fs d where rx: "dlc_receive f (ends l e) = Some (data, fs, d)"
    using rf_inv_deliver(1) [OF l f(1)] by blast
  let ?l = "l\<lparr>ends := (ends l)(e := d), wire := (wire l)((\<not> e) := rest, e := wire l e @ fs), got := (got l)(e := got l e @ data)\<rparr>"
  have wf: "wf_frame f" "rf_type f = frame_UIH" "rf_dlci f = dlci"
    using wf_uih_of [of "ends l (\<not> e)" f] at f(1) by (auto simp: mux_end_def)
  have run: "(\<forall>g \<in> set fs. uih_of (ends l e) g) \<and> dlc_dlci d = dlc_dlci (ends l e) \<and> dlc_c_r d = dlc_c_r (ends l e)
      \<and> dlc_state d = dlc_state (ends l e)"
    using rf_inv_receive [OF l f(1) rx] by blast
  then have uih: "uih_of d = uih_of (ends l e)" by (intro uih_of_cong) auto
  let ?m = "(muxes e)\<lparr>mx_dlcs := (mx_dlcs (muxes e))(dlci \<mapsto> d)\<rparr>"
  have "mx_receive p (muxes e) = Some (Inr (map RfcommFrame_to_bytes fs, if data = [] then [] else [DataReceived dlci data]), ?m)"
    using at(1,8) wf rx unfolding f(2) mx_receive_frame [OF wf(1)]
    by (simp add: Let_def on_dlc_frame_def mux_end_def on_dlc_uih_def dlc_receive_uih)
  moreover have "mux_rel dlci (muxes(e := ?m)) (packets((\<not> e) := ps, e := packets e @ map RfcommFrame_to_bytes fs)) ?l"
    using at run uih f by (auto simp: mux_rel_def mux_end_def all_ends [of _ e])
  moreover have "rf_step l ?l" by (rule rf_step.deliver) (rule rf_deliver.intros [OF f(1) rx])
  ultimately show ?thesis
    by (intro exI [of _ "map RfcommFrame_to_bytes fs"] exI [of _ "if data = [] then [] else [DataReceived dlci data]"]
        exI [of _ ?m] exI [of _ ?l] exI [of _ data]) simp
qed

text \<open>C7: The multiplexers implement the byte streams: as long as a data connection is open at both,
  every write and every delivery of a packet, byte for byte, is a step of the abstract link, and
  what the application is handed is exactly what the step delivers. With the properties of the link,
  the data of an RFCOMM connection arrive in order and complete.\<close>
theorem mux_refines_stream:
  assumes "mux_rel dlci muxes packets l" "rf_reachable l"
  shows "(\<exists>out m l'. mx_write dlci data (muxes e) = Some (Inr out, m) \<and> rf_step l l'
      \<and> mux_rel dlci (muxes(e := m)) (packets(e := packets e @ out)) l'
      \<and> written l' = (written l)(e := written l e @ data) \<and> got l' = got l)
    \<and> (packets (\<not> e) = p # ps \<longrightarrow>
       (\<exists>out events m l' data. mx_receive p (muxes e) = Some (Inr (out, events), m) \<and> rf_step l l'
         \<and> mux_rel dlci (muxes(e := m)) (packets((\<not> e) := ps, e := packets e @ out)) l'
         \<and> events = (if data = [] then [] else [DataReceived dlci data])
         \<and> written l' = written l \<and> got l' = (got l)(e := got l e @ data)))"
  using mux_send [OF assms(1) rf_reachable_inv [OF assms(2)], of data e]
    mux_deliver [OF assms(1) rf_reachable_inv [OF assms(2)], of e p ps]
  by blast

text \<open>Two multiplexers with the connection 4 open, and nothing under way.\<close>

definition sample_mux :: Multiplexer where
  "sample_mux = (Multiplexer_new RfInitiator 2048)\<lparr>mx_state := MuxConnected, mx_dlcs := [4 \<mapsto> sample_dlc]\<rparr>"

lemma sample_mux_rel: "mux_rel 4 (\<lambda>_. sample_mux) (\<lambda>_. []) sample_rf_link"
  by (simp add: mux_rel_def mux_end_def sample_mux_def sample_rf_link_def sample_dlc_def Dlc_new_def)

lemma sample_mux_write: "\<exists>p m. mx_write 4 [65] sample_mux = Some (Inr [p], m)"
  by (simp add: mx_write_def sample_mux_def sample_dlc_def Dlc_new_def dlc_queue_def process_tx_def
      rx_credits_needed_def tx_credited.simps Let_def)

theorem mux_refines_stream_witness:
  "\<exists>muxes packets l p out events m. mux_rel 4 muxes packets l \<and> rf_reachable l \<and> packets True = [p]
     \<and> written l True = [65] \<and> mx_receive p (muxes False) = Some (Inr (out, events), m)"
proof -
  have opened: "rf_reachable sample_rf_link" by (rule rf_reachable.opened [OF sample_rf_opened])
  obtain p m where sent: "mx_write 4 [65] sample_mux = Some (Inr [p], m)" using sample_mux_write by blast
  from mux_refines_stream [OF sample_mux_rel opened, of "[65]" True] sent
  obtain l where l: "rf_step sample_rf_link l" "mux_rel 4 ((\<lambda>_. sample_mux)(True := m)) ((\<lambda>_. [])(True := [p])) l"
      "written l True = [65]"
    by (auto simp: sample_rf_link_def)
  have "rf_reachable l" using rf_reachable.step [OF opened l(1)] .
  from l(2,3) this mux_refines_stream [OF l(2) this, of "[]" False p "[]"] show ?thesis by force
qed

section \<open>Writing returns\<close>

lemma tx_plain_returns:
  assumes "0 < dlc_mtu d \<or> dlc_tx_buffer d = []" shows "\<exists>r. tx_plain d = Some r"
  using assms
proof (induction "length (dlc_tx_buffer d)" arbitrary: d rule: less_induct)
  case less
  show ?case
  proof (cases "dlc_tx_buffer d = []")
    case True
    then show ?thesis by (simp add: tx_plain.simps [of d])
  next
    case False
    let ?d = "d\<lparr>dlc_tx_buffer := drop (min (dlc_mtu d) (length (dlc_tx_buffer d))) (dlc_tx_buffer d)\<rparr>"
    have "length (dlc_tx_buffer ?d) < length (dlc_tx_buffer d)" using False less.prems by auto
    then obtain fs e where "tx_plain ?d = Some (fs, e)" using less.hyps [of ?d] less.prems by auto
    then show ?thesis by (subst tx_plain.simps) (simp add: Let_def)
  qed
qed

lemma tx_plain_needs_room:
  assumes "tx_plain d = Some r" shows "0 < dlc_mtu d \<or> dlc_tx_buffer d = []"
proof (rule ccontr)
  have "dlc_mtu d = 0 \<longrightarrow> dlc_tx_buffer d \<noteq> [] \<longrightarrow> False" if "tx_plain d = Some r" for d r
  proof (rule tx_plain.raw_induct [OF _ that, of "\<lambda>d r. dlc_mtu d = 0 \<longrightarrow> dlc_tx_buffer d \<noteq> [] \<longrightarrow> False"], goal_cases)
    case (1 rec d r)
    show ?case using 1(2) 1(1) [of "d\<lparr>dlc_tx_buffer := drop (min (dlc_mtu d) (length (dlc_tx_buffer d))) (dlc_tx_buffer d)\<rparr>"]
      by (auto simp: Let_def split: if_splits Option.bind_splits)
  qed
  moreover assume "\<not> (0 < dlc_mtu d \<or> dlc_tx_buffer d = [])"
  ultimately show False using assms by blast
qed

lemma tx_plain_None: "tx_plain d = None \<longleftrightarrow> dlc_mtu d = 0 \<and> dlc_tx_buffer d \<noteq> []"
  using tx_plain_returns [of d] tx_plain_needs_room [of d] by (metis bot_nat_0.not_eq_extremum not_Some_eq)

text \<open>C11: A write returns, unless the connection has no flow control and the frame size the peer
  asked for is zero (or its channel has no room beside the frame's overhead): then the send loop
  makes empty frames forever.\<close>
theorem rfcomm_write_returns:
  "mx_write dlci data m = None \<longleftrightarrow>
    (\<exists>d. mx_dlcs m dlci = Some d \<and> dlc_state d = DlcConnected \<and> \<not> dlc_cfc d \<and> dlc_mtu d = 0
      \<and> dlc_tx_buffer d @ data \<noteq> [])"
proof -
  have "process_tx (dlc_queue data d) = None \<longleftrightarrow> \<not> dlc_cfc d \<and> dlc_mtu d = 0 \<and> dlc_tx_buffer d @ data \<noteq> []" for d
    by (auto simp: process_tx_def dlc_queue_def tx_plain_None)
  then show ?thesis by (auto simp: mx_write_def split: option.splits)
qed

text \<open>Such a connection is set up by a parameter negotiation that offers frames of size zero.\<close>

lemma zero_frame_size_accepted:
  assumes "MccPn_parse v = Some pn" "pn_max_frame_size pn = 0" "pn_cl pn = 0" "pn_dlci pn AND 1 = 0"
    and "mx_listen_configs m (drop_bit 1 (pn_dlci pn)) = Some (frame_size, credits)"
  shows "\<exists>out m' d. on_mcc_pn True v m = (out, [], m') \<and> mx_dlcs m' (pn_dlci pn) = Some d
    \<and> \<not> dlc_cfc d \<and> dlc_mtu d = 0 \<and> dlc_state d = DlcConnecting"
  using assms
  by (simp add: on_mcc_pn_def on_mcc_pn_command_def negotiate_cfc_def Let_def Dlc_new_def)

section \<open>A connection opens\<close>

text \<open>A multiplexer takes in the packets of its peer, one after the other; two multiplexers talk, the
  second one first, until neither has a packet for the other, or for at most \<open>n\<close> rounds.\<close>

fun deliver_all :: "bytes list \<Rightarrow> Multiplexer \<Rightarrow> mux_reply option" where
  "deliver_all [] m = Some ([], [], m)"
| "deliver_all (p # ps) m =
     (case mx_receive p m of
        Some (Inr (out, events), m) \<Rightarrow>
          map_option (\<lambda>(out', events', m). (out @ out', events @ events', m)) (deliver_all ps m)
      | _ \<Rightarrow> None)"

fun mux_talk :: "nat \<Rightarrow> bytes list \<Rightarrow> Multiplexer \<Rightarrow> Multiplexer \<Rightarrow>
    (MultiplexerEvent list \<times> MultiplexerEvent list \<times> Multiplexer \<times> Multiplexer) option" where
  "mux_talk n [] i r = Some ([], [], i, r)"
| "mux_talk 0 (p # ps) i r = None"
| "mux_talk (Suc n) (p # ps) i r =
     (case deliver_all (p # ps) r of
        None \<Rightarrow> None
      | Some (out, at_r, r) \<Rightarrow>
     (case deliver_all out i of
        None \<Rightarrow> None
      | Some (out, at_i, i) \<Rightarrow>
          map_option (\<lambda>(at_i', at_r', i, r). (at_i @ at_i', at_r @ at_r', i, r)) (mux_talk n out i r)))"

lemma channel_dlci:
  assumes "take_bit 5 ch = (ch :: u8)"
  shows "take_bit 6 (push_bit 1 ch) = push_bit 1 ch" "drop_bit 1 (push_bit 1 ch) = ch" "push_bit 1 ch AND 1 = 0"
    "push_bit 1 ch = 0 \<longleftrightarrow> ch = 0"
proof -
  have "take_bit 6 (push_bit 1 (take_bit 5 w)) = push_bit 1 (take_bit 5 w)"
    "drop_bit 1 (push_bit 1 (take_bit 5 w)) = take_bit 5 w" for w :: u8
    by (rule u8_eqI; simp only: bit_simps o_apply; simp add: numeral_2_eq_2)+
  from this [of ch] assms
  show "take_bit 6 (push_bit 1 ch) = push_bit 1 ch" and d: "drop_bit 1 (push_bit 1 ch) = ch" by simp_all
  have "\<not> (push_bit 1 ch AND 1 \<noteq> 0)" unfolding u8_low_bit by (simp only: bit_simps) simp
  then show "push_bit 1 ch AND 1 = 0" by simp
  show "push_bit 1 ch = 0 \<longleftrightarrow> ch = 0" using d by (metis drop_bit_of_0 push_bit_of_0)
qed

text \<open>How a multiplexer takes in the frames of the exchange.\<close>

lemma wf_frame_builders [simp]:
  "take_bit 6 d = d \<Longrightarrow> c \<in> {0, 1} \<Longrightarrow> wf_frame (frame_sabm c d)"
  "take_bit 6 d = d \<Longrightarrow> c \<in> {0, 1} \<Longrightarrow> wf_frame (frame_ua c d)"
  "take_bit 6 d = d \<Longrightarrow> c \<in> {0, 1} \<Longrightarrow> wf_frame (frame_uih c d info 0)"
  by (auto simp: wf_frame_def frame_sabm_def frame_ua_def frame_uih_def RfcommFrame_new_def)

lemma frame_fields [simp]:
  "rf_dlci (frame_sabm c d) = d" "rf_dlci (frame_ua c d) = d" "rf_dlci (frame_uih c d info p) = d"
  "rf_type (frame_sabm c d) = frame_SABM" "rf_type (frame_ua c d) = frame_UA" "rf_type (frame_uih c d info p) = frame_UIH"
  "rf_information (frame_uih c d info p) = info"
  by (simp_all add: frame_sabm_def frame_ua_def frame_uih_def RfcommFrame_new_def)

lemma mx_receive_mcc:
  assumes "c \<in> {0, 1}" "take_bit 6 t = t" "length v < 128"
  shows "mx_receive (RfcommFrame_to_bytes (frame_uih c 0 (make_mcc t c_r v) 0)) m =
    (let (frames, events, m) =
       (if t = mcc_PN then on_mcc_pn c_r v m else if t = mcc_MSC then on_mcc_msc c_r v m
        else on_uih_control (frame_uih c 0 (make_mcc t c_r v) 0) m)
     in Some (Inr (frames, events), m))"
  using assms(1) parse_make_mcc [OF assms(2,3), of c_r]
  by (simp add: mx_receive_frame on_control_frame_def on_uih_control_def Let_def split: prod.splits)

lemma mx_receive_pn:
  assumes "c \<in> {0, 1}" "pn_initial_credits pn \<le> 7"
  shows "mx_receive (RfcommFrame_to_bytes (frame_uih c 0 (make_mcc mcc_PN c_r (MccPn_to_bytes pn)) 0)) m =
    (let (frames, events, m) = (if c_r then on_mcc_pn_command pn m else on_mcc_pn_response pn m)
     in Some (Inr (frames, events), m))"
  by (subst mx_receive_mcc [OF assms(1)])
    (simp_all add: on_mcc_pn_def MccPn_round_trip [OF assms(2)], simp add: MccPn_to_bytes_def)

lemma mx_receive_msc:
  assumes "c \<in> {0, 1}" "take_bit 6 dlci = dlci"
  shows "mx_receive (RfcommFrame_to_bytes (frame_uih c 0 (make_mcc mcc_MSC c_r
      (MccMsc_to_bytes (MccMsc_default_response dlci))) 0)) m =
    (case mx_dlcs m dlci of
       None \<Rightarrow> Some (Inr ([], []), m)
     | Some d \<Rightarrow> Some (Inr (if c_r then [RfcommFrame_to_bytes (frame_uih (dlc_c_r d) 0
         (make_mcc mcc_MSC False (MccMsc_to_bytes (MccMsc_default_response dlci))) 0)] else [], []), m))"
proof -
  have "take_bit 6 (msc_dlci (MccMsc_default_response dlci)) = msc_dlci (MccMsc_default_response dlci)"
    using assms(2) by (simp add: MccMsc_default_response_def)
  from MccMsc_round_trip [OF this] show ?thesis
    by (subst mx_receive_mcc [OF assms(1)])
      (auto simp: on_mcc_msc_def MccMsc_default_response_def MccMsc_to_bytes_def split: option.splits)
qed

lemma mx_receive_dlc:
  assumes "take_bit 6 dlci = dlci" "dlci \<noteq> 0" "c \<in> {0, 1}" "mx_dlcs m dlci = Some d" "dlc_state d = DlcConnecting"
  defines "opened \<equiv> m\<lparr>mx_dlcs := (mx_dlcs m)(dlci \<mapsto> d\<lparr>dlc_state := DlcConnected\<rparr>), mx_state := MuxConnected\<rparr>"
  shows "mx_receive (RfcommFrame_to_bytes (frame_sabm c dlci)) m =
      Some (Inr ([RfcommFrame_to_bytes (frame_ua (1 - dlc_c_r d) dlci), msc_command (dlc_c_r d) dlci], [DlcOpened dlci]), opened)"
    "mx_receive (RfcommFrame_to_bytes (frame_ua c dlci)) m =
      Some (Inr ([msc_command (dlc_c_r d) dlci], [DlcOpened dlci]), opened)"
  using assms by (simp_all add: mx_receive_frame on_dlc_frame_def Let_def)

text \<open>Two fresh multiplexers start: both are connected, and both applications are told.\<close>

lemma mux_starts:
  assumes "mx_role i = RfInitiator" "mx_state i = MuxInit" "mx_state r = MuxInit"
  shows "\<exists>p i1. mx_start i = (Inr p, i1) \<and> mux_talk 1 [p] i1 r
    = Some ([MuxStarted], [MuxStarted], i\<lparr>mx_state := MuxConnected\<rparr>, r\<lparr>mx_state := MuxConnected\<rparr>)"
  using assms by (simp add: mx_start_def mx_receive_frame on_control_frame_def mx_on_sabm_def mx_on_ua_def Let_def)

text \<open>The two connections that the exchange leaves.\<close>

abbreviation (input) "opened_dlc dlci c_r tx_size tx_credits rx_size rx_credits mtu \<equiv>
  (Dlc_new dlci c_r tx_size tx_credits rx_size rx_credits mtu True)\<lparr>dlc_state := DlcConnected\<rparr>"

lemma Dlc_new_ok:
  assumes "7 \<le> mtu" "2 \<le> tx_size" "rx_credits \<le> 7"
  shows "dlc_ok (opened_dlc dlci c_r tx_size tx_credits rx_size rx_credits mtu)"
proof -
  have "unat (5 :: u16) \<le> unat mtu" using assms(1) by (simp add: word_le_nat_alt)
  then have "2 \<le> unat (mtu - 5)" "\<not> mtu < 5" using assms(1) by (simp_all add: word_le_nat_alt word_less_nat_alt unat_sub)
  then show ?thesis using assms(2,3) by (simp add: dlc_ok_def Dlc_new_def word_le_nat_alt min_def)
qed

text \<open>C6: Two connected multiplexers open a data connection: the initiator's \<open>open_dlc\<close> and the packets
  that follow from it, delivered in order, end after three rounds with the connection open at both
  ends and each application told so; the two ends are then an opened link, to which the properties of
  the byte streams apply.\<close>
theorem rfcomm_session_opens:
  fixes ch :: u8
  defines "dlci \<equiv> push_bit 1 ch"
  assumes roles: "mx_role i = RfInitiator" "mx_role r = RfResponder"
    and up: "mx_state i = MuxConnected" "mx_state r = MuxConnected"
    and cfc: "mx_cfc i \<noteq> CfcNotSupported" "mx_cfc r \<noteq> CfcNotSupported"
    and mtus: "7 \<le> mx_peer_mtu i" "7 \<le> mx_peer_mtu r" "2 \<le> frame_size" "2 \<le> frame_size'"
    and ch: "take_bit 5 ch = ch" "ch \<noteq> 0"
    and listening: "mx_listen_configs r ch = Some (frame_size', credits')" "credits' \<le> 7"
  shows "\<exists>p i1 i2 r2 l. open_dlc ch frame_size credits i = (Inr p, i1)
    \<and> mux_talk 3 [p] i1 r = Some ([DlcOpened dlci], [DlcOpened dlci], i2, r2)
    \<and> mux_rel dlci (\<lambda>e. if e then i2 else r2) (\<lambda>_. []) l \<and> rf_opened l
    \<and> (\<forall>e. mx_state (if e then i2 else r2) = MuxConnected)"
proof -
  note dlci = channel_dlci [OF ch(1), folded dlci_def] ch(2)
  let ?pn = "\<lparr>pn_dlci = dlci, pn_cl = pn_CFC_COMMAND, pn_priority = 7, pn_ack_timer = 0, pn_max_frame_size = frame_size,
    pn_max_retransmissions = 0, pn_initial_credits = min credits 7\<rparr>"
  let ?pn' = "\<lparr>pn_dlci = dlci, pn_cl = pn_CFC_RESPONSE, pn_priority = 7, pn_ack_timer = 0, pn_max_frame_size = frame_size',
    pn_max_retransmissions = 0, pn_initial_credits = credits'\<rparr>"
  let ?di = "opened_dlc dlci 1 frame_size' credits' frame_size (min credits 7) (mx_peer_mtu i)"
  let ?dr = "opened_dlc dlci 0 frame_size (min credits 7) frame_size' credits' (mx_peer_mtu r)"
  let ?p = "RfcommFrame_to_bytes (frame_uih 1 0 (make_mcc mcc_PN True (MccPn_to_bytes ?pn)) 0)"
  let ?i1 = "i\<lparr>mx_pending_open := Some ?pn, mx_state := MuxOpening\<rparr>"
  have credits: "pn_initial_credits ?pn \<le> 7" "pn_initial_credits ?pn' \<le> 7" using listening(2) by simp_all
  have "open_dlc ch frame_size credits i = (Inr ?p, ?i1)"
    using roles up by (simp add: open_dlc_def role_c_r_def dlci_def Let_def)
  moreover
  let ?r1 = "r\<lparr>mx_cfc := CfcSupported, mx_dlcs := (mx_dlcs r)(dlci \<mapsto> ?dr\<lparr>dlc_state := DlcConnecting\<rparr>)\<rparr>"
  let ?p' = "RfcommFrame_to_bytes (frame_uih 0 0 (make_mcc mcc_PN False (MccPn_to_bytes ?pn')) 0)"
  have r1: "on_mcc_pn_command ?pn r = ([?p'], [], ?r1)"
    using roles up cfc listening dlci
    by (cases "mx_cfc r") (simp_all add: on_mcc_pn_command_def negotiate_cfc_def role_c_r_def Let_def)
  let ?i2 = "i\<lparr>mx_pending_open := None, mx_state := MuxOpening, mx_cfc := CfcSupported,
    mx_dlcs := (mx_dlcs i)(dlci \<mapsto> ?di\<lparr>dlc_state := DlcConnecting\<rparr>)\<rparr>"
  have i2: "on_mcc_pn_response ?pn' ?i1 = ([RfcommFrame_to_bytes (frame_sabm 1 dlci)], [], ?i2)"
    using roles cfc by (cases "mx_cfc i") (simp_all add: on_mcc_pn_response_def negotiate_cfc_def role_c_r_def Let_def)
  let ?r2 = "?r1\<lparr>mx_dlcs := (mx_dlcs r)(dlci \<mapsto> ?dr), mx_state := MuxConnected\<rparr>"
  let ?i3 = "?i2\<lparr>mx_dlcs := (mx_dlcs i)(dlci \<mapsto> ?di), mx_state := MuxConnected\<rparr>"
  have "mux_talk 3 [?p] ?i1 r = Some ([DlcOpened dlci], [DlcOpened dlci], ?i3, ?r2)"
    using dlci
    by (simp add: numeral_3_eq_3 mx_receive_pn [OF _ credits(1)] mx_receive_pn [OF _ credits(2)] r1 i2
        mx_receive_dlc msc_command_def mx_receive_msc Dlc_new_def)
  moreover
  let ?l = "\<lparr>ends = \<lambda>e. if e then ?di else ?dr, wire = \<lambda>_. [], written = \<lambda>_. [], got = \<lambda>_. []\<rparr>"
  have "mux_rel dlci (\<lambda>e. if e then ?i3 else ?r2) (\<lambda>_. []) ?l"
    using dlci by (simp add: mux_rel_def mux_end_def Dlc_new_def)
  moreover have "rf_opened ?l"
    using mtus listening(2) Dlc_new_ok by (simp add: rf_opened_def) (simp add: Dlc_new_def)
  ultimately show ?thesis by (intro exI conjI) auto
qed

theorem rfcomm_session_opens_witness:
  "\<exists>p i1 i2 r2 l. open_dlc 5 64 7 ((Multiplexer_new RfInitiator 1000)\<lparr>mx_state := MuxConnected\<rparr>) = (Inr p, i1)
    \<and> mux_talk 3 [p] i1 ((Multiplexer_new RfResponder 1000)\<lparr>mx_state := MuxConnected, mx_listen_configs := [5 \<mapsto> (64, 7)]\<rparr>)
      = Some ([DlcOpened 10], [DlcOpened 10], i2, r2)
    \<and> mux_rel 10 (\<lambda>e. if e then i2 else r2) (\<lambda>_. []) l \<and> rf_opened l"
  using rfcomm_session_opens [of "(Multiplexer_new RfInitiator 1000)\<lparr>mx_state := MuxConnected\<rparr>"
      "(Multiplexer_new RfResponder 1000)\<lparr>mx_state := MuxConnected, mx_listen_configs := [5 \<mapsto> (64, 7)]\<rparr>" 64 64 5 7 7]
  by (simp add: Multiplexer_new_def) blast

end
