(* ===== verification/Spec2Isabelle.thy ===== *)
theory Spec2Isabelle
  imports Acl_Reassembler Coc Classic_Channel Subscriptions Discovery Discovery_Stall Gatt_Exchange Central_Safety Rfcomm_Sdp Obex_Exchange Avctp Rtp
    Rfcomm_Session
begin

text \<open>
  A verification library for the simble Bluetooth host stack (Rust, \<open>src/src/\<close>).

  \<^bold>\<open>The program.\<close> simble runs virtual Bluetooth devices. A device talks to a controller through HCI
  packets. ACL data carry L2CAP frames, cut into fragments by the sender and joined by the
  reassembler; the L2CAP channel of a frame selects the ATT server, the Security Manager, or, on
  BR/EDR, a dynamic channel; over those run service discovery (SDP), serial connections (RFCOMM), object
  exchange (OBEX), remote-control messages (AVCTP) and media packets (RTP). A peripheral is a \<^verbatim>\<open>VirtualDevice\<close> (attribute database, connections,
  bonds, pairing sessions) behind an \<^verbatim>\<open>LeHost\<close> (controller bring-up, advertising, events, data); a
  central is an \<^verbatim>\<open>LeCentral\<close> around a \<^verbatim>\<open>GattClient\<close>.

  \<^bold>\<open>Theories and sources.\<close>
  \<^item> Prelude: byte strings, machine integers, \<^verbatim>\<open>u16\<close> little endian, and the locale \<open>wire_layout\<close> of a
    fixed-size structure (its laws are what the \<^verbatim>\<open>zerocopy\<close> derives give: size, round trip, prefix);
    every packet structure interprets it. Btree\_Map: \<^verbatim>\<open>BTreeMap\<close> as a sorted association list, with the
    locale \<open>ordered_map\<close> of the laws its clients use.
  \<^item> Hci\_Types (\<open>types/hci_types.rs\<close>, \<open>types/error.rs\<close>): addresses, UUIDs, their text and byte forms.
  \<^item> L2cap\_Frame, Acl\_Reassembler (\<open>packets/l2cap_frame.rs\<close>, \<open>l2cap/reassembler.rs\<close>).
  \<^item> Cid\_Allocator, Coc, L2cap\_Signaling, Classic\_Channel (\<open>l2cap/cid_allocator.rs\<close>, \<open>l2cap/coc.rs\<close>,
    \<open>packets/l2cap_signaling.rs\<close>, \<open>l2cap/classic.rs\<close>): dynamic channels, their credits, signaling and
    configuration. The locale \<open>cid_table\<close> is what a channel table needs of the allocator.
  \<^item> Att\_Pdu, Att\_Parser (\<open>packets/att.rs\<close>): ATT structures, parser, list responses.
  \<^item> Gatt\_Database (\<open>gatt/database.rs\<close>): the attribute table.
  \<^item> Aes, Ccm, Smp\_Crypto (\<open>crypto/\<close>): AES-128, CMAC, CCM and the SMP toolbox.
  \<^item> Smp\_Packets, Smp\_Pairing, Smp\_Safety (\<open>packets/smp.rs\<close>, \<open>smp/keystore.rs\<close>, \<open>smp/pairing.rs\<close>): the
    pairing state machine and what holds of it in every reachable state.
  \<^item> Bond\_Store (\<open>device/bond_store.rs\<close>), with the trait as the locale \<open>bond_store\<close>.
  \<^item> Advertising, Iso\_Packets (\<open>gap/advertising.rs\<close>, \<open>gap/ead.rs\<close>, \<open>packets/iso.rs\<close>).
  \<^item> Virtual\_Device, Att\_Server, Device\_Safety, Subscriptions (\<open>device/virtual_device.rs\<close>,
    \<open>device/connection.rs\<close>, \<open>device/observer.rs\<close>, \<open>device/att_server.rs\<close>): the device and its server.
  \<^item> Hci\_Events, Le\_Host (\<open>packets/hci_events.rs\<close>, \<open>device/host.rs\<close>): the peripheral's host.
  \<^item> Gatt\_Client, Le\_Central, Central\_Safety (\<open>client/gatt_client.rs\<close>, \<open>device/central.rs\<close>): the central's host.
  \<^item> Gatt\_Link, Discovery, Discovery\_Stall, Gatt\_Exchange: a central and a peripheral joined by a link
    that delivers every packet in order, and what they achieve together: discovery, and where two
    services of one UUID keep it from ending; writes and reads.

  \<^item> Byte\_Table, Rfcomm\_Frame, Rfcomm\_Mux, Rfcomm\_Stream, Rfcomm\_Session (\<open>classic/rfcomm.rs\<close>): RFCOMM
    frames and their checksum, data connections with credit-based flow control, the multiplexer; the
    abstract link of two byte streams, and that two multiplexers open such a link and implement it.
  \<^item> Big\_Endian: the octets of words, most significant first, and UTF-8 validity.
  \<^item> Sdp\_Element, Sdp\_Pdu, Sdp\_Server, Sdp\_Exchange (\<open>classic/sdp.rs\<close>): data elements, protocol data
    units, the server's handlers with their continuation, the client's loops over it, and that a query
    returns exactly what the records hold, or the client's error when its rounds run out. Rfcomm\_Sdp (\<open>classic/rfcomm.rs\<close>): RFCOMM's service records and
    the search for them.
  \<^item> Obex\_Header, Obex\_Session, Obex\_Exchange (\<open>obex/\<close>): headers, packets, the server and the client, and
    that a pushed object arrives.
  \<^item> Avctp (\<open>classic/avctp.rs\<close>): messages cut into packets and put together, commands and responses
    between two ends. Rtp (\<open>classic/rtp.rs\<close>): media packets, SBC payloads, packing and reassembly.

  \<^bold>\<open>Conventions.\<close> A struct is a record and an enum a datatype with the source's names; a \<^verbatim>\<open>u8\<close> or \<^verbatim>\<open>u16\<close>
  is a word, a \<^verbatim>\<open>usize\<close> a natural number, an \<^verbatim>\<open>f64\<close> clock value a real. A method that changes its
  receiver returns the new state last. \<^verbatim>\<open>Result\<close> is a sum with the error on the left; the numbers
  interpolated into an error message are dropped. \<^verbatim>\<open>None\<close> around a result is a panic: an index out of
  range, an \<^verbatim>\<open>unwrap\<close>, an assertion. A \<^verbatim>\<open>HashMap\<close> is a map; where its iteration order matters the
  order is a parameter. Observer callbacks are an event log.

  \<^bold>\<open>Parameters.\<close> Elliptic-curve arithmetic comes from the \<^verbatim>\<open>p256\<close> crate: \<open>ec\<close> is a record of the
  operations the code calls, \<open>gen\<close> a generated key pair; \<open>rnd\<close> are the random bytes. The write handlers
  an application attaches to attributes are the parameter \<open>ow\<close> over their own state.

  \<^bold>\<open>Bounds.\<close> Every loop of the model ends by structural recursion or a measure, except RFCOMM's send
  loop without credits, a \<open>partial_function\<close> whose \<open>None\<close> is a loop that never ends (and
  \<open>rfcomm_write_returns\<close> says when that is); no fuel is used in the code's model. The number of rounds
  of \<open>mux_talk\<close>, an exchange between two multiplexers, and of \<open>obex_talk\<close> is part of what is proved. The
  counter of \<open>sdp_rounds\<close> is the source's own limit of 64 rounds, and the SDP properties say what it lets
  through and that the client reports an error beyond it. The well-formed databases of Discovery have at most 3000 attributes, so that a response never
  exceeds the 16-bit length of an L2CAP frame.

  \<^bold>\<open>What the lemmas show.\<close> Per structure, the wire layout laws; per parser, that it inverts the builder
  and rejects exactly what the code rejects; per stateful component, an invariant every operation
  keeps and that therefore no packet sequence makes it panic (pairing, device, host, central); for the
  server, which response answers which request; for the link, that discovery terminates with exactly
  the database's content and that a read returns what was written. The properties about errors, and
  lemmas named in the texts of others, pin down behaviour that departs from the documentation.

  \<^bold>\<open>Not modelled.\<close> Controllers and radio (\<open>controller/\<close>), the other BR/EDR profiles (AVDTP, AV/C and
  AVRCP, hands-free, HID, \<open>device/classic_*\<close>), audio codecs, the LE Audio and GATT profiles, direction
  finding and channel sounding, transports, scripting, scenes and the command line; the Debug and
  serde implementations, and text that only a log shows.
\<close>

end
